(* ===== verification/Prelude.thy ===== *)
theory Prelude
  imports Main "HOL-Library.Word"
begin

unbundle bit_operations_syntax

text \<open>
  Shared types, the collections of rewrite rules the components use, and the generic lemmas
  on lists and machine words.
\<close>

section \<open>Machine integers\<close>

type_synonym u8 = "8 word"
type_synonym u16 = "16 word"
type_synonym u32 = "32 word"
type_synonym u64 = "64 word"

named_theorems word_nat "reading unsigned words as natural numbers"
named_theorems flow_consts "the numeric constants of the headers"

lemma unat_drop_bit_div [word_nat]: "unat (drop_bit n (w :: 'a::len word)) = unat w div 2 ^ n"
  unfolding unat_drop_bit_eq by (rule drop_bit_eq_div)

lemma unat_mod_word [word_nat]: "unat (a mod b :: 'a::len word) = unat a mod unat b"
  by (rule unat_mod)

lemma unat_plus_exact:
  fixes a b :: "'a::len word"
  assumes "unat a + unat b < 2 ^ LENGTH('a)"
  shows "unat (a + b) = unat a + unat b"
  using assms by (simp add: unat_word_ariths)

lemma unat_minus_exact:
  fixes a b :: "'a::len word"
  assumes "b \<le> a"
  shows "unat (a - b) = unat a - unat b"
  using assms by (simp add: unat_sub)

text \<open>The number of ports (\<open>flowQoS_env.h\<close>).\<close>

definition NB_PORTS :: nat where [flow_consts]: "NB_PORTS = 2"

abbreviation has :: "u64 \<Rightarrow> u64 \<Rightarrow> bool" where
  "has flags b \<equiv> flags AND b \<noteq> 0"

text \<open>The value a C \<open>int\<close> of 32 bits holds after an arithmetic operation.\<close>

definition c_int :: "int \<Rightarrow> int" where
  "c_int x = signed_take_bit 31 x"

lemma c_int_id [simp]: "- (2 ^ 31) \<le> x \<Longrightarrow> x < 2 ^ 31 \<Longrightarrow> c_int x = x"
  by (simp add: c_int_def signed_take_bit_int_eq_self)

text \<open>Division of C integers, which truncates towards 0.\<close>

definition c_div :: "int \<Rightarrow> int \<Rightarrow> int" where
  "c_div a b = (if (a < 0) = (b < 0) then \<bar>a\<bar> div \<bar>b\<bar> else - (\<bar>a\<bar> div \<bar>b\<bar>))"

lemma c_div_nonneg [simp]: "0 \<le> a \<Longrightarrow> 0 < b \<Longrightarrow> c_div a b = a div b"
  by (simp add: c_div_def)

text \<open>\<open>rte_be_to_cpu_16\<close> and \<open>rte_be_to_cpu_32\<close> on a little-endian host.\<close>

definition bswap16 :: "u16 \<Rightarrow> u16" where
  "bswap16 x = push_bit 8 x OR drop_bit 8 x"

definition bswap32 :: "u32 \<Rightarrow> u32" where
  "bswap32 x = push_bit 24 x OR push_bit 8 (x AND 0xff00) OR drop_bit 8 (x AND 0xff0000) OR drop_bit 24 x"

text \<open>The four bytes of a word.\<close>

lemma byte_masks: "(0xff :: u32) = mask 8" "(0xff00 :: u32) = push_bit 8 (mask 8)" "(0xff0000 :: u32) = push_bit 16 (mask 8)" "(0xff000000 :: u32) = push_bit 24 (mask 8)"
  by (simp_all add: mask_eq_exp_minus_1 push_bit_eq_mult)

lemma bit_bswap32: "bit (bswap32 x) n \<longleftrightarrow> n < 32 \<and> bit x (if n < 8 then n + 24 else if n < 16 then n + 8 else if n < 24 then n - 8 else n - 24)"
proof (cases "n < 32")
  case True
  consider "n < 8" | "8 \<le> n \<and> n < 16" | "16 \<le> n \<and> n < 24" | "24 \<le> n" by linarith
  then show ?thesis 
    by cases (use True in \<open>auto simp: bswap32_def byte_masks bit_simps add.commute dest: bit_imp_le_length\<close>)
next
  case False
  then show ?thesis by (auto dest: bit_imp_le_length)
qed

lemma bswap32_bswap32 [simp]: "bswap32 (bswap32 x) = x"
proof (rule bit_word_eqI)
  fix n assume "n < LENGTH(32)"
  then show "bit (bswap32 (bswap32 x)) n = bit x n" 
   by (auto simp: bit_bswap32)
qed

lemma word_bytes:
  fixes x :: u32
  shows "push_bit 24 (drop_bit 24 (x AND 0xff000000)) + push_bit 16 (drop_bit 16 (x AND 0x00ff0000))
           + push_bit 8 (drop_bit 8 (x AND 0x0000ff00)) + (x AND 0x000000ff) = x"
proof -
  have d: "x = (x AND 0xff000000) OR (x AND 0x00ff0000) OR (x AND 0x0000ff00) OR (x AND 0x000000ff)"
  proof (rule bit_word_eqI)
    fix n assume n: "n < LENGTH(32)"
    then show "bit x n = bit ((x AND 0xff000000) OR (x AND 0x00ff0000) OR (x AND 0x0000ff00) OR (x AND 0x000000ff)) n"
      unfolding byte_masks by (cases "bit x n") (simp_all add: bit_simps, linarith)
  qed
  have p: "push_bit 24 (drop_bit 24 (x AND 0xff000000)) = x AND 0xff000000"
    "push_bit 16 (drop_bit 16 (x AND 0x00ff0000)) = x AND 0x00ff0000"
    "push_bit 8 (drop_bit 8 (x AND 0x0000ff00)) = x AND 0x0000ff00"
    by (simp_all only: byte_masks) (rule bit_word_eqI; auto simp: bit_simps; fail)+
  have z: "(x AND 0xff000000) AND (x AND 0x00ff0000) = 0"
    "((x AND 0xff000000) OR (x AND 0x00ff0000)) AND (x AND 0x0000ff00) = 0"
    "((x AND 0xff000000) OR (x AND 0x00ff0000) OR (x AND 0x0000ff00)) AND (x AND 0x000000ff) = 0"
    by (simp_all only: byte_masks) (rule bit_word_eqI; auto simp: bit_simps; fail)+
  show ?thesis unfolding p using d z by (simp add: disjunctive_add_eq_or or.assoc)
qed

text \<open>A guarded statement \<open>if (b) f;\<close> on a state.\<close>

definition guarded :: "bool \<Rightarrow> ('s \<Rightarrow> 's) \<Rightarrow> 's \<Rightarrow> 's" where
  "guarded b f s = (if b then f s else s)"

lemma guarded_simps [simp]: "guarded True f s = f s" "guarded False f s = s"
  by (simp_all add: guarded_def)

lemma guarded_keeps: "(\<And>x. g (f x) = g x) \<Longrightarrow> g (guarded b f s) = g s"
  by (simp add: guarded_def)

text \<open>The results of the functions that report as DOCA does; the last one is a plain \<open>-1\<close>.\<close>

datatype doca_error =
    DOCA_SUCCESS | DOCA_ERROR_INVALID_VALUE | DOCA_ERROR_NO_MEMORY | DOCA_ERROR_DRIVER | DOCA_ERROR_BAD_STATE
  | DOCA_ERROR_NOT_FOUND | DOCA_ERROR_IO_FAILED | DOCA_ERROR_MINUS_ONE

section \<open>Turns\<close>

text \<open>How often \<open>j\<close> of \<open>n\<close> is chosen in \<open>m\<close> turns that start at \<open>c\<close>.\<close>

definition turns :: "nat \<Rightarrow> nat \<Rightarrow> nat \<Rightarrow> nat \<Rightarrow> nat" where
  "turns n j c m = length (filter (\<lambda>i. (c + i) mod n = j) [0..<m])"

lemma turns_0 [simp]: "turns n j c 0 = 0"
  by (simp add: turns_def)

lemma turns_last: "turns n j c (Suc m) = turns n j c m + (if (c + m) mod n = j then 1 else 0)"
  by (simp add: turns_def)

lemma turns_first: "turns n j c (Suc m) = (if c mod n = j then 1 else 0) + turns n j (Suc c) m"
  by (induction m) (simp_all add: turns_last)

lemma turns_add: "turns n j c (m + k) = turns n j c m + turns n j (c + m) k"
  by (induction k) (simp_all add: turns_last add.assoc)

lemma turns_one_round:
  assumes "j < n"
  shows "turns n j c n = 1"
proof (induction c)
  case 0
  have "filter (\<lambda>i. i mod n = j) [0..<n] = filter (\<lambda>i. i = j) [0..<n]" by (rule filter_cong) auto

  also have "length \<dots> = 1" using assms distinct_length_filter [of "[0..<n]" "\<lambda>i. i = j"] Collect_conv_if [of j "\<lambda>x. x < n"]
    by (simp add: Int_def conj_commute)
  finally show ?case by (simp add: turns_def)
next
  case (Suc c)
  then show ?case using turns_first [of n j c n] turns_last [of n j c n] by simp
qed

lemma turns_rounds: "j < n \<Longrightarrow> turns n j c (k * n) = k"
  by (induction k arbitrary: c) (simp_all add: turns_add turns_one_round)

section \<open>Numbers as text\<close>

definition digit :: "nat \<Rightarrow> char" where
  "digit n = (if n < 10 then char_of (48 + n) else char_of (87 + n))"

fun dec :: "nat \<Rightarrow> string" where
  "dec n = (if n < 10 then [digit n] else dec (n div 10) @ [digit (n mod 10)])"

declare dec.simps [simp del]

definition hex2 :: "u8 \<Rightarrow> string" where
  "hex2 b = [digit (unat b div 16), digit (unat b mod 16)]"

definition NUL :: char where
  "NUL = CHR 0x00"

lemma length_dec: "n < 10 ^ k \<Longrightarrow> 0 < k \<Longrightarrow> length (dec n) \<le> k"
proof (induction n arbitrary: k rule: dec.induct)
  case (1 n)
  show ?case
  proof (cases "n < 10")
    case False
    obtain k' where k: "k = Suc k'" using "1.prems"(2) by (cases k) auto
    moreover have "0 < k'" using False "1.prems"(1) k by (cases k') auto
    ultimately have k: "k = Suc k'" "0 < k'" by auto
    then have "n div 10 < 10 ^ k'" using "1.prems" by (simp add: less_mult_imp_div_less mult.commute)
    with "1.IH" [OF False _ k(2)] False k show ?thesis by (simp add: dec.simps [of n])
  qed (use 1 in \<open>simp add: dec.simps [of n]\<close>)
qed

lemma digit_not_NUL: "n < 16 \<Longrightarrow> digit n \<noteq> NUL"
proof -
  assume n: "n < 16"
  have "of_char (digit n) \<noteq> (0 :: nat)"
    using n by (auto simp: digit_def of_char_of take_bit_eq_mod)
  then show ?thesis by (auto simp: NUL_def)
qed

lemma dec_no_NUL: "NUL \<notin> set (dec n)"
  by (induction n rule: dec.induct) (subst dec.simps, auto dest: sym simp: digit_not_NUL)

lemma hex2_no_NUL: "NUL \<notin> set (hex2 b)"
proof -
  have "unat b < 2 ^ LENGTH(8)" by (rule unsigned_less)
  then have "unat b div 16 < 16" by (simp add: less_mult_imp_div_less)
  then show ?thesis
    using digit_not_NUL [of "unat b div 16"] digit_not_NUL [of "unat b mod 16"]
    by (auto simp: hex2_def)
qed

section \<open>Lists\<close>

lemma removeAll_append_single:
  "x \<notin> set xs \<Longrightarrow> x \<notin> set ys \<Longrightarrow> removeAll x (xs @ x # ys) = xs @ ys"
  by (simp add: removeAll_id)

lemma distinct_split_last:
  assumes "xs \<noteq> []" and "distinct xs"
  obtains ys where "xs = ys @ [last xs]" and "last xs \<notin> set ys"
proof -
  have eq: "xs = butlast xs @ [last xs]" using assms(1) by simp
  then have "last xs \<notin> set (butlast xs)"
    using assms(2) by (metis distinct_append disjoint_iff list.set_intros(1))
  with eq show ?thesis using that by blast
qed

lemma option_eqI: "(\<And>y. a = Some y \<longleftrightarrow> b = Some y) \<Longrightarrow> a = b"
  by (metis option.exhaust)

section \<open>Repeating a step that may fail to return\<close>

fun repeat_step :: "nat \<Rightarrow> ('s \<Rightarrow> 's option) \<Rightarrow> 's \<Rightarrow> 's option" where
  "repeat_step 0 f s = Some s"
| "repeat_step (Suc n) f s = (case f s of None \<Rightarrow> None | Some s' \<Rightarrow> repeat_step n f s')"

text \<open>
  The contract of a clock that serves alarms: a step always returns before the horizon,
  advances the clock by one and changes no alarm but the ones that are due.
\<close>

locale alarm_clock =
  fixes ok :: "'s \<Rightarrow> bool" and clock :: "'s \<Rightarrow> nat" and alarm :: "'s \<Rightarrow> 'a \<Rightarrow> nat option"
    and tick :: "'s \<Rightarrow> 's option" and horizon :: nat
  assumes tick_returns: "ok s \<Longrightarrow> clock s \<le> horizon \<Longrightarrow>
            \<exists>s'. tick s = Some s' \<and> ok s' \<and> clock s' = Suc (clock s) \<and>
                 (\<forall>a. alarm s a \<noteq> Some (clock s) \<longrightarrow> alarm s' a = alarm s a)"
begin

lemma waits_until_due:
  assumes "ok s" and "alarm s a = Some (clock s + n)" and "clock s + n \<le> horizon"
  shows "\<exists>s'. repeat_step n tick s = Some s' \<and> ok s' \<and> clock s' = clock s + n \<and>
              alarm s' a = Some (clock s')"
  using assms
proof (induction n arbitrary: s)
  case (Suc n)
  then obtain s' where s': "tick s = Some s'" "ok s'" "clock s' = Suc (clock s)"
    "alarm s' a = alarm s a" using tick_returns [of s] by auto
  then show ?case using Suc.IH [of s'] Suc.prems by auto
qed simp

lemma not_lost_before:
  assumes "ok s" and "alarm s a = Some (clock s + n)" and "clock s + n \<le> horizon" and "k \<le> n"
  shows "\<exists>s'. repeat_step k tick s = Some s' \<and> ok s' \<and> clock s' = clock s + k \<and>
              alarm s' a = alarm s a"
  using assms
proof (induction k arbitrary: s n)
  case (Suc k)
  obtain n' where n: "n = Suc n'" using Suc.prems(4) by (cases n) auto
  then obtain s' where s': "tick s = Some s'" "ok s'" "clock s' = Suc (clock s)"
    "alarm s' a = alarm s a" using tick_returns [of s] Suc.prems by auto
  then show ?case using Suc.IH [of s' n'] Suc.prems n by auto
qed simp

end

end
