(* ===== verification/Timer.thy ===== *)
theory Timer
  imports Prelude
begin

text \<open>
  The timing wheel of \<open>src/src/flowQoS_timer.c\<close>: two wheels of $2^{18}$ buckets, each bucket the
  head of a circular doubly linked list threaded through the timers. The memory of the manager
  and of the timers is an explicit store, so that every pointer assignment of the code is an
  update of the store; the lists it represents are recovered by an abstraction predicate.
\<close>

section \<open>Constants and data\<close>

definition TIMER_WHEEL_COUNT :: nat where
  [flow_consts]: "TIMER_WHEEL_COUNT = 2"

definition TIMER_WHEEL_BITS :: nat where
  [flow_consts]: "TIMER_WHEEL_BITS = 18"

definition TIMER_BUCKET_COUNT :: nat where
  [flow_consts]: "TIMER_BUCKET_COUNT = 2 ^ TIMER_WHEEL_BITS"

definition TIMER_MAX_TIMEOUT :: u64 where
  [flow_consts]: "TIMER_MAX_TIMEOUT = push_bit (TIMER_WHEEL_COUNT * TIMER_WHEEL_BITS) 1 - 1"

text \<open>
  A \<open>flowQoS_timer *\<close> is null, the list head of bucket \<open>b\<close> of wheel \<open>w\<close>, or a timer allocated
  by a client, named by a number.
\<close>

datatype tptr = TNull | TBucket nat nat | TTimer nat

text \<open>A callback is named by a number; \<^term>\<open>None\<close> is the null function pointer.\<close>

record flowQoS_timer =
  tm_cb :: "nat option"
  tm_cb_args :: nat
  tm_timeout :: u64
  tm_repeat :: u64
  tm_prev :: tptr
  tm_next :: tptr

record flowQoS_timer_mgr =
  mgr_startStmp :: u64
  mgr_timeout :: u64
  mgr_mem :: "tptr \<Rightarrow> flowQoS_timer"

definition zero_timer :: flowQoS_timer where
  "zero_timer = \<lparr>tm_cb = None, tm_cb_args = 0, tm_timeout = 0, tm_repeat = 0,
                 tm_prev = TNull, tm_next = TNull\<rparr>"

definition TIMER_WHEEL_CUR_INDEX :: "flowQoS_timer_mgr \<Rightarrow> nat \<Rightarrow> nat" where
  "TIMER_WHEEL_CUR_INDEX mgr n =
     unat (drop_bit (TIMER_WHEEL_BITS * n) (mgr_timeout mgr) mod of_nat TIMER_BUCKET_COUNT)"

section \<open>Operations\<close>

text \<open>
  The manager is zeroed and every bucket of both wheels is linked to itself. Memory of timers
  is the clients' and keeps its contents.
\<close>

definition new_timer_mgr :: "u64 \<Rightarrow> (tptr \<Rightarrow> flowQoS_timer) \<Rightarrow> flowQoS_timer_mgr" where
  "new_timer_mgr tsc mem =
     \<lparr>mgr_startStmp = tsc, mgr_timeout = 0,
      mgr_mem = (\<lambda>p. case p of
          TBucket i j \<Rightarrow>
            (if i < TIMER_WHEEL_COUNT \<and> j < TIMER_BUCKET_COUNT
             then zero_timer\<lparr>tm_prev := p, tm_next := p\<rparr> else mem p)
        | _ \<Rightarrow> mem p)\<rparr>"

text \<open>
  \<open>flowQoS_timer_mgr_init\<close>: its result and the \<open>TIMER_MGR\<close> of the core, which is null when \<open>rte_malloc\<close> found no
  memory.
\<close>

definition flowQoS_timer_mgr_init ::
  "bool \<Rightarrow> u64 \<Rightarrow> (tptr \<Rightarrow> flowQoS_timer) \<Rightarrow> int \<times> flowQoS_timer_mgr option" where
  "flowQoS_timer_mgr_init allocated tsc mem = (if \<not> allocated then (-1, None) else (0, Some (new_timer_mgr tsc mem)))"

text \<open>The \<open>while (timeout >= TIMER_BUCKET_COUNT)\<close> loop that selects the wheel and the bucket.\<close>

function timer_start_loop ::
  "flowQoS_timer_mgr \<Rightarrow> u64 \<Rightarrow> nat \<Rightarrow> nat \<Rightarrow> nat \<Rightarrow> nat \<times> nat \<times> nat" where
  "timer_start_loop mgr timeout widx cur bidx =
     (if of_nat TIMER_BUCKET_COUNT \<le> timeout then
        let widx' = widx + 1;
            timeout' = drop_bit TIMER_WHEEL_BITS timeout;
            bidx' = unat (timeout' mod of_nat TIMER_BUCKET_COUNT);
            cur' = TIMER_WHEEL_CUR_INDEX mgr widx'
        in timer_start_loop mgr timeout' widx' cur' bidx'
      else (widx, cur, bidx))"
  by pat_completeness auto
termination
proof (relation "measure (\<lambda>(mgr, timeout, widx, cur, bidx). unat timeout)", goal_cases)
  case 1
  show ?case by simp
next
  case (2 mgr timeout widx cur bidx widx' timeout' bidx' cur')
  then have "262144 \<le> unat timeout"
    by (simp add: flow_consts word_le_nat_alt)
  with 2 show ?case by (simp add: flow_consts word_nat)
qed

declare timer_start_loop.simps [simp del]

text \<open>The four assignments that append \<open>timer\<close> to the list of \<open>bucket\<close>.\<close>

definition bucket_insert_tail ::
  "(tptr \<Rightarrow> flowQoS_timer) \<Rightarrow> tptr \<Rightarrow> tptr \<Rightarrow> (tptr \<Rightarrow> flowQoS_timer)" where
  "bucket_insert_tail mem bucket timer =
     (let m1 = mem(timer := (mem timer)\<lparr>tm_prev := tm_prev (mem bucket)\<rparr>);
          m2 = m1(timer := (m1 timer)\<lparr>tm_next := bucket\<rparr>);
          p = tm_prev (m2 timer);
          m3 = m2(p := (m2 p)\<lparr>tm_next := timer\<rparr>)
      in m3(bucket := (m3 bucket)\<lparr>tm_prev := timer\<rparr>))"

definition timer_start ::
  "flowQoS_timer_mgr \<Rightarrow> tptr \<Rightarrow> nat option \<Rightarrow> nat \<Rightarrow> u64 \<Rightarrow> u64 \<Rightarrow> int \<times> flowQoS_timer_mgr" where
  "timer_start mgr timer cb args timeout rpt =
     (if cb = None \<or> TIMER_MAX_TIMEOUT < timeout then (-1, mgr)
      else
        let sum = mgr_timeout mgr + timeout;
            clamped_timeout = (if sum < timeout then NOT 0 else sum);
            mem = (mgr_mem mgr)(timer := (mgr_mem mgr timer)
                    \<lparr>tm_cb := cb, tm_cb_args := args, tm_timeout := clamped_timeout, tm_repeat := rpt\<rparr>);
            (widx, cur, bidx) = timer_start_loop mgr timeout 0 (TIMER_WHEEL_CUR_INDEX mgr 0)
                                  (unat (timeout mod of_nat TIMER_BUCKET_COUNT))
        in if TIMER_WHEEL_COUNT \<le> widx then (-2, mgr\<lparr>mgr_mem := mem\<rparr>)
           else (0, mgr\<lparr>mgr_mem :=
                   bucket_insert_tail mem (TBucket widx ((cur + bidx) mod TIMER_BUCKET_COUNT)) timer\<rparr>))"

definition timer_stop :: "flowQoS_timer_mgr \<Rightarrow> tptr \<Rightarrow> int \<times> flowQoS_timer_mgr" where
  "timer_stop mgr timer =
     (let m = mgr_mem mgr in
      if tm_prev (m timer) \<noteq> TNull \<and> tm_next (m timer) \<noteq> TNull then
        let p = tm_prev (m timer);
            m1 = m(p := (m p)\<lparr>tm_next := tm_next (m timer)\<rparr>);
            n = tm_next (m1 timer);
            m2 = m1(n := (m1 n)\<lparr>tm_prev := tm_prev (m1 timer)\<rparr>);
            m3 = m2(timer := (m2 timer)\<lparr>tm_prev := TNull, tm_next := TNull\<rparr>)
        in (0, mgr\<lparr>mgr_mem := m3\<rparr>)
      else (0, mgr))"

definition timer_again :: "flowQoS_timer_mgr \<Rightarrow> tptr \<Rightarrow> int \<times> flowQoS_timer_mgr" where
  "timer_again mgr timer =
     (if tm_cb (mgr_mem mgr timer) = None then (-1, mgr)
      else if tm_repeat (mgr_mem mgr timer) \<noteq> 0 then
        let m1 = snd (timer_stop mgr timer);
            t = mgr_mem m1 timer;
            m2 = snd (timer_start m1 timer (tm_cb t) (tm_cb_args t) (tm_repeat t) (tm_repeat t))
        in (0, m2)
      else (0, mgr))"

definition timer_reset :: "flowQoS_timer_mgr \<Rightarrow> tptr \<Rightarrow> u64 \<Rightarrow> int \<times> flowQoS_timer_mgr" where
  "timer_reset mgr timer timeout =
     (if tm_cb (mgr_mem mgr timer) = None then (-1, mgr)
      else
        let m1 = snd (timer_stop mgr timer);
            t = mgr_mem m1 timer
        in (0, snd (timer_start m1 timer (tm_cb t) (tm_cb_args t) timeout 0)))"

text \<open>
  The loops over a bucket follow \<open>next\<close> pointers, so nothing in the code bounds them: they are
  \<^typ>\<open>'a option\<close>-valued, \<^term>\<open>None\<close> standing for a loop that never returns, for a failed
  \<open>assert\<close> and for a call through a null callback.
\<close>

partial_function (option) timer_cascade_loop ::
  "tptr \<Rightarrow> tptr \<Rightarrow> flowQoS_timer_mgr \<Rightarrow> flowQoS_timer_mgr option" where
  "timer_cascade_loop bucket timer mgr =
     (if timer = bucket then Some mgr
      else if tm_timeout (mgr_mem mgr timer) < mgr_timeout mgr then None
      else timer_cascade_loop bucket (tm_next (mgr_mem mgr timer))
             (snd (timer_start (snd (timer_stop mgr timer)) timer
                (tm_cb (mgr_mem mgr timer)) (tm_cb_args (mgr_mem mgr timer))
                (tm_timeout (mgr_mem mgr timer) - mgr_timeout mgr) (tm_repeat (mgr_mem mgr timer)))))"

definition timer_cascade :: "flowQoS_timer_mgr \<Rightarrow> nat \<Rightarrow> nat \<Rightarrow> (nat \<times> flowQoS_timer_mgr) option" where
  "timer_cascade mgr widx bidx =
     (let bucket = TBucket widx bidx in
      map_option (\<lambda>mgr'. (bidx, mgr')) (timer_cascade_loop bucket (tm_next (mgr_mem mgr bucket)) mgr))"

function timer_tick_cascade :: "nat \<Rightarrow> flowQoS_timer_mgr \<Rightarrow> flowQoS_timer_mgr option" where
  "timer_tick_cascade widx mgr =
     (if widx < TIMER_WHEEL_COUNT then
        case timer_cascade mgr widx (TIMER_WHEEL_CUR_INDEX mgr widx) of
          None \<Rightarrow> None
        | Some (r, mgr') \<Rightarrow> (if r = 0 then timer_tick_cascade (Suc widx) mgr' else Some mgr')
      else Some mgr)"
  by pat_completeness auto
termination
  by (relation "measure (\<lambda>(widx, mgr). TIMER_WHEEL_COUNT - widx)") auto

declare timer_tick_cascade.simps [simp del]

text \<open>
  A callback \<open>cb\<close> reached through a timer acts on a part \<open>'w\<close> of the state outside the wheel
  (the only callback registered by the program, \<open>flowQoS_conn_expire_sw_cb\<close>, calls no
  operation of the timer module).
\<close>

partial_function (option) timer_tick_loop ::
  "(nat \<Rightarrow> nat \<Rightarrow> 'w \<Rightarrow> 'w) \<Rightarrow> tptr \<Rightarrow> tptr \<Rightarrow> flowQoS_timer_mgr \<Rightarrow> 'w \<Rightarrow> nat
     \<Rightarrow> (nat \<times> flowQoS_timer_mgr \<times> 'w) option" where
  "timer_tick_loop run bucket timer mgr w res =
     (if timer = bucket then Some (res, mgr, w)
      else case tm_cb (mgr_mem (snd (timer_again (snd (timer_stop mgr timer)) timer)) timer) of
        None \<Rightarrow> None
      | Some f \<Rightarrow>
          timer_tick_loop run bucket (tm_next (mgr_mem mgr timer))
            (snd (timer_again (snd (timer_stop mgr timer)) timer))
            (run f (tm_cb_args (mgr_mem (snd (timer_again (snd (timer_stop mgr timer)) timer)) timer)) w)
            (Suc res))"

definition timer_tick ::
  "(nat \<Rightarrow> nat \<Rightarrow> 'w \<Rightarrow> 'w) \<Rightarrow> flowQoS_timer_mgr \<Rightarrow> 'w \<Rightarrow> (nat \<times> flowQoS_timer_mgr \<times> 'w) option" where
  "timer_tick run mgr w =
     (let bidx = unat (mgr_timeout mgr mod of_nat TIMER_BUCKET_COUNT) in
      case (if bidx = 0 then timer_tick_cascade 1 mgr else Some mgr) of
        None \<Rightarrow> None
      | Some mgr1 \<Rightarrow>
          (case timer_tick_loop run (TBucket 0 bidx) (tm_next (mgr_mem mgr1 (TBucket 0 bidx))) mgr1 w 0 of
             None \<Rightarrow> None
           | Some (res, mgr2, w') \<Rightarrow> Some (res, mgr2\<lparr>mgr_timeout := mgr_timeout mgr2 + 1\<rparr>, w')))"

text \<open>
  \<open>flowQoS_timer_tick\<close>: one tick when the time stamp counter \<open>tsc\<close> has passed the start of the
  current tick; \<open>GAP\<close> is the number of cycles of a tick.
\<close>

definition flowQoS_timer_tick ::
  "(nat \<Rightarrow> nat \<Rightarrow> 'w \<Rightarrow> 'w) \<Rightarrow> u64 \<Rightarrow> u64 \<Rightarrow> flowQoS_timer_mgr \<Rightarrow> 'w \<Rightarrow> (nat \<times> flowQoS_timer_mgr \<times> 'w) option" where
  "flowQoS_timer_tick run GAP tsc mgr w =
     (if mgr_startStmp mgr + mgr_timeout mgr * GAP < tsc then timer_tick run mgr w
      else Some (0, mgr, w))"

definition flowQoS_timer_add ::
  "flowQoS_timer_mgr \<Rightarrow> tptr \<Rightarrow> nat option \<Rightarrow> nat \<Rightarrow> u64 \<Rightarrow> int \<times> flowQoS_timer_mgr" where
  "flowQoS_timer_add mgr timer cb args timeout = timer_start mgr timer cb args timeout 0"

definition flowQoS_timer_del :: "flowQoS_timer_mgr \<Rightarrow> tptr \<Rightarrow> flowQoS_timer_mgr" where
  "flowQoS_timer_del mgr timer = snd (timer_stop mgr timer)"

definition flowQoS_timer_reset :: "flowQoS_timer_mgr \<Rightarrow> tptr \<Rightarrow> u64 \<Rightarrow> int \<times> flowQoS_timer_mgr" where
  "flowQoS_timer_reset mgr timer timeout = timer_reset mgr timer timeout"

end
