(* ===== verification/Timer_Lists.thy ===== *)
theory Timer_Lists
  imports Timer
begin

text \<open>
  The abstraction from the pointers of the timing wheel to lists. A bucket represents the list
  of the timers met from its head along \<open>next\<close>; \<open>timer_start\<close> appends to one list and
  \<open>timer_stop\<close> removes from the list that holds the timer. The pointer stores are never looked
  at again after this theory.
\<close>

section \<open>Circular doubly linked lists\<close>

type_synonym tmem = "tptr \<Rightarrow> flowQoS_timer"

text \<open>From \<open>p\<close>, through \<open>xs\<close>, to \<open>e\<close>: both directions of every link.\<close>

fun links :: "tmem \<Rightarrow> tptr \<Rightarrow> tptr list \<Rightarrow> tptr \<Rightarrow> bool" where
  "links m p [] e \<longleftrightarrow> tm_next (m p) = e \<and> tm_prev (m e) = p"
| "links m p (x # xs) e \<longleftrightarrow> tm_next (m p) = x \<and> tm_prev (m x) = p \<and> links m x xs e"

lemma links_append: "links m p (xs @ y # ys) e \<longleftrightarrow> links m p xs y \<and> links m y ys e"
  by (induction xs arbitrary: p) auto

lemma links_cong:
  assumes "\<And>q. q \<in> insert p (set xs) \<Longrightarrow> tm_next (m' q) = tm_next (m q)"
    and "\<And>q. q \<in> insert e (set xs) \<Longrightarrow> tm_prev (m' q) = tm_prev (m q)"
  shows "links m' p xs e = links m p xs e"
  using assms by (induction xs arbitrary: p) auto

lemma links_next: "links m p xs e \<Longrightarrow> tm_next (m p) = hd (xs @ [e])"
  by (cases xs) auto

lemma links_prev: "links m p xs e \<Longrightarrow> tm_prev (m e) = last (p # xs)"
  by (induction xs arbitrary: p) auto

lemma links_ends:
  "links m p xs e \<Longrightarrow> q \<in> set xs \<Longrightarrow> TNull \<notin> insert p (insert e (set xs)) \<Longrightarrow>
     tm_prev (m q) \<noteq> TNull \<and> tm_next (m q) \<noteq> TNull"
proof (induction xs arbitrary: p)
  case Nil
  then show ?case by simp
next
  case (Cons x xs)
  have "tm_next (m x) = hd (xs @ [e])" using Cons.prems(1) by (auto dest: links_next)
  moreover have "hd (xs @ [e]) \<noteq> TNull" using Cons.prems(3) by (cases xs) auto
  ultimately show ?case using Cons by auto
qed

text \<open>Redirecting the end of a segment from \<open>e\<close> to \<open>e'\<close>.\<close>

lemma links_redirect:
  assumes "links m p xs e" and "distinct (p # xs)" and "e' \<notin> set xs"
    and "\<And>q. q \<in> insert p (set xs) \<Longrightarrow> q \<noteq> last (p # xs) \<Longrightarrow> tm_next (m' q) = tm_next (m q)"
    and "\<And>q. q \<in> set xs \<Longrightarrow> tm_prev (m' q) = tm_prev (m q)"
    and "tm_next (m' (last (p # xs))) = e'" and "tm_prev (m' e') = last (p # xs)"
  shows "links m' p xs e'"
  using assms
proof (induction xs rule: rev_induct)
  case Nil
  then show ?case by simp
next
  case (snoc x xs)
  have "links m' p xs x = links m p xs x"
    by (rule links_cong) (use snoc.prems in auto)
  with snoc.prems show ?case by (simp add: links_append [where ys = "[]"])
qed

definition dll :: "tmem \<Rightarrow> tptr \<Rightarrow> tptr list \<Rightarrow> bool" where
  "dll m b xs \<longleftrightarrow> links m b xs b \<and> distinct (b # xs)"

lemma dll_cong:
  assumes "\<And>q. q \<in> insert b (set xs) \<Longrightarrow>
             tm_next (m' q) = tm_next (m q) \<and> tm_prev (m' q) = tm_prev (m q)"
  shows "dll m' b xs = dll m b xs"
  using assms links_cong [of b xs m' m b] by (simp add: dll_def)

lemma dll_prev_head: "dll m b xs \<Longrightarrow> tm_prev (m b) = last (b # xs)"
  by (auto simp: dll_def dest: links_prev)

lemma dll_next_head: "dll m b xs \<Longrightarrow> tm_next (m b) = hd (xs @ [b])"
  by (auto simp: dll_def dest: links_next)

lemma dll_next_member: "dll m b (xs @ t # ys) \<Longrightarrow> tm_next (m t) = hd (ys @ [b])"
  by (auto simp: dll_def links_append dest: links_next)

lemma dll_prev_member: "dll m b (xs @ t # ys) \<Longrightarrow> tm_prev (m t) = last (b # xs)"
  by (auto simp: dll_def links_append dest: links_prev)

lemma dll_member_linked:
  "dll m b xs \<Longrightarrow> t \<in> set xs \<Longrightarrow> TNull \<notin> insert b (set xs) \<Longrightarrow>
     tm_prev (m t) \<noteq> TNull \<and> tm_next (m t) \<noteq> TNull"
  by (auto simp: dll_def dest: links_ends)

section \<open>The two pointer operations\<close>

lemma bucket_insert_tail_fields:
  assumes "t \<noteq> b" and "tm_prev (m b) \<noteq> t"
  shows "tm_next (bucket_insert_tail m b t q) =
           (if q = tm_prev (m b) then t else if q = t then b else tm_next (m q))"
    and "tm_prev (bucket_insert_tail m b t q) =
           (if q = b then t else if q = t then tm_prev (m b) else tm_prev (m q))"
    and "tm_cb (bucket_insert_tail m b t q) = tm_cb (m q)"
    and "tm_cb_args (bucket_insert_tail m b t q) = tm_cb_args (m q)"
    and "tm_timeout (bucket_insert_tail m b t q) = tm_timeout (m q)"
    and "tm_repeat (bucket_insert_tail m b t q) = tm_repeat (m q)"
  using assms by (auto simp: bucket_insert_tail_def Let_def)

lemma dll_insert_tail:
  assumes dll: "dll m b xs" and t: "t \<notin> insert b (set xs)"
  shows "dll (bucket_insert_tail m b t) b (xs @ [t])"
proof -
  let ?m = "bucket_insert_tail m b t"
  have pb: "tm_prev (m b) = last (b # xs)" using dll by (rule dll_prev_head)
  have last_in: "last (b # xs) \<in> insert b (set xs)" by (metis last_in_set list.discI list.simps(15))
  then have tb: "t \<noteq> b" and tp: "tm_prev (m b) \<noteq> t" using t pb by auto
  note f = bucket_insert_tail_fields [where t = t and b = b and m = m, OF tb tp]
  have "links ?m b xs t"
  proof (rule links_redirect)
    show "links m b xs b" "distinct (b # xs)" using dll by (auto simp: dll_def)
    show "t \<notin> set xs" using t by simp
  qed (use dll t pb in \<open>auto simp: f dll_def\<close>)
  moreover have "tm_next (?m t) = b" "tm_prev (?m b) = t" using tb tp by (auto simp: f)
  ultimately show ?thesis
    using dll t by (auto simp: dll_def links_append [where ys = "[]"])
qed

lemma timer_stop_fields:
  assumes "tm_prev (mgr_mem mgr t) \<noteq> TNull" and "tm_next (mgr_mem mgr t) \<noteq> TNull"
    and "tm_prev (mgr_mem mgr t) \<noteq> t" and "tm_next (mgr_mem mgr t) \<noteq> t"
  shows "tm_next (mgr_mem (snd (timer_stop mgr t)) q) =
           (if q = t then TNull
            else if q = tm_prev (mgr_mem mgr t) then tm_next (mgr_mem mgr t)
            else tm_next (mgr_mem mgr q))"
    and "tm_prev (mgr_mem (snd (timer_stop mgr t)) q) =
           (if q = t then TNull
            else if q = tm_next (mgr_mem mgr t) then tm_prev (mgr_mem mgr t)
            else tm_prev (mgr_mem mgr q))"
  using assms by (auto simp: timer_stop_def Let_def)

lemma timer_stop_unlinked:
  "tm_prev (mgr_mem mgr t) = TNull \<or> tm_next (mgr_mem mgr t) = TNull \<Longrightarrow>
     snd (timer_stop mgr t) = mgr"
  by (auto simp: timer_stop_def Let_def)

lemma timer_stop_other_fields [simp]:
  "tm_cb (mgr_mem (snd (timer_stop mgr t)) q) = tm_cb (mgr_mem mgr q)"
  "tm_cb_args (mgr_mem (snd (timer_stop mgr t)) q) = tm_cb_args (mgr_mem mgr q)"
  "tm_timeout (mgr_mem (snd (timer_stop mgr t)) q) = tm_timeout (mgr_mem mgr q)"
  "tm_repeat (mgr_mem (snd (timer_stop mgr t)) q) = tm_repeat (mgr_mem mgr q)"
  "mgr_timeout (snd (timer_stop mgr t)) = mgr_timeout mgr"
  "mgr_startStmp (snd (timer_stop mgr t)) = mgr_startStmp mgr"
  by (auto simp: timer_stop_def Let_def)

lemma dll_stop:
  assumes dll: "dll (mgr_mem mgr) b (xs @ t # ys)" and null: "TNull \<notin> insert b (set (xs @ t # ys))"
  shows "dll (mgr_mem (snd (timer_stop mgr t))) b (xs @ ys)"
proof -
  let ?m = "mgr_mem mgr" and ?m' = "mgr_mem (snd (timer_stop mgr t))"
  have ln: "links ?m b xs t" "links ?m t ys b" and d: "distinct (b # xs @ t # ys)"
    using dll by (auto simp: dll_def links_append)
  have pt: "tm_prev (?m t) = last (b # xs)" using dll by (rule dll_prev_member)
  have nt: "tm_next (?m t) = hd (ys @ [b])" using dll by (rule dll_next_member)
  have lp: "last (b # xs) \<in> insert b (set xs)" by (metis last_in_set list.discI list.simps(15))
  have hn: "hd (ys @ [b]) \<in> insert b (set ys)" by (cases ys) auto
  have linked: "tm_prev (?m t) \<noteq> TNull" "tm_next (?m t) \<noteq> TNull" "tm_prev (?m t) \<noteq> t" "tm_next (?m t) \<noteq> t"
    using lp hn null d unfolding pt nt by auto
  note f = timer_stop_fields [where mgr = mgr and t = t, OF linked, unfolded pt nt]
  have front: "links ?m' b xs e'" if "e' = hd (ys @ [b])" for e'
  proof (rule links_redirect [OF ln(1)])
    show "distinct (b # xs)" "e' \<notin> set xs" using d that hn by auto
  qed (use d that lp hn in \<open>auto simp: f\<close>)
  have "links ?m' b (xs @ ys) b"
  proof (cases ys)
    case Nil
    then show ?thesis using front by simp
  next
    case (Cons y zs)
    have "links ?m' y zs b = links ?m y zs b"
      by (rule links_cong) (use d Cons lp in \<open>auto simp: f\<close>)
    moreover have "links ?m y zs b" using ln(2) Cons by simp
    ultimately show ?thesis using front Cons by (simp add: links_append)
  qed
  then show ?thesis using d by (auto simp: dll_def)
qed


section \<open>The wheel as lists of timers\<close>

type_synonym wheel_lists = "nat \<Rightarrow> nat \<Rightarrow> nat list"

definition in_wheel :: "wheel_lists \<Rightarrow> nat \<Rightarrow> bool" where
  "in_wheel L t \<longleftrightarrow> (\<exists>w b. t \<in> set (L w b))"

text \<open>
  \<open>represents mgr L\<close>: every bucket is a well-formed ring for its list, no timer is in two
  buckets, and a timer in no bucket is unlinked (one of its pointers is null).
\<close>

definition represents :: "flowQoS_timer_mgr \<Rightarrow> wheel_lists \<Rightarrow> bool" where
  "represents mgr L \<longleftrightarrow>
     (\<forall>w < TIMER_WHEEL_COUNT. \<forall>b < TIMER_BUCKET_COUNT.
        dll (mgr_mem mgr) (TBucket w b) (map TTimer (L w b))) \<and>
     (\<forall>w b. \<not> (w < TIMER_WHEEL_COUNT \<and> b < TIMER_BUCKET_COUNT) \<longrightarrow> L w b = []) \<and>
     (\<forall>w b w' b' t. t \<in> set (L w b) \<and> t \<in> set (L w' b') \<longrightarrow> w = w' \<and> b = b') \<and>
     (\<forall>t. \<not> in_wheel L t \<longrightarrow>
        tm_prev (mgr_mem mgr (TTimer t)) = TNull \<or> tm_next (mgr_mem mgr (TTimer t)) = TNull)"

lemma representsD:
  assumes "represents mgr L"
  shows "w < TIMER_WHEEL_COUNT \<Longrightarrow> b < TIMER_BUCKET_COUNT \<Longrightarrow>
           dll (mgr_mem mgr) (TBucket w b) (map TTimer (L w b))"
    and "t \<in> set (L w b) \<Longrightarrow> w < TIMER_WHEEL_COUNT \<and> b < TIMER_BUCKET_COUNT"
    and "t \<in> set (L w b) \<Longrightarrow> t \<in> set (L w' b') \<Longrightarrow> w = w' \<and> b = b'"
    and "\<not> in_wheel L t \<Longrightarrow>
           tm_prev (mgr_mem mgr (TTimer t)) = TNull \<or> tm_next (mgr_mem mgr (TTimer t)) = TNull"
proof -
  note p = assms [unfolded represents_def]
  show "w < TIMER_WHEEL_COUNT \<Longrightarrow> b < TIMER_BUCKET_COUNT \<Longrightarrow>
           dll (mgr_mem mgr) (TBucket w b) (map TTimer (L w b))"
    using p by simp
  have "L w b = []" if "\<not> (w < TIMER_WHEEL_COUNT \<and> b < TIMER_BUCKET_COUNT)"
    using conjunct1 [OF conjunct2 [OF p]] that by blast
  then show "t \<in> set (L w b) \<Longrightarrow> w < TIMER_WHEEL_COUNT \<and> b < TIMER_BUCKET_COUNT"
    by fastforce
  show "t \<in> set (L w b) \<Longrightarrow> t \<in> set (L w' b') \<Longrightarrow> w = w' \<and> b = b'"
    using conjunct1 [OF conjunct2 [OF conjunct2 [OF p]]] by blast
  show "\<not> in_wheel L t \<Longrightarrow>
           tm_prev (mgr_mem mgr (TTimer t)) = TNull \<or> tm_next (mgr_mem mgr (TTimer t)) = TNull"
    using conjunct2 [OF conjunct2 [OF conjunct2 [OF p]]] by blast
qed

lemma represents_distinct: "represents mgr L \<Longrightarrow> distinct (L w b)"
proof (cases "L w b = []")
  case False
  assume r: "represents mgr L"
  obtain t where "t \<in> set (L w b)" using False by (metis list.set_intros(1) neq_Nil_conv)
  then have "dll (mgr_mem mgr) (TBucket w b) (map TTimer (L w b))"
    using representsD(1,2) [OF r] by blast
  then show ?thesis by (simp add: dll_def distinct_map)
qed simp

text \<open>A timer is linked exactly when it is in a bucket.\<close>

definition linked :: "flowQoS_timer_mgr \<Rightarrow> nat \<Rightarrow> bool" where
  "linked mgr t \<longleftrightarrow>
     tm_prev (mgr_mem mgr (TTimer t)) \<noteq> TNull \<and> tm_next (mgr_mem mgr (TTimer t)) \<noteq> TNull"

lemma represents_linked:
  assumes r: "represents mgr L"
  shows "linked mgr t \<longleftrightarrow> in_wheel L t"
proof
  show "in_wheel L t" if "linked mgr t"
    using that representsD(4) [OF r] by (auto simp: linked_def)
  show "linked mgr t" if in_w: "in_wheel L t"
  proof -
    obtain w b where t: "t \<in> set (L w b)" using in_w by (auto simp: in_wheel_def)
    then have "dll (mgr_mem mgr) (TBucket w b) (map TTimer (L w b))"
      using representsD(1,2) [OF r] by blast
    then have "tm_prev (mgr_mem mgr (TTimer t)) \<noteq> TNull \<and> tm_next (mgr_mem mgr (TTimer t)) \<noteq> TNull"
      by (rule dll_member_linked) (use t in auto)
    then show ?thesis by (simp add: linked_def)
  qed
qed

lemma last_bucket_in: "last (TBucket w b # map TTimer ts) \<in> insert (TBucket w b) (TTimer ` set ts)"
  by (metis last_in_set list.discI list.set_map list.simps(15))

lemma hd_bucket_in: "hd (map TTimer ts @ [TBucket w b]) \<in> insert (TBucket w b) (TTimer ` set ts)"
  by (cases ts) auto

definition push_timer :: "nat \<Rightarrow> nat \<Rightarrow> nat \<Rightarrow> wheel_lists \<Rightarrow> wheel_lists" where
  "push_timer w b t L = (\<lambda>w' b'. if w' = w \<and> b' = b then L w b @ [t] else L w' b')"

definition drop_timer :: "nat \<Rightarrow> wheel_lists \<Rightarrow> wheel_lists" where
  "drop_timer t L = (\<lambda>w b. removeAll t (L w b))"

lemma push_timer_apply:
  "push_timer w b t L w' b' = (if w' = w \<and> b' = b then L w b @ [t] else L w' b')"
  by (simp add: push_timer_def)

lemma drop_timer_apply: "drop_timer t L w b = removeAll t (L w b)"
  by (simp add: drop_timer_def)

lemma in_wheel_push [simp]: "in_wheel (push_timer w b t L) u \<longleftrightarrow> u = t \<or> in_wheel L u"
  by (auto simp: in_wheel_def push_timer_def)

lemma in_wheel_drop [simp]: "in_wheel (drop_timer t L) u \<longleftrightarrow> u \<noteq> t \<and> in_wheel L u"
  by (auto simp: in_wheel_def drop_timer_def)

lemma represents_insert:
  assumes r: "represents mgr L" and new: "\<not> in_wheel L t"
    and w: "w < TIMER_WHEEL_COUNT" and b: "b < TIMER_BUCKET_COUNT"
    and mem: "\<And>q. q \<noteq> TTimer t \<Longrightarrow> m q = mgr_mem mgr q"
  shows "represents (mgr\<lparr>mgr_mem := bucket_insert_tail m (TBucket w b) (TTimer t)\<rparr>) (push_timer w b t L)"
proof -
  let ?m' = "bucket_insert_tail m (TBucket w b) (TTimer t)"
  have nt: "t \<notin> set (L w' b')" for w' b' using new by (auto simp: in_wheel_def)
  have dll_m: "dll m (TBucket w' b') (map TTimer (L w' b'))"
    if "w' < TIMER_WHEEL_COUNT" "b' < TIMER_BUCKET_COUNT" for w' b'
  proof -
    have "dll m (TBucket w' b') (map TTimer (L w' b')) =
          dll (mgr_mem mgr) (TBucket w' b') (map TTimer (L w' b'))"
    proof (rule dll_cong)
      fix q assume "q \<in> insert (TBucket w' b') (set (map TTimer (L w' b')))"
      then have "q \<noteq> TTimer t" using nt [of w' b'] by auto
      then show "tm_next (m q) = tm_next (mgr_mem mgr q) \<and> tm_prev (m q) = tm_prev (mgr_mem mgr q)"
        by (simp add: mem)
    qed
    then show ?thesis using representsD(1) [OF r that] by simp
  qed
  have pb: "tm_prev (m (TBucket w b)) = last (TBucket w b # map TTimer (L w b))"
    by (rule dll_prev_head) (rule dll_m [OF w b])
  have pin: "tm_prev (m (TBucket w b)) \<in> insert (TBucket w b) (TTimer ` set (L w b))"
    unfolding pb by (rule last_bucket_in)
  have ne: "TTimer t \<noteq> TBucket w b" "tm_prev (m (TBucket w b)) \<noteq> TTimer t"
    using pin nt by auto
  note f = bucket_insert_tail_fields [where t = "TTimer t" and b = "TBucket w b" and m = m, OF ne]
  have same: "tm_next (?m' q) = tm_next (m q)" "tm_prev (?m' q) = tm_prev (m q)"
    if "q \<noteq> TTimer t" "q \<noteq> TBucket w b" "q \<notin> TTimer ` set (L w b)" for q
    using that pin by (auto simp: f)
  have "dll ?m' (TBucket w' b') (map TTimer (push_timer w b t L w' b'))"
    if wb: "w' < TIMER_WHEEL_COUNT" "b' < TIMER_BUCKET_COUNT" for w' b'
  proof (cases "w' = w \<and> b' = b")
    case True
    have "dll ?m' (TBucket w b) (map TTimer (L w b) @ [TTimer t])"
      by (rule dll_insert_tail [OF dll_m [OF w b]]) (use nt in auto)
    then show ?thesis using True by (simp add: push_timer_def)
  next
    case False
    have disj: "set (L w' b') \<inter> set (L w b) = {}" using representsD(3) [OF r] False by blast
    have "dll ?m' (TBucket w' b') (map TTimer (L w' b')) = dll m (TBucket w' b') (map TTimer (L w' b'))"
      by (rule dll_cong) (use False disj nt in \<open>auto intro!: same\<close>)
    then show ?thesis using dll_m [OF wb] False by (auto simp: push_timer_def)
  qed
  moreover have "tm_prev (?m' (TTimer u)) = TNull \<or> tm_next (?m' (TTimer u)) = TNull"
    if "\<not> in_wheel (push_timer w b t L) u" for u
  proof -
    have "u \<noteq> t" "\<not> in_wheel L u" using that by auto
    moreover from this have "TTimer u \<notin> TTimer ` set (L w b)" by (auto simp: in_wheel_def)
    ultimately show ?thesis using representsD(4) [OF r, of u] by (simp add: same mem)
  qed
  moreover have "\<forall>w' b'. \<not> (w' < TIMER_WHEEL_COUNT \<and> b' < TIMER_BUCKET_COUNT) \<longrightarrow> push_timer w b t L w' b' = []"
    using r w b by (auto simp: represents_def push_timer_def)
  moreover have "\<forall>w1 b1 w2 b2 u. u \<in> set (push_timer w b t L w1 b1) \<and> u \<in> set (push_timer w b t L w2 b2)
      \<longrightarrow> w1 = w2 \<and> b1 = b2"
    using representsD(3) [OF r] nt by (auto simp: push_timer_def split: if_splits)
  ultimately show ?thesis unfolding represents_def by simp
qed

lemma drop_timer_absent: "\<not> in_wheel L t \<Longrightarrow> drop_timer t L = L"
  by (auto simp: drop_timer_def in_wheel_def fun_eq_iff intro!: removeAll_id)

lemma represents_stop:
  assumes r: "represents mgr L"
  shows "represents (snd (timer_stop mgr (TTimer t))) (drop_timer t L)"
proof (cases "in_wheel L t")
  case False
  then have "snd (timer_stop mgr (TTimer t)) = mgr"
    using representsD(4) [OF r] by (intro timer_stop_unlinked) auto
  then show ?thesis using r by (simp add: drop_timer_absent [OF False])
next
  case True
  let ?m = "mgr_mem mgr" and ?m' = "mgr_mem (snd (timer_stop mgr (TTimer t)))"
  obtain w b where tin: "t \<in> set (L w b)" using True by (auto simp: in_wheel_def)
  then have wb: "w < TIMER_WHEEL_COUNT" "b < TIMER_BUCKET_COUNT" using representsD(2) [OF r] by auto
  obtain xs ys where sp: "L w b = xs @ t # ys" using tin by (meson split_list)
  have d: "distinct (xs @ t # ys)" using represents_distinct [OF r, of w b] sp by simp
  have rem: "removeAll t (L w b) = xs @ ys" using d sp by simp
  have other: "removeAll t (L w' b') = L w' b'" if "\<not> (w' = w \<and> b' = b)" for w' b'
    using representsD(3) [OF r tin, of w' b'] that by (intro removeAll_id) auto
  have dl: "dll ?m (TBucket w b) (map TTimer xs @ TTimer t # map TTimer ys)"
    using representsD(1) [OF r wb] sp by simp
  have p: "tm_prev (?m (TTimer t)) = last (TBucket w b # map TTimer xs)" by (rule dll_prev_member [OF dl])
  have n: "tm_next (?m (TTimer t)) = hd (map TTimer ys @ [TBucket w b])" by (rule dll_next_member [OF dl])
  have pin: "tm_prev (?m (TTimer t)) \<in> insert (TBucket w b) (TTimer ` set xs)"
    unfolding p by (rule last_bucket_in)
  have nin: "tm_next (?m (TTimer t)) \<in> insert (TBucket w b) (TTimer ` set ys)"
    unfolding n by (rule hd_bucket_in)
  have ne: "tm_prev (?m (TTimer t)) \<noteq> TNull" "tm_next (?m (TTimer t)) \<noteq> TNull"
    "tm_prev (?m (TTimer t)) \<noteq> TTimer t" "tm_next (?m (TTimer t)) \<noteq> TTimer t"
    using pin nin d by auto
  note f = timer_stop_fields [where mgr = mgr and t = "TTimer t", OF ne]
  have same: "tm_next (?m' q) = tm_next (?m q)" "tm_prev (?m' q) = tm_prev (?m q)"
    if "q \<noteq> TBucket w b" "q \<notin> TTimer ` set (L w b)" for q
    using that pin nin sp by (auto simp: f)
  have "dll ?m' (TBucket w' b') (map TTimer (drop_timer t L w' b'))"
    if wb': "w' < TIMER_WHEEL_COUNT" "b' < TIMER_BUCKET_COUNT" for w' b'
  proof (cases "w' = w \<and> b' = b")
    case True
    have "dll ?m' (TBucket w b) (map TTimer xs @ map TTimer ys)"
      by (rule dll_stop [OF dl]) auto
    then show ?thesis using True by (simp add: drop_timer_def rem)
  next
    case False
    have disj: "set (L w' b') \<inter> set (L w b) = {}" using representsD(3) [OF r] False by blast
    have "dll ?m' (TBucket w' b') (map TTimer (L w' b')) = dll ?m (TBucket w' b') (map TTimer (L w' b'))"
      by (rule dll_cong) (use False disj in \<open>auto intro!: same\<close>)
    then show ?thesis using representsD(1) [OF r wb'] other [OF False] by (simp add: drop_timer_def)
  qed
  moreover have "tm_prev (?m' (TTimer u)) = TNull \<or> tm_next (?m' (TTimer u)) = TNull"
    if "\<not> in_wheel (drop_timer t L) u" for u
  proof (cases "u = t")
    case True
    then show ?thesis by (simp add: f)
  next
    case False
    then have nu: "\<not> in_wheel L u" using that by simp
    then have "TTimer u \<notin> TTimer ` set (L w b)" by (auto simp: in_wheel_def)
    then show ?thesis using representsD(4) [OF r nu] by (simp add: same)
  qed
  moreover have "\<forall>w' b'. \<not> (w' < TIMER_WHEEL_COUNT \<and> b' < TIMER_BUCKET_COUNT) \<longrightarrow> drop_timer t L w' b' = []"
    using r by (auto simp: represents_def drop_timer_def)
  moreover have "\<forall>w1 b1 w2 b2 u. u \<in> set (drop_timer t L w1 b1) \<and> u \<in> set (drop_timer t L w2 b2)
      \<longrightarrow> w1 = w2 \<and> b1 = b2"
    using representsD(3) [OF r] by (auto simp: drop_timer_def)
  ultimately show ?thesis unfolding represents_def by simp
qed

end
