(* ===== verification/Timer_Wheel.thy ===== *)
theory Timer_Wheel
  imports Timer_Lists
begin

text \<open>
  What the timing wheel promises: an armed timer is a timer with a due tick, starting arms it,
  stopping disarms it, and a tick fires exactly the timers that are due, once each. The lemmas
  go from the arithmetic of the two wheels to the lists of the buckets, and from there to the
  abstract map of due ticks.
\<close>

section \<open>Where a timer sits\<close>

abbreviation C :: nat where "C \<equiv> TIMER_BUCKET_COUNT"

abbreviation now :: "flowQoS_timer_mgr \<Rightarrow> nat" where "now mgr \<equiv> unat (mgr_timeout mgr)"

abbreviation due :: "flowQoS_timer_mgr \<Rightarrow> nat \<Rightarrow> nat" where
  "due mgr t \<equiv> unat (tm_timeout (mgr_mem mgr (TTimer t)))"

lemma C_pos [simp]: "0 < C" and C_gt1 [simp]: "Suc 0 < C" and C_ne1 [simp]: "C \<noteq> Suc 0"
  and of_nat_C: "(of_nat C :: u64) = 262144"
  and unat_of_nat_C [simp]: "unat (of_nat C :: u64) = C"
  by (simp_all add: flow_consts)

text \<open>The wheel and bucket that \<open>timer_start\<close> selects at tick \<open>T\<close> for a delay \<open>t\<close>.\<close>

definition start_slot :: "nat \<Rightarrow> nat \<Rightarrow> nat \<times> nat" where
  "start_slot T t =
     (if t < C then (0, (T mod C + t mod C) mod C)
      else (1, ((T div C) mod C + (t div C) mod C) mod C))"

text \<open>
  The position invariant at tick \<open>T\<close> of a timer due at tick \<open>D\<close>: in the first wheel it is in the
  bucket of its due tick, less than one turn ahead; in the second it is in a bucket that will be
  cascaded at tick \<open>k * C\<close>, not after the due tick and less than two turns before it.
\<close>

definition slot_ok :: "nat \<Rightarrow> nat \<Rightarrow> nat \<Rightarrow> nat \<Rightarrow> bool" where
  "slot_ok T w b D \<longleftrightarrow>
     (w = 0 \<and> T \<le> D \<and> D < T + C \<and> D mod C = b) \<or>
     (w = 1 \<and> (\<exists>k. k mod C = b \<and> T \<le> k * C \<and> k < T div C + C \<and> k * C \<le> D \<and> D < (k + 2) * C))"

lemma div_bounds:
  fixes T c :: nat
  assumes "0 < c"
  shows "(T div c) * c \<le> T" and "T < (T div c + 1) * c"
  using assms by (simp, metis Suc_eq_plus1 add.commute dividend_less_div_times mult.commute mult_Suc)

lemma slot_ok_start:
  assumes "t < C * C" and "start_slot T t = (w, b)"
  shows "slot_ok T w b (T + t)"
proof (cases "t < C")
  case True
  with assms show ?thesis by (auto simp: start_slot_def slot_ok_def mod_simps)
next
  case False
  let ?k = "T div C + t div C"
  have "1 \<le> t div C" using False by (simp add: Suc_le_eq div_greater_zero_iff)
  moreover have tC: "t div C < C" using assms(1) by (simp add: less_mult_imp_div_less)
  ultimately have k: "T div C + 1 \<le> ?k" "?k < T div C + C" by simp_all
  have T: "(T div C) * C \<le> T" "T < (T div C + 1) * C" and t: "(t div C) * C \<le> t" "t < (t div C + 1) * C"
    by (rule div_bounds, simp)+
  have "(T div C + 1) * C \<le> ?k * C" using k(1) by (rule mult_le_mono1)
  with T have "T \<le> ?k * C" by linarith
  moreover have "?k * C \<le> T + t" "T + t < (?k + 2) * C"
    using T t unfolding add_mult_distrib by linarith+
  ultimately have "slot_ok T 1 (?k mod C) (T + t)" using k(2) unfolding slot_ok_def by blast
  with False assms(2) show ?thesis by (auto simp: start_slot_def mod_add_eq)
qed

text \<open>
  Time may advance by one tick when the due timers of the current bucket, and on a turn of the
  first wheel those of the cascaded bucket, are gone.
\<close>

lemma slot_ok_advance:
  assumes ok: "slot_ok T w b D"
    and due: "w = 0 \<Longrightarrow> D \<noteq> T"
    and casc: "w = 1 \<Longrightarrow> T mod C = 0 \<Longrightarrow> b \<noteq> (T div C) mod C"
  shows "slot_ok (Suc T) w b D"
proof (cases "w = 0")
  case True
  with ok due show ?thesis by (auto simp: slot_ok_def)
next
  case False
  with ok obtain k where w: "w = 1" and k: "k mod C = b" "T \<le> k * C" "k < T div C + C"
    "k * C \<le> D" "D < (k + 2) * C" by (auto simp: slot_ok_def)
  have "T \<noteq> k * C" using casc [OF w] k(1) by auto
  then have "Suc T \<le> k * C" using k(2) by simp
  moreover have "k < Suc T div C + C" using k(3) div_le_mono [of T "Suc T" C] by linarith
  ultimately show ?thesis using w k unfolding slot_ok_def by blast
qed

text \<open>The bucket of the second wheel that is cascaded at tick \<open>T\<close> holds timers that are near.\<close>

lemma slot_ok_cascade:
  assumes "slot_ok T 1 ((T div C) mod C) D" and "T mod C = 0"
  shows "T \<le> D \<and> D - T < C * C \<and> fst (start_slot T (D - T)) = 0 \<or>
         T \<le> D \<and> D - T < C * C \<and> start_slot T (D - T) = (1, ((T div C) mod C + 1) mod C)"
proof -
  obtain k where k: "k mod C = (T div C) mod C" "T \<le> k * C" "k < T div C + C" "k * C \<le> D" "D < (k + 2) * C"
    using assms(1) by (auto simp: slot_ok_def)
  have TC: "T = (T div C) * C" using assms(2) by (simp add: mod_eq_0_iff_dvd)
  then have "T div C \<le> k" using k(2) by (metis C_pos mult_le_cancel2)
  then have "C dvd k - T div C" using k(1) by (simp add: mod_eq_dvd_iff_nat)
  moreover have "k - T div C < C" using k(3) C_pos by linarith
  ultimately have "k - T div C = 0" by (metis nat_dvd_not_less not_gr_zero)
  then have "k = T div C" using \<open>T div C \<le> k\<close> by simp
  then have D: "T \<le> D" "D < T + 2 * C" using k(4,5) TC by (auto simp: algebra_simps)
  have "2 * C \<le> C * C" by (simp add: flow_consts)
  then have DC: "D - T < C * C" using D by linarith
  show ?thesis
  proof (cases "D - T < C")
    case True
    then show ?thesis using D DC by (simp add: start_slot_def)
  next
    case False
    have "(D - T) div C = 1"
    proof (rule div_nat_eqI)
      show "C * 1 \<le> D - T" "D - T < C * Suc 1" using False D by simp_all
    qed
    then show ?thesis using False D DC by (simp add: start_slot_def)
  qed
qed


section \<open>Starting and stopping\<close>

lemma C_eq: "C = 2 ^ 18"
  by (simp add: flow_consts)

lemma C_bits [simp]: "2 ^ TIMER_WHEEL_BITS = C"
  by (simp add: TIMER_BUCKET_COUNT_def)

lemma unat_max_timeout: "unat TIMER_MAX_TIMEOUT = C * C - 1"
  by (simp add: flow_consts)

lemma cur_index_eq: "TIMER_WHEEL_CUR_INDEX mgr n = (now mgr div 2 ^ (18 * n)) mod C"
  by (simp add: TIMER_WHEEL_CUR_INDEX_def word_nat TIMER_WHEEL_BITS_def del: of_nat_numeral)

lemma cur_index_0 [simp]: "TIMER_WHEEL_CUR_INDEX mgr 0 = now mgr mod C"
  and cur_index_1 [simp]: "TIMER_WHEEL_CUR_INDEX mgr (Suc 0) = (now mgr div C) mod C"
  by (simp_all add: cur_index_eq C_eq)

text \<open>
  The wheel selection loop runs at most once: the guard on \<open>TIMER_MAX_TIMEOUT\<close> keeps the wheel
  index within the two wheels.
\<close>

lemma timer_start_loop_slot:
  assumes "timeout \<le> TIMER_MAX_TIMEOUT"
  obtains w cur bidx where
    "timer_start_loop mgr timeout 0 (TIMER_WHEEL_CUR_INDEX mgr 0) (unat (timeout mod of_nat C)) = (w, cur, bidx)"
    and "w < TIMER_WHEEL_COUNT" and "start_slot (now mgr) (unat timeout) = (w, (cur + bidx) mod C)"
proof -
  have lt: "unat timeout < C * C"
    using assms by (simp add: word_le_nat_alt unat_max_timeout flow_consts)
  have drop: "unat (drop_bit TIMER_WHEEL_BITS timeout) = unat timeout div C"
    by (simp add: word_nat C_eq TIMER_WHEEL_BITS_def)
  have small: "\<not> of_nat C \<le> drop_bit TIMER_WHEEL_BITS timeout"
    using lt by (simp add: word_le_nat_alt drop less_mult_imp_div_less linorder_not_le)
  show thesis
  proof (cases "unat timeout < C")
    case True
    then have "\<not> of_nat C \<le> timeout" by (simp add: word_le_nat_alt)
    then show thesis using True that
      by (simp add: timer_start_loop.simps [of mgr timeout] start_slot_def word_nat TIMER_WHEEL_COUNT_def)
  next
    case False
    then have "of_nat C \<le> timeout" by (simp add: word_le_nat_alt)
    then show thesis using False that small
      by (simp add: timer_start_loop.simps [of mgr timeout] timer_start_loop.simps [of mgr "drop_bit _ _"]
          Let_def start_slot_def word_nat drop TIMER_WHEEL_COUNT_def)
  qed
qed

lemma start_slot_bounds: "start_slot T t = (w, b) \<Longrightarrow> w < TIMER_WHEEL_COUNT \<and> b < C"
  by (auto simp: start_slot_def TIMER_WHEEL_COUNT_def split: if_splits)

text \<open>What \<open>timer_start\<close> does to the node of the timer and to its bucket.\<close>

lemma timer_start_represents:
  assumes r: "represents mgr L" and new: "\<not> in_wheel L t"
    and cb: "cb \<noteq> None" and to: "timeout \<le> TIMER_MAX_TIMEOUT"
    and slot: "start_slot (now mgr) (unat timeout) = (w, b)"
  shows "fst (timer_start mgr (TTimer t) cb args timeout rpt) = 0"
    and "represents (snd (timer_start mgr (TTimer t) cb args timeout rpt)) (push_timer w b t L)"
proof -
  obtain w' cur bidx where
    loop: "timer_start_loop mgr timeout 0 (TIMER_WHEEL_CUR_INDEX mgr 0) (unat (timeout mod of_nat C)) = (w', cur, bidx)"
    and w': "w' < TIMER_WHEEL_COUNT" and s: "start_slot (now mgr) (unat timeout) = (w', (cur + bidx) mod C)"
    using timer_start_loop_slot [OF to] by blast
  have wb: "w = w'" "b = (cur + bidx) mod C" using s slot by auto
  have bl: "b < C" using start_slot_bounds [OF slot] by simp
  let ?mem = "(mgr_mem mgr)(TTimer t := (mgr_mem mgr (TTimer t))\<lparr>tm_cb := cb, tm_cb_args := args,
            tm_timeout := (if mgr_timeout mgr + timeout < timeout then NOT 0 else mgr_timeout mgr + timeout),
            tm_repeat := rpt\<rparr>)"
  have eq: "timer_start mgr (TTimer t) cb args timeout rpt =
     (0, mgr\<lparr>mgr_mem := bucket_insert_tail ?mem (TBucket w b) (TTimer t)\<rparr>)"
    unfolding timer_start_def Let_def loop prod.case wb
    using cb to w' by (simp add: linorder_not_le linorder_not_less)
  show "fst (timer_start mgr (TTimer t) cb args timeout rpt) = 0" by (simp add: eq)
  have "represents (mgr\<lparr>mgr_mem := bucket_insert_tail ?mem (TBucket w b) (TTimer t)\<rparr>) (push_timer w b t L)"
    by (rule represents_insert [OF r new]) (use w' bl wb in auto)
  then show "represents (snd (timer_start mgr (TTimer t) cb args timeout rpt)) (push_timer w b t L)"
    by (simp add: eq)
qed


lemma bucket_insert_tail_data [simp]:
  "tm_cb (bucket_insert_tail m b t q) = tm_cb (m q)"
  "tm_cb_args (bucket_insert_tail m b t q) = tm_cb_args (m q)"
  "tm_timeout (bucket_insert_tail m b t q) = tm_timeout (m q)"
  "tm_repeat (bucket_insert_tail m b t q) = tm_repeat (m q)"
  by (auto simp: bucket_insert_tail_def Let_def)

definition clamped :: "flowQoS_timer_mgr \<Rightarrow> u64 \<Rightarrow> u64" where
  "clamped mgr timeout =
     (if mgr_timeout mgr + timeout < timeout then NOT 0 else mgr_timeout mgr + timeout)"

lemma timer_start_clock [simp]:
  "mgr_timeout (snd (timer_start mgr t cb args timeout rpt)) = mgr_timeout mgr"
  "mgr_startStmp (snd (timer_start mgr t cb args timeout rpt)) = mgr_startStmp mgr"
  by (simp_all add: timer_start_def Let_def split: prod.split)

lemma timer_start_data:
  assumes "cb \<noteq> None" and "timeout \<le> TIMER_MAX_TIMEOUT"
  shows "tm_cb (mgr_mem (snd (timer_start mgr t cb args timeout rpt)) q) =
           (if q = t then cb else tm_cb (mgr_mem mgr q))"
    and "tm_cb_args (mgr_mem (snd (timer_start mgr t cb args timeout rpt)) q) =
           (if q = t then args else tm_cb_args (mgr_mem mgr q))"
    and "tm_timeout (mgr_mem (snd (timer_start mgr t cb args timeout rpt)) q) =
           (if q = t then clamped mgr timeout else tm_timeout (mgr_mem mgr q))"
    and "tm_repeat (mgr_mem (snd (timer_start mgr t cb args timeout rpt)) q) =
           (if q = t then rpt else tm_repeat (mgr_mem mgr q))"
  using assms
  by (auto simp: timer_start_def Let_def clamped_def linorder_not_less split: prod.split)

lemma clamped_exact:
  assumes "now mgr + unat timeout < 2 ^ 64"
  shows "unat (clamped mgr timeout) = now mgr + unat timeout"
proof -
  have "unat (mgr_timeout mgr + timeout) = now mgr + unat timeout"
    using assms by (intro unat_plus_exact) simp
  then show ?thesis by (simp add: clamped_def word_less_nat_alt)
qed

text \<open>A cascaded timer keeps its due tick, whatever the clock: the delay is a difference.\<close>

lemma clamped_rest:
  assumes "mgr_timeout mgr \<le> d"
  shows "clamped mgr (d - mgr_timeout mgr) = d"
proof -
  have "\<not> d < d - mgr_timeout mgr"
    using assms by (simp add: linorder_not_less word_le_nat_alt unat_sub)
  then show ?thesis by (simp add: clamped_def)
qed

section \<open>The invariant\<close>

definition timer_ok :: "flowQoS_timer_mgr \<Rightarrow> nat \<Rightarrow> bool" where
  "timer_ok mgr t \<longleftrightarrow> tm_cb (mgr_mem mgr (TTimer t)) \<noteq> None \<and>
                     tm_repeat (mgr_mem mgr (TTimer t)) \<le> TIMER_MAX_TIMEOUT"

definition positions :: "flowQoS_timer_mgr \<Rightarrow> wheel_lists \<Rightarrow> bool" where
  "positions mgr L \<longleftrightarrow>
     (\<forall>w b t. t \<in> set (L w b) \<longrightarrow> slot_ok (now mgr) w b (due mgr t) \<and> timer_ok mgr t)"

definition wheel_inv :: "flowQoS_timer_mgr \<Rightarrow> bool" where
  "wheel_inv mgr \<longleftrightarrow> (\<exists>L. represents mgr L \<and> positions mgr L)"

text \<open>The abstract state: the due tick of every armed timer.\<close>

definition armed :: "flowQoS_timer_mgr \<Rightarrow> nat \<Rightarrow> nat option" where
  "armed mgr t = (if linked mgr t then Some (due mgr t) else None)"

definition same_data :: "flowQoS_timer_mgr \<Rightarrow> flowQoS_timer_mgr \<Rightarrow> nat \<Rightarrow> bool" where
  "same_data mgr mgr' t \<longleftrightarrow>
     tm_cb (mgr_mem mgr' (TTimer t)) = tm_cb (mgr_mem mgr (TTimer t)) \<and>
     tm_cb_args (mgr_mem mgr' (TTimer t)) = tm_cb_args (mgr_mem mgr (TTimer t)) \<and>
     tm_timeout (mgr_mem mgr' (TTimer t)) = tm_timeout (mgr_mem mgr (TTimer t)) \<and>
     tm_repeat (mgr_mem mgr' (TTimer t)) = tm_repeat (mgr_mem mgr (TTimer t))"

lemma same_data_refl [simp]: "same_data mgr mgr t"
  by (simp add: same_data_def)

lemma same_data_trans: "same_data a b t \<Longrightarrow> same_data b c t \<Longrightarrow> same_data a c t"
  by (simp add: same_data_def)

lemma same_data_stop [simp]: "same_data mgr (snd (timer_stop mgr q)) t"
  by (simp add: same_data_def)

lemma positions_drop:
  "positions mgr L \<Longrightarrow> positions (snd (timer_stop mgr q)) (drop_timer t L)"
  by (auto simp: positions_def drop_timer_def timer_ok_def)

lemma positions_push:
  assumes pos: "positions mgr L" and new: "\<not> in_wheel L t"
    and cb: "cb \<noteq> None" and to: "timeout \<le> TIMER_MAX_TIMEOUT" and rpt: "rpt \<le> TIMER_MAX_TIMEOUT"
    and slot: "start_slot (now mgr) (unat timeout) = (w, b)"
    and cl: "unat (clamped mgr timeout) = now mgr + unat timeout"
  shows "positions (snd (timer_start mgr (TTimer t) cb args timeout rpt)) (push_timer w b t L)"
proof -
  note d = timer_start_data [OF cb to]
  have "unat timeout < C * C" using to by (simp add: word_le_nat_alt unat_max_timeout flow_consts)
  then have "slot_ok (now mgr) w b (now mgr + unat timeout)" using slot by (rule slot_ok_start)
  moreover have "u \<noteq> t" if "u \<in> set (L w' b')" for u w' b' using new that by (auto simp: in_wheel_def)
  ultimately show ?thesis
    using pos cb rpt unfolding positions_def push_timer_def timer_ok_def
    by (auto simp: d cl split: if_splits)
qed

section \<open>Cascading\<close>

lemma start_slot_not_cascaded:
  assumes "t < C * C"
  shows "start_slot T t \<noteq> (1, (T div C) mod C)"
proof
  assume eq: "start_slot T t = (1, (T div C) mod C)"
  then have "\<not> t < C" by (auto simp: start_slot_def)
  then have ge: "0 < t div C" by (simp add: div_greater_zero_iff)
  have lt: "t div C < C" using assms by (simp add: less_mult_imp_div_less)
  have "(T div C + t div C) mod C = (T div C) mod C"
    using eq \<open>\<not> t < C\<close> by (simp add: start_slot_def mod_simps)
  then have "C dvd t div C" by (metis add_diff_cancel_left' le_add1 mod_eq_dvd_iff_nat)
  with ge lt show False by (metis nat_dvd_not_less)
qed

lemma start_slot_not_current:
  assumes "0 < t"
  shows "start_slot T t \<noteq> (0, T mod C)"
proof
  assume eq: "start_slot T t = (0, T mod C)"
  then have lt: "t < C" by (auto simp: start_slot_def split: if_splits)
  have "(T + t) mod C = T mod C" using eq lt by (simp add: start_slot_def mod_simps)
  then have "C dvd t" by (metis add_diff_cancel_left' le_add1 mod_eq_dvd_iff_nat)
  with lt assms show False by (metis nat_dvd_not_less)
qed

lemma bucket_next:
  assumes r: "represents mgr L" and "w < TIMER_WHEEL_COUNT" and "b < C" and "L w b = t # ts"
  shows "tm_next (mgr_mem mgr (TTimer t)) = hd (map TTimer ts @ [TBucket w b])"
proof -
  have "dll (mgr_mem mgr) (TBucket w b) ([] @ TTimer t # map TTimer ts)"
    using representsD(1) [OF r assms(2,3)] assms(4) by simp
  then show ?thesis by (rule dll_next_member)
qed

lemma bucket_first:
  assumes r: "represents mgr L" and "w < TIMER_WHEEL_COUNT" and "b < C"
  shows "tm_next (mgr_mem mgr (TBucket w b)) = hd (map TTimer (L w b) @ [TBucket w b])"
  using representsD(1) [OF assms] by (rule dll_next_head)

lemma timer_cascade_loop_correct:
  assumes "represents mgr L" and "positions mgr L"
    and b: "b = (now mgr div C) mod C" and turn: "now mgr mod C = 0" and "L 1 b = ts"
  shows "\<exists>mgr' L'. timer_cascade_loop (TBucket 1 b) (hd (map TTimer ts @ [TBucket 1 b])) mgr = Some mgr' \<and>
           represents mgr' L' \<and> positions mgr' L' \<and> L' 1 b = [] \<and> in_wheel L' = in_wheel L \<and>
           mgr_timeout mgr' = mgr_timeout mgr \<and> mgr_startStmp mgr' = mgr_startStmp mgr \<and>
           (\<forall>t. same_data mgr mgr' t)"
  using assms
proof (induction ts arbitrary: mgr L)
  case Nil
  have "timer_cascade_loop (TBucket 1 b) (hd (map TTimer [] @ [TBucket 1 b])) mgr = Some mgr"
    by (subst timer_cascade_loop.simps) simp
  with Nil show ?case by (intro exI [of _ mgr] exI [of _ L]) (simp del: One_nat_def)
next
  case (Cons t ts)
  note r = Cons.prems(1) and pos = Cons.prems(2)
  have bC: "b < C" using Cons.prems(3) by simp
  have w1: "1 < TIMER_WHEEL_COUNT" by (simp add: TIMER_WHEEL_COUNT_def)
  have t_in: "t \<in> set (L 1 b)" using Cons.prems(5) by simp
  have ok: "slot_ok (now mgr) 1 b (due mgr t)" "timer_ok mgr t"
    using pos t_in by (auto simp: positions_def)
  have near: "now mgr \<le> due mgr t" "due mgr t - now mgr < C * C"
    using slot_ok_cascade [OF ok(1) [unfolded Cons.prems(3)] Cons.prems(4)] by auto
  define rest where "rest = tm_timeout (mgr_mem mgr (TTimer t)) - mgr_timeout mgr"
  have le: "mgr_timeout mgr \<le> tm_timeout (mgr_mem mgr (TTimer t))"
    using near(1) by (simp add: word_le_nat_alt)
  then have rest: "unat rest = due mgr t - now mgr" by (simp add: rest_def unat_sub)
  have rest_max: "rest \<le> TIMER_MAX_TIMEOUT"
    using near(2) by (simp add: word_le_nat_alt rest unat_max_timeout)
  obtain w' b' where slot: "start_slot (now mgr) (unat rest) = (w', b')" by force
  let ?m1 = "snd (timer_stop mgr (TTimer t))"
  let ?n = "mgr_mem mgr (TTimer t)"
  let ?m2 = "snd (timer_start ?m1 (TTimer t) (tm_cb ?n) (tm_cb_args ?n) rest (tm_repeat ?n))"
  let ?L1 = "drop_timer t L" and ?L2 = "push_timer w' b' t (drop_timer t L)"
  have cb: "tm_cb ?n \<noteq> None" and rp: "tm_repeat ?n \<le> TIMER_MAX_TIMEOUT"
    using ok(2) by (auto simp: timer_ok_def)
  have r1: "represents ?m1 ?L1" by (rule represents_stop [OF r])
  have p1: "positions ?m1 ?L1" by (rule positions_drop [OF pos])
  have new: "\<not> in_wheel ?L1 t" by simp
  have slot1: "start_slot (now ?m1) (unat rest) = (w', b')" using slot by simp
  have cl: "clamped ?m1 rest = tm_timeout ?n"
    using clamped_rest [of ?m1] le by (simp add: rest_def)
  have r2: "represents ?m2 ?L2" by (rule timer_start_represents(2) [OF r1 new cb rest_max slot1])
  have p2: "positions ?m2 ?L2"
    by (rule positions_push [OF p1 new cb rest_max rp slot1]) (use cl near rest in simp)
  have sd: "same_data mgr ?m2 u" for u
    by (auto simp: same_data_def timer_start_data [OF cb rest_max] cl)
  have "(w', b') \<noteq> (1, b)"
    using start_slot_not_cascaded [OF near(2), of "now mgr"] slot rest Cons.prems(3) by metis
  moreover have "removeAll t (L 1 b) = ts"
    using represents_distinct [OF r, of 1 b] Cons.prems(5) by simp
  ultimately have L2: "?L2 1 b = ts" by (auto simp: push_timer_def drop_timer_def)
  have "timer_cascade_loop (TBucket 1 b) (TTimer t) mgr =
        timer_cascade_loop (TBucket 1 b) (hd (map TTimer ts @ [TBucket 1 b])) ?m2"
    using le bucket_next [OF r w1 bC Cons.prems(5)]
    by (subst timer_cascade_loop.simps) (simp add: rest_def linorder_not_less [symmetric])
  moreover have "b = (now ?m2 div C) mod C" "now ?m2 mod C = 0" using Cons.prems(3,4) by simp_all
  moreover have "in_wheel ?L2 = in_wheel L"
    using t_in by (auto simp: fun_eq_iff) (auto simp: in_wheel_def)
  ultimately show ?case
    using Cons.IH [OF r2 p2 _ _ L2] sd by simp (blast intro: same_data_trans)
qed


text \<open>The cascade of a turn, in the form \<open>timer_tick\<close> uses it.\<close>

lemma timer_tick_cascade_correct:
  assumes r: "represents mgr L" and pos: "positions mgr L" and turn: "now mgr mod C = 0"
  shows "\<exists>mgr' L'. timer_tick_cascade 1 mgr = Some mgr' \<and>
           represents mgr' L' \<and> positions mgr' L' \<and> L' 1 ((now mgr div C) mod C) = [] \<and>
           in_wheel L' = in_wheel L \<and> mgr_timeout mgr' = mgr_timeout mgr \<and>
           mgr_startStmp mgr' = mgr_startStmp mgr \<and> (\<forall>t. same_data mgr mgr' t)"
proof -
  let ?b = "(now mgr div C) mod C"
  have w1: "1 < TIMER_WHEEL_COUNT" by (simp add: TIMER_WHEEL_COUNT_def)
  obtain mgr' L' where
    loop: "timer_cascade_loop (TBucket 1 ?b) (hd (map TTimer (L 1 ?b) @ [TBucket 1 ?b])) mgr = Some mgr'"
    and res: "represents mgr' L'" "positions mgr' L'" "L' 1 ?b = []" "in_wheel L' = in_wheel L"
      "mgr_timeout mgr' = mgr_timeout mgr" "mgr_startStmp mgr' = mgr_startStmp mgr" "\<forall>t. same_data mgr mgr' t"
    using timer_cascade_loop_correct [OF r pos refl turn refl] by blast
  have "tm_next (mgr_mem mgr (TBucket 1 ?b)) = hd (map TTimer (L 1 ?b) @ [TBucket 1 ?b])"
    by (rule bucket_first [OF r w1]) simp
  then have "timer_cascade mgr 1 (TIMER_WHEEL_CUR_INDEX mgr 1) = Some (?b, mgr')"
    using loop by (simp add: timer_cascade_def Let_def)
  moreover have "timer_tick_cascade (Suc 1) mgr' = Some mgr'"
    by (simp add: timer_tick_cascade.simps TIMER_WHEEL_COUNT_def)
  ultimately have "timer_tick_cascade 1 mgr = Some mgr'"
    using w1 by (subst timer_tick_cascade.simps) simp
  with res show ?thesis by blast
qed

section \<open>Firing\<close>

text \<open>One turn of the loop of \<open>timer_tick\<close>: stop, restart if periodic.\<close>

definition fire_one :: "flowQoS_timer_mgr \<Rightarrow> nat \<Rightarrow> flowQoS_timer_mgr" where
  "fire_one mgr t = snd (timer_again (snd (timer_stop mgr (TTimer t))) (TTimer t))"

text \<open>What one fired timer leaves: disarmed, or armed again one period later.\<close>

definition after_fire :: "flowQoS_timer_mgr \<Rightarrow> nat \<Rightarrow> nat option" where
  "after_fire mgr t =
     (let rpt = tm_repeat (mgr_mem mgr (TTimer t)) in
      if rpt = 0 then None else Some (now mgr + unat rpt))"

lemma fire_one_correct:
  assumes r: "represents mgr L" and pos: "positions mgr L" and wrap: "now mgr + C * C \<le> 2 ^ 64"
    and ok: "timer_ok mgr t"
  shows "\<exists>L'. represents (fire_one mgr t) L' \<and> positions (fire_one mgr t) L' \<and>
           L' 0 (now mgr mod C) = removeAll t (L 0 (now mgr mod C)) \<and>
           L' 1 ((now mgr div C) mod C) = removeAll t (L 1 ((now mgr div C) mod C)) \<and>
           (\<forall>u. u \<noteq> t \<longrightarrow> in_wheel L' u = in_wheel L u) \<and>
           in_wheel L' t = (after_fire mgr t \<noteq> None) \<and>
           (\<forall>d. after_fire mgr t = Some d \<longrightarrow> due (fire_one mgr t) t = d)"
    and "mgr_timeout (fire_one mgr t) = mgr_timeout mgr"
    and "\<And>u. u \<noteq> t \<Longrightarrow> same_data mgr (fire_one mgr t) u"
    and "tm_cb (mgr_mem (fire_one mgr t) (TTimer t)) = tm_cb (mgr_mem mgr (TTimer t))"
    and "tm_cb_args (mgr_mem (fire_one mgr t) (TTimer t)) = tm_cb_args (mgr_mem mgr (TTimer t))"
    and "mgr_startStmp (fire_one mgr t) = mgr_startStmp mgr"
proof -
  let ?m1 = "snd (timer_stop mgr (TTimer t))" and ?n = "mgr_mem mgr (TTimer t)"
  let ?m2 = "snd (timer_stop ?m1 (TTimer t))"
  let ?m3 = "snd (timer_start ?m2 (TTimer t) (tm_cb ?n) (tm_cb_args ?n) (tm_repeat ?n) (tm_repeat ?n))"
  let ?L1 = "drop_timer t L"
  have cb: "tm_cb ?n \<noteq> None" and rp: "tm_repeat ?n \<le> TIMER_MAX_TIMEOUT"
    using ok by (auto simp: timer_ok_def)
  have r1: "represents ?m1 ?L1" and p1: "positions ?m1 ?L1"
    using represents_stop [OF r] positions_drop [OF pos] by auto
  have m2: "?m2 = ?m1"
    using representsD(4) [OF r1, of t] by (intro timer_stop_unlinked) auto
  have fire: "fire_one mgr t = (if tm_repeat ?n = 0 then ?m1 else ?m3)"
    using cb by (auto simp: fire_one_def timer_again_def Let_def)
  note d = timer_start_data [OF cb rp]
  show "mgr_timeout (fire_one mgr t) = mgr_timeout mgr" "mgr_startStmp (fire_one mgr t) = mgr_startStmp mgr"
    by (simp_all add: fire)
  show "same_data mgr (fire_one mgr t) u" if "u \<noteq> t" for u
    using that by (simp add: fire same_data_def d)
  show "tm_cb (mgr_mem (fire_one mgr t) (TTimer t)) = tm_cb ?n"
    "tm_cb_args (mgr_mem (fire_one mgr t) (TTimer t)) = tm_cb_args ?n"
    by (simp_all add: fire d)
  show "\<exists>L'. represents (fire_one mgr t) L' \<and> positions (fire_one mgr t) L' \<and>
           L' 0 (now mgr mod C) = removeAll t (L 0 (now mgr mod C)) \<and>
           L' 1 ((now mgr div C) mod C) = removeAll t (L 1 ((now mgr div C) mod C)) \<and>
           (\<forall>u. u \<noteq> t \<longrightarrow> in_wheel L' u = in_wheel L u) \<and>
           in_wheel L' t = (after_fire mgr t \<noteq> None) \<and>
           (\<forall>d. after_fire mgr t = Some d \<longrightarrow> due (fire_one mgr t) t = d)"
  proof (cases "tm_repeat ?n = 0")
    case True
    then show ?thesis using r1 p1
      by (intro exI [of _ ?L1]) (auto simp: fire after_fire_def drop_timer_apply)
  next
    case False
    obtain w b where slot: "start_slot (now mgr) (unat (tm_repeat ?n)) = (w, b)" by force
    have lt: "unat (tm_repeat ?n) < C * C"
      using rp by (simp add: word_le_nat_alt unat_max_timeout flow_consts)
    have pos_rp: "0 < unat (tm_repeat ?n)" using False by (simp add: unat_gt_0)
    have ne: "(w, b) \<noteq> (0, now mgr mod C)" "(w, b) \<noteq> (1, (now mgr div C) mod C)"
      using start_slot_not_current [OF pos_rp] start_slot_not_cascaded [OF lt] slot by metis+
    have slot2: "start_slot (now ?m2) (unat (tm_repeat ?n)) = (w, b)" using slot by simp
    have cl: "unat (clamped ?m2 (tm_repeat ?n)) = now ?m2 + unat (tm_repeat ?n)"
      using wrap lt by (intro clamped_exact) simp
    have new: "\<not> in_wheel ?L1 t" by simp
    have "represents ?m3 (push_timer w b t ?L1)"
      using timer_start_represents(2) [OF _ new cb rp slot2] r1 m2 by simp
    moreover have "positions ?m3 (push_timer w b t ?L1)"
      using positions_push [OF _ new cb rp rp slot2 cl] p1 m2 by simp
    moreover have "due (fire_one mgr t) t = now mgr + unat (tm_repeat ?n)"
      using False cl by (simp add: fire d)
    ultimately show ?thesis using False ne
      by (intro exI [of _ "push_timer w b t ?L1"])
         (auto simp: fire after_fire_def Let_def push_timer_apply drop_timer_apply)
  qed
qed


definition fire_cb :: "(nat \<Rightarrow> nat \<Rightarrow> 'w \<Rightarrow> 'w) \<Rightarrow> flowQoS_timer_mgr \<Rightarrow> nat \<Rightarrow> 'w \<Rightarrow> 'w" where
  "fire_cb run mgr t =
     run (the (tm_cb (mgr_mem mgr (TTimer t)))) (tm_cb_args (mgr_mem mgr (TTimer t)))"

lemma fire_cb_same: "same_data mgr mgr' t \<Longrightarrow> fire_cb run mgr' t = fire_cb run mgr t"
  by (simp add: fire_cb_def same_data_def fun_eq_iff)

lemma after_fire_same:
  "same_data mgr mgr' t \<Longrightarrow> mgr_timeout mgr' = mgr_timeout mgr \<Longrightarrow> after_fire mgr' t = after_fire mgr t"
  by (simp add: after_fire_def same_data_def cong: if_cong)

lemma due_same: "same_data mgr mgr' t \<Longrightarrow> due mgr' t = due mgr t"
  by (simp add: same_data_def)

definition fired_state :: "flowQoS_timer_mgr \<Rightarrow> flowQoS_timer_mgr \<Rightarrow> wheel_lists \<Rightarrow> nat \<Rightarrow> bool" where
  "fired_state mgr mgr' L' u \<longleftrightarrow>
     in_wheel L' u = (after_fire mgr u \<noteq> None) \<and> (\<forall>d. after_fire mgr u = Some d \<longrightarrow> due mgr' u = d)"

lemma timer_tick_loop_correct:
  assumes "represents mgr L" and "positions mgr L" and "now mgr + C * C \<le> 2 ^ 64"
    and "b = now mgr mod C" and "L 0 b = ts"
  shows "\<exists>mgr' L'.
     timer_tick_loop run (TBucket 0 b) (hd (map TTimer ts @ [TBucket 0 b])) mgr w res =
       Some (res + length ts, mgr', fold (fire_cb run mgr) ts w) \<and>
     represents mgr' L' \<and> positions mgr' L' \<and> L' 0 b = [] \<and>
     set (L' 1 ((now mgr div C) mod C)) \<subseteq> set (L 1 ((now mgr div C) mod C)) \<and>
     mgr_timeout mgr' = mgr_timeout mgr \<and> mgr_startStmp mgr' = mgr_startStmp mgr \<and>
     (\<forall>u. u \<notin> set ts \<longrightarrow> in_wheel L' u = in_wheel L u \<and> same_data mgr mgr' u) \<and>
     (\<forall>u \<in> set ts. fired_state mgr mgr' L' u)"
  using assms
proof (induction ts arbitrary: mgr L w res)
  case Nil
  have "timer_tick_loop run (TBucket 0 b) (hd (map TTimer [] @ [TBucket 0 b])) mgr w res = Some (res, mgr, w)"
    by (subst timer_tick_loop.simps) simp
  with Nil show ?case by (intro exI [of _ mgr] exI [of _ L]) simp
next
  case (Cons t ts)
  note r = Cons.prems(1) and pos = Cons.prems(2) and wrap = Cons.prems(3) and b = Cons.prems(4)
  have w0: "0 < TIMER_WHEEL_COUNT" and bC: "b < C" using b by (simp_all add: TIMER_WHEEL_COUNT_def)
  have "t \<in> set (L 0 b)" using Cons.prems(5) by simp
  then have ok: "timer_ok mgr t" using pos by (auto simp: positions_def)
  then obtain f where f: "tm_cb (mgr_mem mgr (TTimer t)) = Some f" by (auto simp: timer_ok_def)
  note one = fire_one_correct [OF r pos wrap ok]
  let ?m = "fire_one mgr t"
  obtain L2 where r2: "represents ?m L2" and p2: "positions ?m L2"
    and L2b: "L2 0 (now mgr mod C) = removeAll t (L 0 (now mgr mod C))"
    and L2c: "L2 1 ((now mgr div C) mod C) = removeAll t (L 1 ((now mgr div C) mod C))"
    and oth: "\<forall>u. u \<noteq> t \<longrightarrow> in_wheel L2 u = in_wheel L u"
    and self: "in_wheel L2 t = (after_fire mgr t \<noteq> None)" "\<forall>d. after_fire mgr t = Some d \<longrightarrow> due ?m t = d"
    using one(1) by blast
  have dist: "distinct (t # ts)" using represents_distinct [OF r, of 0 b] Cons.prems(5) by simp
  have L2ts: "L2 0 b = ts" using L2b b Cons.prems(5) dist by simp
  obtain mgr' L' where
    loop: "timer_tick_loop run (TBucket 0 b) (hd (map TTimer ts @ [TBucket 0 b])) ?m (fire_cb run mgr t w) (Suc res) =
       Some (Suc res + length ts, mgr', fold (fire_cb run ?m) ts (fire_cb run mgr t w))"
    and r': "represents mgr' L'" "positions mgr' L'" "L' 0 b = []"
      "set (L' 1 ((now mgr div C) mod C)) \<subseteq> set (L2 1 ((now mgr div C) mod C))"
      "mgr_timeout mgr' = mgr_timeout mgr" "mgr_startStmp mgr' = mgr_startStmp mgr"
    and out: "\<forall>u. u \<notin> set ts \<longrightarrow> in_wheel L' u = in_wheel L2 u \<and> same_data ?m mgr' u"
    and ins: "\<forall>u \<in> set ts. fired_state ?m mgr' L' u"
    using Cons.IH [OF r2 p2, of "fire_cb run mgr t w" "Suc res"] wrap b L2ts
    by (auto simp: one(2,6))
  have same: "same_data mgr ?m u" if "u \<in> set ts" for u using that dist by (intro one(3)) auto
  have "fold (fire_cb run ?m) ts (fire_cb run mgr t w) = fold (fire_cb run mgr) (t # ts) w"
    using fold_cong [OF refl refl, of ts "fire_cb run ?m" "fire_cb run mgr"] same by (simp add: fire_cb_same)
  moreover have "timer_tick_loop run (TBucket 0 b) (TTimer t) mgr w res =
     timer_tick_loop run (TBucket 0 b) (hd (map TTimer ts @ [TBucket 0 b])) ?m (fire_cb run mgr t w) (Suc res)"
    using one(4,5) bucket_next [OF r w0 bC Cons.prems(5)] f
    by (subst timer_tick_loop.simps) (simp add: fire_one_def fire_cb_def)
  ultimately have run: "timer_tick_loop run (TBucket 0 b) (hd (map TTimer (t # ts) @ [TBucket 0 b])) mgr w res =
       Some (res + length (t # ts), mgr', fold (fire_cb run mgr) (t # ts) w)"
    using loop by simp
  have "in_wheel L' u = in_wheel L u \<and> same_data mgr mgr' u" if "u \<notin> set (t # ts)" for u
    using that out oth one(3) by (auto intro: same_data_trans)
  moreover have "fired_state mgr mgr' L' u" if u: "u \<in> set (t # ts)" for u
  proof (cases "u = t")
    case True
    then have "in_wheel L' t = in_wheel L2 t" "due mgr' t = due ?m t"
      using dist out by (auto simp: due_same)
    then show ?thesis using True self by (simp add: fired_state_def)
  next
    case False
    then have "u \<in> set ts" using u by simp
    then have "fired_state ?m mgr' L' u" "after_fire ?m u = after_fire mgr u"
      using ins same one(2) by (auto intro: after_fire_same)
    then show ?thesis by (simp add: fired_state_def)
  qed
  ultimately show ?case using run r' L2c by (intro exI [of _ mgr'] exI [of _ L']) auto
qed


section \<open>A tick\<close>

lemma slot_ok_due_now:
  assumes "slot_ok T w b T"
  shows "w = 0 \<and> b = T mod C \<or> w = 1 \<and> T mod C = 0 \<and> b = (T div C) mod C"
proof (cases "w = 0")
  case False
  then obtain k where k: "w = 1" "k mod C = b" "T \<le> k * C" "k * C \<le> T" using assms by (auto simp: slot_ok_def)
  then have "T = k * C" by simp
  with k show ?thesis by simp
qed (use assms in \<open>auto simp: slot_ok_def\<close>)

lemma slot_ok_current:
  assumes "slot_ok T 0 (T mod C) D"
  shows "D = T"
proof -
  have le: "T \<le> D" "D < T + C" "D mod C = T mod C" using assms by (auto simp: slot_ok_def)
  then have "C dvd D - T" by (simp add: mod_eq_dvd_iff_nat)
  moreover have "D - T < C" using le C_pos by linarith
  ultimately have "D - T = 0" by (metis nat_dvd_not_less not_gr_zero)
  with le show ?thesis by simp
qed

text \<open>The state after the optional cascade, in which the timers due now are in one bucket.\<close>

lemma tick_cascade_phase:
  assumes r: "represents mgr L" and pos: "positions mgr L"
  obtains mgr1 L1 where
    "(if unat (mgr_timeout mgr mod of_nat C) = 0 then timer_tick_cascade 1 mgr else Some mgr) = Some mgr1"
    and "represents mgr1 L1" and "positions mgr1 L1"
    and "now mgr mod C = 0 \<longrightarrow> L1 1 ((now mgr div C) mod C) = []"
    and "in_wheel L1 = in_wheel L" and "mgr_timeout mgr1 = mgr_timeout mgr"
    and "mgr_startStmp mgr1 = mgr_startStmp mgr" and "\<And>t. same_data mgr mgr1 t"
proof (cases "now mgr mod C = 0")
  case True
  then show thesis using timer_tick_cascade_correct [OF r pos True] that by (auto simp: word_nat)
next
  case False
  then show thesis using r pos that [of mgr L] by (simp add: word_nat)
qed

lemma due_bucket:
  assumes r: "represents mgr L" and pos: "positions mgr L"
    and casc: "now mgr mod C = 0 \<Longrightarrow> L 1 ((now mgr div C) mod C) = []"
  shows "t \<in> set (L 0 (now mgr mod C)) \<longleftrightarrow> in_wheel L t \<and> due mgr t = now mgr"
proof
  assume t: "t \<in> set (L 0 (now mgr mod C))"
  then have "slot_ok (now mgr) 0 (now mgr mod C) (due mgr t)" using pos by (auto simp: positions_def)
  then show "in_wheel L t \<and> due mgr t = now mgr" using t by (auto simp: in_wheel_def dest: slot_ok_current)
next
  assume t: "in_wheel L t \<and> due mgr t = now mgr"
  then obtain w b where wb: "t \<in> set (L w b)" by (auto simp: in_wheel_def)
  then have "slot_ok (now mgr) w b (now mgr)" using pos t unfolding positions_def by metis
  then show "t \<in> set (L 0 (now mgr mod C))" using slot_ok_due_now wb casc by fastforce
qed

lemma timer_tick_correct:
  assumes inv: "wheel_inv mgr" and wrap: "now mgr + C * C \<le> 2 ^ 64"
  shows "\<exists>mgr' fired.
     timer_tick run mgr w = Some (length fired, mgr', fold (fire_cb run mgr) fired w) \<and>
     distinct fired \<and> set fired = {t. armed mgr t = Some (now mgr)} \<and>
     wheel_inv mgr' \<and> now mgr' = Suc (now mgr) \<and> mgr_startStmp mgr' = mgr_startStmp mgr \<and>
     (\<forall>t. armed mgr' t = (if armed mgr t = Some (now mgr) then after_fire mgr t else armed mgr t)) \<and>
     (\<forall>t. armed mgr t \<noteq> Some (now mgr) \<longrightarrow> same_data mgr mgr' t)"
proof -
  obtain L where r: "represents mgr L" and pos: "positions mgr L" using inv by (auto simp: wheel_inv_def)
  obtain mgr1 L1 where casc:
    "(if unat (mgr_timeout mgr mod of_nat C) = 0 then timer_tick_cascade 1 mgr else Some mgr) = Some mgr1"
    and r1: "represents mgr1 L1" and p1: "positions mgr1 L1"
    and empty: "now mgr mod C = 0 \<longrightarrow> L1 1 ((now mgr div C) mod C) = []"
    and in1: "in_wheel L1 = in_wheel L" and T1: "mgr_timeout mgr1 = mgr_timeout mgr"
    "mgr_startStmp mgr1 = mgr_startStmp mgr" and sd1: "\<And>t. same_data mgr mgr1 t"
    using tick_cascade_phase [OF r pos] by blast
  define b where "b = now mgr mod C"
  have bidx: "unat (mgr_timeout mgr mod of_nat C) = b" by (simp add: word_nat b_def)
  let ?ts = "L1 0 b"
  obtain mgr2 L2 where
    loop: "timer_tick_loop run (TBucket 0 b) (hd (map TTimer ?ts @ [TBucket 0 b])) mgr1 w 0 =
       Some (0 + length ?ts, mgr2, fold (fire_cb run mgr1) ?ts w)"
    and r2: "represents mgr2 L2" and p2: "positions mgr2 L2" and b2: "L2 0 b = []"
    and c2: "set (L2 1 ((now mgr div C) mod C)) \<subseteq> set (L1 1 ((now mgr div C) mod C))"
    and T2: "mgr_timeout mgr2 = mgr_timeout mgr" "mgr_startStmp mgr2 = mgr_startStmp mgr"
    and out: "\<forall>u. u \<notin> set ?ts \<longrightarrow> in_wheel L2 u = in_wheel L1 u \<and> same_data mgr1 mgr2 u"
    and ins: "\<forall>u \<in> set ?ts. fired_state mgr1 mgr2 L2 u"
    using timer_tick_loop_correct [OF r1 p1 _ _ refl, of b run w 0] wrap T1 by (auto simp: b_def)
  define mgr' where "mgr' = mgr2\<lparr>mgr_timeout := mgr_timeout mgr2 + 1\<rparr>"
  have first: "tm_next (mgr_mem mgr1 (TBucket 0 b)) = hd (map TTimer ?ts @ [TBucket 0 b])"
    by (rule bucket_first [OF r1]) (simp_all add: TIMER_WHEEL_COUNT_def b_def)
  have cbs: "fold (fire_cb run mgr1) ?ts w = fold (fire_cb run mgr) ?ts w"
    using fold_cong [OF refl refl, of ?ts "fire_cb run mgr1" "fire_cb run mgr"] sd1 by (simp add: fire_cb_same)
  have tick: "timer_tick run mgr w = Some (length ?ts, mgr', fold (fire_cb run mgr) ?ts w)"
    using casc first loop cbs by (simp add: timer_tick_def Let_def bidx mgr'_def)
  have "unat (mgr_timeout mgr + 1) = Suc (now mgr)"
    using wrap C_pos by (subst unat_plus_exact) (auto simp: C_eq)
  then have now': "now mgr' = Suc (now mgr)" by (simp add: mgr'_def T2)
  have r': "represents mgr' L2" using r2 by (simp add: represents_def mgr'_def)
  have link: "in_wheel L2 t = linked mgr' t" for t using represents_linked [OF r'] by simp
  have lk: "in_wheel L1 t = linked mgr t" for t using represents_linked [OF r] in1 by simp
  have due_ts: "t \<in> set ?ts \<longleftrightarrow> armed mgr t = Some (now mgr)" for t
    using due_bucket [OF r1 p1, of t] empty due_same [OF sd1, of t] by (simp add: b_def T1 lk armed_def)
  have pos': "positions mgr' L2"
    unfolding positions_def
  proof (intro allI impI)
    fix v c t assume t: "t \<in> set (L2 v c)"
    have ok: "slot_ok (now mgr) v c (due mgr2 t)" "timer_ok mgr2 t"
      using p2 t T2 by (auto simp: positions_def)
    have "slot_ok (Suc (now mgr)) v c (due mgr2 t)"
    proof (rule slot_ok_advance [OF ok(1)])
      show "due mgr2 t \<noteq> now mgr" if "v = 0"
        using ok(1) t b2 that by (auto simp: slot_ok_def b_def)
      show "c \<noteq> (now mgr div C) mod C" if "v = 1" "now mgr mod C = 0"
        using c2 empty t that by auto
    qed
    then show "slot_ok (now mgr') v c (due mgr' t) \<and> timer_ok mgr' t"
      using ok(2) now' by (simp add: mgr'_def timer_ok_def)
  qed
  have armed': "armed mgr' t = (if armed mgr t = Some (now mgr) then after_fire mgr t else armed mgr t)" for t
  proof (cases "t \<in> set ?ts")
    case True
    then have "fired_state mgr1 mgr2 L2 t" using ins by blast
    moreover have "after_fire mgr1 t = after_fire mgr t" by (rule after_fire_same [OF sd1 T1(1)])
    ultimately show ?thesis using True link [of t]
      by (auto simp: fired_state_def armed_def due_ts mgr'_def split: if_splits)
  next
    case False
    have "same_data mgr mgr2 t" using False out sd1 by (auto intro: same_data_trans)
    then show ?thesis using False out link [of t] lk [of t] due_ts [of t]
      by (auto simp: armed_def mgr'_def due_same)
  qed
  have "wheel_inv mgr'" using r' pos' by (auto simp: wheel_inv_def)
  moreover have "same_data mgr mgr' t" if "armed mgr t \<noteq> Some (now mgr)" for t
    using that out sd1 due_ts by (auto simp: mgr'_def same_data_def)
  moreover have "distinct ?ts" by (rule represents_distinct [OF r1])
  ultimately show ?thesis using tick now' armed' due_ts T2
    by (intro exI [of _ mgr'] exI [of _ ?ts]) (auto simp: mgr'_def)
qed


text \<open>The wheel with the state its callbacks act on, as a clock that serves alarms.\<close>

definition tick_step ::
  "(nat \<Rightarrow> nat \<Rightarrow> 'w \<Rightarrow> 'w) \<Rightarrow> flowQoS_timer_mgr \<times> 'w \<Rightarrow> (flowQoS_timer_mgr \<times> 'w) option" where
  "tick_step run s = map_option snd (timer_tick run (fst s) (snd s))"

interpretation wheel: alarm_clock "\<lambda>s. wheel_inv (fst s)" "\<lambda>s. now (fst s)" "\<lambda>s. armed (fst s)"
  "tick_step run" "2 ^ 64 - C * C" for run :: "nat \<Rightarrow> nat \<Rightarrow> 'w \<Rightarrow> 'w"
proof
  fix s :: "flowQoS_timer_mgr \<times> 'w"
  assume "wheel_inv (fst s)" and "now (fst s) \<le> 2 ^ 64 - C * C"
  moreover from this(2) have "now (fst s) + C * C \<le> 2 ^ 64" by (simp add: C_eq)
  ultimately show "\<exists>s'. tick_step run s = Some s' \<and> wheel_inv (fst s') \<and> now (fst s') = Suc (now (fst s)) \<and>
     (\<forall>a. armed (fst s) a \<noteq> Some (now (fst s)) \<longrightarrow> armed (fst s') a = armed (fst s) a)"
    using timer_tick_correct [of "fst s" run "snd s"] by (auto simp: tick_step_def)
qed

section \<open>The operations on the abstract state\<close>

lemma wheel_inv_start:
  assumes inv: "wheel_inv mgr" and free: "armed mgr t = None" and cb: "cb \<noteq> None"
    and to: "timeout \<le> TIMER_MAX_TIMEOUT" and rpt: "rpt \<le> TIMER_MAX_TIMEOUT"
    and wrap: "now mgr + unat timeout < 2 ^ 64"
  shows "fst (timer_start mgr (TTimer t) cb args timeout rpt) = 0"
    and "wheel_inv (snd (timer_start mgr (TTimer t) cb args timeout rpt))"
    and "armed (snd (timer_start mgr (TTimer t) cb args timeout rpt)) =
           (armed mgr)(t \<mapsto> now mgr + unat timeout)"
proof -
  obtain L where r: "represents mgr L" and pos: "positions mgr L" using inv by (auto simp: wheel_inv_def)
  obtain w b where slot: "start_slot (now mgr) (unat timeout) = (w, b)" by force
  let ?m = "snd (timer_start mgr (TTimer t) cb args timeout rpt)"
  have new: "\<not> in_wheel L t" using free represents_linked [OF r] by (auto simp: armed_def split: if_splits)
  have cl: "unat (clamped mgr timeout) = now mgr + unat timeout" by (rule clamped_exact [OF wrap])
  note st = timer_start_represents [OF r new cb to slot]
  show "fst (timer_start mgr (TTimer t) cb args timeout rpt) = 0" by (rule st(1))
  have r': "represents ?m (push_timer w b t L)" by (rule st(2))
  moreover have "positions ?m (push_timer w b t L)" by (rule positions_push [OF pos new cb to rpt slot cl])
  ultimately show "wheel_inv ?m" by (auto simp: wheel_inv_def)
  show "armed ?m = (armed mgr)(t \<mapsto> now mgr + unat timeout)"
    using represents_linked [OF r] represents_linked [OF r']
    by (auto simp: armed_def fun_eq_iff timer_start_data [OF cb to] cl)
qed

lemma wheel_inv_stop:
  assumes "wheel_inv mgr"
  shows "wheel_inv (snd (timer_stop mgr (TTimer t)))"
    and "armed (snd (timer_stop mgr (TTimer t))) = (armed mgr)(t := None)"
proof -
  obtain L where r: "represents mgr L" and pos: "positions mgr L" using assms by (auto simp: wheel_inv_def)
  let ?m = "snd (timer_stop mgr (TTimer t))"
  have r': "represents ?m (drop_timer t L)" by (rule represents_stop [OF r])
  with positions_drop [OF pos] show "wheel_inv ?m" by (auto simp: wheel_inv_def)
  show "armed ?m = (armed mgr)(t := None)"
    using represents_linked [OF r] represents_linked [OF r'] by (auto simp: armed_def fun_eq_iff)
qed

lemma wheel_inv_reset:
  assumes inv: "wheel_inv mgr" and cb: "tm_cb (mgr_mem mgr (TTimer t)) \<noteq> None"
    and to: "timeout \<le> TIMER_MAX_TIMEOUT" and wrap: "now mgr + unat timeout < 2 ^ 64"
  shows "fst (timer_reset mgr (TTimer t) timeout) = 0"
    and "wheel_inv (snd (timer_reset mgr (TTimer t) timeout))"
    and "armed (snd (timer_reset mgr (TTimer t) timeout)) = (armed mgr)(t \<mapsto> now mgr + unat timeout)"
proof -
  let ?m = "snd (timer_stop mgr (TTimer t))" and ?n = "mgr_mem mgr (TTimer t)"
  note stop = wheel_inv_stop [OF inv, of t]
  have eq: "timer_reset mgr (TTimer t) timeout =
      (0, snd (timer_start ?m (TTimer t) (tm_cb ?n) (tm_cb_args ?n) timeout 0))"
    using cb by (auto simp: timer_reset_def Let_def)
  have "armed ?m t = None" "now ?m + unat timeout < 2 ^ 64" using stop wrap by simp_all
  note start = wheel_inv_start [OF stop(1) this(1) cb to _ this(2), of 0]
  show "fst (timer_reset mgr (TTimer t) timeout) = 0" by (simp add: eq)
  show "wheel_inv (snd (timer_reset mgr (TTimer t) timeout))" using start(2) by (simp add: eq)
  show "armed (snd (timer_reset mgr (TTimer t) timeout)) = (armed mgr)(t \<mapsto> now mgr + unat timeout)"
    using start(3) stop(2) by (simp add: eq)
qed

lemma wheel_inv_init:
  assumes "\<And>t. tm_prev (mem (TTimer t)) = TNull \<or> tm_next (mem (TTimer t)) = TNull"
  shows "wheel_inv (new_timer_mgr tsc mem)"
    and "armed (new_timer_mgr tsc mem) = Map.empty"
proof -
  let ?m = "new_timer_mgr tsc mem"
  have "represents ?m (\<lambda>w b. [])"
    using assms by (auto simp: represents_def dll_def new_timer_mgr_def in_wheel_def)
  then show "wheel_inv ?m" by (auto simp: wheel_inv_def positions_def)
  show "armed ?m = Map.empty"
    using assms by (auto simp: armed_def linked_def fun_eq_iff new_timer_mgr_def)
qed

lemmas wheel_ops = wheel_inv_start wheel_inv_stop wheel_inv_reset


section \<open>Properties\<close>

text \<open>
  C3: A timer armed for a tick fires exactly then. However far away its due tick is (up to the
  width of the counter), and although it may sit in the second wheel and be cascaded on the way,
  every one of the ticks before returns, none of them fires it, moves its due tick or loses it,
  and the tick at which it is due returns, runs its callback once and disarms it (or arms it again
  one period later when it is periodic). In particular the loops over the buckets terminate and the
  \<open>assert\<close> of \<open>timer_cascade\<close> never fails.
\<close>

theorem timer_fires_exactly_when_due:
  assumes inv: "wheel_inv mgr" and due: "armed mgr t = Some (now mgr + n)"
    and wrap: "now mgr + n + C * C \<le> 2 ^ 64"
  shows "(\<forall>k \<le> n. \<exists>s. repeat_step k (tick_step run) (mgr, w) = Some s \<and>
             now (fst s) = now mgr + k \<and> armed (fst s) t = armed mgr t) \<and>
         (\<exists>mgr1 w1 fired mgr2. repeat_step n (tick_step run) (mgr, w) = Some (mgr1, w1) \<and>
             timer_tick run mgr1 w1 = Some (length fired, mgr2, fold (fire_cb run mgr1) fired w1) \<and>
             distinct fired \<and> t \<in> set fired \<and> armed mgr2 t = after_fire mgr1 t)"
proof
  have hor: "now mgr + n \<le> 2 ^ 64 - C * C" using wrap by (simp add: C_eq)
  show "\<forall>k \<le> n. \<exists>s. repeat_step k (tick_step run) (mgr, w) = Some s \<and>
             now (fst s) = now mgr + k \<and> armed (fst s) t = armed mgr t"
    using wheel.not_lost_before [of "(mgr, w)" t n _ run] inv due hor by fastforce
  obtain mgr1 w1 where run: "repeat_step n (tick_step run) (mgr, w) = Some (mgr1, w1)" "wheel_inv mgr1"
    "now mgr1 = now mgr + n" "armed mgr1 t = Some (now mgr1)"
    using wheel.waits_until_due [of "(mgr, w)" t n run] inv due hor by auto
  then show "\<exists>mgr1 w1 fired mgr2. repeat_step n (tick_step run) (mgr, w) = Some (mgr1, w1) \<and>
             timer_tick run mgr1 w1 = Some (length fired, mgr2, fold (fire_cb run mgr1) fired w1) \<and>
             distinct fired \<and> t \<in> set fired \<and> armed mgr2 t = after_fire mgr1 t"
    using timer_tick_correct [of mgr1 run w1] wrap by fastforce
qed

definition demo_mgr :: flowQoS_timer_mgr where
  "demo_mgr = snd (timer_start (new_timer_mgr 0 (\<lambda>_. zero_timer)) (TTimer 7) (Some 1) 7 300000 0)"

lemma demo_mgr: "wheel_inv demo_mgr" "armed demo_mgr = [7 \<mapsto> 300000]" "now demo_mgr = 0"
proof -
  let ?m = "new_timer_mgr 0 (\<lambda>_. zero_timer)"
  have i: "wheel_inv ?m" "armed ?m = Map.empty" "now ?m = 0"
    using wheel_inv_init [of "\<lambda>_. zero_timer" 0]
    by (simp_all add: zero_timer_def) (simp add: new_timer_mgr_def)
  have to: "(300000 :: u64) \<le> TIMER_MAX_TIMEOUT" "(0 :: u64) \<le> TIMER_MAX_TIMEOUT"
    by (simp_all add: flow_consts)
  note st = wheel_inv_start [OF i(1) _ _ to, of 7 "Some 1" 7]
  show "wheel_inv demo_mgr" "armed demo_mgr = [7 \<mapsto> 300000]" using st i by (simp_all add: demo_mgr_def)
  show "now demo_mgr = 0" using i by (simp add: demo_mgr_def)
qed

lemma timer_fires_exactly_when_due_witness:
  "\<exists>mgr1 w1 fired mgr2.
     repeat_step 300000 (tick_step (\<lambda>f a log. a # log)) (demo_mgr, []) = Some (mgr1, w1) \<and>
     timer_tick (\<lambda>f a log. a # log) mgr1 w1 =
       Some (length fired, mgr2, fold (fire_cb (\<lambda>f a log. a # log) mgr1) fired w1) \<and>
     7 \<in> set fired"
proof -
  have "now demo_mgr + 300000 + C * C \<le> 2 ^ 64" by (simp add: demo_mgr C_eq)
  then show ?thesis
    using timer_fires_exactly_when_due [of demo_mgr 7 300000 "\<lambda>f a log. a # log" "[]"]
    by (auto simp: demo_mgr)
qed

text \<open>
  C2: \<open>timer_tick\<close> implements a tick of the abstract clock: it returns, the timers whose callbacks
  run are exactly those due at the current tick, each once; they are disarmed or re-armed one period
  later; every other timer keeps its due tick, callback and argument; the invariant of the wheel is
  kept and the clock advances by one.
\<close>

theorem timer_tick_simulates_clock:
  assumes "wheel_inv mgr" and "now mgr + C * C \<le> 2 ^ 64"
  shows "\<exists>mgr' fired.
     timer_tick run mgr w = Some (length fired, mgr', fold (fire_cb run mgr) fired w) \<and>
     distinct fired \<and> set fired = {t. armed mgr t = Some (now mgr)} \<and>
     wheel_inv mgr' \<and> now mgr' = Suc (now mgr) \<and>
     armed mgr' = (\<lambda>t. if armed mgr t = Some (now mgr) then after_fire mgr t else armed mgr t) \<and>
     (\<forall>t. armed mgr t \<noteq> Some (now mgr) \<longrightarrow> same_data mgr mgr' t)"
  using timer_tick_correct [OF assms, of run w] by (elim exE conjE) (auto simp: fun_eq_iff)

lemma timer_tick_simulates_clock_witness:
  "\<exists>mgr'. timer_tick (\<lambda>f a n. n + a) demo_mgr 0 = Some (0, mgr', 0) \<and> armed mgr' 7 = Some 300000"
proof -
  have w: "now demo_mgr + C * C \<le> 2 ^ 64" by (simp add: demo_mgr C_eq)
  obtain mgr' fired where tick: "timer_tick (\<lambda>f a n. n + a) demo_mgr 0 =
      Some (length fired, mgr', fold (fire_cb (\<lambda>f a n. n + a) demo_mgr) fired 0)"
    "set fired = {t. armed demo_mgr t = Some (now demo_mgr)}"
    "armed mgr' = (\<lambda>t. if armed demo_mgr t = Some (now demo_mgr) then after_fire demo_mgr t else armed demo_mgr t)"
    using timer_tick_simulates_clock [OF demo_mgr(1) w, of "\<lambda>f a n. n + a" 0] by blast
  then have "set fired = {}" by (simp add: demo_mgr)
  then have "fired = []" by simp
  with tick show ?thesis by (auto simp: demo_mgr)
qed

text \<open>
  \<open>timer_start\<close> on every branch. It fails with -1 exactly for a null callback or a delay above
  \<open>TIMER_MAX_TIMEOUT\<close>, and then changes nothing; the return of -2 (no wheel is wide enough) is
  unreachable behind that guard; otherwise it returns 0 and arms the timer for the current tick plus
  the delay, leaving every other timer as it was.
\<close>

theorem timer_start_arms:
  shows "fst (timer_start mgr (TTimer t) cb args timeout rpt) =
           (if cb = None \<or> TIMER_MAX_TIMEOUT < timeout then -1 else 0) \<and>
         (cb = None \<or> TIMER_MAX_TIMEOUT < timeout \<longrightarrow>
           snd (timer_start mgr (TTimer t) cb args timeout rpt) = mgr) \<and>
         (wheel_inv mgr \<and> armed mgr t = None \<and> cb \<noteq> None \<and> timeout \<le> TIMER_MAX_TIMEOUT \<and>
            rpt \<le> TIMER_MAX_TIMEOUT \<and> now mgr + unat timeout < 2 ^ 64 \<longrightarrow>
           wheel_inv (snd (timer_start mgr (TTimer t) cb args timeout rpt)) \<and>
           armed (snd (timer_start mgr (TTimer t) cb args timeout rpt)) =
             (armed mgr)(t \<mapsto> now mgr + unat timeout))"
proof (intro conjI impI)
  show "fst (timer_start mgr (TTimer t) cb args timeout rpt) =
           (if cb = None \<or> TIMER_MAX_TIMEOUT < timeout then -1 else 0)"
  proof (cases "cb = None \<or> TIMER_MAX_TIMEOUT < timeout")
    case False
    then have le: "timeout \<le> TIMER_MAX_TIMEOUT" by auto
    show ?thesis using timer_start_loop_slot [OF le, of mgr] False
      by (fastforce simp: timer_start_def Let_def)
  qed (simp add: timer_start_def)
next
  assume "cb = None \<or> TIMER_MAX_TIMEOUT < timeout"
  then show "snd (timer_start mgr (TTimer t) cb args timeout rpt) = mgr" by (simp add: timer_start_def)
qed (auto simp: wheel_inv_start)

lemma timer_start_arms_witness:
  "armed (snd (timer_start demo_mgr (TTimer 8) (Some 1) 8 10000 0)) 8 = Some 10000 \<and>
   armed (snd (timer_start demo_mgr (TTimer 8) (Some 1) 8 10000 0)) 7 = Some 300000"
  using timer_start_arms [of demo_mgr 8 "Some 1" 8 10000 0]
  by (simp add: demo_mgr flow_consts)

text \<open>
  \<open>flowQoS_timer_reset\<close> moves the alarm: whether the timer is still in the wheel or not, it is
  afterwards armed once, for the current tick plus the new delay, and no other timer is affected;
  \<open>flowQoS_timer_del\<close> disarms it and deleting twice is harmless. A timer that was never started has a
  null callback and is refused with -1.
\<close>

theorem timer_reset_and_del:
  assumes inv: "wheel_inv mgr"
  shows "(tm_cb (mgr_mem mgr (TTimer t)) = None \<longrightarrow> flowQoS_timer_reset mgr (TTimer t) timeout = (-1, mgr)) \<and>
         (tm_cb (mgr_mem mgr (TTimer t)) \<noteq> None \<and> timeout \<le> TIMER_MAX_TIMEOUT \<and> now mgr + unat timeout < 2 ^ 64 \<longrightarrow>
           fst (flowQoS_timer_reset mgr (TTimer t) timeout) = 0 \<and>
           wheel_inv (snd (flowQoS_timer_reset mgr (TTimer t) timeout)) \<and>
           armed (snd (flowQoS_timer_reset mgr (TTimer t) timeout)) = (armed mgr)(t \<mapsto> now mgr + unat timeout)) \<and>
         wheel_inv (flowQoS_timer_del mgr (TTimer t)) \<and>
         armed (flowQoS_timer_del mgr (TTimer t)) = (armed mgr)(t := None) \<and>
         flowQoS_timer_del (flowQoS_timer_del mgr (TTimer t)) (TTimer t) = flowQoS_timer_del mgr (TTimer t)"
proof -
  let ?m = "snd (timer_stop mgr (TTimer t))"
  have "\<not> linked ?m t" using wheel_inv_stop(2) [OF inv, of t] by (auto simp: armed_def fun_eq_iff split: if_splits)
  then have "snd (timer_stop ?m (TTimer t)) = ?m" by (intro timer_stop_unlinked) (auto simp: linked_def)
  then show ?thesis
    using wheel_inv_reset [OF inv, of t timeout] wheel_inv_stop [OF inv, of t]
    by (simp add: flowQoS_timer_reset_def flowQoS_timer_del_def timer_reset_def)
qed

lemma timer_reset_and_del_witness:
  "armed (snd (flowQoS_timer_reset demo_mgr (TTimer 7) 20000)) 7 = Some 20000 \<and>
   armed (flowQoS_timer_del demo_mgr (TTimer 7)) 7 = None"
proof -
  have "tm_cb (mgr_mem demo_mgr (TTimer 7)) \<noteq> None"
    by (simp add: demo_mgr_def timer_start_data flow_consts)
  then show ?thesis
    using timer_reset_and_del [OF demo_mgr(1), of 7 20000] by (simp add: demo_mgr flow_consts)
qed

end
