(* ===== verification/Cmd.thy ===== *)
theory Cmd
  imports Prelude
begin

text \<open>
  The registry of command-line objects (\<open>src/src/flowQoS_cmd.c\<close>): the array \<open>main_ctx\<close> that is
  handed to the command-line library as a null-terminated list, and the \<open>static bool
  cmdRegistered\<close> flags with which the modules register their commands once. A command object is
  named by its symbol.
\<close>

definition MAX_CMD :: nat where [flow_consts]: "MAX_CMD = 32"

record cmd_state =
  cmd_len :: nat
  main_ctx :: "string option list"
  cmdRegistered :: "string set"

definition cmd_init :: cmd_state where
  "cmd_init = \<lparr>cmd_len = 0, main_ctx = replicate MAX_CMD None, cmdRegistered = {}\<rparr>"

text \<open>The array is not bounds-checked: past its end the write is undefined.\<close>

definition flowQoS_registCmd :: "string \<Rightarrow> cmd_state \<Rightarrow> (nat \<times> cmd_state) option" where
  "flowQoS_registCmd ctx s =
     (if cmd_len s < MAX_CMD
      then Some (cmd_len s, s\<lparr>main_ctx := (main_ctx s)[cmd_len s := Some ctx], cmd_len := cmd_len s + 1\<rparr>)
      else None)"

text \<open>The body of the \<open>register...Cmd\<close> functions that guard themselves with a static flag.\<close>

definition register_once :: "string \<Rightarrow> string list \<Rightarrow> cmd_state \<Rightarrow> cmd_state option" where
  "register_once name objs s =
     (if name \<in> cmdRegistered s then Some s
      else map_option (\<lambda>s'. s'\<lparr>cmdRegistered := insert name (cmdRegistered s')\<rparr>)
             (fold (\<lambda>obj r. case r of None \<Rightarrow> None | Some s' \<Rightarrow> map_option snd (flowQoS_registCmd obj s'))
                objs (Some s)))"

text \<open>
  \<open>flowQoS_cmd\<close> registers \<open>quit\<close> and hands \<open>main_ctx\<close> to the command line: the library
  reads the commands up to the first null.
\<close>

fun until_null :: "string option list \<Rightarrow> string list option" where
  "until_null [] = None"
| "until_null (None # xs) = Some []"
| "until_null (Some c # xs) = map_option ((#) c) (until_null xs)"

definition flowQoS_cmd :: "cmd_state \<Rightarrow> (string list \<times> cmd_state) option" where
  "flowQoS_cmd s =
     (case flowQoS_registCmd ''cmd_quit'' s of None \<Rightarrow> None
      | Some (_, s') \<Rightarrow> map_option (\<lambda>cs. (cs, s')) (until_null (main_ctx s')))"

section \<open>Registration\<close>

definition cmd_ok :: "cmd_state \<Rightarrow> string list \<Rightarrow> bool" where
  "cmd_ok s cs \<longleftrightarrow> cmd_len s = length cs \<and> length cs \<le> MAX_CMD \<and>
     main_ctx s = map Some cs @ replicate (MAX_CMD - length cs) None"

lemma cmd_ok_init [simp]: "cmd_ok cmd_init []"
  by (simp add: cmd_ok_def cmd_init_def)

lemma cmd_ok_regist:
  assumes "cmd_ok s cs" and "length cs < MAX_CMD"
  shows "\<exists>s'. flowQoS_registCmd c s = Some (length cs, s') \<and> cmd_ok s' (cs @ [c]) \<and>
              cmdRegistered s' = cmdRegistered s"
proof -
  obtain k where "MAX_CMD - length cs = Suc k" using assms(2) by (metis Suc_diff_Suc)
  moreover from this have "MAX_CMD - Suc (length cs) = k" by simp
  ultimately show ?thesis using assms
    by (auto simp: flowQoS_registCmd_def cmd_ok_def list_update_append)
qed

lemma until_null_terminated: "until_null (map Some cs @ replicate (Suc n) None) = Some cs"
  by (induction cs) simp_all

lemma until_null_unterminated: "until_null (map Some cs) = None"
  by (induction cs) simp_all

lemma register_once_ok:
  assumes "cmd_ok s cs" and "length cs + length objs \<le> MAX_CMD" and "name \<notin> cmdRegistered s"
  shows "\<exists>s'. register_once name objs s = Some s' \<and> cmd_ok s' (cs @ objs) \<and>
              cmdRegistered s' = insert name (cmdRegistered s)"
proof -
  have "\<exists>s'. fold (\<lambda>obj r. case r of None \<Rightarrow> None | Some s' \<Rightarrow> map_option snd (flowQoS_registCmd obj s'))
                objs (Some s) = Some s' \<and> cmd_ok s' (cs @ objs) \<and> cmdRegistered s' = cmdRegistered s"
    using assms(1,2)
  proof (induction objs arbitrary: s cs)
    case (Cons c objs)
    then obtain s1 where s1: "flowQoS_registCmd c s = Some (length cs, s1)" "cmd_ok s1 (cs @ [c])"
      "cmdRegistered s1 = cmdRegistered s" using cmd_ok_regist [of s cs c] by auto
    with Cons.IH [OF s1(2)] Cons.prems show ?case by simp
  qed simp
  with assms(3) show ?thesis by (auto simp: register_once_def cmd_ok_def)
qed

text \<open>
  Registering commands. As long as fewer than 31 commands are registered, a module that
  registers once gets its commands appended in order, registering again changes nothing, and
  \<open>flowQoS_cmd\<close> offers exactly the registered commands followed by \<open>quit\<close>. With 31 commands
  registered the list handed to the library has no terminating null, and with 32 the write goes
  past the array.
\<close>

theorem registered_commands_offered:
  assumes ok: "cmd_ok s cs" and fresh: "name \<notin> cmdRegistered s"
  shows "(length cs + length objs < MAX_CMD - 1 \<longrightarrow>
            (\<exists>s'. register_once name objs s = Some s' \<and> register_once name objs s' = Some s' \<and>
                  (\<exists>s''. flowQoS_cmd s' = Some (cs @ objs @ [''cmd_quit''], s'')))) \<and>
         (length cs = MAX_CMD - 1 \<longrightarrow> flowQoS_cmd s = None) \<and>
         (length cs = MAX_CMD \<longrightarrow> flowQoS_registCmd c s = None)"
proof (intro conjI impI)
  assume len: "length cs + length objs < MAX_CMD - 1"
  then have le: "length cs + length objs \<le> MAX_CMD" and lt: "length cs + length objs < MAX_CMD"
    by linarith+
  obtain s' where s': "register_once name objs s = Some s'" "cmd_ok s' (cs @ objs)"
    "cmdRegistered s' = insert name (cmdRegistered s)"
    using register_once_ok [OF ok _ fresh, of objs] len le by blast
  obtain s'' where q: "flowQoS_registCmd ''cmd_quit'' s' = Some (length (cs @ objs), s'')"
    "cmd_ok s'' (cs @ objs @ [''cmd_quit''])" using cmd_ok_regist [OF s'(2)] lt by auto
  obtain k where k: "MAX_CMD - length (cs @ objs @ [''cmd_quit'']) = Suc k"
    using len by (cases "MAX_CMD - length (cs @ objs @ [''cmd_quit''])") auto
  have "until_null (main_ctx s'') = Some (cs @ objs @ [''cmd_quit''])"
    using until_null_terminated [of "cs @ objs @ [''cmd_quit'']" k] q(2) k by (simp add: cmd_ok_def)
  with q have "flowQoS_cmd s' = Some (cs @ objs @ [''cmd_quit''], s'')" by (simp add: flowQoS_cmd_def)
  with s' show "\<exists>s'. register_once name objs s = Some s' \<and> register_once name objs s' = Some s' \<and>
                  (\<exists>s''. flowQoS_cmd s' = Some (cs @ objs @ [''cmd_quit''], s''))"
    by (auto simp: register_once_def)
next
  assume len: "length cs = MAX_CMD - 1"
  then obtain s' where q: "flowQoS_registCmd ''cmd_quit'' s = Some (length cs, s')"
    "cmd_ok s' (cs @ [''cmd_quit''])" using cmd_ok_regist [OF ok] by (auto simp: flow_consts)
  then have "main_ctx s' = map Some (cs @ [''cmd_quit''])" using len by (simp add: cmd_ok_def flow_consts)
  then have "until_null (main_ctx s') = None" by (simp only: until_null_unterminated)
  with q show "flowQoS_cmd s = None" by (simp add: flowQoS_cmd_def)
qed (use ok in \<open>simp add: cmd_ok_def flowQoS_registCmd_def\<close>)

lemma registered_commands_offered_witness:
  "\<exists>s' s''. register_once ''QoS'' [''cmd_dumpFlowQoS_obj''] cmd_init = Some s' \<and>
     flowQoS_cmd s' = Some ([''cmd_dumpFlowQoS_obj'', ''cmd_quit''], s'')"
proof -
  have "''QoS'' \<notin> cmdRegistered cmd_init" by (simp add: cmd_init_def)
  then show ?thesis
    using registered_commands_offered [OF cmd_ok_init, of "''QoS''" "[''cmd_dumpFlowQoS_obj'']"]
    by (auto simp: flow_consts)
qed

end
