(* ===== verification/Pipe.thy ===== *)
theory Pipe
  imports Cmd
begin

text \<open>
  The encapsulation of DOCA-Flow pipes and entries (\<open>src/src/flowQoS_pipe.h\<close> and
  \<open>src/src/flowQoS_pipe.c\<close>): the adapters that translate the matches, actions and forwarding
  targets of this program into those of DOCA, the creation of a pipe, the insertion of an entry,
  the polling of aged entries and the textual dump of an entry. DOCA-Flow itself is a parameter
  (the record \<open>doca_ops\<close> of its calls, over a hardware state \<^typ>\<open>'d\<close>). Pointers are natural
  numbers, 0 being null; \<^term>\<open>None\<close> stands for undefined behaviour (a null dereference or a write
  past the end of a buffer).
\<close>

section \<open>Flags\<close>

definition SMAC :: u64 where [flow_consts]: "SMAC = push_bit 0 1"
definition DMAC :: u64 where [flow_consts]: "DMAC = push_bit 1 1"
definition SIP :: u64 where [flow_consts]: "SIP = push_bit 2 1"
definition DIP :: u64 where [flow_consts]: "DIP = push_bit 3 1"
definition ICMP :: u64 where [flow_consts]: "ICMP = push_bit 4 1"
definition TCP :: u64 where [flow_consts]: "TCP = push_bit 5 1"
definition UDP :: u64 where [flow_consts]: "UDP = push_bit 6 1"
definition SPORT :: u64 where [flow_consts]: "SPORT = push_bit 7 1"
definition DPORT :: u64 where [flow_consts]: "DPORT = push_bit 8 1"
definition TTL_DECREASE :: u64 where [flow_consts]: "TTL_DECREASE = push_bit 9 1"
definition AGING :: u64 where [flow_consts]: "AGING = push_bit 10 1"
definition COUNTER :: u64 where [flow_consts]: "COUNTER = push_bit 11 1"
definition DROP :: u64 where [flow_consts]: "DROP = push_bit 12 1"
definition PORT :: u64 where [flow_consts]: "PORT = push_bit 13 1"
definition RSS_TO_QUEUE :: u64 where [flow_consts]: "RSS_TO_QUEUE = push_bit 14 1"
definition IS_ROOT :: bool where "IS_ROOT = True"

definition MAX_AGED_CT_PER_POLL :: int where [flow_consts]: "MAX_AGED_CT_PER_POLL = 256"
definition ENTRY_INFO_ITEM_LENGTH :: nat where [flow_consts]: "ENTRY_INFO_ITEM_LENGTH = 32"
definition PIPE_NAME_LENGTH :: nat where [flow_consts]: "PIPE_NAME_LENGTH = 30"

section \<open>Data\<close>

type_synonym FlowQoS_FWD = u64

record FlowQoS_MATCH =
  m_flags :: u64
  m_src_ip :: u32
  m_dst_ip :: u32
  m_proto :: u8
  m_src_port :: u16
  m_dst_port :: u16
  m_rss :: u32

record FlowQoS_ACTION =
  a_flags :: u64
  a_src_mac :: "u8 list"
  a_dst_mac :: "u8 list"
  a_src_ip :: u32
  a_dst_ip :: u32
  a_src_port :: u16
  a_dst_port :: u16

record FlowQoS_PIPE =
  p_src_doca_port :: nat
  p_dst_doca_port :: nat
  p_doca_pipe :: nat
  p_match_pattern :: FlowQoS_MATCH
  p_action_pattern :: FlowQoS_ACTION
  p_matched_fwd :: FlowQoS_FWD
  p_unmatched_fwd :: FlowQoS_FWD
  p_max_entry_amount :: int
  p_port_id :: nat
  p_pipeName :: string
  p_is_root :: bool

text \<open>The links of the \<open>TAILQ\<close> an entry waits on are the queues of the scheduler themselves.\<close>

record FlowQoS_ENTRY =
  e_match :: FlowQoS_MATCH
  e_action :: FlowQoS_ACTION
  e_entry :: nat
  e_pipe :: nat
  e_expireTime :: u64
  e_cb :: "nat option"
  e_cb_args :: nat
  e_priority :: u64
  e_flowQoS_qosHandler :: "nat option"
  e_flowQoS_args :: nat

definition zero_match :: FlowQoS_MATCH where
  "zero_match = \<lparr>m_flags = 0, m_src_ip = 0, m_dst_ip = 0, m_proto = 0, m_src_port = 0,
                 m_dst_port = 0, m_rss = 0\<rparr>"

definition zero_action :: FlowQoS_ACTION where
  "zero_action = \<lparr>a_flags = 0, a_src_mac = replicate 6 0, a_dst_mac = replicate 6 0, a_src_ip = 0,
                  a_dst_ip = 0, a_src_port = 0, a_dst_port = 0\<rparr>"

definition zero_entry :: FlowQoS_ENTRY where
  "zero_entry = \<lparr>e_match = zero_match, e_action = zero_action, e_entry = 0, e_pipe = 0,
                 e_expireTime = 0, e_cb = None, e_cb_args = 0, e_priority = 0,
                 e_flowQoS_qosHandler = None, e_flowQoS_args = 0\<rparr>"

subsection \<open>The structures of DOCA-Flow that the adapters fill\<close>

datatype doca_l3 = L3_NONE | DOCA_FLOW_IP4_ADDR
datatype doca_l4 = L4_NONE | DOCA_PROTO_TCP | DOCA_PROTO_UDP
datatype doca_action_type = ACTION_NONE | DOCA_FLOW_ACTION_ADD
datatype doca_monitor_flag = DOCA_FLOW_MONITOR_COUNT | DOCA_FLOW_MONITOR_AGING
datatype doca_flow_flags = DOCA_FLOW_NO_WAIT | DOCA_FLOW_WAIT_FOR_BATCH

record doca_flow_match =
  dm_src_ip_type :: doca_l3
  dm_src_ip :: u32
  dm_dst_ip_type :: doca_l3
  dm_dst_ip :: u32
  dm_l4_type :: doca_l4
  dm_src_port :: u16
  dm_dst_port :: u16

record doca_flow_action_meta =
  mod_src_mac :: "u8 list"
  mod_dst_mac :: "u8 list"
  mod_src_ip_type :: doca_l3
  mod_src_ip :: u32
  mod_dst_ip_type :: doca_l3
  mod_dst_ip :: u32
  mod_ttl :: u8
  mod_src_port :: u16
  mod_dst_port :: u16
  desc_ttl :: doca_action_type
  monitor_flags :: "doca_monitor_flag set"
  monitor_aging :: u32
  monitor_user_data :: nat

datatype doca_flow_fwd =
    DOCA_FLOW_FWD_NONE
  | DOCA_FLOW_FWD_DROP
  | DOCA_FLOW_FWD_PORT nat
  | DOCA_FLOW_FWD_RSS "nat list"
  | DOCA_FLOW_FWD_PIPE nat

definition zero_doca_match :: doca_flow_match where
  "zero_doca_match = \<lparr>dm_src_ip_type = L3_NONE, dm_src_ip = 0, dm_dst_ip_type = L3_NONE, dm_dst_ip = 0,
                      dm_l4_type = L4_NONE, dm_src_port = 0, dm_dst_port = 0\<rparr>"

definition zero_action_meta :: doca_flow_action_meta where
  "zero_action_meta = \<lparr>mod_src_mac = replicate 6 0, mod_dst_mac = replicate 6 0,
                       mod_src_ip_type = L3_NONE, mod_src_ip = 0, mod_dst_ip_type = L3_NONE, mod_dst_ip = 0,
                       mod_ttl = 0, mod_src_port = 0, mod_dst_port = 0, desc_ttl = ACTION_NONE,
                       monitor_flags = {}, monitor_aging = 0, monitor_user_data = 0\<rparr>"

record doca_flow_pipe_cfg =
  cfg_name :: string
  cfg_match :: doca_flow_match
  cfg_actions :: doca_flow_action_meta
  cfg_nb_flows :: int
  cfg_is_root :: bool
  cfg_port :: nat

text \<open>
  The calls into DOCA-Flow. A call that returns a pointer returns 0 for failure; the list of
  \<open>doca_flow_aging_handle\<close> is the \<open>user_data\<close> of the aged entries it reports.
\<close>

record 'd doca_ops =
  pipe_create :: "doca_flow_pipe_cfg \<Rightarrow> doca_flow_fwd \<Rightarrow> doca_flow_fwd \<Rightarrow> 'd \<Rightarrow> nat \<times> 'd"
  pipe_add_entry :: "int \<Rightarrow> nat \<Rightarrow> doca_flow_match \<Rightarrow> doca_flow_action_meta \<Rightarrow> doca_flow_flags \<Rightarrow> 'd \<Rightarrow> nat \<times> 'd"
  entries_process :: "nat \<Rightarrow> int \<Rightarrow> int \<Rightarrow> 'd \<Rightarrow> int \<times> 'd"
  aging_poll :: "nat \<Rightarrow> int \<Rightarrow> int \<Rightarrow> 'd \<Rightarrow> int \<times> nat list \<times> 'd"
  pipe_rm_entry :: "int \<Rightarrow> nat \<Rightarrow> 'd \<Rightarrow> int \<times> 'd"

section \<open>Adapters\<close>

definition match_adapter :: "FlowQoS_MATCH \<Rightarrow> doca_flow_match \<Rightarrow> int \<Rightarrow> doca_flow_match" where
  "match_adapter fm d isEntry =
     (let f = m_flags fm;
          d = (if has f SIP then d\<lparr>dm_src_ip_type := DOCA_FLOW_IP4_ADDR,
                 dm_src_ip := (if 0 < isEntry then m_src_ip fm else 0xffffffff)\<rparr> else d);
          d = (if has f DIP then d\<lparr>dm_dst_ip_type := DOCA_FLOW_IP4_ADDR,
                 dm_dst_ip := (if 0 < isEntry then m_dst_ip fm else 0xffffffff)\<rparr> else d);
          d = (if has f TCP then (if isEntry = 0 then d\<lparr>dm_l4_type := DOCA_PROTO_TCP\<rparr> else d) else d);
          d = (if has f UDP then (if isEntry = 0 then d\<lparr>dm_l4_type := DOCA_PROTO_UDP\<rparr> else d) else d);
          d = (if has f SPORT then d\<lparr>dm_src_port := (if 0 < isEntry then m_src_port fm else 0xffff)\<rparr> else d);
          d = (if has f DPORT then d\<lparr>dm_dst_port := (if 0 < isEntry then m_dst_port fm else 0xffff)\<rparr> else d)
      in d)"

text \<open>\<open>agingTime\<close> is a C \<open>int\<close>: its comparisons with 0 are signed.\<close>

definition action_adapter :: "FlowQoS_ACTION \<Rightarrow> doca_flow_action_meta \<Rightarrow> 32 word \<Rightarrow> doca_flow_action_meta" where
  "action_adapter fa d agingTime =
     (let f = a_flags fa; real = (0 < sint agingTime);
          d = guarded (has f SMAC) (mod_src_mac_update (\<lambda>_. if real then a_src_mac fa else replicate 6 0xff)) d;
          d = guarded (has f DMAC) (mod_dst_mac_update (\<lambda>_. if real then a_dst_mac fa else replicate 6 0xff)) d;
          d = guarded (has f SIP) (\<lambda>d. d\<lparr>mod_src_ip_type := DOCA_FLOW_IP4_ADDR,
                 mod_src_ip := (if real then a_src_ip fa else 0xffffffff)\<rparr>) d;
          d = guarded (has f DIP) (\<lambda>d. d\<lparr>mod_dst_ip_type := DOCA_FLOW_IP4_ADDR,
                 mod_dst_ip := (if real then a_dst_ip fa else 0xffffffff)\<rparr>) d;
          d = guarded (has f TTL_DECREASE) (guarded (agingTime = 0) (\<lambda>d. d\<lparr>desc_ttl := DOCA_FLOW_ACTION_ADD, mod_ttl := 255\<rparr>)) d;
          d = guarded (has f SPORT) (\<lambda>d. d\<lparr>mod_src_port := (if real then a_src_port fa else 0xffff)\<rparr>) d;
          d = guarded (has f DPORT) (\<lambda>d. d\<lparr>mod_dst_port := (if real then a_dst_port fa else 0xffff)\<rparr>) d;
          d = guarded (has f COUNTER) (guarded (agingTime = 0) (monitor_flags_update (insert DOCA_FLOW_MONITOR_COUNT))) d;
          d = guarded (has f AGING) (\<lambda>d.
                 guarded (agingTime \<noteq> 0) (\<lambda>d. d\<lparr>monitor_flags := insert DOCA_FLOW_MONITOR_AGING (monitor_flags d),
                                             monitor_aging := agingTime\<rparr>)
                   (monitor_flags_update (insert DOCA_FLOW_MONITOR_AGING) d)) d
      in d)"

text \<open>
  A forwarding target that is none of the three constants is the address of the next pipe.
  \<open>rss_queues\<close> has 16 elements.
\<close>

definition fwd_adapter :: "(nat \<rightharpoonup> FlowQoS_PIPE) \<Rightarrow> nat \<Rightarrow> FlowQoS_FWD \<Rightarrow> nat \<Rightarrow> doca_flow_fwd option" where
  "fwd_adapter pipes lcore_count fwd port_id =
     (if fwd = DROP then Some DOCA_FLOW_FWD_DROP
      else if fwd = PORT then Some (DOCA_FLOW_FWD_PORT (port_id XOR 1))
      else if fwd = RSS_TO_QUEUE then
        (if lcore_count - 1 \<le> 16 then Some (DOCA_FLOW_FWD_RSS [0..<lcore_count - 1]) else None)
      else map_option (\<lambda>next_pipe. DOCA_FLOW_FWD_PIPE (p_doca_pipe next_pipe)) (pipes (unat fwd)))"

section \<open>Textual dump of an entry\<close>

text \<open>
  \<open>struct EntryInfo\<close> is three arrays of items of 32 bytes each; they are kept as byte arrays because
  the printing functions address them as one array and concatenate in place.
\<close>

record EntryInfo =
  ei_match :: string
  ei_action :: string
  ei_control :: string

text \<open>Writing and reading a null-terminated string inside a buffer.\<close>

definition put_str :: "nat \<Rightarrow> string \<Rightarrow> string \<Rightarrow> string" where
  "put_str off s buf = take off buf @ s @ NUL # drop (off + length s + 1) buf"

definition get_str :: "nat \<Rightarrow> string \<Rightarrow> string" where
  "get_str off buf = takeWhile (\<lambda>c. c \<noteq> NUL) (drop off buf)"

abbreviation put_item :: "nat \<Rightarrow> string \<Rightarrow> string \<Rightarrow> string" where
  "put_item i s buf \<equiv> put_str (ENTRY_INFO_ITEM_LENGTH * i) s buf"

abbreviation get_item :: "nat \<Rightarrow> string \<Rightarrow> string" where
  "get_item i buf \<equiv> get_str (ENTRY_INFO_ITEM_LENGTH * i) buf"

definition json_item :: "string \<Rightarrow> string \<Rightarrow> string" where
  "json_item k v = [CHR 0x22] @ k @ [CHR 0x22, CHR 0x3A, CHR 0x22] @ v @ [CHR 0x22]"

fun join :: "string \<Rightarrow> string list \<Rightarrow> string" where
  "join sep [] = []"
| "join sep [x] = x"
| "join sep (x # y # xs) = x @ sep @ join sep (y # xs)"

definition ip_str :: "u32 \<Rightarrow> string" where
  "ip_str ip =
     (let x = bswap32 ip in
      join ''.'' [dec (unat (drop_bit 24 (x AND 0xff000000))), dec (unat (drop_bit 16 (x AND 0x00ff0000))),
                  dec (unat (drop_bit 8 (x AND 0x0000ff00))), dec (unat (x AND 0x000000ff))])"

definition mac_str :: "u8 list \<Rightarrow> string" where
  "mac_str m = join '':'' (map hex2 (take 6 m))"

definition port_str :: "u16 \<Rightarrow> string" where
  "port_str p = dec (unat (bswap16 p))"

definition dump_match :: "FlowQoS_MATCH \<Rightarrow> string \<Rightarrow> string" where
  "dump_match m buf =
     (let f = m_flags m;
          buf = (if has f SIP then put_item 0 (json_item ''SIP'' (ip_str (m_src_ip m))) buf else buf);
          buf = (if has f DIP then put_item 1 (json_item ''DIP'' (ip_str (m_dst_ip m))) buf else buf);
          buf = (if has f TCP then put_item 2 (json_item ''proto'' ''TCP'') buf else buf);
          buf = (if has f UDP then put_item 2 (json_item ''proto'' ''UDP'') buf else buf);
          buf = (if has f ICMP then put_item 2 (json_item ''proto'' ''ICMP'') buf else buf);
          buf = (if has f SPORT then put_item 3 (json_item ''SPORT'' (port_str (m_src_port m))) buf else buf);
          buf = (if has f DPORT then put_item 4 (json_item ''DPORT'' (port_str (m_dst_port m))) buf else buf)
      in buf)"

definition dump_action :: "FlowQoS_ACTION \<Rightarrow> string \<Rightarrow> string" where
  "dump_action a buf =
     (let f = a_flags a;
          buf = (if has f SIP then put_item 0 (json_item ''SIP'' (ip_str (a_src_ip a))) buf else buf);
          buf = (if has f DIP then put_item 1 (json_item ''DIP'' (ip_str (a_dst_ip a))) buf else buf);
          buf = (if has f SPORT then put_item 2 (json_item ''SPORT'' (port_str (a_src_port a))) buf else buf);
          buf = (if has f DPORT then put_item 3 (json_item ''DPORT'' (port_str (a_dst_port a))) buf else buf);
          buf = (if has f SMAC then put_item 4 (json_item ''SMAC'' (mac_str (a_src_mac a))) buf else buf);
          buf = (if has f DMAC then put_item 5 (json_item ''DMAC'' (mac_str (a_dst_mac a))) buf else buf);
          buf = (if has f TTL_DECREASE then put_item 6 (json_item ''TTL'' ''-1'') buf else buf)
      in buf)"

text \<open>The name of a forwarding target; a target that is an address is dereferenced.\<close>

definition fwd_name :: "(nat \<rightharpoonup> FlowQoS_PIPE) \<Rightarrow> FlowQoS_FWD \<Rightarrow> string option" where
  "fwd_name pipes fwd =
     (if fwd = 0 then Some ''NULL''
      else if fwd = DROP then Some ''DROP''
      else if fwd = PORT then Some ''PORT''
      else if fwd = RSS_TO_QUEUE then Some ''RSS''
      else map_option p_pipeName (pipes (unat fwd)))"

definition dump_control :: "(nat \<rightharpoonup> FlowQoS_PIPE) \<Rightarrow> FlowQoS_ENTRY \<Rightarrow> string \<Rightarrow> string option" where
  "dump_control pipes e buf =
     (let f = a_flags (e_action e);
          buf = (if has f COUNTER then put_item 0 (json_item ''COUNTER'' ''1'') buf else buf);
          buf = (if has f AGING then put_item 1 (json_item ''AGING'' (dec (unat (e_expireTime e)))) buf else buf)
      in if e_pipe e = 0 then Some buf
         else case pipes (e_pipe e) of
             None \<Rightarrow> None
           | Some p \<Rightarrow>
              (case (fwd_name pipes (p_matched_fwd p), fwd_name pipes (p_unmatched_fwd p)) of
                 (Some n0, Some n1) \<Rightarrow>
                   Some (put_item 3 (json_item ''Miss'' n1) (put_item 2 (json_item ''Match'' n0) buf))
               | _ \<Rightarrow> None))"

definition dumpFlowQoSEntry :: "(nat \<rightharpoonup> FlowQoS_PIPE) \<Rightarrow> FlowQoS_ENTRY \<Rightarrow> EntryInfo option" where
  "dumpFlowQoSEntry pipes e =
     map_option (\<lambda>c. \<lparr>ei_match = dump_match (e_match e) (replicate (ENTRY_INFO_ITEM_LENGTH * 5) NUL),
                      ei_action = dump_action (e_action e) (replicate (ENTRY_INFO_ITEM_LENGTH * 7) NUL),
                      ei_control = c\<rparr>)
       (dump_control pipes e (replicate (ENTRY_INFO_ITEM_LENGTH * (2 + ENTRY_INFO_ITEM_LENGTH)) NUL))"

text \<open>
  The loop that appends the items \<open>i .. n-1\<close> to item 0, through a buffer \<open>tmp\<close> of 32 bytes: a comma,
  an item and the null must fit in it.
\<close>

definition strcat :: "string \<Rightarrow> string \<Rightarrow> string" where
  "strcat buf s = put_str (length (get_str 0 buf)) s buf"

fun concat_items :: "nat list \<Rightarrow> string \<Rightarrow> string option" where
  "concat_items [] buf = Some buf"
| "concat_items (i # is) buf =
     (if buf ! (ENTRY_INFO_ITEM_LENGTH * i) = NUL then concat_items is buf
      else if ENTRY_INFO_ITEM_LENGTH < length (get_item i buf) + 2 then None
      else concat_items is (strcat buf (CHR 0x2C # get_item i buf)))"

definition skip_comma :: "string \<Rightarrow> string" where
  "skip_comma buf = (if buf ! 0 = CHR 0x2C then get_str 1 buf else get_str 0 buf)"

definition printFlowQoSEntry :: "EntryInfo \<Rightarrow> (string \<times> string \<times> string) option" where
  "printFlowQoSEntry info =
     (case (concat_items [1..<5] (ei_match info), concat_items [1..<7] (ei_action info),
            concat_items [1..<4] (ei_control info)) of
        (Some m, Some a, Some c) \<Rightarrow> Some (skip_comma m, skip_comma a, skip_comma c)
      | _ \<Rightarrow> None)"

text \<open>The same body, with the result written to the command line.\<close>

definition printFlowQoSEntryToCmdline :: "EntryInfo \<Rightarrow> (string \<times> string \<times> string) option" where
  "printFlowQoSEntryToCmdline info =
     (case (concat_items [1..<5] (ei_match info), concat_items [1..<7] (ei_action info),
            concat_items [1..<4] (ei_control info)) of
        (Some m, Some a, Some c) \<Rightarrow> Some (skip_comma m, skip_comma a, skip_comma c)
      | _ \<Rightarrow> None)"

definition printFlowQoSPipe :: "(nat \<rightharpoonup> FlowQoS_PIPE) \<Rightarrow> nat \<Rightarrow> (string \<times> string \<times> string) option" where
  "printFlowQoSPipe pipes p =
     (case pipes p of None \<Rightarrow> None
      | Some fp \<Rightarrow>
         Option.bind (dumpFlowQoSEntry pipes (zero_entry\<lparr>e_pipe := p, e_match := p_match_pattern fp,
            e_action := p_action_pattern fp\<rparr>)) printFlowQoSEntry)"

definition registerPipeCmd :: "cmd_state \<Rightarrow> cmd_state option" where
  "registerPipeCmd = register_once ''Pipe'' [''cmd_dumpFDB_obj'']"

section \<open>Pipes and entries\<close>

text \<open>
  \<open>flowQoS_build_pipe\<close> with the address \<open>addr\<close> that \<open>rte_malloc\<close> returned. The name is written
  after the other attributes, so a name of 30 bytes or more overruns \<open>pipeName\<close>.
\<close>

definition flowQoS_build_pipe ::
  "'d doca_ops \<Rightarrow> (nat \<Rightarrow> nat) \<Rightarrow> nat \<Rightarrow> nat \<Rightarrow> nat \<Rightarrow> string \<Rightarrow> u64 \<Rightarrow> u64 \<Rightarrow> FlowQoS_FWD \<Rightarrow> FlowQoS_FWD
     \<Rightarrow> bool \<Rightarrow> int \<Rightarrow> (nat \<rightharpoonup> FlowQoS_PIPE) \<times> cmd_state \<times> 'd
     \<Rightarrow> (nat \<times> (nat \<rightharpoonup> FlowQoS_PIPE) \<times> cmd_state \<times> 'd) option" where
  "flowQoS_build_pipe ops ports lcore_count addr port_id pipe_name matchFlags actionFlags matched unmatched
       is_root entryAmount st =
     (let (pipes, cs, d) = st in
      if addr = 0 then Some (0, pipes, cs, d)
      else case registerPipeCmd cs of
        None \<Rightarrow> None
      | Some cs \<Rightarrow>
        if PIPE_NAME_LENGTH \<le> length pipe_name then None
        else
        let pipe = \<lparr>p_src_doca_port = ports port_id, p_dst_doca_port = ports (port_id XOR 1),
                    p_doca_pipe = 0, p_match_pattern = zero_match\<lparr>m_flags := matchFlags\<rparr>,
                    p_action_pattern = zero_action\<lparr>a_flags := actionFlags\<rparr>,
                    p_matched_fwd = matched, p_unmatched_fwd = unmatched,
                    p_max_entry_amount = entryAmount, p_port_id = port_id,
                    p_pipeName = pipe_name, p_is_root = is_root\<rparr>;
            match = match_adapter (p_match_pattern pipe) zero_doca_match 0;
            meta = action_adapter (p_action_pattern pipe) zero_action_meta 0
        in case (fwd_adapter (pipes(addr \<mapsto> pipe)) lcore_count matched port_id,
                 fwd_adapter (pipes(addr \<mapsto> pipe)) lcore_count unmatched port_id) of
             (Some fwd, Some fwd_miss) \<Rightarrow>
               (let cfg = \<lparr>cfg_name = pipe_name, cfg_match = match, cfg_actions = meta,
                           cfg_nb_flows = entryAmount, cfg_is_root = is_root, cfg_port = ports port_id\<rparr>;
                    (doca_pipe, d') = pipe_create ops cfg fwd fwd_miss d
                in if doca_pipe = 0 then Some (0, pipes(addr := None), cs, d')
                   else let pipes' = pipes(addr \<mapsto> pipe\<lparr>p_doca_pipe := doca_pipe\<rparr>)
                        in map_option (\<lambda>_. (addr, pipes', cs, d')) (printFlowQoSPipe pipes' addr))
           | _ \<Rightarrow> None)"

text \<open>
  \<open>flowQoS_add_entry\<close>: \<open>ents\<close> is the store of entries, \<open>e\<close> the address of the entry.
\<close>

definition flowQoS_add_entry ::
  "'d doca_ops \<Rightarrow> (nat \<rightharpoonup> FlowQoS_PIPE) \<Rightarrow> nat \<Rightarrow> nat \<Rightarrow> int \<Rightarrow> int \<Rightarrow> (nat \<Rightarrow> FlowQoS_ENTRY) \<times> 'd
     \<Rightarrow> (int \<times> (nat \<Rightarrow> FlowQoS_ENTRY) \<times> 'd) option" where
  "flowQoS_add_entry ops pipes pipe e flowQueueId flush st =
     (case pipes pipe of None \<Rightarrow> None
      | Some fp \<Rightarrow>
        let (ents, d) = st;
            flags = (if 0 < flush then DOCA_FLOW_NO_WAIT else DOCA_FLOW_WAIT_FOR_BATCH);
            en = (ents e)\<lparr>e_pipe := pipe\<rparr>;
            en = en\<lparr>e_match := (e_match en)\<lparr>m_flags := m_flags (p_match_pattern fp)\<rparr>,
                    e_action := (e_action en)\<lparr>a_flags := a_flags (p_action_pattern fp)\<rparr>\<rparr>;
            match = match_adapter (e_match en) zero_doca_match 1;
            meta = action_adapter (e_action en) zero_action_meta
                     (if 0 < e_expireTime en then ucast (e_expireTime en) else 1);
            meta = (if 0 < e_expireTime en then meta\<lparr>monitor_user_data := e\<rparr> else meta);
            (h, d1) = pipe_add_entry ops flowQueueId (p_doca_pipe fp) match meta flags d;
            ents' = ents(e := en\<lparr>e_entry := h\<rparr>);
            ret = (if h = 0 then 0 else 1)
        in if flush \<noteq> 0 then
             let num_of_entries = (if h = 0 then flush - 1 else flush);
                 (result, d2) = entries_process ops (p_src_doca_port fp) flowQueueId num_of_entries d1
             in Some ((if result \<noteq> num_of_entries then 0 else ret), ents', d2)
           else Some (ret, ents', d1))"

text \<open>
  The loop of \<open>flowQoS_aging_handle\<close> over the aged entries; a callback runs on the whole
  state \<^typ>\<open>'s\<close>, of which \<open>ents_of\<close> reads the entry store and \<open>hw\<close> applies a hardware call.
\<close>

fun aging_loop ::
  "('s \<Rightarrow> nat \<Rightarrow> FlowQoS_ENTRY) \<Rightarrow> (nat \<Rightarrow> 's \<Rightarrow> int \<times> 's) \<Rightarrow> (nat \<Rightarrow> nat \<Rightarrow> 's \<Rightarrow> 's option)
     \<Rightarrow> nat list \<Rightarrow> 's \<Rightarrow> 's option" where
  "aging_loop ents_of rm run [] s = Some s"
| "aging_loop ents_of rm run (e # es) s =
     (if e = 0 then None
      else case rm (e_entry (ents_of s e)) s of (r, s1) \<Rightarrow>
        if r < 0 then aging_loop ents_of rm run es s1
        else (case e_cb (ents_of s1 e) of
                None \<Rightarrow> aging_loop ents_of rm run es s1
              | Some cb \<Rightarrow>
                  (case run cb (e_cb_args (ents_of s1 e)) s1 of
                     None \<Rightarrow> None
                   | Some s2 \<Rightarrow> aging_loop ents_of rm run es s2)))"

definition flowQoS_aging_handle ::
  "(nat \<Rightarrow> int \<Rightarrow> int \<Rightarrow> 's \<Rightarrow> int \<times> nat list \<times> 's) \<Rightarrow> ('s \<Rightarrow> nat \<Rightarrow> FlowQoS_ENTRY)
     \<Rightarrow> (int \<Rightarrow> nat \<Rightarrow> 's \<Rightarrow> int \<times> 's) \<Rightarrow> (nat \<Rightarrow> nat \<Rightarrow> 's \<Rightarrow> 's option) \<Rightarrow> nat \<Rightarrow> int \<Rightarrow> 's \<Rightarrow> (int \<times> 's) option" where
  "flowQoS_aging_handle poll ents_of rm run port flowQueueId s =
     (case poll port flowQueueId MAX_AGED_CT_PER_POLL s of (num, aged, s1) \<Rightarrow>
        map_option (\<lambda>s2. (if 0 < num then num else 0, s2))
          (aging_loop ents_of (rm flowQueueId) run (take (nat num) aged) s1))"

end
