(* ===== verification/Pipe_Print.thy ===== *)
theory Pipe_Print
  imports Pipe
begin

text \<open>
  The textual dump of \<open>flowQoS_pipe.c\<close>: what \<open>dumpFlowQoSEntry\<close> writes into the items of
  \<open>struct EntryInfo\<close>, and that the in-place concatenation of the printing functions never runs
  into an item it has still to read nor past its buffers, and prints the items joined by commas.
\<close>

section \<open>Strings inside buffers\<close>

definition str_at :: "nat \<Rightarrow> string \<Rightarrow> string \<Rightarrow> bool" where
  "str_at off s buf \<longleftrightarrow> off + length s < length buf \<and> NUL \<notin> set s \<and>
     (\<forall>k < length s. buf ! (off + k) = s ! k) \<and> buf ! (off + length s) = NUL"

lemma length_put_str [simp]:
  "off + length s < length buf \<Longrightarrow> length (put_str off s buf) = length buf"
  by (simp add: put_str_def)

lemma nth_put_str:
  assumes "off + length s < length buf"
  shows "put_str off s buf ! k =
    (if k < off then buf ! k else if k < off + length s then s ! (k - off)
     else if k = off + length s then NUL else buf ! k)"
proof -
  have "off \<le> length buf" using assms by simp
  then have off: "length (take off buf) = off" by simp
  show ?thesis using assms off
    by (auto simp: put_str_def nth_append nth_Cons' nth_drop not_less)
qed

lemma str_at_put:
  assumes "off + length s < length buf" and "NUL \<notin> set s"
  shows "str_at off s (put_str off s buf)"
  using assms by (simp add: str_at_def nth_put_str)

lemma str_at_frame:
  assumes "str_at o1 s1 buf" and "off + length s < length buf"
    and "o1 + length s1 < off \<or> off + length s < o1"
  shows "str_at o1 s1 (put_str off s buf)"
  using assms by (auto simp: str_at_def nth_put_str)

lemma get_str_at: "str_at off s buf \<Longrightarrow> get_str off buf = s"
proof -
  assume a: "str_at off s buf"
  have "drop off buf = s @ NUL # drop (off + length s + 1) buf"
  proof (rule nth_equalityI)
    fix k assume "k < length (drop off buf)"
    then show "drop off buf ! k = (s @ NUL # drop (off + length s + 1) buf) ! k"
      using a by (auto simp: str_at_def nth_append nth_Cons' not_less)
  qed (use a in \<open>simp add: str_at_def Suc_diff_Suc\<close>)
  moreover have "\<forall>c \<in> set s. c \<noteq> NUL" using a by (auto simp: str_at_def)
  ultimately show ?thesis by (simp add: get_str_def takeWhile_append2)
qed

lemma str_at_first: "str_at off s buf \<Longrightarrow> buf ! off = NUL \<longleftrightarrow> s = []"
proof -
  assume a: "str_at off s buf"
  show ?thesis
  proof (cases s)
    case (Cons c s')
    then have "buf ! off = c" using a by (force simp: str_at_def)
    with a Cons show ?thesis by (auto simp: str_at_def)
  qed (use a in \<open>simp add: str_at_def\<close>)
qed

section \<open>Items\<close>

definition laid :: "string \<Rightarrow> string list \<Rightarrow> bool" where
  "laid buf items \<longleftrightarrow> ENTRY_INFO_ITEM_LENGTH * length items \<le> length buf \<and>
     (\<forall>i < length items. length (items ! i) < ENTRY_INFO_ITEM_LENGTH \<and>
        str_at (ENTRY_INFO_ITEM_LENGTH * i) (items ! i) buf)"

lemma laid_init: "32 * n \<le> m \<Longrightarrow> laid (replicate m NUL) (replicate n [])"
  by (auto simp: laid_def str_at_def flow_consts)

lemma item_pos: "i < (n :: nat) \<Longrightarrow> 32 * i + 32 \<le> 32 * n"
  by simp

lemma laid_put:
  assumes "laid buf items" and "i < length items" and "length s < 32" and "NUL \<notin> set s"
  shows "laid (put_item i s buf) (items[i := s])"
proof -
  have in_buf: "32 * i + length s < length buf"
    using assms item_pos [of i "length items"] by (simp add: laid_def flow_consts)
  have "str_at (32 * j) (items[i := s] ! j) (put_str (32 * i) s buf)" if j: "j < length items" for j
  proof (cases "j = i")
    case False
    have len: "length (items ! j) < 32" and at: "str_at (32 * j) (items ! j) buf"
      using assms(1) j by (simp_all add: laid_def flow_consts)
    have "j < i \<or> i < j" using False by auto
    then have "32 * j + length (items ! j) < 32 * i \<or> 32 * i + length s < 32 * j"
      using len assms(3) by auto
    from str_at_frame [OF at in_buf this] False show ?thesis by simp
  qed (use str_at_put [OF in_buf assms(4)] assms(2) in simp)
  then show ?thesis using assms in_buf
    by (auto simp: laid_def flow_consts nth_list_update)
qed

lemma laid_put_if:
  assumes "laid buf items" and "i < length items" and "length s < 32" and "NUL \<notin> set s"
  shows "laid (if b then put_item i s buf else buf) (if b then items[i := s] else items)"
  using assms laid_put by simp

section \<open>The concatenation\<close>

definition appended :: "string list \<Rightarrow> string" where
  "appended items = concat (map (\<lambda>s. if s = [] then [] else CHR 0x2C # s) items)"

lemma concat_items_step:
  assumes acc: "str_at 0 acc buf" "length acc < 32 * i"
    and item: "str_at (32 * i) s buf" "length s \<le> 30" and room: "32 * i + 32 \<le> length buf"
  shows "concat_items (i # is) buf =
           concat_items is (if s = [] then buf else put_str (length acc) (CHR 0x2C # s) buf)"
    and "s \<noteq> [] \<Longrightarrow> str_at 0 (acc @ CHR 0x2C # s) (put_str (length acc) (CHR 0x2C # s) buf)"
    and "s \<noteq> [] \<Longrightarrow> 32 * (i + 1) \<le> j \<Longrightarrow> str_at j t buf \<Longrightarrow>
          str_at j t (put_str (length acc) (CHR 0x2C # s) buf)"
proof -
  have fit: "length acc + length (CHR 0x2C # s) < length buf" using acc item room by simp
  have fst: "buf ! (32 * i) = NUL \<longleftrightarrow> s = []" using item by (simp add: str_at_first)
  show "concat_items (i # is) buf =
           concat_items is (if s = [] then buf else put_str (length acc) (CHR 0x2C # s) buf)"
    using get_str_at [OF acc(1)] get_str_at [OF item(1)] item(2) fst
    by (simp add: strcat_def flow_consts)
  have comma: "CHR 0x2C \<noteq> NUL" by (simp add: NUL_def)
  show "str_at 0 (acc @ CHR 0x2C # s) (put_str (length acc) (CHR 0x2C # s) buf)"
    using fit acc(1) item(1) comma
    by (auto simp: str_at_def nth_put_str nth_append nth_Cons')
  show "str_at j t (put_str (length acc) (CHR 0x2C # s) buf)" if "32 * (i + 1) \<le> j" "str_at j t buf"
    using str_at_frame [OF that(2) fit] that(1) acc(2) item(2) by simp
qed

lemma concat_items_from:
  assumes "str_at 0 acc buf" and "length acc < 32 * i" and "0 < i"
    and "\<forall>k < length items. length (items ! k) \<le> 30 \<and> str_at (32 * (i + k)) (items ! k) buf"
    and "32 * (i + length items) \<le> length buf"
  shows "\<exists>buf'. concat_items [i..<i + length items] buf = Some buf' \<and> str_at 0 (acc @ appended items) buf'"
  using assms
proof (induction items arbitrary: acc buf i)
  case Nil
  then show ?case by (auto simp: appended_def)
next
  case (Cons s items)
  let ?buf = "if s = [] then buf else put_str (length acc) (CHR 0x2C # s) buf"
  let ?acc = "if s = [] then acc else acc @ CHR 0x2C # s"
  have s: "str_at (32 * i) s buf" "length s \<le> 30" using Cons.prems(4) by (auto dest: spec [of _ 0])
  have room: "32 * i + 32 \<le> length buf" using Cons.prems(5) by simp
  note step = concat_items_step [OF Cons.prems(1,2) s room]
  have items: "\<forall>k < length items. length (items ! k) \<le> 30 \<and> str_at (32 * (Suc i + k)) (items ! k) buf"
    using Cons.prems(4) by fastforce
  then have "\<forall>k < length items. length (items ! k) \<le> 30 \<and> str_at (32 * (Suc i + k)) (items ! k) ?buf"
    using step(3) by auto
  moreover have "str_at 0 ?acc ?buf" using Cons.prems(1) step(2) by auto
  moreover have "length ?acc < 32 * Suc i" using Cons.prems(2) s(2) by auto
  moreover have "length ?buf = length buf" using Cons.prems(2) s(2) room by auto
  ultimately have "\<exists>buf'. concat_items [Suc i..<Suc i + length items] ?buf = Some buf' \<and>
      str_at 0 (?acc @ appended items) buf'"
    using Cons.IH [of ?acc ?buf "Suc i"] Cons.prems(5) by simp
  moreover have "[i..<i + length (s # items)] = i # [Suc i..<Suc i + length items]"
    by (simp add: upt_rec)
  ultimately show ?case using step(1) by (auto simp: appended_def)
qed

lemma join_comma:
  assumes "\<forall>s \<in> set (s0 # items). s \<noteq> [] \<longrightarrow> hd s \<noteq> CHR 0x2C"
  shows "(if s0 @ appended items \<noteq> [] \<and> hd (s0 @ appended items) = CHR 0x2C then tl (s0 @ appended items)
          else s0 @ appended items) = join [CHR 0x2C] (filter (\<lambda>s. s \<noteq> []) (s0 # items))"
proof -
  have app: "x @ appended xs = join [CHR 0x2C] (x # filter (\<lambda>s. s \<noteq> []) xs)" if "x \<noteq> []" for x xs
    using that by (induction xs arbitrary: x) (auto simp: appended_def)
  have "(if appended ys = [] then [] else tl (appended ys)) =
      join [CHR 0x2C] (filter (\<lambda>s. s \<noteq> []) ys) \<and> (appended ys \<noteq> [] \<longrightarrow> hd (appended ys) = CHR 0x2C)" for ys
  proof (induction ys)
    case (Cons x xs)
    have split: "appended (x # xs) = (if x = [] then appended xs else CHR 0x2C # x @ appended xs)"
      by (simp add: appended_def)
    show ?case using Cons.IH app [of x xs] split by auto
  qed (simp add: appended_def)
  note tail = this [of items]
  show ?thesis
  proof (cases "s0 = []")
    case False
    then have "hd (s0 @ appended items) \<noteq> CHR 0x2C" using assms by simp
    with False app [OF False, of items] show ?thesis by simp
  qed (use tail in auto)
qed

lemma skip_comma_at:
  assumes "str_at 0 s buf"
  shows "skip_comma buf = (if s \<noteq> [] \<and> hd s = CHR 0x2C then tl s else s)"
proof (cases s)
  case (Cons c s')
  then have c: "buf ! 0 = c" using assms by (force simp: str_at_def)
  have "str_at 1 s' buf" using assms Cons by (force simp: str_at_def)
  with c Cons get_str_at [OF assms] show ?thesis by (simp add: skip_comma_def get_str_at)
next
  case Nil
  then have "buf ! 0 = NUL" using assms by (simp add: str_at_def)
  with Nil get_str_at [OF assms] show ?thesis by (simp add: skip_comma_def NUL_def)
qed

lemma concat_items_join:
  assumes "laid buf (s0 # items)" and "\<forall>s \<in> set items. length s \<le> 30"
    and "\<forall>s \<in> set (s0 # items). s \<noteq> [] \<longrightarrow> hd s \<noteq> CHR 0x2C"
  shows "\<exists>buf'. concat_items [1..<1 + length items] buf = Some buf' \<and>
           skip_comma buf' = join [CHR 0x2C] (filter (\<lambda>s. s \<noteq> []) (s0 # items))"
proof -
  have at: "\<And>k. k \<le> length items \<Longrightarrow> str_at (32 * k) ((s0 # items) ! k) buf \<and> length ((s0 # items) ! k) < 32"
    using assms(1) by (simp add: laid_def flow_consts)
  have "\<forall>k < length items. length (items ! k) \<le> 30 \<and> str_at (32 * (1 + k)) (items ! k) buf"
    using at assms(2) by (metis Suc_leI nth_Cons_Suc nth_mem plus_1_eq_Suc)
  moreover have "str_at 0 s0 buf" "length s0 < 32 * 1" using at [of 0] by simp_all
  moreover have "32 * (1 + length items) \<le> length buf" using assms(1) by (simp add: laid_def flow_consts)
  ultimately obtain buf' where "concat_items [1..<1 + length items] buf = Some buf'"
    "str_at 0 (s0 @ appended items) buf'" using concat_items_from [of s0 buf 1 items] by auto
  then show ?thesis using skip_comma_at join_comma [OF assms(3)] by auto
qed


section \<open>What an entry shows\<close>

definition match_items :: "FlowQoS_MATCH \<Rightarrow> string list" where
  "match_items m = (let f = m_flags m in
     [if has f SIP then json_item ''SIP'' (ip_str (m_src_ip m)) else [],
      if has f DIP then json_item ''DIP'' (ip_str (m_dst_ip m)) else [],
      if has f ICMP then json_item ''proto'' ''ICMP'' else if has f UDP then json_item ''proto'' ''UDP''
      else if has f TCP then json_item ''proto'' ''TCP'' else [],
      if has f SPORT then json_item ''SPORT'' (port_str (m_src_port m)) else [],
      if has f DPORT then json_item ''DPORT'' (port_str (m_dst_port m)) else []])"

definition action_items :: "FlowQoS_ACTION \<Rightarrow> string list" where
  "action_items a = (let f = a_flags a in
     [if has f SIP then json_item ''SIP'' (ip_str (a_src_ip a)) else [],
      if has f DIP then json_item ''DIP'' (ip_str (a_dst_ip a)) else [],
      if has f SPORT then json_item ''SPORT'' (port_str (a_src_port a)) else [],
      if has f DPORT then json_item ''DPORT'' (port_str (a_dst_port a)) else [],
      if has f SMAC then json_item ''SMAC'' (mac_str (a_src_mac a)) else [],
      if has f DMAC then json_item ''DMAC'' (mac_str (a_dst_mac a)) else [],
      if has f TTL_DECREASE then json_item ''TTL'' ''-1'' else []])"

definition control_items :: "FlowQoS_ENTRY \<Rightarrow> (string \<times> string) option \<Rightarrow> string list" where
  "control_items e names = (let f = a_flags (e_action e) in
     [if has f COUNTER then json_item ''COUNTER'' ''1'' else [],
      if has f AGING then json_item ''AGING'' (dec (unat (e_expireTime e))) else []] @
     (case names of None \<Rightarrow> [[], []]
      | Some (n0, n1) \<Rightarrow> [json_item ''Match'' n0, json_item ''Miss'' n1]))"

lemma length_json_item [simp]: "length (json_item k v) = length k + length v + 5"
  by (simp add: json_item_def)

lemma json_item_no_NUL: "NUL \<notin> set k \<Longrightarrow> NUL \<notin> set v \<Longrightarrow> NUL \<notin> set (json_item k v)"
  by (auto simp: json_item_def NUL_def)

lemma json_item_hd [simp]: "json_item k v \<noteq> []" "hd (json_item k v) = CHR 0x22"
  by (simp_all add: json_item_def)

lemma length_dec_bits: "n < 2 ^ k \<Longrightarrow> k = 8 \<and> b = 3 \<or> k = 16 \<and> b = 5 \<or> k = 64 \<and> b = 20 \<Longrightarrow> length (dec n) \<le> b"
  by (rule length_dec) auto

lemma unat_less_pow: "unat (w :: 'a::len word) < 2 ^ LENGTH('a)"
  by (rule unsigned_less)

lemma byte_bound: "unat m < 2 ^ 8 * 2 ^ k \<Longrightarrow> unat (drop_bit k (x AND m) :: u32) < 2 ^ 8"
proof -
  assume "unat m < 2 ^ 8 * 2 ^ k"
  moreover have "unat (x AND m) \<le> unat m" by (simp add: word_le_nat_alt [symmetric] word_and_le1)
  ultimately show ?thesis unfolding unat_drop_bit_div by (intro less_mult_imp_div_less) linarith
qed

lemma length_byte: "unat m < 2 ^ 8 * 2 ^ k \<Longrightarrow> length (dec (unat (drop_bit k (x AND m) :: u32))) \<le> 3"
  using byte_bound [of m k x] length_dec_bits [of "unat (drop_bit k (x AND m))" 8 3] by blast

lemma length_join4:
  "length a \<le> 3 \<Longrightarrow> length b \<le> 3 \<Longrightarrow> length c \<le> 3 \<Longrightarrow> length d \<le> 3 \<Longrightarrow>
   length (join ''.'' [a, b, c, d]) \<le> 15"
  by simp

lemma length_ip_str: "length (ip_str ip) \<le> 15"
  unfolding ip_str_def Let_def
  by (intro length_join4 length_byte, simp_all)
    (use length_byte [of "0xff" 0 "bswap32 ip"] in simp)

lemma set_join: "set (join sep xs) \<subseteq> set sep \<union> \<Union> (set ` set xs)"
  by (induction sep xs rule: join.induct) auto

lemma ip_str_no_NUL: "NUL \<notin> set (ip_str ip)"
  using dec_no_NUL by (auto simp: ip_str_def Let_def NUL_def)

lemma length_mac_str: "length (mac_str m) \<le> 17"
proof -
  have "length (join '':'' (map hex2 xs)) \<le> 3 * length xs - 1" for xs
    by (induction xs rule: induct_list012) (auto simp: hex2_def)
  from this [of "take 6 m"] show ?thesis by (auto simp: mac_str_def)
qed

lemma mac_str_no_NUL: "NUL \<notin> set (mac_str m)"
  using set_join [of "'':''" "map hex2 (take 6 m)"] hex2_no_NUL by (auto simp: mac_str_def NUL_def)

lemma length_port_str: "length (port_str p) \<le> 5"
  using length_dec_bits [of "unat (bswap16 p)" 16 5] unat_less_pow [of "bswap16 p"]
  by (simp add: port_str_def)

lemma port_str_no_NUL: "NUL \<notin> set (port_str p)"
  using dec_no_NUL by (simp add: port_str_def)

lemma length_aging: "length (dec (unat (t :: u64))) \<le> 20"
  using length_dec_bits [of "unat t" 64 20] unat_less_pow [of t] by simp

lemmas item_bounds = length_ip_str length_mac_str length_port_str length_aging
lemmas item_no_NUL = json_item_no_NUL ip_str_no_NUL mac_str_no_NUL port_str_no_NUL dec_no_NUL

lemma len_items [simp]:
  "length (json_item ''SIP'' (ip_str a)) \<le> 30" "length (json_item ''DIP'' (ip_str a)) \<le> 30"
  "length (json_item ''SPORT'' (port_str p)) \<le> 30" "length (json_item ''DPORT'' (port_str p)) \<le> 30"
  "length (json_item ''SMAC'' (mac_str m)) \<le> 30" "length (json_item ''DMAC'' (mac_str m)) \<le> 30"
  "length (json_item ''AGING'' (dec (unat (t :: u64)))) \<le> 30"
  using item_bounds(1) [of a] item_bounds(2) [of m] item_bounds(3) [of p] item_bounds(4) [of t]
  by simp_all


lemma no_NUL_items [simp]:
  "NUL \<notin> set (json_item ''SIP'' (ip_str a))" "NUL \<notin> set (json_item ''DIP'' (ip_str a))"
  "NUL \<notin> set (json_item ''SPORT'' (port_str p))" "NUL \<notin> set (json_item ''DPORT'' (port_str p))"
  "NUL \<notin> set (json_item ''SMAC'' (mac_str m))" "NUL \<notin> set (json_item ''DMAC'' (mac_str m))"
  "NUL \<notin> set (json_item ''AGING'' (dec n))" "NUL \<notin> set (json_item ''COUNTER'' ''1'')"
  "NUL \<notin> set (json_item ''TTL'' ''-1'')" "NUL \<notin> set (json_item ''proto'' ''TCP'')"
  "NUL \<notin> set (json_item ''proto'' ''UDP'')" "NUL \<notin> set (json_item ''proto'' ''ICMP'')"
  by (intro item_no_NUL; simp add: NUL_def)+

lemma len_items_lt: "length s \<le> 30 \<Longrightarrow> length s < 32"
  by simp

lemma laid_eq: "laid buf xs \<Longrightarrow> xs = ys \<Longrightarrow> laid buf ys"
  by simp

lemmas laid_puts = laid_put_if [OF _ _ len_items_lt]

lemma laid_dump_match:
  assumes "laid buf [[], [], [], [], []]"
  shows "laid (dump_match m buf) (match_items m)"
  unfolding dump_match_def Let_def
  by (rule laid_eq, (rule laid_puts)+, rule assms, simp_all add: match_items_def Let_def del: length_json_item)
    simp_all

lemma laid_dump_action:
  assumes "laid buf [[], [], [], [], [], [], []]"
  shows "laid (dump_action a buf) (action_items a)"
  unfolding dump_action_def Let_def
  by (rule laid_eq, (rule laid_puts)+, rule assms, simp_all add: action_items_def Let_def del: length_json_item)
    simp_all

text \<open>The two names a pipe's targets have, when the entry has a pipe.\<close>

definition entry_fwd_names :: "(nat \<rightharpoonup> FlowQoS_PIPE) \<Rightarrow> FlowQoS_ENTRY \<Rightarrow> (string \<times> string) option option" where
  "entry_fwd_names pipes e =
     (if e_pipe e = 0 then Some None
      else case pipes (e_pipe e) of None \<Rightarrow> None
      | Some p \<Rightarrow> (case (fwd_name pipes (p_matched_fwd p), fwd_name pipes (p_unmatched_fwd p)) of
                    (Some n0, Some n1) \<Rightarrow> Some (Some (n0, n1)) | _ \<Rightarrow> None))"

definition short_name :: "string \<Rightarrow> bool" where
  "short_name n \<longleftrightarrow> length n \<le> 20 \<and> NUL \<notin> set n"

lemma fwd_item_bounds:
  assumes "short_name n"
  shows "length (json_item ''Match'' n) \<le> 30" "length (json_item ''Miss'' n) \<le> 30"
    "NUL \<notin> set (json_item ''Match'' n)" "NUL \<notin> set (json_item ''Miss'' n)"
  using assms by (auto simp: short_name_def json_item_def NUL_def)

lemma laid_dump_control:
  assumes buf: "laid buf [[], [], [], []]" and names: "entry_fwd_names pipes e = Some names"
    and short: "\<forall>n0 n1. names = Some (n0, n1) \<longrightarrow> short_name n0 \<and> short_name n1"
  shows "\<exists>buf'. dump_control pipes e buf = Some buf' \<and> laid buf' (control_items e names)"
proof -
  let ?b1 = "if has (a_flags (e_action e)) COUNTER then put_item 0 (json_item ''COUNTER'' ''1'') buf else buf"
  let ?b2 = "if has (a_flags (e_action e)) AGING
             then put_item 1 (json_item ''AGING'' (dec (unat (e_expireTime e)))) ?b1 else ?b1"
  have two: "laid ?b2 (control_items e None)"
    by (rule laid_eq, (rule laid_puts)+, rule buf, simp_all add: control_items_def Let_def del: length_json_item)
      simp_all
  show ?thesis
  proof (cases names)
    case None
    then have "e_pipe e = 0" using names
      by (auto simp: entry_fwd_names_def split: if_splits option.splits prod.splits)
    with two None show ?thesis by (simp add: dump_control_def Let_def)
  next
    case (Some n)
    obtain n0 n1 where n: "n = (n0, n1)" by (cases n)
    have sh: "short_name n0" "short_name n1" using short Some n by auto
    have "laid (put_item 3 (json_item ''Miss'' n1) (put_item 2 (json_item ''Match'' n0) ?b2))
            ((control_items e None)[2 := json_item ''Match'' n0, 3 := json_item ''Miss'' n1])"
      using fwd_item_bounds [OF sh(1)] fwd_item_bounds [OF sh(2)]
      by (intro laid_put two len_items_lt) (simp_all add: control_items_def Let_def del: length_json_item)
    moreover have "(control_items e None)[2 := json_item ''Match'' n0, 3 := json_item ''Miss'' n1] =
        control_items e names" using Some n by (simp add: control_items_def Let_def)
    moreover have "dump_control pipes e buf =
        Some (put_item 3 (json_item ''Miss'' n1) (put_item 2 (json_item ''Match'' n0) ?b2))"
      using names Some n
      by (auto simp: entry_fwd_names_def dump_control_def Let_def split: if_splits option.splits)
    ultimately show ?thesis by simp
  qed
qed

definition comma_join :: "string list \<Rightarrow> string" where
  "comma_join items = join [CHR 0x2C] (filter (\<lambda>s. s \<noteq> []) items)"

lemma print_items:
  assumes "laid buf items" and "items \<noteq> []" and "\<forall>s \<in> set items. length s \<le> 30"
    and "\<forall>s \<in> set items. s \<noteq> [] \<longrightarrow> hd s = CHR 0x22" and "n = length items"
  shows "\<exists>buf'. concat_items [1..<n] buf = Some buf' \<and> skip_comma buf' = comma_join items"
proof -
  obtain s0 rest where items: "items = s0 # rest" using assms(2) by (cases items) auto
  show ?thesis using concat_items_join [of buf s0 rest] assms unfolding items comma_join_def by auto
qed

lemma print_match:
  assumes "laid buf (match_items m)"
  shows "\<exists>buf'. concat_items [1..<5] buf = Some buf' \<and> skip_comma buf' = comma_join (match_items m)"
  by (rule print_items [OF assms])
    (auto simp: match_items_def Let_def simp del: length_json_item, simp_all)

lemma print_action:
  assumes "laid buf (action_items a)"
  shows "\<exists>buf'. concat_items [1..<7] buf = Some buf' \<and> skip_comma buf' = comma_join (action_items a)"
  by (rule print_items [OF assms])
    (auto simp: action_items_def Let_def simp del: length_json_item, simp_all)

lemma print_control:
  assumes "laid buf (control_items e names)"
    and "\<forall>n0 n1. names = Some (n0, n1) \<longrightarrow> short_name n0 \<and> short_name n1"
  shows "\<exists>buf'. concat_items [1..<4] buf = Some buf' \<and> skip_comma buf' = comma_join (control_items e names)"
  by (rule print_items [OF assms(1)])
    (use assms(2) fwd_item_bounds in
      \<open>auto simp: control_items_def Let_def simp del: length_json_item split: option.splits\<close>, simp_all)

lemma dump_print_items:
  assumes names: "entry_fwd_names pipes e = Some names"
    and short: "\<forall>n0 n1. names = Some (n0, n1) \<longrightarrow> short_name n0 \<and> short_name n1"
  shows "Option.bind (dumpFlowQoSEntry pipes e) printFlowQoSEntry =
    Some (comma_join (match_items (e_match e)), comma_join (action_items (e_action e)),
          comma_join (control_items e names))"
proof -
  have "laid (replicate (32 * 5) NUL) [[], [], [], [], []]" "laid (replicate (32 * 7) NUL) [[], [], [], [], [], [], []]"
    "laid (replicate (32 * 34) NUL) [[], [], [], []]"
    using laid_init [of 5 "32 * 5"] laid_init [of 7 "32 * 7"] laid_init [of 4 "32 * 34"]
    by (simp_all add: numeral_eq_Suc)
  note laid = laid_dump_match [OF this(1), of "e_match e"] laid_dump_action [OF this(2), of "e_action e"]
    laid_dump_control [OF this(3) names short]
  then obtain c where c: "dump_control pipes e (replicate (32 * 34) NUL) = Some c" "laid c (control_items e names)"
    by auto
  obtain m' where m': "concat_items [1..<5] (dump_match (e_match e) (replicate (32 * 5) NUL)) = Some m'"
    "skip_comma m' = comma_join (match_items (e_match e))" using print_match [OF laid(1)] by blast
  obtain a' where a': "concat_items [1..<7] (dump_action (e_action e) (replicate (32 * 7) NUL)) = Some a'"
    "skip_comma a' = comma_join (action_items (e_action e))" using print_action [OF laid(2)] by blast
  obtain c' where c': "concat_items [1..<4] c = Some c'"
    "skip_comma c' = comma_join (control_items e names)" using print_control [OF c(2) short] by blast
  have "dumpFlowQoSEntry pipes e = Some \<lparr>ei_match = dump_match (e_match e) (replicate (32 * 5) NUL),
      ei_action = dump_action (e_action e) (replicate (32 * 7) NUL), ei_control = c\<rparr>"
    using c(1) by (simp add: dumpFlowQoSEntry_def ENTRY_INFO_ITEM_LENGTH_def del: replicate.simps)
  with m' a' c' show ?thesis by (simp add: printFlowQoSEntry_def)
qed

text \<open>The pipes whose entries can be printed, and the text is then defined.\<close>

definition printable :: "(nat \<rightharpoonup> FlowQoS_PIPE) \<Rightarrow> nat \<Rightarrow> bool" where
  "printable pipes x \<longleftrightarrow> (\<exists>names. entry_fwd_names pipes (zero_entry\<lparr>e_pipe := x\<rparr>) = Some names \<and>
     (\<forall>n0 n1. names = Some (n0, n1) \<longrightarrow> short_name n0 \<and> short_name n1))"

lemma printable_prints: "printable pipes (e_pipe e) \<Longrightarrow> \<exists>out. Option.bind (dumpFlowQoSEntry pipes e) printFlowQoSEntry = Some out"
proof -
  have "entry_fwd_names pipes (zero_entry\<lparr>e_pipe := e_pipe e\<rparr>) = entry_fwd_names pipes e" by (simp add: entry_fwd_names_def cong: if_cong)
  moreover assume "printable pipes (e_pipe e)"
  ultimately show ?thesis using dump_print_items [of pipes e] by (auto simp: printable_def)
qed

text \<open>
  C27: Dumping an entry and printing it. For every entry whose pipe's targets exist and have names
  of at most 20 characters, \<open>dumpFlowQoSEntry\<close> followed by \<open>printFlowQoSEntry\<close> is defined (no item
  is longer than its 32 bytes, no comma-prefixed item overruns the 32-byte temporary, and the
  concatenation in place never overwrites an item still to be read) and prints, for each of the
  three groups, exactly the items of the flags that are set, in order, separated by commas.
\<close>

theorem dump_print_joins_items:
  assumes names: "entry_fwd_names pipes e = Some names"
    and short: "\<forall>n0 n1. names = Some (n0, n1) \<longrightarrow> short_name n0 \<and> short_name n1"
  shows "Option.bind (dumpFlowQoSEntry pipes e) printFlowQoSEntry =
    Some (comma_join (match_items (e_match e)), comma_join (action_items (e_action e)),
          comma_join (control_items e names))"
  by (rule dump_print_items [OF names short])

definition demo_pipe :: FlowQoS_PIPE where
  "demo_pipe = \<lparr>p_src_doca_port = 1, p_dst_doca_port = 2, p_doca_pipe = 9,
     p_match_pattern = zero_match\<lparr>m_flags := SIP OR TCP\<rparr>,
     p_action_pattern = zero_action\<lparr>a_flags := DMAC OR AGING\<rparr>,
     p_matched_fwd = PORT, p_unmatched_fwd = DROP, p_max_entry_amount = 8, p_port_id = 0,
     p_pipeName = ''TCP'', p_is_root = True\<rparr>"

lemma dump_print_joins_items_witness:
  "Option.bind (dumpFlowQoSEntry [5 \<mapsto> demo_pipe] (zero_entry\<lparr>e_pipe := 5, e_match := zero_match\<lparr>m_flags := TCP\<rparr>\<rparr>))
      printFlowQoSEntry =
   Some (json_item ''proto'' ''TCP'', [], comma_join [json_item ''Match'' ''PORT'', json_item ''Miss'' ''DROP''])"
  using dump_print_joins_items [of "[5 \<mapsto> demo_pipe]" "zero_entry\<lparr>e_pipe := 5, e_match := zero_match\<lparr>m_flags := TCP\<rparr>\<rparr>"
      "Some (''PORT'', ''DROP'')"]
  by (simp add: entry_fwd_names_def fwd_name_def demo_pipe_def zero_entry_def zero_match_def zero_action_def
      match_items_def action_items_def control_items_def comma_join_def Let_def flow_consts short_name_def NUL_def)

end
