(* ===== verification/Pipe_Entry.thy ===== *)
theory Pipe_Entry
  imports Pipe_Print
begin

text \<open>
  What the entries of a pipe mean to the hardware: which fields of a match reach it, what
  \<open>flowQoS_add_entry\<close> asks for and stores, and what the poller of aged entries can be handed.
\<close>

section \<open>Matches\<close>

text \<open>The fields of a match that the flags select.\<close>

definition selected ::
  "u64 \<Rightarrow> FlowQoS_MATCH \<Rightarrow> u32 option \<times> u32 option \<times> u16 option \<times> u16 option" where
  "selected f m =
     (if has f SIP then Some (m_src_ip m) else None, if has f DIP then Some (m_dst_ip m) else None,
      if has f SPORT then Some (m_src_port m) else None, if has f DPORT then Some (m_dst_port m) else None)"

lemma match_adapter_fields:
  "dm_src_ip (match_adapter m zero_doca_match k) =
     (if has (m_flags m) SIP then (if 0 < k then m_src_ip m else 0xffffffff) else 0)"
  "dm_dst_ip (match_adapter m zero_doca_match k) =
     (if has (m_flags m) DIP then (if 0 < k then m_dst_ip m else 0xffffffff) else 0)"
  "dm_src_port (match_adapter m zero_doca_match k) =
     (if has (m_flags m) SPORT then (if 0 < k then m_src_port m else 0xffff) else 0)"
  "dm_dst_port (match_adapter m zero_doca_match k) =
     (if has (m_flags m) DPORT then (if 0 < k then m_dst_port m else 0xffff) else 0)"
  "dm_src_ip_type (match_adapter m zero_doca_match k) = (if has (m_flags m) SIP then DOCA_FLOW_IP4_ADDR else L3_NONE)"
  "dm_dst_ip_type (match_adapter m zero_doca_match k) = (if has (m_flags m) DIP then DOCA_FLOW_IP4_ADDR else L3_NONE)"
  "dm_l4_type (match_adapter m zero_doca_match k) =
     (if k = 0 \<and> has (m_flags m) UDP then DOCA_PROTO_UDP else if k = 0 \<and> has (m_flags m) TCP then DOCA_PROTO_TCP
      else L4_NONE)"
  by (simp_all add: match_adapter_def zero_doca_match_def Let_def)

lemma doca_match_eq_iff:
  "(a :: doca_flow_match) = b \<longleftrightarrow> dm_src_ip_type a = dm_src_ip_type b \<and> dm_src_ip a = dm_src_ip b \<and>
     dm_dst_ip_type a = dm_dst_ip_type b \<and> dm_dst_ip a = dm_dst_ip b \<and> dm_l4_type a = dm_l4_type b \<and>
     dm_src_port a = dm_src_port b \<and> dm_dst_port a = dm_dst_port b"
  by (cases a; cases b) auto

text \<open>
  C26: The match of an entry identifies its flow as far as its pipe selects it: two entries of one
  pipe have the same hardware match exactly when they agree on the fields the pipe's flags select
  (the RSS hash, the protocol number and unselected fields never matter), and the match of the pipe
  itself is the mask of exactly those fields, with the layer-4 protocol of the pipe.
\<close>

theorem entry_match_identifies_flow:
  assumes "m_flags m = f" and "m_flags m' = f"
  shows "(match_adapter m zero_doca_match 1 = match_adapter m' zero_doca_match 1 \<longleftrightarrow> selected f m = selected f m') \<and>
         selected f (m\<lparr>m_rss := h, m_proto := p\<rparr>) = selected f m \<and>
         (let mask = match_adapter m zero_doca_match 0 in
            dm_src_ip mask = (if has f SIP then 0xffffffff else 0) \<and>
            dm_dst_ip mask = (if has f DIP then 0xffffffff else 0) \<and>
            dm_src_port mask = (if has f SPORT then 0xffff else 0) \<and>
            dm_dst_port mask = (if has f DPORT then 0xffff else 0) \<and>
            (dm_l4_type mask = L4_NONE \<longleftrightarrow> \<not> has f TCP \<and> \<not> has f UDP))"
  using assms by (auto simp: doca_match_eq_iff match_adapter_fields selected_def Let_def)

lemma entry_match_identifies_flow_witness:
  "match_adapter (zero_match\<lparr>m_flags := SIP, m_src_ip := 1, m_dst_ip := 2\<rparr>) zero_doca_match 1 =
   match_adapter (zero_match\<lparr>m_flags := SIP, m_src_ip := 1, m_dst_ip := 3\<rparr>) zero_doca_match 1 \<and>
   match_adapter (zero_match\<lparr>m_flags := SIP, m_src_ip := 1\<rparr>) zero_doca_match 1 \<noteq>
   match_adapter (zero_match\<lparr>m_flags := SIP, m_src_ip := 2\<rparr>) zero_doca_match 1"
  using entry_match_identifies_flow [of "zero_match\<lparr>m_flags := SIP, m_src_ip := 1, m_dst_ip := 2\<rparr>" SIP
      "zero_match\<lparr>m_flags := SIP, m_src_ip := 1, m_dst_ip := 3\<rparr>"]
    entry_match_identifies_flow [of "zero_match\<lparr>m_flags := SIP, m_src_ip := 1\<rparr>" SIP
      "zero_match\<lparr>m_flags := SIP, m_src_ip := 2\<rparr>"]
  by (simp add: selected_def flow_consts)

section \<open>Adding an entry\<close>

text \<open>What an entry becomes when it is added to a pipe and DOCA returns the handle \<open>h\<close>.\<close>

definition stamped :: "FlowQoS_PIPE \<Rightarrow> nat \<Rightarrow> nat \<Rightarrow> FlowQoS_ENTRY \<Rightarrow> FlowQoS_ENTRY" where
  "stamped fp pipe h en = en\<lparr>e_pipe := pipe, e_entry := h,
     e_match := (e_match en)\<lparr>m_flags := m_flags (p_match_pattern fp)\<rparr>,
     e_action := (e_action en)\<lparr>a_flags := a_flags (p_action_pattern fp)\<rparr>\<rparr>"

definition entry_agingTime :: "FlowQoS_ENTRY \<Rightarrow> 32 word" where
  "entry_agingTime en = (if 0 < e_expireTime en then ucast (e_expireTime en) else 1)"

definition hw_meta :: "FlowQoS_PIPE \<Rightarrow> nat \<Rightarrow> FlowQoS_ENTRY \<Rightarrow> doca_flow_action_meta" where
  "hw_meta fp e en =
     (let meta = action_adapter ((e_action en)\<lparr>a_flags := a_flags (p_action_pattern fp)\<rparr>) zero_action_meta
                   (entry_agingTime en)
      in if 0 < e_expireTime en then meta\<lparr>monitor_user_data := e\<rparr> else meta)"

definition hw_match :: "FlowQoS_PIPE \<Rightarrow> FlowQoS_ENTRY \<Rightarrow> doca_flow_match" where
  "hw_match fp en = match_adapter ((e_match en)\<lparr>m_flags := m_flags (p_match_pattern fp)\<rparr>) zero_doca_match 1"

lemma add_entry_now:
  assumes "pipes pipe = Some fp"
  shows "flowQoS_add_entry ops pipes pipe e q 1 (ents, d) =
    (let (h, d1) = pipe_add_entry ops q (p_doca_pipe fp) (hw_match fp (ents e)) (hw_meta fp e (ents e))
                     DOCA_FLOW_NO_WAIT d;
         n = (if h = 0 then 0 else 1);
         (result, d2) = entries_process ops (p_src_doca_port fp) q n d1
     in Some (if h \<noteq> 0 \<and> result = 1 then 1 else 0, ents(e := stamped fp pipe h (ents e)), d2))"
  using assms
  by (auto simp: flowQoS_add_entry_def hw_match_def hw_meta_def stamped_def entry_agingTime_def Let_def
      split: prod.splits)

lemma guarded_field: "g (guarded b f s) = (if b then g (f s) else g s)"
  by (simp add: guarded_def)

lemmas meta_fields = guarded_field [of mod_src_mac] guarded_field [of mod_dst_mac] guarded_field [of mod_src_ip]
  guarded_field [of mod_dst_ip] guarded_field [of mod_src_port] guarded_field [of mod_dst_port]
  guarded_field [of monitor_flags] guarded_field [of monitor_aging] guarded_field [of monitor_user_data]

lemma action_adapter_aging:
  assumes "a_flags a AND AGING \<noteq> 0" and "t \<noteq> 0"
  shows "monitor_aging (action_adapter a zero_action_meta t) = t"
  using assms by (simp add: action_adapter_def Let_def)

lemma action_adapter_aging_flag:
  "has (a_flags a) AGING \<Longrightarrow> DOCA_FLOW_MONITOR_AGING \<in> monitor_flags (action_adapter a zero_action_meta t)"
  by (cases "t = 0") (simp_all add: action_adapter_def Let_def)

lemma action_adapter_user_data: "monitor_user_data (action_adapter a zero_action_meta t) = 0"
  by (simp add: action_adapter_def Let_def meta_fields zero_action_meta_def)

lemma action_adapter_fields:
  assumes "0 < sint t"
  shows "mod_src_ip (action_adapter a zero_action_meta t) = (if has (a_flags a) SIP then a_src_ip a else 0)"
    "mod_dst_ip (action_adapter a zero_action_meta t) = (if has (a_flags a) DIP then a_dst_ip a else 0)"
    "mod_src_port (action_adapter a zero_action_meta t) = (if has (a_flags a) SPORT then a_src_port a else 0)"
    "mod_dst_port (action_adapter a zero_action_meta t) = (if has (a_flags a) DPORT then a_dst_port a else 0)"
    "mod_src_mac (action_adapter a zero_action_meta t) = (if has (a_flags a) SMAC then a_src_mac a else replicate 6 0)"
    "mod_dst_mac (action_adapter a zero_action_meta t) = (if has (a_flags a) DMAC then a_dst_mac a else replicate 6 0)"
  using assms by (simp_all add: action_adapter_def Let_def meta_fields zero_action_meta_def)

lemma agingTime_in_range:
  assumes "0 < e_expireTime en" and "e_expireTime en < 2 ^ 31"
  shows "0 < sint (entry_agingTime en)" and "uint (entry_agingTime en) = uint (e_expireTime en)"
proof -
  have lt: "uint (e_expireTime en) < 2 ^ 31" using assms(2) by (simp add: word_less_def)
  have pos: "0 < uint (e_expireTime en)" using assms(1) by (simp add: word_less_def)
  have "uint (ucast (e_expireTime en) :: 32 word) = take_bit 32 (uint (e_expireTime en))"
    by (simp add: unsigned_ucast_eq)
  also have "\<dots> = uint (e_expireTime en)" using lt by (simp add: take_bit_int_eq_self)
  finally have u: "uint (ucast (e_expireTime en) :: 32 word) = uint (e_expireTime en)" .
  then show "uint (entry_agingTime en) = uint (e_expireTime en)" using assms(1) by (simp add: entry_agingTime_def)
  have "sint (ucast (e_expireTime en) :: 32 word) = uint (e_expireTime en)"
    using u lt pos unfolding sint_uint by (simp add: signed_take_bit_int_eq_self)
  then show "0 < sint (entry_agingTime en)" using assms(1) pos by (simp add: entry_agingTime_def)
qed

lemma action_meta_eq_iff:
  "(a :: doca_flow_action_meta) = b \<longleftrightarrow> mod_src_mac a = mod_src_mac b \<and> mod_dst_mac a = mod_dst_mac b \<and>
     mod_src_ip_type a = mod_src_ip_type b \<and> mod_src_ip a = mod_src_ip b \<and> mod_dst_ip_type a = mod_dst_ip_type b \<and>
     mod_dst_ip a = mod_dst_ip b \<and> mod_ttl a = mod_ttl b \<and> mod_src_port a = mod_src_port b \<and> mod_dst_port a = mod_dst_port b \<and>
     desc_ttl a = desc_ttl b \<and> monitor_flags a = monitor_flags b \<and> monitor_aging a = monitor_aging b \<and>
     monitor_user_data a = monitor_user_data b"
  by (cases a; cases b) auto

lemma action_adapter_rest:
  assumes "t \<noteq> 0"
  shows "mod_src_ip_type (action_adapter a zero_action_meta t) = (if has (a_flags a) SIP then DOCA_FLOW_IP4_ADDR else L3_NONE)"
    "mod_dst_ip_type (action_adapter a zero_action_meta t) = (if has (a_flags a) DIP then DOCA_FLOW_IP4_ADDR else L3_NONE)"
    "mod_ttl (action_adapter a zero_action_meta t) = 0" "desc_ttl (action_adapter a zero_action_meta t) = ACTION_NONE"
    "monitor_flags (action_adapter a zero_action_meta t) = (if has (a_flags a) AGING then {DOCA_FLOW_MONITOR_AGING} else {})"
    "monitor_aging (action_adapter a zero_action_meta t) = (if has (a_flags a) AGING then t else 0)"
    "monitor_user_data (action_adapter a zero_action_meta t) = 0"
  using assms
  by (simp_all add: action_adapter_def Let_def guarded_field [of mod_src_ip_type] guarded_field [of mod_dst_ip_type]
      guarded_field [of mod_ttl] guarded_field [of desc_ttl] meta_fields zero_action_meta_def)

lemma agingTime_positive: "e_expireTime en < 2 ^ 31 \<Longrightarrow> 0 < sint (entry_agingTime en)"
proof (cases "0 < e_expireTime en")
  case False
  then show ?thesis by (simp add: entry_agingTime_def)
qed (use agingTime_in_range in blast)

text \<open>What an entry asks of the hardware: its own values in the fields that the flags \<open>f\<close> of its pipe select.\<close>

definition asked_match :: "u64 \<Rightarrow> FlowQoS_MATCH \<Rightarrow> doca_flow_match" where
  "asked_match f m =
     \<lparr>dm_src_ip_type = (if has f SIP then DOCA_FLOW_IP4_ADDR else L3_NONE), dm_src_ip = (if has f SIP then m_src_ip m else 0),
      dm_dst_ip_type = (if has f DIP then DOCA_FLOW_IP4_ADDR else L3_NONE), dm_dst_ip = (if has f DIP then m_dst_ip m else 0),
      dm_l4_type = L4_NONE, dm_src_port = (if has f SPORT then m_src_port m else 0),
      dm_dst_port = (if has f DPORT then m_dst_port m else 0)\<rparr>"

definition asked_actions :: "u64 \<Rightarrow> FlowQoS_ACTION \<Rightarrow> u64 \<Rightarrow> nat \<Rightarrow> doca_flow_action_meta" where
  "asked_actions f a expire e =
     \<lparr>mod_src_mac = (if has f SMAC then a_src_mac a else replicate 6 0),
      mod_dst_mac = (if has f DMAC then a_dst_mac a else replicate 6 0),
      mod_src_ip_type = (if has f SIP then DOCA_FLOW_IP4_ADDR else L3_NONE), mod_src_ip = (if has f SIP then a_src_ip a else 0),
      mod_dst_ip_type = (if has f DIP then DOCA_FLOW_IP4_ADDR else L3_NONE), mod_dst_ip = (if has f DIP then a_dst_ip a else 0),
      mod_ttl = 0, mod_src_port = (if has f SPORT then a_src_port a else 0),
      mod_dst_port = (if has f DPORT then a_dst_port a else 0), desc_ttl = ACTION_NONE,
      monitor_flags = (if has f AGING then {DOCA_FLOW_MONITOR_AGING} else {}),
      monitor_aging = (if has f AGING then (if expire = 0 then 1 else ucast expire) else 0),
      monitor_user_data = (if expire = 0 then 0 else e)\<rparr>"

lemma hw_match_asked: "hw_match fp en = asked_match (m_flags (p_match_pattern fp)) (e_match en)"
  by (simp add: doca_match_eq_iff hw_match_def match_adapter_fields asked_match_def)

lemma hw_meta_asked:
  assumes "e_expireTime en < 2 ^ 31"
  shows "hw_meta fp e en = asked_actions (a_flags (p_action_pattern fp)) (e_action en) (e_expireTime en) e"
proof -
  let ?t = "entry_agingTime en" and ?a = "(e_action en)\<lparr>a_flags := a_flags (p_action_pattern fp)\<rparr>"
  have pos: "0 < sint ?t" by (rule agingTime_positive [OF assms])
  then have nz: "?t \<noteq> 0" by auto
  have t: "(if e_expireTime en = 0 then 1 else ucast (e_expireTime en)) = ?t"
    by (simp add: entry_agingTime_def word_gt_0)
  show ?thesis
    unfolding asked_actions_def t
    by (simp add: action_meta_eq_iff hw_meta_def Let_def action_adapter_fields [OF pos] action_adapter_rest [OF nz] word_gt_0)
qed

lemma stamped_order:
  "stamped fp pipe h en = en\<lparr>e_pipe := pipe, e_match := (e_match en)\<lparr>m_flags := m_flags (p_match_pattern fp)\<rparr>,
     e_action := (e_action en)\<lparr>a_flags := a_flags (p_action_pattern fp)\<rparr>, e_entry := h\<rparr>"
  by (cases en) (simp add: stamped_def)

lemma add_entry_flush:
  assumes "pipes pipe = Some fp"
  shows "flowQoS_add_entry ops pipes pipe e q flush (ents, d) =
    (case pipe_add_entry ops q (p_doca_pipe fp) (hw_match fp (ents e)) (hw_meta fp e (ents e))
            (if 0 < flush then DOCA_FLOW_NO_WAIT else DOCA_FLOW_WAIT_FOR_BATCH) d of
       (h, d1) \<Rightarrow>
         let ents' = ents(e := stamped fp pipe h (ents e)); ret = (if h = 0 then 0 else 1) in
         if flush = 0 then Some (ret, ents', d1)
         else let n = (if h = 0 then flush - 1 else flush) in
              case entries_process ops (p_src_doca_port fp) q n d1 of (r, d2) \<Rightarrow> Some (if r = n then ret else 0, ents', d2))"
proof -
  obtain h d1 where h: "pipe_add_entry ops q (p_doca_pipe fp) (hw_match fp (ents e)) (hw_meta fp e (ents e))
            (if 0 < flush then DOCA_FLOW_NO_WAIT else DOCA_FLOW_WAIT_FOR_BATCH) d = (h, d1)" by fastforce
  obtain r d2 where r: "entries_process ops (p_src_doca_port fp) q (if h = 0 then flush - 1 else flush) d1 = (r, d2)" by fastforce
  show ?thesis
  proof (cases "flush = 0")
    case True
    then show ?thesis using h assms
      by (cases "0 < e_expireTime (ents e)")
        (simp_all add: flowQoS_add_entry_def hw_match_def hw_meta_def stamped_order entry_agingTime_def Let_def)
  next
    case False
    then show ?thesis using h r assms
      by (cases "0 < e_expireTime (ents e)"; cases "h = 0"; cases "r = (if h = 0 then flush - 1 else flush)")
        (simp_all add: flowQoS_add_entry_def hw_match_def hw_meta_def stamped_order entry_agingTime_def Let_def)
  qed
qed


text \<open>A DOCA that accepts every entry, giving them increasing handles.\<close>

definition demo_doca :: "nat doca_ops" where
  "demo_doca = \<lparr>pipe_create = (\<lambda>cfg fwd miss d. (Suc d, Suc d)),
     pipe_add_entry = (\<lambda>q p m a f d. (Suc d, Suc d)), entries_process = (\<lambda>p q n d. (n, d)),
     aging_poll = (\<lambda>p q n d. (0, [], d)), pipe_rm_entry = (\<lambda>q h d. (0, d))\<rparr>"


end
