(* ===== verification/Qos.thy ===== *)
theory Qos
  imports Pipe_Entry
begin

text \<open>
  The scheduler that offloads connections (\<open>src/src/flowQoS_qos.c\<close>): each worker core has a context
  with one queue of entries per priority, a weight per priority and a number of tokens, the hardware
  entries it may still use. A general task serves the queues from the highest priority down, by
  weighted round robin, and reports pressure on the hardware table through a callback.

  A queue is the list of the entries linked on its \<open>TAILQ\<close>; \<^term>\<open>None\<close> is a head that was zeroed
  and never initialised. The time stamp counter is an argument. The handlers reached through
  function pointers act on a part \<^typ>\<open>'w\<close> of the state that excludes the scheduler's own.
\<close>

section \<open>State\<close>

definition MAXPriorityQueueNum :: nat where [flow_consts]: "MAXPriorityQueueNum = 8"
definition FLOWQOS_HW_WATERMARK_PERCENT :: int where [flow_consts]: "FLOWQOS_HW_WATERMARK_PERCENT = 80"

text \<open>The static \<open>PriorityQueueNum\<close>, which no function assigns.\<close>

definition PriorityQueueNum :: nat where [flow_consts]: "PriorityQueueNum = 4"

record FlowQoS_Stats =
  priorityQueueNum :: nat
  weight :: "nat \<Rightarrow> int"
  maxEntry :: int
  maxEntryLimit :: int
  hwWatermarkPercent :: int
  hwCongested :: int
  total :: "nat \<Rightarrow> u64"
  finished :: "nat \<Rightarrow> u64"
  onList :: "nat \<Rightarrow> u64"
  gap :: u64
  lastStmp :: u64
  buckets :: "nat \<Rightarrow> nat list option"

definition zero_stats :: FlowQoS_Stats where
  "zero_stats = \<lparr>priorityQueueNum = 0, weight = (\<lambda>_. 0), maxEntry = 0, maxEntryLimit = 0,
     hwWatermarkPercent = 0, hwCongested = 0, total = (\<lambda>_. 0), finished = (\<lambda>_. 0), onList = (\<lambda>_. 0),
     gap = 0, lastStmp = 0, buckets = (\<lambda>_. None)\<rparr>"

record ('d, 'w) qos_core =
  stats :: FlowQoS_Stats
  ents :: "nat \<Rightarrow> FlowQoS_ENTRY"
  doca :: 'd
  world :: 'w

text \<open>
  What the scheduler uses: DOCA-Flow, the pipes, \<open>getFlowQid\<close>, the functions behind the pointers
  \<open>flowQoS_qosHandler\<close>, and the registered congestion handler with its argument.
\<close>

record ('d, 'w) qos_env =
  env_doca :: "'d doca_ops"
  env_pipes :: "nat \<rightharpoonup> FlowQoS_PIPE"
  getFlowQid :: "int \<Rightarrow> int"
  qosHandler :: "nat \<Rightarrow> nat \<Rightarrow> (nat \<Rightarrow> FlowQoS_ENTRY) \<Rightarrow> 'w \<Rightarrow> 'w"
  qosCongestionHandler :: "(u64 \<Rightarrow> u64 \<Rightarrow> nat \<Rightarrow> 'w \<Rightarrow> 'w) option"
  qosCongestionArgs :: nat

definition flowQoS_regist_congestion_handler ::
  "(u64 \<Rightarrow> u64 \<Rightarrow> nat \<Rightarrow> 'w \<Rightarrow> 'w) option \<Rightarrow> nat \<Rightarrow> ('d, 'w) qos_env \<Rightarrow> ('d, 'w) qos_env" where
  "flowQoS_regist_congestion_handler handler args env =
     env\<lparr>qosCongestionHandler := handler, qosCongestionArgs := args\<rparr>"

definition queue :: "FlowQoS_Stats \<Rightarrow> nat \<Rightarrow> nat list" where
  "queue s i = (case buckets s i of None \<Rightarrow> [] | Some es \<Rightarrow> es)"

section \<open>Operations\<close>

text \<open>
  The per-core context is a copy of the template, whose queues it initialises. The result of \<open>rte_malloc\<close> is used
  unchecked: without memory the copy is written through null.
\<close>

definition initFlowQoS_Context :: "bool \<Rightarrow> FlowQoS_Stats \<Rightarrow> FlowQoS_Stats option" where
  "initFlowQoS_Context allocated template =
     (if \<not> allocated then None
      else Some (template\<lparr>buckets := (\<lambda>i. if i < PriorityQueueNum then Some [] else None)\<rparr>))"

text \<open>
  \<open>flowQoS_qos_init\<close> up to the launch on the workers: the template, and the context each worker
  gets; \<open>allocated\<close> tells for which workers there is memory. More priorities than \<open>MAXPriorityQueueNum\<close> overrun
  the arrays; the division is undefined for a speed of 0.
\<close>

definition flowQoS_qos_init ::
  "(nat \<Rightarrow> bool) \<Rightarrow> u64 \<Rightarrow> u64 \<Rightarrow> nat list \<Rightarrow> nat \<Rightarrow> int list \<Rightarrow> int \<Rightarrow> int
     \<Rightarrow> (FlowQoS_Stats \<times> (nat \<rightharpoonup> FlowQoS_Stats)) option" where
  "flowQoS_qos_init allocated tsc tsc_hz workers n ws maxEnt offloadSpeed =
     (if MAXPriorityQueueNum < n \<or> length ws < n \<or> offloadSpeed = 0 then None
      else
        let template = zero_stats\<lparr>priorityQueueNum := n, maxEntry := maxEnt, maxEntryLimit := maxEnt,
              hwWatermarkPercent := FLOWQOS_HW_WATERMARK_PERCENT, hwCongested := 0, lastStmp := tsc,
              gap := tsc_hz * of_nat (length workers) div of_int offloadSpeed,
              buckets := (\<lambda>i. if i < n then Some [] else None),
              weight := (\<lambda>i. if i < n then ws ! i else 0)\<rparr>
        in if list_all (\<lambda>core. initFlowQoS_Context (allocated core) template \<noteq> None) workers
           then Some (template, \<lambda>core. if core \<in> set workers then initFlowQoS_Context (allocated core) template else None)
           else None)"

definition FlushOnListLength :: "FlowQoS_Stats \<Rightarrow> FlowQoS_Stats" where
  "FlushOnListLength s =
     s\<lparr>onList := (\<lambda>i. if i < PriorityQueueNum then of_nat (length (queue s i)) else onList s i)\<rparr>"

definition flowQoS_add_entry_event ::
  "nat \<Rightarrow> nat \<Rightarrow> ('d, 'w) qos_core \<Rightarrow> ('d, 'w) qos_core option" where
  "flowQoS_add_entry_event e priority c =
     (case buckets (stats c) priority of None \<Rightarrow> None
      | Some es \<Rightarrow> Some (c\<lparr>ents := (ents c)(e := (ents c e)\<lparr>e_priority := of_nat priority\<rparr>),
           stats := (stats c)\<lparr>buckets := (buckets (stats c))(priority \<mapsto> es @ [e]),
                             total := (total (stats c))(priority := total (stats c) priority + 1)\<rparr>\<rparr>))"

text \<open>Removing an entry that is not linked on the queue is undefined.\<close>

definition flowQoS_del_entry_event :: "nat \<Rightarrow> ('d, 'w) qos_core \<Rightarrow> ('d, 'w) qos_core option" where
  "flowQoS_del_entry_event e c =
     (let i = unat (e_priority (ents c e)) in
      if e \<in> set (queue (stats c) i)
      then Some (c\<lparr>stats := (stats c)\<lparr>buckets := (buckets (stats c))(i \<mapsto> remove1 e (queue (stats c) i))\<rparr>\<rparr>)
      else None)"

definition flowQoS_return_entry_event :: "FlowQoS_Stats \<Rightarrow> FlowQoS_Stats" where
  "flowQoS_return_entry_event s =
     (let m = c_int (maxEntry s + 1) in
      s\<lparr>maxEntry := (if maxEntryLimit s < m then maxEntryLimit s else m)\<rparr>)"

text \<open>The comparison with the high watermark after an entry was offloaded.\<close>

definition occupied :: "FlowQoS_Stats \<Rightarrow> u64" where
  "occupied s = of_int (c_int (maxEntryLimit s - maxEntry s))"

definition watermark :: "FlowQoS_Stats \<Rightarrow> u64" where
  "watermark s = of_int (c_div (c_int (maxEntryLimit s * hwWatermarkPercent s)) 100)"

definition qos_watermark_check :: "('d, 'w) qos_env \<Rightarrow> ('d, 'w) qos_core \<Rightarrow> ('d, 'w) qos_core" where
  "qos_watermark_check env c =
     (let s = stats c; occ = occupied s; wm = watermark s;
          s1 = (if 0 < maxEntryLimit s \<and> occ < wm then s\<lparr>hwCongested := 0\<rparr> else s)
      in case qosCongestionHandler env of
           Some handler \<Rightarrow>
             (if 0 < maxEntryLimit s1 \<and> wm \<le> occ \<and> hwCongested s1 = 0
              then c\<lparr>stats := s1\<lparr>hwCongested := 1\<rparr>,
                     world := handler occ (of_int (maxEntryLimit s1)) (qosCongestionArgs env) (world c)\<rparr>
              else c\<lparr>stats := s1\<rparr>)
         | None \<Rightarrow> c\<lparr>stats := s1\<rparr>)"

text \<open>The body of the loop over a queue: the result is that of \<open>flowQoS_add_entry\<close>.\<close>

definition qos_offload_entry ::
  "('d, 'w) qos_env \<Rightarrow> int \<Rightarrow> nat \<Rightarrow> nat \<Rightarrow> ('d, 'w) qos_core \<Rightarrow> (int \<times> ('d, 'w) qos_core) option" where
  "qos_offload_entry env cid i e c =
     (case flowQoS_add_entry (env_doca env) (env_pipes env) (e_pipe (ents c e)) e (getFlowQid env cid) 1
             (ents c, doca c) of
        None \<Rightarrow> None
      | Some (ret, es, d) \<Rightarrow>
          let c1 = c\<lparr>ents := es, doca := d\<rparr> in
          if ret \<le> 0 then Some (ret, c1)
          else case e_flowQoS_qosHandler (ents c1 e) of
            None \<Rightarrow> None
          | Some h \<Rightarrow>
              let c2 = c1\<lparr>world := qosHandler env h (e_flowQoS_args (ents c1 e)) (ents c1) (world c1)\<rparr>;
                  s = stats c2;
                  c3 = c2\<lparr>stats := s\<lparr>maxEntry := c_int (maxEntry s - 1),
                                     finished := (finished s)(i := finished s i + 1)\<rparr>\<rparr>
              in map_option (\<lambda>c4. (ret, c4)) (flowQoS_del_entry_event e (qos_watermark_check env c3)))"

text \<open>
  The \<open>while\<close> loop over the queue of priority \<open>i\<close>, from the entry at the head of the list onwards;
  the first component tells whether the function returned from inside the loop.
\<close>

fun qos_bucket_loop ::
  "('d, 'w) qos_env \<Rightarrow> int \<Rightarrow> nat \<Rightarrow> int \<Rightarrow> nat list \<Rightarrow> int \<Rightarrow> ('d, 'w) qos_core
     \<Rightarrow> (bool \<times> int \<times> ('d, 'w) qos_core) option" where
  "qos_bucket_loop env cid i w [] res c = Some (False, res, c)"
| "qos_bucket_loop env cid i w (e # es) res c =
     (if w \<le> 0 \<or> maxEntry (stats c) \<le> 0 then Some (False, res, c)
      else case qos_offload_entry env cid i e c of
        None \<Rightarrow> None
      | Some (ret, c') \<Rightarrow>
          if ret \<le> 0 then Some (True, 0, c')
          else qos_bucket_loop env cid i (w - 1) es (res + ret) c')"

text \<open>The \<open>for\<close> loop over the priorities, from \<open>n - 1\<close> down to 0.\<close>

fun qos_priority_loop ::
  "('d, 'w) qos_env \<Rightarrow> int \<Rightarrow> nat \<Rightarrow> int \<Rightarrow> ('d, 'w) qos_core \<Rightarrow> (bool \<times> int \<times> ('d, 'w) qos_core) option" where
  "qos_priority_loop env cid 0 res c = Some (False, res, c)"
| "qos_priority_loop env cid (Suc i) res c =
     (case qos_bucket_loop env cid i (weight (stats c) i) (queue (stats c) i) res c of
        None \<Rightarrow> None
      | Some (True, r, c') \<Rightarrow> Some (True, r, c')
      | Some (False, r, c') \<Rightarrow> qos_priority_loop env cid i r c')"

definition flowQoS_do_entry_event ::
  "('d, 'w) qos_env \<Rightarrow> u64 \<Rightarrow> int \<Rightarrow> ('d, 'w) qos_core \<Rightarrow> (int \<times> ('d, 'w) qos_core) option" where
  "flowQoS_do_entry_event env cur cid c =
     (if gap (stats c) < cur - lastStmp (stats c) then
        case qos_priority_loop env cid (priorityQueueNum (stats c)) 0 c of
          None \<Rightarrow> None
        | Some (True, r, c') \<Rightarrow> Some (r, c')
        | Some (False, r, c') \<Rightarrow> Some (r, c'\<lparr>stats := (stats c')\<lparr>lastStmp := cur\<rparr>\<rparr>)
      else Some (0, c))"

subsection \<open>Statistics\<close>

text \<open>
  \<open>printFlowQoS\<close>: with flag 0 a worker refreshes its queue lengths and copies its context out, with
  1 the main core zeroes its own, with 2 it adds a worker's copy.
\<close>

definition printFlowQoS_slave :: "FlowQoS_Stats \<Rightarrow> FlowQoS_Stats" where
  "printFlowQoS_slave s = FlushOnListLength s"

definition printFlowQoS_add :: "FlowQoS_Stats \<Rightarrow> FlowQoS_Stats \<Rightarrow> FlowQoS_Stats" where
  "printFlowQoS_add cur s =
     (let s = s\<lparr>priorityQueueNum := priorityQueueNum cur, maxEntry := c_int (maxEntry s + maxEntry cur),
                maxEntryLimit := c_int (maxEntryLimit s + maxEntryLimit cur),
                hwWatermarkPercent := hwWatermarkPercent cur,
                hwCongested := c_int (hwCongested s + hwCongested cur)\<rparr>;
          upd = (\<lambda>f g i. if i < priorityQueueNum cur then f i + g i else f i)
      in s\<lparr>weight := (\<lambda>i. if i < priorityQueueNum cur then weight cur i else weight s i),
           total := upd (total s) (total cur), finished := upd (finished s) (finished cur),
           onList := upd (onList s) (onList cur)\<rparr>)"

definition printFlowQoS_master :: "nat list \<Rightarrow> (nat \<Rightarrow> FlowQoS_Stats) \<Rightarrow> FlowQoS_Stats" where
  "printFlowQoS_master workers ctx = fold (\<lambda>core. printFlowQoS_add (printFlowQoS_slave (ctx core))) workers zero_stats"

definition getFlowQoSOffload_slave :: "FlowQoS_Stats option \<Rightarrow> u64" where
  "getFlowQoSOffload_slave ctx =
     (case ctx of None \<Rightarrow> 0
      | Some s \<Rightarrow> fold (\<lambda>i acc. acc + finished s i) [0..<priorityQueueNum s] 0)"

definition getFlowQoSOffload :: "nat list \<Rightarrow> (nat \<rightharpoonup> FlowQoS_Stats) \<Rightarrow> u64" where
  "getFlowQoSOffload workers ctx = fold (\<lambda>core res. res + getFlowQoSOffload_slave (ctx core)) workers 0"

definition registerFlowQoSCmd :: "cmd_state \<Rightarrow> cmd_state option" where
  "registerFlowQoSCmd = register_once ''FlowQoS'' [''cmd_dumpFlowQoS_obj'']"

end
