(* ===== verification/Qos_Props.thy ===== *)
theory Qos_Props
  imports Qos
begin

text \<open>
  Properties of the scheduler: what a round of \<open>flowQoS_do_entry_event\<close> takes from which queue,
  the bookkeeping of tokens, and when the congestion callback runs.
\<close>

section \<open>One entry\<close>

text \<open>What serving entries never changes.\<close>

definition frame :: "('d, 'w) qos_core \<Rightarrow> ('d, 'w) qos_core \<Rightarrow> bool" where
  "frame c c' \<longleftrightarrow>
     priorityQueueNum (stats c') = priorityQueueNum (stats c) \<and> weight (stats c') = weight (stats c) \<and>
     maxEntryLimit (stats c') = maxEntryLimit (stats c) \<and> hwWatermarkPercent (stats c') = hwWatermarkPercent (stats c) \<and>
     total (stats c') = total (stats c) \<and> gap (stats c') = gap (stats c) \<and> lastStmp (stats c') = lastStmp (stats c) \<and>
     (\<forall>x. e_priority (ents c' x) = e_priority (ents c x) \<and> e_pipe (ents c' x) = e_pipe (ents c x) \<and>
          e_flowQoS_qosHandler (ents c' x) = e_flowQoS_qosHandler (ents c x) \<and>
          e_flowQoS_args (ents c' x) = e_flowQoS_args (ents c x))"

text \<open>\<open>k\<close> entries were taken from the head of queue \<open>i\<close>.\<close>

definition served :: "nat \<Rightarrow> nat \<Rightarrow> ('d, 'w) qos_core \<Rightarrow> ('d, 'w) qos_core \<Rightarrow> bool" where
  "served i k c c' \<longleftrightarrow> frame c c' \<and>
     queue (stats c') i = drop k (queue (stats c) i) \<and>
     (\<forall>j. j \<noteq> i \<longrightarrow> buckets (stats c') j = buckets (stats c) j) \<and>
     finished (stats c') = (finished (stats c))(i := finished (stats c) i + of_nat k) \<and>
     maxEntry (stats c') = maxEntry (stats c) - int k"

lemma frame_refl [simp]: "frame c c"
  by (simp add: frame_def)

lemma frame_trans: "frame a b \<Longrightarrow> frame b c \<Longrightarrow> frame a c"
  by (simp add: frame_def)

lemma served_0: "served i 0 c c"
  by (simp add: served_def)

lemma served_trans: "served i k a b \<Longrightarrow> served i l b c \<Longrightarrow> served i (k + l) a c"
  by (auto simp: served_def add.commute intro: frame_trans)

text \<open>What an entry needs to be offloaded from queue \<open>i\<close>.\<close>

definition entry_ready :: "('d, 'w) qos_env \<Rightarrow> nat \<Rightarrow> FlowQoS_ENTRY \<Rightarrow> bool" where
  "entry_ready env i en \<longleftrightarrow> e_priority en = of_nat i \<and> env_pipes env (e_pipe en) \<noteq> None \<and>
     e_flowQoS_qosHandler en \<noteq> None"

lemma entry_ready_frame: "frame c c' \<Longrightarrow> entry_ready env i (ents c' e) = entry_ready env i (ents c e)"
  by (simp add: frame_def entry_ready_def)

lemma watermark_check_fields [simp]:
  "priorityQueueNum (stats (qos_watermark_check env c)) = priorityQueueNum (stats c)"
  "weight (stats (qos_watermark_check env c)) = weight (stats c)"
  "maxEntry (stats (qos_watermark_check env c)) = maxEntry (stats c)"
  "maxEntryLimit (stats (qos_watermark_check env c)) = maxEntryLimit (stats c)"
  "hwWatermarkPercent (stats (qos_watermark_check env c)) = hwWatermarkPercent (stats c)"
  "total (stats (qos_watermark_check env c)) = total (stats c)"
  "finished (stats (qos_watermark_check env c)) = finished (stats c)"
  "gap (stats (qos_watermark_check env c)) = gap (stats c)"
  "lastStmp (stats (qos_watermark_check env c)) = lastStmp (stats c)"
  "buckets (stats (qos_watermark_check env c)) = buckets (stats c)"
  "ents (qos_watermark_check env c) = ents c"
  "doca (qos_watermark_check env c) = doca c"
  by (auto simp: qos_watermark_check_def Let_def split: option.splits)

text \<open>The state after an entry was accepted, before it leaves its queue.\<close>

definition accepted ::
  "('d, 'w) qos_env \<Rightarrow> nat \<Rightarrow> nat \<Rightarrow> nat \<Rightarrow> ('d, 'w) qos_core \<Rightarrow> ('d, 'w) qos_core" where
  "accepted env i e h c =
     qos_watermark_check env (c\<lparr>world := qosHandler env h (e_flowQoS_args (ents c e)) (ents c) (world c),
       stats := (stats c)\<lparr>maxEntry := c_int (maxEntry (stats c) - 1),
                          finished := (finished (stats c))(i := finished (stats c) i + 1)\<rparr>\<rparr>)"

text \<open>The state after DOCA was asked to add the entry.\<close>

definition asked :: "FlowQoS_PIPE \<Rightarrow> nat \<Rightarrow> nat \<Rightarrow> 'd \<Rightarrow> ('d, 'w) qos_core \<Rightarrow> ('d, 'w) qos_core" where
  "asked fp pe e d c = c\<lparr>ents := (ents c)(e := stamped fp (e_pipe (ents c e)) pe (ents c e)), doca := d\<rparr>"

lemma frame_asked: "frame c (asked fp pe e d c)"
  by (auto simp: frame_def asked_def stamped_def)

lemma offload_entry_exact:
  assumes ready: "entry_ready env i (ents c e)" and q: "queue (stats c) i = e # es" and i: "i < 2 ^ 64"
  shows "\<exists>fp pe d h. env_pipes env (e_pipe (ents c e)) = Some fp \<and> e_flowQoS_qosHandler (ents c e) = Some h \<and>
     (qos_offload_entry env cid i e c = Some (0, asked fp pe e d c) \<or>
      qos_offload_entry env cid i e c = Some (1, let a = accepted env i e h (asked fp pe e d c)
         in a\<lparr>stats := (stats a)\<lparr>buckets := (buckets (stats c))(i \<mapsto> es)\<rparr>\<rparr>))"
proof -
  obtain h fp where h: "e_flowQoS_qosHandler (ents c e) = Some h" and fp: "env_pipes env (e_pipe (ents c e)) = Some fp"
    using ready by (auto simp: entry_ready_def)
  have prio: "e_priority (ents c e) = of_nat i" using ready by (simp add: entry_ready_def)
  have "\<exists>ret pe d. flowQoS_add_entry (env_doca env) (env_pipes env) (e_pipe (ents c e)) e (getFlowQid env cid) 1 (ents c, doca c) =
       Some (ret, ents (asked fp pe e d c), d) \<and> (ret = 0 \<or> ret = 1)"
    unfolding add_entry_now [where pipes = "env_pipes env", OF fp]
    by (auto simp: Let_def asked_def split: prod.splits)
  then obtain ret pe d where add: "flowQoS_add_entry (env_doca env) (env_pipes env) (e_pipe (ents c e)) e
      (getFlowQid env cid) 1 (ents c, doca c) = Some (ret, ents (asked fp pe e d c), d)" "ret = 0 \<or> ret = 1" by blast
  let ?c1 = "asked fp pe e d c" and ?a = "accepted env i e h (asked fp pe e d c)"
  have c1: "c\<lparr>ents := ents ?c1, doca := d\<rparr> = ?c1" "stats ?c1 = stats c" by (simp_all add: asked_def)
  have "e_priority (ents ?a e) = of_nat i" "buckets (stats ?a) = buckets (stats c)" "queue (stats ?a) i = e # es"
    using q prio by (simp_all add: accepted_def asked_def stamped_def queue_def)
  moreover have "unat (of_nat i :: u64) = i" using i by (simp add: unat_of_nat take_bit_nat_eq_self)
  ultimately have del: "flowQoS_del_entry_event e ?a =
      Some (?a\<lparr>stats := (stats ?a)\<lparr>buckets := (buckets (stats c))(i \<mapsto> es)\<rparr>\<rparr>)"
    by (simp add: flowQoS_del_entry_event_def Let_def)
  have "e_flowQoS_qosHandler (ents ?c1 e) = Some h" using h by (simp add: asked_def stamped_def)
  then have "qos_offload_entry env cid i e c =
      (if ret = 0 then Some (0, ?c1) else map_option (\<lambda>c4. (1, c4)) (flowQoS_del_entry_event e ?a))"
    using add c1 by (auto simp: qos_offload_entry_def accepted_def Let_def)
  with del add(2) h fp show ?thesis by (fastforce simp: Let_def)
qed

lemma offload_entry_step:
  assumes ready: "entry_ready env i (ents c e)" and q: "queue (stats c) i = e # es" and i: "i < 2 ^ 64"
    and tok: "0 < maxEntry (stats c)" "maxEntry (stats c) < 2 ^ 31"
  shows "\<exists>ret c'. qos_offload_entry env cid i e c = Some (ret, c') \<and>
           (ret = 0 \<and> served i 0 c c' \<and> world c' = world c \<and> hwCongested (stats c') = hwCongested (stats c) \<or>
            ret = 1 \<and> served i 1 c c' \<and>
            (\<exists>fp h pe d. world c' = world (accepted env i e h (asked fp pe e d c)) \<and>
                 hwCongested (stats c') = hwCongested (stats (accepted env i e h (asked fp pe e d c)))))"
proof -
  obtain fp pe d h where off: "qos_offload_entry env cid i e c = Some (0, asked fp pe e d c) \<or>
      qos_offload_entry env cid i e c = Some (1, let a = accepted env i e h (asked fp pe e d c)
         in a\<lparr>stats := (stats a)\<lparr>buckets := (buckets (stats c))(i \<mapsto> es)\<rparr>\<rparr>)"
    using offload_entry_exact [OF ready q i] by blast
  let ?a = "accepted env i e h (asked fp pe e d c)"
  let ?c' = "?a\<lparr>stats := (stats ?a)\<lparr>buckets := (buckets (stats c))(i \<mapsto> es)\<rparr>\<rparr>"
  have fr: "frame c (asked fp pe e d c)" by (rule frame_asked)
  have st: "stats (asked fp pe e d c) = stats c" "world (asked fp pe e d c) = world c" by (simp_all add: asked_def)
  have "served i 0 c (asked fp pe e d c)" using fr st by (simp add: served_def)
  moreover have "served i 1 c ?c'"
    using fr q tok st by (simp add: served_def frame_def accepted_def queue_def)
  ultimately show ?thesis using off st
  proof (elim disjE)
    assume "qos_offload_entry env cid i e c = Some (0, asked fp pe e d c)" "served i 0 c (asked fp pe e d c)"
    then show ?thesis using st by auto
  next
    assume "qos_offload_entry env cid i e c = Some (1, let a = ?a in a\<lparr>stats := (stats a)\<lparr>buckets := (buckets (stats c))(i \<mapsto> es)\<rparr>\<rparr>)"
      "served i 1 c ?c'"
    then show ?thesis by (intro exI [of _ 1] exI [of _ ?c']) (auto simp: Let_def)
  qed
qed

text \<open>The offload of the entry at the head of a queue, as a step relation.\<close>

inductive qos_step :: "('d, 'w) qos_env \<Rightarrow> int \<Rightarrow> ('d, 'w) qos_core \<Rightarrow> ('d, 'w) qos_core \<Rightarrow> bool"
  for env cid where
  offload: "queue (stats c) i = e # es \<Longrightarrow> entry_ready env i (ents c e) \<Longrightarrow> i < 2 ^ 64 \<Longrightarrow>
     0 < maxEntry (stats c) \<Longrightarrow> maxEntry (stats c) < 2 ^ 31 \<Longrightarrow>
     qos_offload_entry env cid i e c = Some (ret, c') \<Longrightarrow> qos_step env cid c c'"

inductive_cases qos_stepE: "qos_step env cid c c'"

text \<open>
  What DOCA-Flow answers when the entry \<open>e\<close> is offered to it, and the entries with the state of DOCA-Flow after it
  has accepted all of \<open>es\<close>, offered one after the other.
\<close>

definition answer ::
  "('d, 'w) qos_env \<Rightarrow> int \<Rightarrow> nat \<Rightarrow> (nat \<Rightarrow> FlowQoS_ENTRY) \<times> 'd \<Rightarrow> (int \<times> (nat \<Rightarrow> FlowQoS_ENTRY) \<times> 'd) option" where
  "answer env cid e st = flowQoS_add_entry (env_doca env) (env_pipes env) (e_pipe (fst st e)) e (getFlowQid env cid) 1 st"

fun accept_all ::
  "('d, 'w) qos_env \<Rightarrow> int \<Rightarrow> nat list \<Rightarrow> (nat \<Rightarrow> FlowQoS_ENTRY) \<times> 'd \<Rightarrow> ((nat \<Rightarrow> FlowQoS_ENTRY) \<times> 'd) option" where
  "accept_all env cid [] st = Some st"
| "accept_all env cid (e # es) st =
     (case answer env cid e st of None \<Rightarrow> None
      | Some (ret, st1) \<Rightarrow> if 0 < ret then accept_all env cid es st1 else None)"

lemma accept_all_append:
  "accept_all env cid (xs @ ys) st = (case accept_all env cid xs st of None \<Rightarrow> None | Some st1 \<Rightarrow> accept_all env cid ys st1)"
  by (induction xs arbitrary: st) (auto split: option.splits)

lemma offload_entry_answer:
  assumes "qos_offload_entry env cid i e c = Some (ret, c')"
  shows "answer env cid e (ents c, doca c) = Some (ret, ents c', doca c')"
  using assms
  by (auto simp: qos_offload_entry_def answer_def flowQoS_del_entry_event_def Let_def split: option.splits if_splits)

text \<open>
  How a run over the entries \<open>es\<close> ends after \<open>k\<close> of them: with the \<open>k\<close> accepted, and the next refused if the run
  was aborted.
\<close>

definition run_ends ::
  "('d, 'w) qos_env \<Rightarrow> int \<Rightarrow> bool \<Rightarrow> nat \<Rightarrow> nat list \<Rightarrow> (nat \<Rightarrow> FlowQoS_ENTRY) \<times> 'd \<Rightarrow> (nat \<Rightarrow> FlowQoS_ENTRY) \<times> 'd \<Rightarrow> bool" where
  "run_ends env cid aborted k es st st' \<longleftrightarrow>
     (if aborted
      then k < length es \<and> (\<exists>st1 ret. accept_all env cid (take k es) st = Some st1 \<and>
             answer env cid (es ! k) st1 = Some (ret, st') \<and> ret \<le> 0)
      else accept_all env cid (take k es) st = Some st')"

lemma run_ends_0: "run_ends env cid False 0 es st st"
  by (simp add: run_ends_def)

lemma run_ends_refused: "answer env cid e st = Some (ret, st') \<Longrightarrow> ret \<le> 0 \<Longrightarrow> run_ends env cid True 0 (e # es) st st'"
  by (simp add: run_ends_def)

lemma run_ends_Suc:
  "answer env cid e st = Some (ret, st1) \<Longrightarrow> 0 < ret \<Longrightarrow> run_ends env cid ab k es st1 st' \<Longrightarrow>
   run_ends env cid ab (Suc k) (e # es) st st'"
  by (cases ab) (auto simp: run_ends_def)

section \<open>One queue\<close>

text \<open>How many entries a queue of length \<open>l\<close> and weight \<open>w\<close> gives up when \<open>t\<close> tokens are left.\<close>

definition quota :: "int \<Rightarrow> nat \<Rightarrow> int \<Rightarrow> nat" where
  "quota w l t = min (min (nat w) l) (nat t)"

lemma quota_Suc: "0 < w \<Longrightarrow> 0 < t \<Longrightarrow> quota w (Suc l) t = Suc (quota (w - 1) l (t - 1))"
  unfolding quota_def min_def by auto

lemma bucket_loop:
  assumes "queue (stats c) i = es" and "\<forall>e \<in> set es. entry_ready env i (ents c e)" and "i < 2 ^ 64"
    and "maxEntry (stats c) < 2 ^ 31"
  shows "\<exists>ab r c' k. qos_bucket_loop env cid i w es res c = Some (ab, r, c') \<and> served i k c c' \<and>
           (qos_step env cid)\<^sup>*\<^sup>* c c' \<and> run_ends env cid ab k es (ents c, doca c) (ents c', doca c') \<and>
           (if ab then r = 0 \<and> k < quota w (length es) (maxEntry (stats c))
            else r = res + int k \<and> k = quota w (length es) (maxEntry (stats c)))"
  using assms
proof (induction es arbitrary: w res c)
  case Nil
  then show ?case using served_0 run_ends_0 by (fastforce simp: quota_def)
next
  case (Cons e es)
  show ?case
  proof (cases "w \<le> 0 \<or> maxEntry (stats c) \<le> 0")
    case True
    then show ?thesis using served_0 run_ends_0 by (fastforce simp: quota_def)
  next
    case False
    then have ready: "entry_ready env i (ents c e)" and tok: "0 < maxEntry (stats c)"
      and quota: "quota w (length (e # es)) (maxEntry (stats c)) = Suc (quota (w - 1) (length es) (maxEntry (stats c) - 1))"
      using Cons.prems(2) by (auto simp: quota_Suc)
    obtain ret c1 where step: "qos_offload_entry env cid i e c = Some (ret, c1)"
      and r: "ret = 0 \<and> served i 0 c c1 \<or> ret = 1 \<and> served i 1 c c1"
      using offload_entry_step [where cid = cid, OF ready Cons.prems(1,3) tok Cons.prems(4)] by blast
    have one: "qos_step env cid c c1"
      using qos_step.offload [where cid = cid, OF Cons.prems(1) ready Cons.prems(3) tok Cons.prems(4) step] .
    note ans = offload_entry_answer [OF step]
    show ?thesis
    proof (cases "ret = 0")
      case True
      with r step False quota one run_ends_refused [OF ans] show ?thesis by auto
    next
      case nz: False
      with r have s1: "served i 1 c c1" and ret: "ret = 1" by auto
      have fr: "frame c c1" and q1: "queue (stats c1) i = es" and m1: "maxEntry (stats c1) = maxEntry (stats c) - 1"
        using s1 Cons.prems(1) by (auto simp: served_def)
      have ready1: "\<forall>e \<in> set es. entry_ready env i (ents c1 e)"
        using Cons.prems(2) by (simp add: entry_ready_frame [OF fr])
      obtain ab r' c' k where rec: "qos_bucket_loop env cid i (w - 1) es (res + ret) c1 = Some (ab, r', c')"
        "served i k c1 c'" "(qos_step env cid)\<^sup>*\<^sup>* c1 c'"
        "run_ends env cid ab k es (ents c1, doca c1) (ents c', doca c')"
        "if ab then r' = 0 \<and> k < quota (w - 1) (length es) (maxEntry (stats c1))
         else r' = res + ret + int k \<and> k = quota (w - 1) (length es) (maxEntry (stats c1))"
        using Cons.IH [where w = "w - 1" and res = "res + ret", OF q1 ready1 Cons.prems(3)] m1 Cons.prems(4) by auto
      have "qos_bucket_loop env cid i w (e # es) res c = Some (ab, r', c')"
        using False step ret rec(1) by simp
      moreover have "served i (Suc k) c c'" using served_trans [OF s1 rec(2)] by simp
      moreover have "(qos_step env cid)\<^sup>*\<^sup>* c c'" using one rec(3) by (rule converse_rtranclp_into_rtranclp)
      moreover have "run_ends env cid ab (Suc k) (e # es) (ents c, doca c) (ents c', doca c')"
        using run_ends_Suc [OF ans _ rec(4)] ret by simp
      ultimately show ?thesis using rec(5) m1 ret quota
        by (intro exI [of _ ab] exI [of _ r'] exI [of _ c'] exI [of _ "Suc k"]) (auto split: if_splits)
    qed
  qed
qed

section \<open>A round\<close>

text \<open>Weighted round robin: the tokens go to the highest priorities first, each up to its weight.\<close>

fun wrr :: "(nat \<Rightarrow> int) \<Rightarrow> (nat \<Rightarrow> nat) \<Rightarrow> nat \<Rightarrow> int \<Rightarrow> nat \<Rightarrow> nat" where
  "wrr w l 0 t = (\<lambda>_. 0)"
| "wrr w l (Suc n) t = (let k = quota (w n) (l n) t in (wrr w l n (t - int k))(n := k))"

definition served_all :: "nat \<Rightarrow> (nat \<Rightarrow> nat) \<Rightarrow> ('d, 'w) qos_core \<Rightarrow> ('d, 'w) qos_core \<Rightarrow> bool" where
  "served_all n k c c' \<longleftrightarrow> frame c c' \<and>
     (\<forall>i. if i < n then queue (stats c') i = drop (k i) (queue (stats c) i)
          else buckets (stats c') i = buckets (stats c) i) \<and>
     (\<forall>i. finished (stats c') i = finished (stats c) i + of_nat (if i < n then k i else 0)) \<and>
     maxEntry (stats c') = maxEntry (stats c) - int (\<Sum>i<n. k i)"

text \<open>
  The entries that a round takes, in the order of the round, when it takes \<open>k i\<close> from queue \<open>i\<close>; and that DOCA-Flow
  accepted them and refused the next one of queue \<open>i\<close>, which leaves the entries and DOCA-Flow as in \<open>c'\<close>.
\<close>

definition served_order :: "(nat \<Rightarrow> nat) \<Rightarrow> ('d, 'w) qos_core \<Rightarrow> nat \<Rightarrow> nat list" where
  "served_order k c n = concat (map (\<lambda>i. take (k i) (queue (stats c) i)) (rev [0..<n]))"

definition refused_at ::
  "('d, 'w) qos_env \<Rightarrow> int \<Rightarrow> nat \<Rightarrow> (nat \<Rightarrow> nat) \<Rightarrow> nat \<Rightarrow> ('d, 'w) qos_core \<Rightarrow> ('d, 'w) qos_core \<Rightarrow> bool" where
  "refused_at env cid n k i c c' \<longleftrightarrow>
     (\<exists>st ret. accept_all env cid (served_order k c n) (ents c, doca c) = Some st \<and>
        answer env cid (queue (stats c) i ! k i) st = Some (ret, ents c', doca c') \<and> ret \<le> 0)"

lemma served_order_Suc: "served_order k c (Suc n) = take (k n) (queue (stats c) n) @ served_order k c n"
  by (simp add: served_order_def)

lemma served_order_cong:
  "(\<And>i. i < n \<Longrightarrow> k i = k' i \<and> queue (stats c) i = queue (stats c') i) \<Longrightarrow> served_order k c n = served_order k' c' n"
  unfolding served_order_def by (intro arg_cong [of _ _ concat] map_cong) auto

lemma served_order_none: "(\<And>i. i < n \<Longrightarrow> k i = 0) \<Longrightarrow> served_order k c n = []"
  by (simp add: served_order_def)

lemma wrr_beyond: "n \<le> i \<Longrightarrow> wrr w l n t i = 0"
  by (induction n arbitrary: t) (auto simp: Let_def)

lemma sum_upd_last: "(\<Sum>i<Suc n. (if i = n then kn else k i)) = (\<Sum>i<n. k i) + (kn :: nat)"
  by simp

lemma served_all_Suc:
  assumes s: "served n kn c c1" and a: "served_all n k c1 c'"
  shows "served_all (Suc n) (\<lambda>i. if i = n then kn else k i) c c'"
proof -
  have q1: "queue (stats c1) i = (if i = n then drop kn (queue (stats c) n) else queue (stats c) i)" for i
    using s by (simp add: served_def queue_def)
  have "queue (stats c') n = queue (stats c1) n" using a by (simp add: served_all_def queue_def)
  then have "if i < Suc n then queue (stats c') i = drop (if i = n then kn else k i) (queue (stats c) i)
       else buckets (stats c') i = buckets (stats c) i" for i
    using s a q1 by (auto simp: served_def served_all_def less_Suc_eq)
  moreover have "finished (stats c') i = finished (stats c) i + of_nat (if i < Suc n then (if i = n then kn else k i) else 0)" for i
    using s a by (auto simp: served_def served_all_def less_Suc_eq)
  moreover have "frame c c'" using s a by (auto simp: served_def served_all_def intro: frame_trans)
  moreover have "maxEntry (stats c') = maxEntry (stats c) - int (\<Sum>i<Suc n. (if i = n then kn else k i))"
    using s a unfolding sum_upd_last by (simp add: served_def served_all_def)
  ultimately show ?thesis unfolding served_all_def by blast
qed

lemma served_all_0: "served_all n (\<lambda>_. 0) c c"
  by (simp add: served_all_def)

lemma served_all_stop: "served n kn c c' \<Longrightarrow> served_all (Suc n) (\<lambda>i. if i = n then kn else 0) c c'"
  using served_all_Suc [OF _ served_all_0] .

lemma priority_loop:
  assumes "\<forall>i < n. \<forall>e \<in> set (queue (stats c) i). entry_ready env i (ents c e)" and "n < 2 ^ 64"
    and "maxEntry (stats c) < 2 ^ 31"
  shows "\<exists>ab r c' k. qos_priority_loop env cid n res c = Some (ab, r, c') \<and> served_all n k c c' \<and>
           (qos_step env cid)\<^sup>*\<^sup>* c c' \<and>
           (let q = wrr (weight (stats c)) (\<lambda>i. length (queue (stats c) i)) n (maxEntry (stats c)) in
            if ab then r = 0 \<and> (\<exists>i<n. k i < q i \<and> (\<forall>j<n. i < j \<longrightarrow> k j = q j) \<and> (\<forall>j<i. k j = 0) \<and> refused_at env cid n k i c c')
            else r = res + int (\<Sum>i<n. k i) \<and> (\<forall>i<n. k i = q i) \<and>
              accept_all env cid (served_order k c n) (ents c, doca c) = Some (ents c', doca c'))"
  using assms
proof (induction n arbitrary: res c)
  case 0
  then show ?case by (auto simp: served_all_def served_order_def)
next
  case (Suc n)
  let ?len = "\<lambda>c i. length (queue (stats c) i)"
  obtain ab r c1 kn where b: "qos_bucket_loop env cid n (weight (stats c) n) (queue (stats c) n) res c = Some (ab, r, c1)"
    "served n kn c c1" "(qos_step env cid)\<^sup>*\<^sup>* c c1" "run_ends env cid ab kn (queue (stats c) n) (ents c, doca c) (ents c1, doca c1)"
    "if ab then r = 0 \<and> kn < quota (weight (stats c) n) (?len c n) (maxEntry (stats c))
            else r = res + int kn \<and> kn = quota (weight (stats c) n) (?len c n) (maxEntry (stats c))"
    using bucket_loop [where c = c and i = n and cid = cid and res = res and w = "weight (stats c) n" and env = env, OF refl] Suc.prems by auto
  show ?case
  proof (cases ab)
    case True
    let ?k = "\<lambda>i. if i = n then kn else 0"
    have order: "served_order ?k c (Suc n) = take kn (queue (stats c) n)"
      by (simp add: served_order_Suc served_order_none)
    have "refused_at env cid (Suc n) ?k n c c1"
      using b(4) True unfolding refused_at_def order run_ends_def by auto
    moreover have "qos_priority_loop env cid (Suc n) res c = Some (True, 0, c1)" using b True by simp
    moreover note served_all_stop [OF b(2)]
    moreover have "kn < quota (weight (stats c) n) (?len c n) (maxEntry (stats c))" using b(5) True by simp
    moreover note b(3)
    ultimately show ?thesis
      by (intro exI [of _ True] exI [of _ 0] exI [of _ c1] exI [of _ ?k]) (auto simp: Let_def)
  next
    case False
    then have kn: "kn = quota (weight (stats c) n) (?len c n) (maxEntry (stats c))" and r: "r = res + int kn"
      using b(5) by auto
    have fr: "frame c c1" and bk: "\<And>j. j \<noteq> n \<Longrightarrow> queue (stats c1) j = queue (stats c) j"
      and m1: "maxEntry (stats c1) = maxEntry (stats c) - int kn"
      using b(2) by (auto simp: served_def queue_def)
    have "\<forall>i < n. \<forall>e \<in> set (queue (stats c1) i). entry_ready env i (ents c1 e)"
      using Suc.prems(1) bk by (simp add: entry_ready_frame [OF fr])
    then obtain ab' r' c' k where rec: "qos_priority_loop env cid n r c1 = Some (ab', r', c')" "served_all n k c1 c'"
      "(qos_step env cid)\<^sup>*\<^sup>* c1 c'" "let q = wrr (weight (stats c1)) (?len c1) n (maxEntry (stats c1)) in
            if ab' then r' = 0 \<and> (\<exists>i<n. k i < q i \<and> (\<forall>j<n. i < j \<longrightarrow> k j = q j) \<and> (\<forall>j<i. k j = 0) \<and> refused_at env cid n k i c1 c')
            else r' = r + int (\<Sum>i<n. k i) \<and> (\<forall>i<n. k i = q i) \<and>
              accept_all env cid (served_order k c1 n) (ents c1, doca c1) = Some (ents c', doca c')"
      using Suc.IH [of c1 r] Suc.prems m1 by auto
    have cong: "wrr w (?len c1) m t = wrr w (?len c) m t" if "m \<le> n" for w m t
      using that bk by (induction m arbitrary: t) (auto simp: Let_def)
    have "weight (stats c1) = weight (stats c)" using fr by (simp add: frame_def)
    then have q: "wrr (weight (stats c)) (?len c) (Suc n) (maxEntry (stats c)) =
        (wrr (weight (stats c1)) (?len c1) n (maxEntry (stats c1)))(n := kn)"
      using kn m1 cong [of n] by (simp add: Let_def)
    let ?k = "\<lambda>i. if i = n then kn else k i"
    have "qos_priority_loop env cid (Suc n) res c = Some (ab', r', c')" using b(1) False rec(1) by simp
    moreover note served_all_Suc [OF b(2) rec(2)]
    moreover have "(qos_step env cid)\<^sup>*\<^sup>* c c'" using b(3) rec(3) by (rule rtranclp_trans)
    ultimately have loop: "qos_priority_loop env cid (Suc n) res c = Some (ab', r', c')"
      "served_all (Suc n) ?k c c'" "(qos_step env cid)\<^sup>*\<^sup>* c c'" by blast+
    have "served_order ?k c n = served_order k c1 n" by (rule served_order_cong) (simp add: bk)
    then have order: "served_order ?k c (Suc n) = take kn (queue (stats c) n) @ served_order k c1 n"
      by (simp add: served_order_Suc)
    have "accept_all env cid (take kn (queue (stats c) n)) (ents c, doca c) = Some (ents c1, doca c1)"
      using b(4) False by (simp add: run_ends_def)
    then have accepted: "accept_all env cid (served_order ?k c (Suc n)) (ents c, doca c) =
        accept_all env cid (served_order k c1 n) (ents c1, doca c1)"
      by (simp add: order accept_all_append)
    have refused: "refused_at env cid (Suc n) ?k i c c' = refused_at env cid n k i c1 c'" if "i < n" for i
      using that bk by (simp add: refused_at_def accepted)
    note sum = sum_upd_last [of kn n k]
    show ?thesis
    proof (cases ab')
      case True
      then obtain i where i: "r' = 0" "i < n" "k i < wrr (weight (stats c1)) (?len c1) n (maxEntry (stats c1)) i"
        "\<forall>j<n. i < j \<longrightarrow> k j = wrr (weight (stats c1)) (?len c1) n (maxEntry (stats c1)) j" "\<forall>j<i. k j = 0"
        "refused_at env cid n k i c1 c'"
        using rec(4) by (auto simp: Let_def)
      then show ?thesis using loop True refused [of i] unfolding q Let_def
        by (intro exI [of _ ab'] exI [of _ r'] exI [of _ c'] exI [of _ ?k]) (auto simp: less_Suc_eq intro!: exI [of _ i])
    next
      case False
      then show ?thesis using loop rec(4) r sum accepted unfolding q Let_def
        by (intro exI [of _ ab'] exI [of _ r'] exI [of _ c'] exI [of _ ?k]) (auto simp: less_Suc_eq)
    qed
  qed
qed

section \<open>Congestion\<close>

text \<open>
  Whether the hardware table is at or above its high watermark when \<open>t\<close> tokens are left.
\<close>

definition pressed :: "FlowQoS_Stats \<Rightarrow> int \<Rightarrow> bool" where
  "pressed s t \<longleftrightarrow> maxEntryLimit s * hwWatermarkPercent s div 100 \<le> maxEntryLimit s - t"

text \<open>The values for which the arithmetic of the comparison does not overflow.\<close>

definition sane_limit :: "FlowQoS_Stats \<Rightarrow> bool" where
  "sane_limit s \<longleftrightarrow> 0 < maxEntryLimit s \<and> 0 \<le> hwWatermarkPercent s \<and>
     maxEntryLimit s * hwWatermarkPercent s < 2 ^ 31 \<and> maxEntryLimit s < 2 ^ 31 \<and> maxEntry s \<le> maxEntryLimit s"

lemma word_le_of_int: "0 \<le> a \<Longrightarrow> a < 2 ^ 31 \<Longrightarrow> 0 \<le> b \<Longrightarrow> b < 2 ^ 31 \<Longrightarrow> (of_int a :: u64) \<le> of_int b \<longleftrightarrow> a \<le> b"
  by (simp add: word_le_def uint_word_of_int)

lemma percent_bound: "0 \<le> (x :: int) \<Longrightarrow> x < 2 ^ 31 \<Longrightarrow> 0 \<le> x div 100" "0 \<le> x \<Longrightarrow> x < 2 ^ 31 \<Longrightarrow> x div 100 < 2 ^ 31"
  by simp_all

lemma pressed_iff:
  assumes "sane_limit s" and "0 \<le> maxEntry s"
  shows "watermark s \<le> occupied s \<longleftrightarrow> pressed s (maxEntry s)"
proof -
  have "0 \<le> maxEntryLimit s * hwWatermarkPercent s" using assms(1) by (simp add: sane_limit_def)
  then have "0 \<le> maxEntryLimit s * hwWatermarkPercent s div 100"
    "maxEntryLimit s * hwWatermarkPercent s div 100 < 2 ^ 31"
    using percent_bound assms(1) by (simp_all only: sane_limit_def)
  then show ?thesis
    using assms word_le_of_int [of "maxEntryLimit s * hwWatermarkPercent s div 100" "maxEntryLimit s - maxEntry s"]
      \<open>0 \<le> maxEntryLimit s * hwWatermarkPercent s\<close>
    by (simp add: watermark_def occupied_def pressed_def sane_limit_def)
qed

text \<open>
  The effect of a run on the flag \<open>hwCongested\<close> and on the number of congestion callbacks: only
  whether the table was below the watermark at the start and is above it at the end matters.
\<close>

definition reported :: "('w \<Rightarrow> nat) \<Rightarrow> ('d, 'w) qos_core \<Rightarrow> ('d, 'w) qos_core \<Rightarrow> bool" where
  "reported calls c c' \<longleftrightarrow>
     maxEntryLimit (stats c') = maxEntryLimit (stats c) \<and> hwWatermarkPercent (stats c') = hwWatermarkPercent (stats c) \<and>
     maxEntry (stats c') \<le> maxEntry (stats c) \<and> (0 \<le> maxEntry (stats c) \<longrightarrow> 0 \<le> maxEntry (stats c')) \<and>
     (if maxEntry (stats c') = maxEntry (stats c)
      then hwCongested (stats c') = hwCongested (stats c) \<and> calls (world c') = calls (world c)
      else
        let now = pressed (stats c) (maxEntry (stats c'));
            known = hwCongested (stats c) \<noteq> 0 \<and> pressed (stats c) (maxEntry (stats c) - 1)
        in (hwCongested (stats c') \<noteq> 0 \<longleftrightarrow> now) \<and>
           calls (world c') = calls (world c) + (if now \<and> \<not> known then 1 else 0))"

lemma pressed_mono: "pressed s t \<Longrightarrow> t' \<le> t \<Longrightarrow> pressed s t'"
  by (auto simp: pressed_def)

lemma pressed_cong:
  "maxEntryLimit s' = maxEntryLimit s \<Longrightarrow> hwWatermarkPercent s' = hwWatermarkPercent s \<Longrightarrow> pressed s' = pressed s"
  by (simp add: pressed_def fun_eq_iff)

lemma reported_refl: "reported calls c c"
  by (simp add: reported_def)

lemma reported_trans:
  assumes ab: "reported calls a b" and bc: "reported calls b c"
  shows "reported calls a c"
proof -
  let ?m = "\<lambda>x. maxEntry (stats x)"
  have same: "maxEntryLimit (stats b) = maxEntryLimit (stats a)" "hwWatermarkPercent (stats b) = hwWatermarkPercent (stats a)"
    "maxEntryLimit (stats c) = maxEntryLimit (stats a)" "hwWatermarkPercent (stats c) = hwWatermarkPercent (stats a)"
    and le: "?m b \<le> ?m a" "?m c \<le> ?m b" "0 \<le> ?m a \<longrightarrow> 0 \<le> ?m c"
    using ab bc by (auto simp: reported_def)
  have p: "pressed (stats b) = pressed (stats a)" using pressed_cong [OF same(1,2)] .
  show ?thesis
  proof (cases "?m b = ?m a \<or> ?m c = ?m b")
    case True
    then show ?thesis using ab bc same le p by (auto simp: reported_def Let_def split: if_splits)
  next
    case False
    then have lt: "?m b < ?m a" "?m c < ?m b" using le by auto
    then have m: "pressed (stats a) (?m b) \<Longrightarrow> pressed (stats a) (?m c)"
      "pressed (stats a) (?m b) \<Longrightarrow> pressed (stats a) (?m b - 1)"
      "pressed (stats a) (?m a - 1) \<Longrightarrow> pressed (stats a) (?m b)"
      by (auto intro: pressed_mono)
    have B: "hwCongested (stats b) \<noteq> 0 \<longleftrightarrow> pressed (stats a) (?m b)"
      "calls (world b) = calls (world a) + (if pressed (stats a) (?m b) \<and>
         \<not> (hwCongested (stats a) \<noteq> 0 \<and> pressed (stats a) (?m a - 1)) then 1 else 0)"
      using ab lt by (auto simp: reported_def Let_def)
    have C: "hwCongested (stats c) \<noteq> 0 \<longleftrightarrow> pressed (stats a) (?m c)"
      "calls (world c) = calls (world b) + (if pressed (stats a) (?m c) \<and>
         \<not> (hwCongested (stats b) \<noteq> 0 \<and> pressed (stats a) (?m b - 1)) then 1 else 0)"
      using bc lt p by (auto simp: reported_def Let_def)
    show ?thesis using B C m same le lt unfolding reported_def Let_def by (cases "pressed (stats a) (?m b)") auto
  qed
qed

lemma qos_step_reported:
  assumes step: "qos_step env cid c c'" and sane: "sane_limit (stats c)"
    and reg: "qosCongestionHandler env = Some cong"
    and calls: "\<And>u m a w. calls (cong u m a w) = Suc (calls w)" "\<And>h a es w. calls (qosHandler env h a es w) = calls w"
  shows "reported calls c c' \<and> sane_limit (stats c')"
proof -
  obtain i e es ret where 1: "queue (stats c) i = e # es" "entry_ready env i (ents c e)" "i < 2 ^ 64"
    "0 < maxEntry (stats c)" "maxEntry (stats c) < 2 ^ 31" "qos_offload_entry env cid i e c = Some (ret, c')"
    using step by (auto elim: qos_stepE)
  obtain r c1 where r: "qos_offload_entry env cid i e c = Some (r, c1)"
    "r = 0 \<and> served i 0 c c1 \<and> world c1 = world c \<and> hwCongested (stats c1) = hwCongested (stats c) \<or>
      r = 1 \<and> served i 1 c c1 \<and>
            (\<exists>fp h pe d. world c1 = world (accepted env i e h (asked fp pe e d c)) \<and>
                 hwCongested (stats c1) = hwCongested (stats (accepted env i e h (asked fp pe e d c))))"
    using offload_entry_step [where cid = cid, OF 1(2,1,3,4,5)] by metis
  then have eq: "c1 = c'" using 1(6) by simp
  have sane': "sane_limit (stats c1)" using r(2) sane by (auto simp: served_def frame_def sane_limit_def)
  show ?thesis
  proof (cases "r = 0")
    case True
    then show ?thesis using r(2) sane' eq by (auto simp: served_def frame_def reported_def)
  next
    case False
    then obtain fp h pe d where acc: "served i 1 c c1"
      "world c1 = world (accepted env i e h (asked fp pe e d c))"
      "hwCongested (stats c1) = hwCongested (stats (accepted env i e h (asked fp pe e d c)))"
      using r(2) by auto
    let ?s = "(stats c)\<lparr>maxEntry := maxEntry (stats c) - 1, finished := (finished (stats c))(i := finished (stats c) i + 1)\<rparr>"
    have "sane_limit ?s" using sane by (simp add: sane_limit_def)
    then have w: "watermark ?s \<le> occupied ?s \<longleftrightarrow> pressed (stats c) (maxEntry (stats c) - 1)"
      using pressed_iff [of ?s] 1(4) by (simp add: pressed_def)
    have lim: "0 < maxEntryLimit (stats c)" using sane by (simp add: sane_limit_def)
    have "(hwCongested (stats c1) \<noteq> 0 \<longleftrightarrow> pressed (stats c) (maxEntry (stats c) - 1)) \<and>
      calls (world c1) = calls (world c) +
        (if pressed (stats c) (maxEntry (stats c) - 1) \<and> hwCongested (stats c) = 0 then 1 else 0)"
      using acc(2,3) w lim reg calls 1(4,5)
      by (auto simp: accepted_def asked_def qos_watermark_check_def Let_def not_le [symmetric])
    then show ?thesis using acc(1) sane' eq 1(4) unfolding reported_def Let_def
      by (auto simp: served_def frame_def)
  qed
qed

lemma qos_steps_reported:
  assumes "(qos_step env cid)\<^sup>*\<^sup>* c c'" and "sane_limit (stats c)"
    and "qosCongestionHandler env = Some cong"
    and "\<And>u m a w. calls (cong u m a w) = Suc (calls w)" and "\<And>h a es w. calls (qosHandler env h a es w) = calls w"
  shows "reported calls c c' \<and> sane_limit (stats c')"
  using assms(1)
proof (induction rule: rtranclp_induct)
  case base
  then show ?case using assms(2) reported_refl by blast
next
  case (step b c')
  then show ?case using qos_step_reported [OF step(2) _ assms(3-5)] reported_trans by blast
qed

section \<open>Properties\<close>

text \<open>Every queued entry is ready, and the tokens are in range.\<close>

definition core_ready :: "('d, 'w) qos_env \<Rightarrow> ('d, 'w) qos_core \<Rightarrow> bool" where
  "core_ready env c \<longleftrightarrow> priorityQueueNum (stats c) \<le> MAXPriorityQueueNum \<and> maxEntry (stats c) < 2 ^ 31 \<and>
     (\<forall>i < priorityQueueNum (stats c). \<forall>e \<in> set (queue (stats c) i). entry_ready env i (ents c e))"

lemma do_entry_event_offers:
  assumes ready: "core_ready env c" and due: "gap (stats c) < cur - lastStmp (stats c)"
  shows "\<exists>ab r c1 c' k. flowQoS_do_entry_event env cur cid c = Some (r, c') \<and>
     (qos_step env cid)\<^sup>*\<^sup>* c c1 \<and> served_all (priorityQueueNum (stats c)) k c c1 \<and>
     (let n = priorityQueueNum (stats c);
          q = wrr (weight (stats c)) (\<lambda>i. length (queue (stats c) i)) n (maxEntry (stats c)) in
      if ab then c' = c1 \<and> r = 0 \<and> (\<exists>i<n. k i < q i \<and> (\<forall>j<n. i < j \<longrightarrow> k j = q j) \<and> (\<forall>j<i. k j = 0) \<and> refused_at env cid n k i c c1)
      else c' = c1\<lparr>stats := (stats c1)\<lparr>lastStmp := cur\<rparr>\<rparr> \<and> r = int (\<Sum>i<n. k i) \<and> (\<forall>i<n. k i = q i) \<and>
        accept_all env cid (served_order k c n) (ents c, doca c) = Some (ents c1, doca c1))"
proof -
  let ?n = "priorityQueueNum (stats c)"
  have "?n < 2 ^ 64" "maxEntry (stats c) < 2 ^ 31"
    using ready by (auto simp: core_ready_def flow_consts)
  then obtain ab r c1 k where loop: "qos_priority_loop env cid ?n 0 c = Some (ab, r, c1)"
    "served_all ?n k c c1" "(qos_step env cid)\<^sup>*\<^sup>* c c1"
    "let q = wrr (weight (stats c)) (\<lambda>i. length (queue (stats c) i)) ?n (maxEntry (stats c)) in
            if ab then r = 0 \<and> (\<exists>i<?n. k i < q i \<and> (\<forall>j<?n. i < j \<longrightarrow> k j = q j) \<and> (\<forall>j<i. k j = 0) \<and> refused_at env cid ?n k i c c1)
            else r = 0 + int (\<Sum>i<?n. k i) \<and> (\<forall>i<?n. k i = q i) \<and>
              accept_all env cid (served_order k c ?n) (ents c, doca c) = Some (ents c1, doca c1)"
    using priority_loop [of ?n c env cid 0] ready unfolding core_ready_def by blast
  let ?c' = "if ab then c1 else c1\<lparr>stats := (stats c1)\<lparr>lastStmp := cur\<rparr>\<rparr>"
  have "flowQoS_do_entry_event env cur cid c = Some (r, ?c')"
    using due loop(1) by (cases ab) (simp_all add: flowQoS_do_entry_event_def)
  then show ?thesis using loop(2-4)
    by (intro exI [of _ ab] exI [of _ r] exI [of _ c1] exI [of _ ?c'] exI [of _ k]) (auto simp: Let_def)
qed

lemma do_entry_event_cases:
  assumes ready: "core_ready env c" and due: "gap (stats c) < cur - lastStmp (stats c)"
  shows "\<exists>ab r c1 c' k. flowQoS_do_entry_event env cur cid c = Some (r, c') \<and>
     (qos_step env cid)\<^sup>*\<^sup>* c c1 \<and> served_all (priorityQueueNum (stats c)) k c c1 \<and>
     (let n = priorityQueueNum (stats c);
          q = wrr (weight (stats c)) (\<lambda>i. length (queue (stats c) i)) n (maxEntry (stats c)) in
      if ab then c' = c1 \<and> r = 0 \<and> (\<forall>i<n. k i \<le> q i) \<and> (\<exists>i<n. k i < q i)
      else c' = c1\<lparr>stats := (stats c1)\<lparr>lastStmp := cur\<rparr>\<rparr> \<and> r = int (\<Sum>i<n. k i) \<and> (\<forall>i<n. k i = q i))"
proof -
  let ?n = "priorityQueueNum (stats c)"
  let ?q = "wrr (weight (stats c)) (\<lambda>i. length (queue (stats c) i)) ?n (maxEntry (stats c))"
  obtain ab r c1 c' k where ev: "flowQoS_do_entry_event env cur cid c = Some (r, c')"
    "(qos_step env cid)\<^sup>*\<^sup>* c c1" "served_all ?n k c c1"
    "if ab then c' = c1 \<and> r = 0 \<and> (\<exists>i<?n. k i < ?q i \<and> (\<forall>j<?n. i < j \<longrightarrow> k j = ?q j) \<and> (\<forall>j<i. k j = 0) \<and> refused_at env cid ?n k i c c1)
     else c' = c1\<lparr>stats := (stats c1)\<lparr>lastStmp := cur\<rparr>\<rparr> \<and> r = int (\<Sum>i<?n. k i) \<and> (\<forall>i<?n. k i = ?q i) \<and>
        accept_all env cid (served_order k c ?n) (ents c, doca c) = Some (ents c1, doca c1)"
    using do_entry_event_offers [OF assms, of cid] unfolding Let_def by blast
  have "(\<forall>i<?n. k i \<le> ?q i) \<and> (\<exists>i<?n. k i < ?q i)" if "ab"
  proof -
    obtain i where i: "i < ?n" "k i < ?q i" "\<forall>j<?n. i < j \<longrightarrow> k j = ?q j" "\<forall>j<i. k j = 0" using ev(4) \<open>ab\<close> by auto
    then have "k j \<le> ?q j" if "j < ?n" for j using that by (cases j i rule: linorder_cases) auto
    then show ?thesis using i by blast
  qed
  then show ?thesis using ev by (intro exI [of _ ab] exI [of _ r] exI [of _ c1] exI [of _ c'] exI [of _ k]) (auto simp: Let_def)
qed

text \<open>
  C4: A due round of the scheduler always returns, and offers entries to DOCA-Flow from the heads of the queues
  only, the highest priority first. Either DOCA-Flow accepts all that are offered: then each queue has given up
  exactly its weighted round-robin share (the tokens go to the highest priorities first, each queue up to its
  weight), the result is the number of entries offloaded and the time stamp is renewed. Or it accepts those
  before and refuses one: then the queues of higher priorities have given up their share, those of lower
  priorities nothing, the refused entry is still at the head of its queue, the result is 0 and the time stamp is
  not renewed, so the next call tries again. Each entry taken costs one token and is counted as finished.
\<close>

theorem qos_round_weighted:
  assumes "core_ready env c" and "gap (stats c) < cur - lastStmp (stats c)"
  shows "\<exists>r c' k. flowQoS_do_entry_event env cur cid c = Some (r, c') \<and>
    (\<forall>i < priorityQueueNum (stats c). queue (stats c') i = drop (k i) (queue (stats c) i) \<and>
       finished (stats c') i = finished (stats c) i + of_nat (k i)) \<and>
    maxEntry (stats c') = maxEntry (stats c) - int (\<Sum>i < priorityQueueNum (stats c). k i) \<and>
    (let n = priorityQueueNum (stats c);
         q = wrr (weight (stats c)) (\<lambda>i. length (queue (stats c) i)) n (maxEntry (stats c)) in
     r = int (\<Sum>i<n. k i) \<and> (\<forall>i<n. k i = q i) \<and> lastStmp (stats c') = cur \<and>
       accept_all env cid (served_order k c n) (ents c, doca c) = Some (ents c', doca c') \<or>
     r = 0 \<and> lastStmp (stats c') = lastStmp (stats c) \<and>
       (\<exists>i<n. k i < q i \<and> (\<forall>j<n. i < j \<longrightarrow> k j = q j) \<and> (\<forall>j<i. k j = 0) \<and> refused_at env cid n k i c c'))"
proof -
  let ?n = "priorityQueueNum (stats c)"
  let ?q = "wrr (weight (stats c)) (\<lambda>i. length (queue (stats c) i)) ?n (maxEntry (stats c))"
  obtain ab r c1 c' k where ev: "flowQoS_do_entry_event env cur cid c = Some (r, c')" "served_all ?n k c c1"
    "if ab then c' = c1 \<and> r = 0 \<and> (\<exists>i<?n. k i < ?q i \<and> (\<forall>j<?n. i < j \<longrightarrow> k j = ?q j) \<and> (\<forall>j<i. k j = 0) \<and> refused_at env cid ?n k i c c1)
     else c' = c1\<lparr>stats := (stats c1)\<lparr>lastStmp := cur\<rparr>\<rparr> \<and> r = int (\<Sum>i<?n. k i) \<and> (\<forall>i<?n. k i = ?q i) \<and>
        accept_all env cid (served_order k c ?n) (ents c, doca c) = Some (ents c1, doca c1)"
    using do_entry_event_offers [OF assms, of cid] unfolding Let_def by blast
  from ev(3) have same: "queue (stats c') i = queue (stats c1) i" "finished (stats c') = finished (stats c1)"
    "maxEntry (stats c') = maxEntry (stats c1)" for i by (auto simp: queue_def split: if_splits)
  have "\<forall>i < ?n. queue (stats c') i = drop (k i) (queue (stats c) i) \<and> finished (stats c') i = finished (stats c) i + of_nat (k i)"
    "maxEntry (stats c') = maxEntry (stats c) - int (\<Sum>i < ?n. k i)" "lastStmp (stats c1) = lastStmp (stats c)"
    using ev(2) by (auto simp: served_all_def frame_def same)
  then show ?thesis using ev(1,3)
    by (intro exI [of _ r] exI [of _ c'] exI [of _ k]) (auto simp: Let_def split: if_splits)
qed

text \<open>A core with two queues: entry 7 waits at priority 0, entries 8 and 9 at priority 1.\<close>

definition demo_env :: "(nat, nat) qos_env" where
  "demo_env = \<lparr>env_doca = demo_doca, env_pipes = [5 \<mapsto> demo_pipe], getFlowQid = (\<lambda>cid. cid - 1),
     qosHandler = (\<lambda>h a es w. w), qosCongestionHandler = Some (\<lambda>u m a w. Suc w), qosCongestionArgs = 0\<rparr>"

definition demo_core :: "(nat, nat) qos_core" where
  "demo_core = \<lparr>stats = zero_stats\<lparr>priorityQueueNum := 2, weight := (\<lambda>i. if i = 0 then 1 else 2), maxEntry := 10,
       maxEntryLimit := 10, hwWatermarkPercent := 20, buckets := (\<lambda>i. if i = 0 then Some [7] else if i = 1 then Some [8, 9] else None)\<rparr>,
     ents = (\<lambda>e. zero_entry\<lparr>e_pipe := 5, e_flowQoS_qosHandler := Some 1, e_priority := (if e = 7 then 0 else 1)\<rparr>),
     doca = 0, world = 0\<rparr>"

lemma demo_core_ready: "core_ready demo_env demo_core"
  by (auto simp: core_ready_def entry_ready_def demo_core_def demo_env_def zero_stats_def queue_def flow_consts
      zero_entry_def less_Suc_eq numeral_2_eq_2)

lemma demo_answer:
  assumes "\<forall>x. e_pipe (fst st x) = 5"
  shows "\<exists>st1. answer demo_env cid e st = Some (1, st1) \<and> (\<forall>x. e_pipe (fst st1 x) = 5)"
  using assms add_entry_now [of "[5 \<mapsto> demo_pipe]" 5 demo_pipe demo_doca e "cid - 1" "fst st" "snd st"]
  by (cases st) (auto simp: answer_def demo_env_def demo_doca_def stamped_def)

lemma demo_accept_all:
  "\<forall>x. e_pipe (fst st x) = 5 \<Longrightarrow> \<exists>st1. accept_all demo_env cid es st = Some st1 \<and> (\<forall>x. e_pipe (fst st1 x) = 5)"
proof (induction es arbitrary: st)
  case (Cons e es)
  then show ?case using demo_answer [OF Cons.prems, of cid e] by auto
qed simp

lemma demo_not_refused: "\<not> refused_at demo_env cid n k i demo_core c'"
proof -
  have "\<forall>x. e_pipe (fst (ents demo_core, doca demo_core) x) = 5" by (simp add: demo_core_def)
  then obtain st1 where 1: "accept_all demo_env cid (served_order k demo_core n) (ents demo_core, doca demo_core) = Some st1"
    "\<forall>x. e_pipe (fst st1 x) = 5"
    using demo_accept_all by blast
  then show ?thesis using demo_answer [OF 1(2), of cid "queue (stats demo_core) i ! k i"] by (auto simp: refused_at_def)
qed

lemma qos_round_weighted_witness:
  "\<exists>c'. flowQoS_do_entry_event demo_env 1 1 demo_core = Some (3, c') \<and> maxEntry (stats c') = 7 \<and>
     queue (stats c') 1 = [] \<and> queue (stats c') 0 = [] \<and> lastStmp (stats c') = 1"
proof -
  have due: "gap (stats demo_core) < 1 - lastStmp (stats demo_core)" by (simp add: demo_core_def zero_stats_def)
  have n: "priorityQueueNum (stats demo_core) = Suc (Suc 0)" "maxEntry (stats demo_core) = 10"
    "queue (stats demo_core) 1 = [8, 9]" "queue (stats demo_core) 0 = [7]" "weight (stats demo_core) 1 = 2"
    "weight (stats demo_core) 0 = 1"
    by (simp_all add: demo_core_def queue_def)
  have two: "wrr w l (Suc (Suc 0)) t 1 = quota (w 1) (l 1) t"
    "wrr w l (Suc (Suc 0)) t 0 = quota (w 0) (l 0) (t - int (quota (w 1) (l 1) t))" for w l t
    by (simp_all add: Let_def)
  have q: "wrr (weight (stats demo_core)) (\<lambda>i. length (queue (stats demo_core) i)) (Suc (Suc 0)) 10 1 = 2"
    "wrr (weight (stats demo_core)) (\<lambda>i. length (queue (stats demo_core) i)) (Suc (Suc 0)) 10 0 = 1"
    unfolding two n(3-6) by (simp_all add: quota_def)
  obtain r c' k where round: "flowQoS_do_entry_event demo_env 1 1 demo_core = Some (r, c')"
      "\<forall>i < Suc (Suc 0). queue (stats c') i = drop (k i) (queue (stats demo_core) i) \<and>
        finished (stats c') i = finished (stats demo_core) i + of_nat (k i)"
      "maxEntry (stats c') = 10 - int (\<Sum>i < Suc (Suc 0). k i)"
    and ends: "r = int (\<Sum>i < Suc (Suc 0). k i) \<and>
        (\<forall>i < Suc (Suc 0). k i = wrr (weight (stats demo_core)) (\<lambda>i. length (queue (stats demo_core) i)) (Suc (Suc 0)) 10 i) \<and>
        lastStmp (stats c') = 1 \<and> accept_all demo_env 1 (served_order k demo_core (Suc (Suc 0))) (ents demo_core, doca demo_core) =
          Some (ents c', doca c') \<or>
      r = 0 \<and> lastStmp (stats c') = lastStmp (stats demo_core) \<and>
        (\<exists>i < Suc (Suc 0). k i < wrr (weight (stats demo_core)) (\<lambda>i. length (queue (stats demo_core) i)) (Suc (Suc 0)) 10 i \<and>
          (\<forall>j < Suc (Suc 0). i < j \<longrightarrow> k j = wrr (weight (stats demo_core)) (\<lambda>i. length (queue (stats demo_core) i)) (Suc (Suc 0)) 10 j) \<and>
          (\<forall>j<i. k j = 0) \<and> refused_at demo_env 1 (Suc (Suc 0)) k i demo_core c')"
    using qos_round_weighted [OF demo_core_ready due, of 1, unfolded n(1,2) Let_def] by (elim exE conjE) (rule that)
  have full: "r = int (\<Sum>i < Suc (Suc 0). k i)" "lastStmp (stats c') = 1"
    "\<forall>i < Suc (Suc 0). k i = wrr (weight (stats demo_core)) (\<lambda>i. length (queue (stats demo_core) i)) (Suc (Suc 0)) 10 i"
    using ends demo_not_refused by blast+
  have k: "k 0 = 1" "k 1 = 2" using full(3) q by (metis lessI zero_less_Suc, metis One_nat_def lessI)
  have "queue (stats c') 1 = drop (k 1) [8, 9]" "queue (stats c') 0 = drop (k 0) [7]"
    using round(2) n(3,4) by (metis One_nat_def lessI, metis zero_less_Suc)
  then have "queue (stats c') 1 = []" "queue (stats c') 0 = []" using k by simp_all
  moreover have "r = 3" "maxEntry (stats c') = 7" using full(1) round(3) k by simp_all
  ultimately show ?thesis using round(1) full(2) by blast
qed

text \<open>
  C16: The congestion callback. In a due round the flag \<open>hwCongested\<close> ends up set exactly when the
  hardware table is at or above its high watermark (if any entry was offloaded), and the callback
  runs at most once per round: once when the table is at or above the watermark at the end of the
  round and was not already known to be so, never otherwise.
\<close>

theorem qos_congestion_reported_once:
  assumes ready: "core_ready env c" and due: "gap (stats c) < cur - lastStmp (stats c)" and sane: "sane_limit (stats c)"
    and reg: "qosCongestionHandler env = Some cong"
    and calls: "\<And>u m a w. calls (cong u m a w) = Suc (calls w)" "\<And>h a es w. calls (qosHandler env h a es w) = calls w"
  shows "\<exists>r c'. flowQoS_do_entry_event env cur cid c = Some (r, c') \<and>
    (if maxEntry (stats c') = maxEntry (stats c)
     then calls (world c') = calls (world c) \<and> hwCongested (stats c') = hwCongested (stats c)
     else let now = pressed (stats c) (maxEntry (stats c'));
              known = hwCongested (stats c) \<noteq> 0 \<and> pressed (stats c) (maxEntry (stats c) - 1)
          in (hwCongested (stats c') \<noteq> 0 \<longleftrightarrow> now) \<and>
             calls (world c') = calls (world c) + (if now \<and> \<not> known then 1 else 0))"
proof -
  obtain ab r c1 c' where ev: "flowQoS_do_entry_event env cur cid c = Some (r, c')"
    "(qos_step env cid)\<^sup>*\<^sup>* c c1" "c' = c1 \<or> c' = c1\<lparr>stats := (stats c1)\<lparr>lastStmp := cur\<rparr>\<rparr>"
    using do_entry_event_cases [OF ready due, of cid] unfolding Let_def by metis
  have "reported calls c c1" using qos_steps_reported [OF ev(2) sane reg calls] by simp
  moreover have "maxEntry (stats c') = maxEntry (stats c1)" "hwCongested (stats c') = hwCongested (stats c1)"
    "world c' = world c1" using ev(3) by auto
  ultimately show ?thesis using ev(1) unfolding reported_def Let_def by auto
qed

lemma qos_congestion_reported_once_witness:
  "\<exists>r c'. flowQoS_do_entry_event demo_env 1 1 demo_core = Some (r, c') \<and> world c' \<le> 1 \<and>
     (world c' = 1 \<longrightarrow> hwCongested (stats c') \<noteq> 0)"
proof -
  have due: "gap (stats demo_core) < 1 - lastStmp (stats demo_core)" by (simp add: demo_core_def zero_stats_def)
  have sane: "sane_limit (stats demo_core)" by (simp add: demo_core_def zero_stats_def sane_limit_def)
  have reg: "qosCongestionHandler demo_env = Some (\<lambda>u m a w. Suc w)" "qosHandler demo_env = (\<lambda>h a es w. w)"
    by (simp_all add: demo_env_def)
  have w: "world demo_core = 0" by (simp add: demo_core_def)
  show ?thesis
    using qos_congestion_reported_once [OF demo_core_ready due sane reg(1), of "\<lambda>w. w" 1] reg(2)
    unfolding w by (fastforce simp: Let_def split: if_splits)
qed

text \<open>
  The accounts of a core: its tokens are within its budget, and every flow that was added is finished, waiting, or
  was taken off its queue before its turn (\<open>gone i\<close> of them at priority \<open>i\<close>; the code does not count these).
\<close>

definition accounts :: "(nat \<Rightarrow> nat) \<Rightarrow> FlowQoS_Stats \<Rightarrow> bool" where
  "accounts gone s \<longleftrightarrow> 0 \<le> maxEntry s \<and> maxEntry s \<le> maxEntryLimit s \<and>
     (\<forall>i < priorityQueueNum s. total s i = finished s i + of_nat (length (queue s i)) + of_nat (gone i))"

lemma sum_quota_le: "0 \<le> t \<Longrightarrow> int (\<Sum>i<n. wrr w l n t i) \<le> t"
proof (induction n arbitrary: t)
  case (Suc n)
  let ?k = "quota (w n) (l n) t"
  have k: "int ?k \<le> t" using Suc.prems by (simp add: quota_def)
  have "(\<Sum>i<Suc n. wrr w l (Suc n) t i) = ?k + (\<Sum>i<n. wrr w l n (t - int ?k) i)"
    by (simp add: Let_def)
  then show ?case using Suc.IH [of "t - int ?k"] k by simp
qed simp

lemma wrr_le_length: "wrr w l n t i \<le> l i"
  by (induction n arbitrary: t) (auto simp: Let_def quota_def)

text \<open>
  C5: The accounts of a core are kept by every operation of the scheduler: tokens stay between 0 and
  the budget, and per priority the flows added are those offloaded, those still queued and those taken off the
  queue before their turn. A round and the return of a token take no flow off a queue; queueing
  an entry appends it to its queue; taking an entry off removes it from the queue of its priority and adds it to
  the flows that are gone, and has no result for an entry that is not queued; returning a token never exceeds the
  budget. The list lengths that the statistics show are the numbers of flows added and neither offloaded nor gone.
\<close>

theorem qos_accounts_kept:
  assumes acc: "accounts gone (stats c)"
  shows "(core_ready env c \<and> gap (stats c) < cur - lastStmp (stats c) \<longrightarrow>
            (\<exists>r c'. flowQoS_do_entry_event env cur cid c = Some (r, c') \<and> accounts gone (stats c'))) \<and>
         (\<not> gap (stats c) < cur - lastStmp (stats c) \<longrightarrow> flowQoS_do_entry_event env cur cid c = Some (0, c)) \<and>
         (buckets (stats c) p \<noteq> None \<longrightarrow>
            (\<exists>c'. flowQoS_add_entry_event e p c = Some c' \<and> accounts gone (stats c') \<and>
                  queue (stats c') p = queue (stats c) p @ [e] \<and> e_priority (ents c' e) = of_nat p)) \<and>
         (e_priority (ents c e) = of_nat p \<and> p < 2 ^ 64 \<longrightarrow>
            (if e \<in> set (queue (stats c) p)
             then \<exists>c'. flowQoS_del_entry_event e c = Some c' \<and> accounts (gone(p := gone p + 1)) (stats c') \<and>
                  queue (stats c') p = remove1 e (queue (stats c) p) \<and> (\<forall>j. j \<noteq> p \<longrightarrow> queue (stats c') j = queue (stats c) j)
             else flowQoS_del_entry_event e c = None)) \<and>
         (maxEntryLimit (stats c) < 2 ^ 31 - 1 \<longrightarrow>
            accounts gone (flowQoS_return_entry_event (stats c)) \<and>
            maxEntry (flowQoS_return_entry_event (stats c)) = min (maxEntry (stats c) + 1) (maxEntryLimit (stats c))) \<and>
         (p < priorityQueueNum (stats c) \<and> p < PriorityQueueNum \<longrightarrow>
            onList (FlushOnListLength (stats c)) p = total (stats c) p - finished (stats c) p - of_nat (gone p))"
proof (intro conjI impI)
  let ?n = "priorityQueueNum (stats c)"
  assume a: "core_ready env c \<and> gap (stats c) < cur - lastStmp (stats c)"
  then obtain ab r c1 c' k where ev: "flowQoS_do_entry_event env cur cid c = Some (r, c')"
    "served_all ?n k c c1" "c' = c1 \<or> c' = c1\<lparr>stats := (stats c1)\<lparr>lastStmp := cur\<rparr>\<rparr>"
    and le: "\<forall>i<?n. k i \<le> wrr (weight (stats c)) (\<lambda>i. length (queue (stats c) i)) ?n (maxEntry (stats c)) i"
    using do_entry_event_cases [of env c cur cid] unfolding Let_def by (metis order_refl)
  have "int (\<Sum>i<?n. k i) \<le> maxEntry (stats c)"
  proof -
    have "(\<Sum>i<?n. k i) \<le> (\<Sum>i<?n. wrr (weight (stats c)) (\<lambda>i. length (queue (stats c) i)) ?n (maxEntry (stats c)) i)"
      using le by (intro sum_mono) auto
    moreover have "0 \<le> maxEntry (stats c)" using acc by (simp add: accounts_def)
    note sum_quota_le [OF this, of "weight (stats c)" "\<lambda>i. length (queue (stats c) i)" ?n]
    ultimately show ?thesis by linarith
  qed
  moreover have "k i \<le> length (queue (stats c) i)" if "i < ?n" for i
    using le that wrr_le_length le_trans by blast
  moreover have "0 \<le> (\<Sum>x<?n. int (k x))" by (simp add: sum_nonneg)
  ultimately have "accounts gone (stats c1)"
    using ev(2) acc by (simp add: accounts_def served_all_def frame_def of_nat_diff)
  then have "accounts gone (stats c')" using ev(3) by (auto simp: accounts_def queue_def)
  with ev(1) show "\<exists>r c'. flowQoS_do_entry_event env cur cid c = Some (r, c') \<and> accounts gone (stats c')" by blast
next
  assume "\<not> gap (stats c) < cur - lastStmp (stats c)"
  then show "flowQoS_do_entry_event env cur cid c = Some (0, c)" by (simp add: flowQoS_do_entry_event_def)
next
  assume prio: "e_priority (ents c e) = of_nat p \<and> p < 2 ^ 64"
  then have i: "unat (e_priority (ents c e)) = p" by (simp add: unat_of_nat take_bit_nat_eq_self)
  show "if e \<in> set (queue (stats c) p)
        then \<exists>c'. flowQoS_del_entry_event e c = Some c' \<and> accounts (gone(p := gone p + 1)) (stats c') \<and>
             queue (stats c') p = remove1 e (queue (stats c) p) \<and> (\<forall>j. j \<noteq> p \<longrightarrow> queue (stats c') j = queue (stats c) j)
        else flowQoS_del_entry_event e c = None"
  proof (cases "e \<in> set (queue (stats c) p)")
    case True
    then obtain l where l: "length (queue (stats c) p) = Suc l" by (cases "queue (stats c) p") auto
    with True have "length (remove1 e (queue (stats c) p)) = l" by (simp add: length_remove1)
    then show ?thesis using True acc l by (auto simp: flowQoS_del_entry_event_def i accounts_def queue_def)
  qed (simp add: flowQoS_del_entry_event_def i)
next
  assume "buckets (stats c) p \<noteq> None"
  then show "\<exists>c'. flowQoS_add_entry_event e p c = Some c' \<and> accounts gone (stats c') \<and>
                  queue (stats c') p = queue (stats c) p @ [e] \<and> e_priority (ents c' e) = of_nat p"
    using acc by (auto simp: flowQoS_add_entry_event_def accounts_def queue_def)
next
  assume lim: "maxEntryLimit (stats c) < 2 ^ 31 - 1"
  then have m: "c_int (maxEntry (stats c) + 1) = maxEntry (stats c) + 1" using acc by (simp add: accounts_def)
  then show "maxEntry (flowQoS_return_entry_event (stats c)) = min (maxEntry (stats c) + 1) (maxEntryLimit (stats c))"
    by (simp add: flowQoS_return_entry_event_def Let_def)
  show "accounts gone (flowQoS_return_entry_event (stats c))"
    using m acc by (auto simp: flowQoS_return_entry_event_def accounts_def queue_def Let_def)
next
  assume "p < priorityQueueNum (stats c) \<and> p < PriorityQueueNum"
  then show "onList (FlushOnListLength (stats c)) p = total (stats c) p - finished (stats c) p - of_nat (gone p)"
    using acc by (simp add: FlushOnListLength_def accounts_def)
qed

lemma qos_accounts_kept_witness:
  "let c = demo_core\<lparr>stats := (stats demo_core)\<lparr>total := (\<lambda>i. if i = 0 then 1 else 2)\<rparr>\<rparr> in
   accounts (\<lambda>_. 0) (stats c) \<and>
   (\<exists>r c'. flowQoS_do_entry_event demo_env 1 1 c = Some (r, c') \<and> accounts (\<lambda>_. 0) (stats c')) \<and>
   (\<exists>c'. flowQoS_del_entry_event 8 c = Some c' \<and> accounts ((\<lambda>_. 0)(1 := 1)) (stats c') \<and> queue (stats c') 1 = [9])"
proof -
  let ?c = "demo_core\<lparr>stats := (stats demo_core)\<lparr>total := (\<lambda>i. if i = 0 then 1 else 2)\<rparr>\<rparr>"
  have acc: "accounts (\<lambda>_. 0) (stats ?c)"
    by (simp add: accounts_def demo_core_def zero_stats_def queue_def less_Suc_eq numeral_2_eq_2)
  define c where "c = ?c"
  have c: "core_ready demo_env c" "gap (stats c) < 1 - lastStmp (stats c)" "e_priority (ents c 8) = of_nat 1"
    "queue (stats c) 1 = [8, 9]"
    using demo_core_ready by (simp_all add: c_def core_ready_def queue_def demo_core_def zero_stats_def)
  note kept = qos_accounts_kept [OF acc [folded c_def], of demo_env 1 1 1 8]
  have "\<exists>r c'. flowQoS_do_entry_event demo_env 1 1 c = Some (r, c') \<and> accounts (\<lambda>_. 0) (stats c')"
    using kept c(1,2) by blast
  moreover have "\<exists>c'. flowQoS_del_entry_event 8 c = Some c' \<and> accounts ((\<lambda>_. 0)(1 := 0 + 1)) (stats c') \<and>
      queue (stats c') 1 = remove1 8 (queue (stats c) 1)"
    using kept c(3,4) by (metis (no_types, lifting) list.set_intros(1) one_less_numeral_iff one_less_power semiring_norm(76) zero_less_numeral)
  ultimately show ?thesis using acc c(4) unfolding Let_def c_def by simp
qed

text \<open>
  What a worker starts with. After \<open>flowQoS_qos_init\<close> every worker has the budget, the weights
  and empty queues, and its accounts hold; an entry can be queued at each of the first 4 priorities,
  whatever number of priorities was asked for. With more than 4 the queues beyond are zeroed, and
  queueing an entry there dereferences null.
\<close>

theorem qos_init_queues:
  assumes "flowQoS_qos_init mem tsc hz workers n ws m speed = Some (template, ctx)" and "core \<in> set workers" and "0 \<le> m"
  shows "\<exists>s. ctx core = Some s \<and> accounts (\<lambda>_. 0) s \<and> priorityQueueNum s = n \<and> maxEntryLimit s = m \<and>
     (\<forall>i<n. weight s i = ws ! i) \<and>
     (\<forall>c p e. stats c = s \<longrightarrow> (flowQoS_add_entry_event e p (c :: ('d, 'w) qos_core) = None \<longleftrightarrow> 4 \<le> p))"
proof -
  have ctx: "ctx core = initFlowQoS_Context True template" and n: "priorityQueueNum template = n"
    "maxEntryLimit template = m" "maxEntry template = m" "weight template = (\<lambda>i. if i < n then ws ! i else 0)"
    "total template = (\<lambda>_. 0)" "finished template = (\<lambda>_. 0)"
    using assms(1,2)
    by (auto simp: flowQoS_qos_init_def Let_def zero_stats_def list_all_iff initFlowQoS_Context_def split: if_splits)
  let ?s = "template\<lparr>buckets := (\<lambda>i. if i < PriorityQueueNum then Some [] else None)\<rparr>"
  have "accounts (\<lambda>_. 0) ?s" using n assms(3) by (simp add: accounts_def queue_def)
  moreover have "flowQoS_add_entry_event e p c = None \<longleftrightarrow> 4 \<le> p" if "stats c = ?s" for e p and c :: "('d, 'w) qos_core"
    using that by (simp add: flowQoS_add_entry_event_def flow_consts)
  ultimately show ?thesis using ctx n by (auto simp: initFlowQoS_Context_def)
qed

lemma qos_init_queues_witness:
  "\<exists>template ctx s. flowQoS_qos_init (\<lambda>_. True) 0 1000 [1, 2] 5 [1, 1, 2, 4, 8] 100 10 = Some (template, ctx) \<and>
     ctx 1 = Some s \<and> flowQoS_add_entry_event 7 4 \<lparr>stats = s, ents = (\<lambda>_. zero_entry), doca = (), world = ()\<rparr> = None"
proof -
  obtain template ctx where i: "flowQoS_qos_init (\<lambda>_. True) 0 1000 [1, 2] 5 [1, 1, 2, 4, 8] 100 10 = Some (template, ctx)"
    by (simp add: flowQoS_qos_init_def initFlowQoS_Context_def flow_consts Let_def)
  have "(1 :: nat) \<in> set [1, 2]" "(0 :: int) \<le> 100" by simp_all
  from qos_init_queues [OF i this, where 'd = unit and 'w = unit] i show ?thesis by fastforce
qed

lemma fold_plus_sum: "fold (\<lambda>x acc. acc + f x) xs (a :: u64) = a + (\<Sum>x\<leftarrow>xs. f x)"
  by (induction xs arbitrary: a) (simp_all add: ac_simps)

text \<open>
  The number of offloaded flows that the main core reports is the sum over all workers that have
  a context and all their priorities of the flows finished there (modulo $2^{64}$); the statistics it
  prints add up the queue lengths, the totals and the finished flows of the workers the same way.
\<close>

theorem offload_statistics_add_up:
  shows "getFlowQoSOffload workers ctx =
           (\<Sum>core\<leftarrow>workers. case ctx core of None \<Rightarrow> 0 | Some s \<Rightarrow> (\<Sum>i\<leftarrow>[0..<priorityQueueNum s]. finished s i)) \<and>
         ((\<forall>core \<in> set workers. priorityQueueNum (st core) = 4) \<and> i < 4 \<longrightarrow>
            finished (printFlowQoS_master workers st) i = (\<Sum>core\<leftarrow>workers. finished (st core) i) \<and>
            total (printFlowQoS_master workers st) i = (\<Sum>core\<leftarrow>workers. total (st core) i) \<and>
            onList (printFlowQoS_master workers st) i = (\<Sum>core\<leftarrow>workers. of_nat (length (queue (st core) i))))"
proof (rule conjI)
  have "getFlowQoSOffload_slave x = (case x of None \<Rightarrow> 0 | Some s \<Rightarrow> (\<Sum>i\<leftarrow>[0..<priorityQueueNum s]. finished s i))" for x
    unfolding getFlowQoSOffload_slave_def fold_plus_sum by (simp split: option.splits)
  then show "getFlowQoSOffload workers ctx =
      (\<Sum>core\<leftarrow>workers. case ctx core of None \<Rightarrow> 0 | Some s \<Rightarrow> (\<Sum>i\<leftarrow>[0..<priorityQueueNum s]. finished s i))"
    unfolding getFlowQoSOffload_def fold_plus_sum by simp
  have gen: "finished (fold (\<lambda>core. printFlowQoS_add (printFlowQoS_slave (st core))) ws s) i = finished s i + (\<Sum>core\<leftarrow>ws. finished (st core) i) \<and>
      total (fold (\<lambda>core. printFlowQoS_add (printFlowQoS_slave (st core))) ws s) i = total s i + (\<Sum>core\<leftarrow>ws. total (st core) i) \<and>
      onList (fold (\<lambda>core. printFlowQoS_add (printFlowQoS_slave (st core))) ws s) i = onList s i + (\<Sum>core\<leftarrow>ws. of_nat (length (queue (st core) i)))"
    if "\<forall>core \<in> set ws. priorityQueueNum (st core) = 4" "i < 4" for ws s
    using that
    by (induction ws arbitrary: s)
      (simp_all add: printFlowQoS_add_def printFlowQoS_slave_def FlushOnListLength_def flow_consts ac_simps Let_def)
  show "(\<forall>core \<in> set workers. priorityQueueNum (st core) = 4) \<and> i < 4 \<longrightarrow>
            finished (printFlowQoS_master workers st) i = (\<Sum>core\<leftarrow>workers. finished (st core) i) \<and>
            total (printFlowQoS_master workers st) i = (\<Sum>core\<leftarrow>workers. total (st core) i) \<and>
            onList (printFlowQoS_master workers st) i = (\<Sum>core\<leftarrow>workers. of_nat (length (queue (st core) i)))"
    using gen [of workers zero_stats] by (simp add: printFlowQoS_master_def zero_stats_def)
qed

lemma offload_statistics_add_up_witness:
  "finished (printFlowQoS_master [1, 2] (\<lambda>core. zero_stats\<lparr>priorityQueueNum := 4, finished := (\<lambda>_. of_nat core)\<rparr>)) 0 = 3"
  using offload_statistics_add_up [of "[1, 2]" "\<lambda>_. None" "\<lambda>core. zero_stats\<lparr>priorityQueueNum := 4, finished := (\<lambda>_. of_nat core)\<rparr>" 0]
  by simp

end
