(* ===== verification/Worker.thy ===== *)
theory Worker
  imports Cmd "HOL-Library.Multiset"
begin

text \<open>
  The worker cores (\<open>src/src/flowQoS_worker.c\<close>): the arrays of registered tasks, the per-core receive and
  transmit buffers, the default task that receives packets, asks every packet task for a verdict and
  forwards or frees the packet, and the loop of a core. A packet is named by the address of its mbuf
  (0 is null); its contents belong to the state \<open>'s\<close> of the registered tasks. The Ethernet device is a
  parameter; \<open>freed\<close> lists the mbufs given back by \<open>rte_pktmbuf_free\<close>, which ignores null.
\<close>

section \<open>Data\<close>

definition MAX_ETHPORTS :: nat where [flow_consts]: "MAX_ETHPORTS = 2"
definition MAX_CORES :: nat where [flow_consts]: "MAX_CORES = 8"
definition MAX_PROCESSOR_NUM :: nat where [flow_consts]: "MAX_PROCESSOR_NUM = 30"
definition PACKET_BURST :: nat where [flow_consts]: "PACKET_BURST = 128"
definition MAX_PKT_BURST :: nat where [flow_consts]: "MAX_PKT_BURST = PACKET_BURST"
definition MAX_QUEUES :: nat where [flow_consts]: "MAX_QUEUES = MAX_CORES"
definition PROCESSOR_NAME_LENGTH :: nat where [flow_consts]: "PROCESSOR_NAME_LENGTH = 30"
definition DROP_PACKETS :: int where [flow_consts]: "DROP_PACKETS = -1"
definition IGNORE_PACKETS :: int where [flow_consts]: "IGNORE_PACKETS = -2"

record QueuesBuf =
  rx_burst :: "nat list"
  tx_burst :: "nat list"
  rx_len :: nat
  tx_len :: nat

record Lcore_conf =
  port_num :: nat
  queue_id :: nat
  FlowQueueId :: nat
  queuesBuf :: "nat \<Rightarrow> QueuesBuf"

definition zero_buf :: QueuesBuf where
  "zero_buf = \<lparr>rx_burst = replicate MAX_PKT_BURST 0, tx_burst = replicate MAX_PKT_BURST 0, rx_len = 0, tx_len = 0\<rparr>"

definition zero_conf :: Lcore_conf where
  "zero_conf = \<lparr>port_num = 0, queue_id = 0, FlowQueueId = 0, queuesBuf = \<lambda>_. zero_buf\<rparr>"

text \<open>The registered tasks, \<open>'pp\<close> for packets and \<open>'gp\<close> in general; slot 0 of the general ones is reserved.\<close>

record ('pp, 'gp) processors =
  packet_processor_num :: nat
  general_processor_num :: nat
  packet_processor_arr :: "'pp option list"
  general_processor_arr :: "'gp option list"
  general_processor_name_arr :: "string list"

definition processors_init :: "('pp, 'gp) processors" where
  "processors_init = \<lparr>packet_processor_num = 0, general_processor_num = 1,
     packet_processor_arr = replicate MAX_PROCESSOR_NUM None, general_processor_arr = replicate MAX_PROCESSOR_NUM None,
     general_processor_name_arr = replicate MAX_PROCESSOR_NUM []\<rparr>"

record ('d, 's) worker_state =
  lcore_conf :: "nat \<Rightarrow> Lcore_conf"
  eth :: 'd
  freed :: "nat list"
  force_quit :: bool
  cpuConsumption :: "nat \<Rightarrow> nat \<Rightarrow> u64"
  tasks :: 's

record 'd eth_ops =
  rte_eth_rx_burst :: "nat \<Rightarrow> nat \<Rightarrow> nat \<Rightarrow> 'd \<Rightarrow> nat list \<times> 'd"
  rte_eth_tx_burst :: "nat \<Rightarrow> nat \<Rightarrow> nat list \<Rightarrow> 'd \<Rightarrow> nat \<times> 'd"

section \<open>Registration and launch\<close>

definition register_packet_processor :: "'pp \<Rightarrow> ('pp, 'gp) processors \<Rightarrow> int \<times> ('pp, 'gp) processors" where
  "register_packet_processor p r =
     (if packet_processor_num r = MAX_PROCESSOR_NUM then (0, r)
      else (1, r\<lparr>packet_processor_arr := (packet_processor_arr r)[packet_processor_num r := Some p],
                 packet_processor_num := packet_processor_num r + 1\<rparr>))"

text \<open>A name that does not fit in its row overruns it.\<close>

definition register_general_processor ::
  "'gp \<Rightarrow> string \<Rightarrow> ('pp, 'gp) processors \<Rightarrow> (int \<times> ('pp, 'gp) processors) option" where
  "register_general_processor p name r =
     (if general_processor_num r = MAX_PROCESSOR_NUM then Some (0, r)
      else if PROCESSOR_NAME_LENGTH \<le> length name then None
      else Some (1, r\<lparr>general_processor_arr := (general_processor_arr r)[general_processor_num r := Some p],
                      general_processor_name_arr := (general_processor_name_arr r)[general_processor_num r := name],
                      general_processor_num := general_processor_num r + 1\<rparr>))"

definition registerWorkerCmd :: "cmd_state \<Rightarrow> cmd_state option" where
  "registerWorkerCmd = register_once ''Worker'' [''cmd_dumpWorker_obj'']"

fun assign_queues :: "nat list \<Rightarrow> nat \<Rightarrow> (nat \<Rightarrow> Lcore_conf) \<Rightarrow> nat \<Rightarrow> Lcore_conf" where
  "assign_queues [] Qid conf = conf"
| "assign_queues (lcore_id # ids) Qid conf =
     (if MAX_QUEUES \<le> Qid then conf
      else assign_queues ids (Qid + 1)
             (conf(lcore_id := (conf lcore_id)\<lparr>queue_id := Qid, FlowQueueId := Qid, port_num := MAX_ETHPORTS\<rparr>)))"

definition launch_worker ::
  "'gp \<Rightarrow> nat list \<Rightarrow> ('pp, 'gp) processors \<times> cmd_state \<times> ('d, 's) worker_state
     \<Rightarrow> (('pp, 'gp) processors \<times> cmd_state \<times> ('d, 's) worker_state) option" where
  "launch_worker pkt workers st =
     (let (r, cs, s) = st;
          s1 = s\<lparr>lcore_conf := assign_queues workers 0 (lcore_conf s)\<rparr>;
          r1 = r\<lparr>general_processor_arr := (general_processor_arr r)[0 := Some pkt],
                 general_processor_name_arr := (general_processor_name_arr r)[0 := ''Packet'']\<rparr>
      in map_option (\<lambda>cs'. (r1, cs', s1\<lparr>force_quit := False\<rparr>)) (registerWorkerCmd cs))"

definition stop_worker :: "('d, 's) worker_state \<Rightarrow> ('d, 's) worker_state" where
  "stop_worker s = s\<lparr>force_quit := True\<rparr>"

definition is_worker_running :: "('d, 's) worker_state \<Rightarrow> bool" where
  "is_worker_running s = (\<not> force_quit s)"

definition worker_getFlowQid :: "('d, 's) worker_state \<Rightarrow> nat \<Rightarrow> nat" where
  "worker_getFlowQid s cid = FlowQueueId (lcore_conf s cid)"

section \<open>Packets\<close>

abbreviation buf :: "('d, 's) worker_state \<Rightarrow> nat \<Rightarrow> nat \<Rightarrow> QueuesBuf" where
  "buf s cid port \<equiv> queuesBuf (lcore_conf s cid) port"

definition upd_buf :: "nat \<Rightarrow> nat \<Rightarrow> (QueuesBuf \<Rightarrow> QueuesBuf) \<Rightarrow> ('d, 's) worker_state \<Rightarrow> ('d, 's) worker_state" where
  "upd_buf cid port f s = s\<lparr>lcore_conf := (lcore_conf s)(cid := (lcore_conf s cid)\<lparr>
     queuesBuf := (queuesBuf (lcore_conf s cid))(port := f (buf s cid port))\<rparr>)\<rparr>"

definition rte_pktmbuf_free :: "nat \<Rightarrow> ('d, 's) worker_state \<Rightarrow> ('d, 's) worker_state" where
  "rte_pktmbuf_free m s = (if m = 0 then s else s\<lparr>freed := freed s @ [m]\<rparr>)"

text \<open>The \<open>do ... while (++nb_tx < n)\<close> loop that frees the slots from \<open>nb_tx\<close> on of the buffer of core \<open>from\<close>.\<close>

definition free_slots :: "nat \<Rightarrow> nat \<Rightarrow> nat \<Rightarrow> nat \<Rightarrow> ('d, 's) worker_state \<Rightarrow> ('d, 's) worker_state" where
  "free_slots from port nb_tx n s = fold (\<lambda>i s. rte_pktmbuf_free (tx_burst (buf s from port) ! i) s) [nb_tx..<n] s"

definition send_packets ::
  "'d eth_ops \<Rightarrow> int \<Rightarrow> nat \<Rightarrow> nat \<Rightarrow> ('d, 's) worker_state \<Rightarrow> (nat \<times> ('d, 's) worker_state) option" where
  "send_packets ops port cid m s =
     (if port < 0 \<or> int MAX_ETHPORTS \<le> port then None
      else
        let p = nat port;
            (nb_tx, s1) =
              (if tx_len (buf s cid p) = MAX_PKT_BURST then
                 let (nb, d) = rte_eth_tx_burst ops p (queue_id (lcore_conf s cid)) (take MAX_PKT_BURST (tx_burst (buf s cid p))) (eth s)
                 in (max nb MAX_PKT_BURST,
                     upd_buf cid p (\<lambda>b. b\<lparr>tx_len := 0\<rparr>) (free_slots cid p nb MAX_PKT_BURST (s\<lparr>eth := d\<rparr>)))
               else (0, s))
        in if tx_len (buf s1 cid p) < MAX_PKT_BURST
           then Some (nb_tx, upd_buf cid p (\<lambda>b. b\<lparr>tx_burst := (tx_burst b)[tx_len b := m], tx_len := tx_len b + 1\<rparr>) s1)
           else None)"

type_synonym 's packet_processor = "nat \<Rightarrow> 's \<Rightarrow> (int \<times> 's) option"

text \<open>Every packet task runs; the last verdict that is not \<open>IGNORE_PACKETS\<close> counts.\<close>

fun packet_verdict :: "'s packet_processor list \<Rightarrow> nat \<Rightarrow> int \<Rightarrow> 's \<Rightarrow> (int \<times> 's) option" where
  "packet_verdict [] m action t = Some (action, t)"
| "packet_verdict (job # jobs) m action t =
     (case job m t of None \<Rightarrow> None
      | Some (this_action, t') \<Rightarrow> packet_verdict jobs m (if this_action \<noteq> IGNORE_PACKETS then this_action else action) t')"

fun rx_loop ::
  "'d eth_ops \<Rightarrow> 's packet_processor list \<Rightarrow> nat \<Rightarrow> nat list \<Rightarrow> ('d, 's) worker_state \<Rightarrow> ('d, 's) worker_state option" where
  "rx_loop ops jobs cid [] s = Some s"
| "rx_loop ops jobs cid (m # ms) s =
     (case packet_verdict jobs m DROP_PACKETS (tasks s) of None \<Rightarrow> None
      | Some (action, t) \<Rightarrow>
        (let s1 = s\<lparr>tasks := t\<rparr> in
         if action = DROP_PACKETS then rx_loop ops jobs cid ms (rte_pktmbuf_free m s1)
         else case send_packets ops action cid m s1 of None \<Rightarrow> None
              | Some (_, s2) \<Rightarrow> rx_loop ops jobs cid ms s2))"

text \<open>
  One port: receive, process, transmit. The packets that could not be sent are looked up in
  \<open>lcore_conf->queuesBuf\<close>, the buffers of core 0, whatever the core.
\<close>

definition process_port ::
  "'d eth_ops \<Rightarrow> 's packet_processor list \<Rightarrow> nat \<Rightarrow> nat \<Rightarrow> ('d, 's) worker_state \<Rightarrow> (nat \<times> ('d, 's) worker_state) option" where
  "process_port ops jobs cid port s =
     (let (ms, d) = rte_eth_rx_burst ops port (queue_id (lcore_conf s cid)) PACKET_BURST (eth s);
          s1 = upd_buf cid port (\<lambda>b. b\<lparr>rx_burst := ms @ drop (length ms) (rx_burst b), rx_len := length ms\<rparr>) (s\<lparr>eth := d\<rparr>)
      in case rx_loop ops jobs cid ms s1 of None \<Rightarrow> None
         | Some s2 \<Rightarrow>
           let n = tx_len (buf s2 cid port);
               (nb, d2) = rte_eth_tx_burst ops port (queue_id (lcore_conf s2 cid)) (take n (tx_burst (buf s2 cid port))) (eth s2)
           in Some (length ms + n, upd_buf cid port (\<lambda>b. b\<lparr>tx_len := 0\<rparr>) (free_slots 0 port nb n (s2\<lparr>eth := d2\<rparr>))))"

fun process_ports ::
  "'d eth_ops \<Rightarrow> 's packet_processor list \<Rightarrow> nat \<Rightarrow> nat list \<Rightarrow> nat \<Rightarrow> ('d, 's) worker_state
     \<Rightarrow> (nat \<times> ('d, 's) worker_state) option" where
  "process_ports ops jobs cid [] ret s = Some (ret, s)"
| "process_ports ops jobs cid (port # ports) ret s =
     (case process_port ops jobs cid port s of None \<Rightarrow> None
      | Some (n, s') \<Rightarrow> process_ports ops jobs cid ports (ret + n) s')"

definition general_pkt_processor ::
  "'d eth_ops \<Rightarrow> 's packet_processor list \<Rightarrow> nat \<Rightarrow> ('d, 's) worker_state \<Rightarrow> (nat \<times> ('d, 's) worker_state) option" where
  "general_pkt_processor ops jobs cid s = process_ports ops jobs cid [0..<port_num (lcore_conf s cid)] 0 s"

section \<open>The loop of a core\<close>

text \<open>
  One turn over the general tasks; \<open>tsc job\<close> are the two readings of the time stamp counter around a
  task. The loop reads \<open>force_quit\<close> before every turn, which another core may set at any time: \<open>quits\<close>
  are the values read.
\<close>

type_synonym 'w general_processor = "nat \<Rightarrow> 'w \<Rightarrow> (int \<times> 'w) option"

fun worker_turn ::
  "(nat \<Rightarrow> u64 \<times> u64) \<Rightarrow> nat \<Rightarrow> nat \<Rightarrow> ('d, 's) worker_state general_processor list \<Rightarrow> ('d, 's) worker_state
     \<Rightarrow> ('d, 's) worker_state option" where
  "worker_turn tsc cid job [] s = Some s"
| "worker_turn tsc cid job (p # ps) s =
     (case p cid s of None \<Rightarrow> None
      | Some (r, s') \<Rightarrow>
        worker_turn tsc cid (job + 1) ps
          (if r \<noteq> 0 then s'\<lparr>cpuConsumption := (cpuConsumption s')(cid := (cpuConsumption s' cid)(job :=
              cpuConsumption s' cid job + (snd (tsc job) - fst (tsc job))))\<rparr> else s'))"

fun worker ::
  "bool list \<Rightarrow> (nat \<Rightarrow> nat \<Rightarrow> u64 \<times> u64) \<Rightarrow> nat \<Rightarrow> ('d, 's) worker_state general_processor list \<Rightarrow> ('d, 's) worker_state
     \<Rightarrow> (bool \<times> ('d, 's) worker_state) option" where
  "worker [] tsc cid ps s = Some (False, s)"
| "worker (q # quits) tsc cid ps s =
     (if q then Some (True, s)
      else case worker_turn (tsc 0) cid 0 ps s of None \<Rightarrow> None
           | Some s' \<Rightarrow> worker quits (\<lambda>n. tsc (n + 1)) cid ps s')"

section \<open>Statistics\<close>

text \<open>\<open>dumpWorkerStats_slave\<close>; \<open>dbl\<close> is the conversion to \<open>double\<close>.\<close>

definition dumpWorkerStats_slave ::
  "(u64 \<Rightarrow> 'f) \<Rightarrow> nat \<Rightarrow> nat \<Rightarrow> (nat \<Rightarrow> nat \<Rightarrow> 'f) \<times> ('d, 's) worker_state \<Rightarrow> (nat \<Rightarrow> nat \<Rightarrow> 'f) \<times> ('d, 's) worker_state" where
  "dumpWorkerStats_slave dbl num cid st =
     (let (cs, s) = st in
      (cs(cid := (\<lambda>i. if i < num then dbl (cpuConsumption s cid i) else cs cid i)),
       s\<lparr>cpuConsumption := (cpuConsumption s)(cid := (\<lambda>i. if i < num then 0 else cpuConsumption s cid i))\<rparr>))"

text \<open>
  \<open>dumpQueueStats\<close>: the counters of a port as (packets in, bytes in, packets out, bytes out) per queue and
  in total. Printed are the counters and their increase since the counters were last read; the
  rates are these divided by the interval.
\<close>

type_synonym counters = "u64 \<times> u64 \<times> u64 \<times> u64"

record rte_eth_stats =
  q_stats :: "nat \<Rightarrow> counters"
  total_stats :: counters

definition counters_minus :: "counters \<Rightarrow> counters \<Rightarrow> counters" where
  "counters_minus a b = (case (a, b) of ((a1, a2, a3, a4), (b1, b2, b3, b4)) \<Rightarrow> (a1 - b1, a2 - b2, a3 - b3, a4 - b4))"

text \<open>\<open>get\<close> is \<open>rte_eth_stats_get\<close> on the device: called before the printing and once more after it.\<close>

definition dumpQueueStats_port ::
  "(nat \<Rightarrow> 'd \<Rightarrow> rte_eth_stats \<times> 'd) \<Rightarrow> nat \<Rightarrow> nat \<Rightarrow> (nat \<Rightarrow> rte_eth_stats) \<Rightarrow> 'd
     \<Rightarrow> (counters \<times> counters) list \<times> (counters \<times> counters) \<times> (nat \<Rightarrow> rte_eth_stats) \<times> 'd" where
  "dumpQueueStats_port get queues port lst d =
     (let (now, d1) = get port d; (again, d2) = get port d1 in
      (map (\<lambda>q. (q_stats now q, counters_minus (q_stats now q) (q_stats (lst port) q))) [0..<queues],
       (total_stats now, counters_minus (total_stats now) (total_stats (lst port))),
       lst(port := again), d2))"

fun dumpQueueStats ::
  "(nat \<Rightarrow> 'd \<Rightarrow> rte_eth_stats \<times> 'd) \<Rightarrow> nat \<Rightarrow> nat list \<Rightarrow> (nat \<Rightarrow> rte_eth_stats) \<Rightarrow> 'd
     \<Rightarrow> ((counters \<times> counters) list \<times> (counters \<times> counters)) list \<times> (nat \<Rightarrow> rte_eth_stats) \<times> 'd" where
  "dumpQueueStats get queues [] lst d = ([], lst, d)"
| "dumpQueueStats get queues (port # ports) lst d =
     (let (qs, t, last1, d1) = dumpQueueStats_port get queues port lst d;
          (out, last2, d2) = dumpQueueStats get queues ports last1 d1
      in ((qs, t) # out, last2, d2))"

end
