(* ===== verification/Conntrack.thy ===== *)
theory Conntrack
  imports Timer Qos Worker
begin

text \<open>
  Connection tracking (\<open>src/src/flowQoS_conntrack.c\<close>): the per-core connection table, the contexts
  drawn from a memory pool, their software timers, the filter that decides when a connection is
  offloaded and tunes its thresholds, the parsing and rewriting of packets, and the packet processor
  that puts them together. The hash table, the memory pool and the handlers of the application are
  parameters (\<open>ct_ops\<close>). A context and the entry embedded at its start share an address; the entry
  lives in the store of the scheduler, the timer in the store of the timer manager, the remaining
  fields here. Time stamp counter reads are arguments, one for each call in the code.
\<close>

section \<open>State\<close>

definition L4_TCP :: u8 where [flow_consts]: "L4_TCP = 6"
definition L4_UDP :: u8 where [flow_consts]: "L4_UDP = 17"
definition MAX_CT_STATS :: nat where [flow_consts]: "MAX_CT_STATS = 50"
definition CONNSCHED_DEFAULT_PACKET_THRESHOLD :: u64 where [flow_consts]: "CONNSCHED_DEFAULT_PACKET_THRESHOLD = 136"
definition CONNSCHED_DEFAULT_DELTA_TIME_US :: u64 where [flow_consts]: "CONNSCHED_DEFAULT_DELTA_TIME_US = 1000"
definition CONNSCHED_TUNING_WINDOW_US :: u64 where [flow_consts]: "CONNSCHED_TUNING_WINDOW_US = 1000000"
definition CONNSCHED_DEFAULT_MAX_TTH_SEC :: u64 where [flow_consts]: "CONNSCHED_DEFAULT_MAX_TTH_SEC = 10"

record FlowQoS_CONN_ATTR =
  TCP_PIPE :: "nat \<Rightarrow> nat"
  UDP_PIPE :: "nat \<Rightarrow> nat"
  RSS_PIPE :: "nat \<Rightarrow> nat"
  ActionFlags :: "nat \<Rightarrow> u64"
  TCP_MatchFlags :: u64
  UDP_MatchFlags :: u64
  PORT_CT_ENABLED :: "nat \<Rightarrow> u64"
  CPU_HZ :: u64
  CONN_OFFLOAD_TIME :: u64
  CONN_OFFLOAD_TIME_MIN :: u64
  CONN_OFFLOAD_TIME_MAX :: u64
  CONN_OFFLOAD_TIME_DELTA :: u64
  PACKET_THRESHOLD :: u64
  FILTER_WINDOW_START :: u64
  FILTER_WINDOW_ENQUEUED :: u64
  FILTER_ENQUEUED_TOTAL :: u64
  FILTER_REJECTED_TOTAL :: u64
  MAX_OFFLOAD_SPEED :: u64
  MaxEntry :: u64
  MaxOffloadedEntry :: u64
  ENABLE_FLOWQOS :: bool

definition attr_init :: FlowQoS_CONN_ATTR where
  "attr_init = \<lparr>TCP_PIPE = (\<lambda>_. 0), UDP_PIPE = (\<lambda>_. 0), RSS_PIPE = (\<lambda>_. 0), ActionFlags = (\<lambda>_. 0),
     TCP_MatchFlags = SIP OR DIP OR TCP OR SPORT OR DPORT, UDP_MatchFlags = SIP OR DIP OR UDP OR SPORT OR DPORT,
     PORT_CT_ENABLED = (\<lambda>_. 0), CPU_HZ = 0, CONN_OFFLOAD_TIME = 0, CONN_OFFLOAD_TIME_MIN = 0,
     CONN_OFFLOAD_TIME_MAX = 0, CONN_OFFLOAD_TIME_DELTA = 0, PACKET_THRESHOLD = 0, FILTER_WINDOW_START = 0,
     FILTER_WINDOW_ENQUEUED = 0, FILTER_ENQUEUED_TOTAL = 0, FILTER_REJECTED_TOTAL = 0, MAX_OFFLOAD_SPEED = 0,
     MaxEntry = 0, MaxOffloadedEntry = 0, ENABLE_FLOWQOS = False\<rparr>"

datatype CT_STATE = SW_FWD_STATE | FLOW_QOS_STATE | HW_FWD_STATE

record FlowQoS_CONN_CONTEXT =
  startTimeStmp :: u64
  lastResetTimerStmp :: u64
  pktCount :: u64
  ct_state :: CT_STATE

text \<open>
  What a worker core works on, beside the scheduler: the attributes, the contexts, the timers, the
  per-core table with the pool and the count \<open>CT_NUM\<close>, and the state of the application.
\<close>

record ('h, 'p, 'a) ct_world =
  attr :: FlowQoS_CONN_ATTR
  ctxs :: "nat \<Rightarrow> FlowQoS_CONN_CONTEXT"
  timers :: flowQoS_timer_mgr
  CT :: 'h
  POOL :: "'p option"
  CT_NUM :: u64
  app :: 'a

text \<open>
  The hash table (an operation that returns a negative number failed), the pool, and the handlers an
  application registered. A handler of new connections may change the entry it is given.
\<close>

record ('h, 'p, 'a) ct_ops =
  hash_add :: "FlowQoS_MATCH \<Rightarrow> nat \<Rightarrow> 'h \<Rightarrow> int \<times> 'h"
  hash_lookup :: "FlowQoS_MATCH \<Rightarrow> 'h \<Rightarrow> nat option"
  hash_del :: "FlowQoS_MATCH \<Rightarrow> 'h \<Rightarrow> int \<times> 'h"
  pool_get :: "'p \<Rightarrow> nat option \<times> 'p"
  pool_put :: "nat \<Rightarrow> 'p \<Rightarrow> 'p"
  newConn_handler :: "(FlowQoS_ENTRY \<Rightarrow> 'a \<Rightarrow> int \<times> FlowQoS_ENTRY \<times> 'a) option"
  agingConn_handler :: "(FlowQoS_ENTRY \<Rightarrow> 'a \<Rightarrow> 'a) option"

type_synonym ('d, 'h, 'p, 'a) ct_core = "('d, ('h, 'p, 'a) ct_world) qos_core"

definition flowQoS_regist_newConn_handler ::
  "(FlowQoS_ENTRY \<Rightarrow> 'a \<Rightarrow> int \<times> FlowQoS_ENTRY \<times> 'a) option \<Rightarrow> ('h, 'p, 'a) ct_ops \<Rightarrow> int \<times> ('h, 'p, 'a) ct_ops" where
  "flowQoS_regist_newConn_handler h ops = (1, ops\<lparr>newConn_handler := h\<rparr>)"

definition flowQoS_regist_agingConn_handler ::
  "(FlowQoS_ENTRY \<Rightarrow> 'a \<Rightarrow> 'a) option \<Rightarrow> ('h, 'p, 'a) ct_ops \<Rightarrow> int \<times> ('h, 'p, 'a) ct_ops" where
  "flowQoS_regist_agingConn_handler h ops = (1, ops\<lparr>agingConn_handler := h\<rparr>)"

text \<open>The names of the callbacks that timers and entries hold.\<close>

definition expire_sw_cb :: nat where "expire_sw_cb = 1"
definition expire_hw_cb :: nat where "expire_hw_cb = 2"
definition qos_handler_cb :: nat where "qos_handler_cb = 3"

abbreviation upd_world :: "('w \<Rightarrow> 'w) \<Rightarrow> ('d, 'w) qos_core \<Rightarrow> ('d, 'w) qos_core" where
  "upd_world f c \<equiv> c\<lparr>world := f (world c)\<rparr>"

section \<open>The connection table\<close>

definition myHash :: "FlowQoS_MATCH \<Rightarrow> u32" where
  "myHash key = m_rss key"

definition flowQoS_addConnToHash ::
  "('h, 'p, 'a) ct_ops \<Rightarrow> u64 \<Rightarrow> FlowQoS_ENTRY \<Rightarrow> ('d, 'h, 'p, 'a) ct_core \<Rightarrow> nat option \<times> ('d, 'h, 'p, 'a) ct_core" where
  "flowQoS_addConnToHash ops tsc newEntry c =
     (case POOL (world c) of
        None \<Rightarrow> (None, c)
      | Some pool \<Rightarrow>
        (case pool_get ops pool of
           (None, pool') \<Rightarrow> (None, upd_world (\<lambda>w. w\<lparr>POOL := Some pool'\<rparr>) c)
         | (Some ctx, pool') \<Rightarrow>
           (case hash_add ops (e_match newEntry) ctx (CT (world c)) of (ret, ct') \<Rightarrow>
              if ret < 0 then
                (None, upd_world (\<lambda>w. w\<lparr>CT := ct', POOL := Some (pool_put ops ctx pool')\<rparr>) c)
              else
                let w = (world c)\<lparr>CT := ct', POOL := Some pool'\<rparr>;
                    en = newEntry;
                    (en, w) =
                      (if a_flags (e_action en) XOR AGING \<noteq> 0 then
                         let en1 = (if e_expireTime en = 0 then en\<lparr>e_expireTime := 10\<rparr> else en);
                             w1 = w\<lparr>timers := snd (flowQoS_timer_add (timers w) (TTimer ctx) (Some expire_sw_cb) ctx
                                                    (e_expireTime en1 * 1000)),
                                    ctxs := (ctxs w)(ctx := (ctxs w ctx)\<lparr>startTimeStmp := tsc\<rparr>)\<rparr>
                         in (en1\<lparr>e_cb := Some expire_hw_cb, e_cb_args := ctx\<rparr>, w1)
                       else (en, w))
                in (Some ctx, c\<lparr>ents := (ents c)(ctx := en),
                      world := w\<lparr>ctxs := (ctxs w)(ctx := (ctxs w ctx)\<lparr>pktCount := 0, ct_state := SW_FWD_STATE\<rparr>)\<rparr>\<rparr>))))"

definition flowQoS_findConnFromHash ::
  "('h, 'p, 'a) ct_ops \<Rightarrow> FlowQoS_ENTRY \<Rightarrow> ('d, 'h, 'p, 'a) ct_core \<Rightarrow> nat option" where
  "flowQoS_findConnFromHash ops newEntry c = hash_lookup ops (e_match newEntry) (CT (world c))"

definition flowQoS_delConnFromHash ::
  "('h, 'p, 'a) ct_ops \<Rightarrow> nat \<Rightarrow> ('d, 'h, 'p, 'a) ct_core \<Rightarrow> ('d, 'h, 'p, 'a) ct_core" where
  "flowQoS_delConnFromHash ops ctx c =
     upd_world (\<lambda>w. w\<lparr>CT := snd (hash_del ops (e_match (ents c ctx)) (CT w)),
                      POOL := map_option (pool_put ops ctx) (POOL w)\<rparr>) c"

text \<open>The call of the application's aging handler.\<close>

definition run_agingConn_handler ::
  "('h, 'p, 'a) ct_ops \<Rightarrow> nat \<Rightarrow> ('d, 'h, 'p, 'a) ct_core \<Rightarrow> ('d, 'h, 'p, 'a) ct_core" where
  "run_agingConn_handler ops ctx c =
     (case agingConn_handler ops of None \<Rightarrow> c
      | Some h \<Rightarrow> upd_world (\<lambda>w. w\<lparr>app := h (ents c ctx) (app w)\<rparr>) c)"

definition flowQoS_conn_expire_sw_cb ::
  "('h, 'p, 'a) ct_ops \<Rightarrow> nat \<Rightarrow> ('d, 'h, 'p, 'a) ct_core \<Rightarrow> ('d, 'h, 'p, 'a) ct_core option" where
  "flowQoS_conn_expire_sw_cb ops ctx c =
     (let c1 = flowQoS_delConnFromHash ops ctx c in
      map_option (run_agingConn_handler ops ctx)
        (if ENABLE_FLOWQOS (attr (world c1)) \<and> ct_state (ctxs (world c1) ctx) = FLOW_QOS_STATE
         then flowQoS_del_entry_event ctx c1 else Some c1))"

definition flowQoS_conn_expire_hw_cb ::
  "('h, 'p, 'a) ct_ops \<Rightarrow> nat \<Rightarrow> ('d, 'h, 'p, 'a) ct_core \<Rightarrow> ('d, 'h, 'p, 'a) ct_core" where
  "flowQoS_conn_expire_hw_cb ops ctx c =
     (let c1 = flowQoS_delConnFromHash ops ctx c in
      run_agingConn_handler ops ctx
        (if ENABLE_FLOWQOS (attr (world c1)) \<and> ct_state (ctxs (world c1) ctx) = HW_FWD_STATE
         then c1\<lparr>stats := flowQoS_return_entry_event (stats c1)\<rparr>
         else upd_world (\<lambda>w. w\<lparr>CT_NUM := CT_NUM w + 1\<rparr>) c1))"

text \<open>
  The general task that polls the hardware for aged entries: the callback of every entry of this
  module is \<open>flowQoS_conn_expire_hw_cb\<close>.
\<close>

definition hw_aging_port ::
  "('d, ('h, 'p, 'a) ct_world) qos_env \<Rightarrow> ('h, 'p, 'a) ct_ops \<Rightarrow> (nat \<Rightarrow> nat) \<Rightarrow> nat \<Rightarrow> int \<Rightarrow> ('d, 'h, 'p, 'a) ct_core
     \<Rightarrow> (int \<times> ('d, 'h, 'p, 'a) ct_core) option" where
  "hw_aging_port env ops ports port q c =
     flowQoS_aging_handle
       (\<lambda>port q n c. case aging_poll (env_doca env) (ports port) q n (doca c) of (num, aged, d) \<Rightarrow> (num, aged, c\<lparr>doca := d\<rparr>))
       ents
       (\<lambda>q h c. case pipe_rm_entry (env_doca env) q h (doca c) of (r, d) \<Rightarrow> (r, c\<lparr>doca := d\<rparr>))
       (\<lambda>cb args c. if cb = expire_hw_cb then Some (flowQoS_conn_expire_hw_cb ops args c) else None)
       port q c"

fun aging_ports ::
  "('d, ('h, 'p, 'a) ct_world) qos_env \<Rightarrow> ('h, 'p, 'a) ct_ops \<Rightarrow> (nat \<Rightarrow> nat) \<Rightarrow> int \<Rightarrow> nat list \<Rightarrow> int
     \<Rightarrow> ('d, 'h, 'p, 'a) ct_core \<Rightarrow> (int \<times> ('d, 'h, 'p, 'a) ct_core) option" where
  "aging_ports env ops ports cid [] ret c = Some (ret, c)"
| "aging_ports env ops ports cid (i # is) ret c =
     (if PORT_CT_ENABLED (attr (world c)) i \<noteq> 0 then
        case hw_aging_port env ops ports i (getFlowQid env cid) c of
          None \<Rightarrow> None
        | Some (r, c') \<Rightarrow> aging_ports env ops ports cid is (c_int (ret + r)) c'
      else aging_ports env ops ports cid is ret c)"

definition flowQoS_conn_aging_handle ::
  "('d, ('h, 'p, 'a) ct_world) qos_env \<Rightarrow> ('h, 'p, 'a) ct_ops \<Rightarrow> (nat \<Rightarrow> nat) \<Rightarrow> int
     \<Rightarrow> ('d, 'h, 'p, 'a) ct_core \<Rightarrow> (int \<times> ('d, 'h, 'p, 'a) ct_core) option" where
  "flowQoS_conn_aging_handle env ops ports cid c = aging_ports env ops ports cid [0..<MAX_ETHPORTS] 0 c"

section \<open>The filter\<close>

definition flowQoS_should_offload_ct ::
  "u64 \<Rightarrow> FlowQoS_CONN_CONTEXT \<Rightarrow> FlowQoS_CONN_ATTR \<Rightarrow> bool \<times> FlowQoS_CONN_ATTR" where
  "flowQoS_should_offload_ct tsc ctx at =
     (let gap = tsc - startTimeStmp ctx;
          ready = (ct_state ctx = SW_FWD_STATE \<and> CONN_OFFLOAD_TIME at < gap \<and> PACKET_THRESHOLD at < pktCount ctx)
      in (ready, if \<not> ready \<and> ct_state ctx = SW_FWD_STATE
                 then at\<lparr>FILTER_REJECTED_TOTAL := FILTER_REJECTED_TOTAL at + 1\<rparr> else at))"

text \<open>\<open>elapsed\<close> is 0 only when the window has length 0, and then the division is undefined.\<close>

definition flowQoS_filter_runtime_tune :: "u64 \<Rightarrow> FlowQoS_CONN_ATTR \<Rightarrow> FlowQoS_CONN_ATTR option" where
  "flowQoS_filter_runtime_tune tsc at =
     (if \<not> ENABLE_FLOWQOS at \<or> MAX_OFFLOAD_SPEED at = 0 then Some at
      else
        let window = CPU_HZ at * CONNSCHED_TUNING_WINDOW_US div 1000000 in
        if FILTER_WINDOW_START at = 0 then Some (at\<lparr>FILTER_WINDOW_START := tsc\<rparr>)
        else if tsc - FILTER_WINDOW_START at < window then Some at
        else
          let elapsed = tsc - FILTER_WINDOW_START at in
          if elapsed = 0 then None
          else
            let enqueueRate = FILTER_WINDOW_ENQUEUED at * CPU_HZ at div elapsed;
                at1 = (if MAX_OFFLOAD_SPEED at < enqueueRate then
                         let t = CONN_OFFLOAD_TIME at + CONN_OFFLOAD_TIME_DELTA at
                         in at\<lparr>CONN_OFFLOAD_TIME := (if CONN_OFFLOAD_TIME_MAX at < t then CONN_OFFLOAD_TIME_MAX at else t)\<rparr>
                       else if CONN_OFFLOAD_TIME_MIN at + CONN_OFFLOAD_TIME_DELTA at < CONN_OFFLOAD_TIME at
                       then at\<lparr>CONN_OFFLOAD_TIME := CONN_OFFLOAD_TIME at - CONN_OFFLOAD_TIME_DELTA at\<rparr>
                       else at\<lparr>CONN_OFFLOAD_TIME := CONN_OFFLOAD_TIME_MIN at\<rparr>)
            in Some (at1\<lparr>FILTER_WINDOW_ENQUEUED := 0, FILTER_WINDOW_START := tsc\<rparr>))"

definition flowQoS_filter_congestion_cb :: "FlowQoS_CONN_ATTR \<Rightarrow> FlowQoS_CONN_ATTR" where
  "flowQoS_filter_congestion_cb at =
     (if \<not> ENABLE_FLOWQOS at then at
      else let t = CONN_OFFLOAD_TIME at * 2
           in at\<lparr>CONN_OFFLOAD_TIME := (if CONN_OFFLOAD_TIME_MAX at < t then CONN_OFFLOAD_TIME_MAX at else t)\<rparr>)"

definition flowQoS_conntrack_tune_filter ::
  "int \<Rightarrow> int \<Rightarrow> int \<Rightarrow> int \<Rightarrow> FlowQoS_CONN_ATTR \<Rightarrow> int \<times> FlowQoS_CONN_ATTR" where
  "flowQoS_conntrack_tune_filter timeThresholdUs packetThreshold deltaTimeUs maxOffloadSpeed at =
     (if CPU_HZ at = 0 then (0, at)
      else
        let at = (if 0 \<le> timeThresholdUs then
                    let t = of_int timeThresholdUs * (CPU_HZ at div 1000000)
                    in at\<lparr>CONN_OFFLOAD_TIME := t, CONN_OFFLOAD_TIME_MIN := t\<rparr> else at);
            at = (if 0 \<le> packetThreshold then at\<lparr>PACKET_THRESHOLD := of_int packetThreshold\<rparr> else at);
            at = (if 0 \<le> deltaTimeUs then
                    at\<lparr>CONN_OFFLOAD_TIME_DELTA := of_int deltaTimeUs * (CPU_HZ at div 1000000)\<rparr> else at);
            at = (if 0 \<le> maxOffloadSpeed then at\<lparr>MAX_OFFLOAD_SPEED := of_int maxOffloadSpeed\<rparr> else at);
            at = (if CONN_OFFLOAD_TIME_MAX at < CONN_OFFLOAD_TIME at
                  then at\<lparr>CONN_OFFLOAD_TIME := CONN_OFFLOAD_TIME_MAX at\<rparr> else at);
            at = (if CONN_OFFLOAD_TIME_MAX at < CONN_OFFLOAD_TIME_MIN at
                  then at\<lparr>CONN_OFFLOAD_TIME_MIN := CONN_OFFLOAD_TIME_MAX at\<rparr> else at)
        in (1, at))"

section \<open>Offloading\<close>

definition flowQoS_qosHandler ::
  "nat \<Rightarrow> (nat \<Rightarrow> FlowQoS_ENTRY) \<Rightarrow> ('h, 'p, 'a) ct_world \<Rightarrow> ('h, 'p, 'a) ct_world" where
  "flowQoS_qosHandler ctx es w =
     (let w1 = (if a_flags (e_action (es ctx)) XOR AGING \<noteq> 0
                then w\<lparr>timers := flowQoS_timer_del (timers w) (TTimer ctx)\<rparr> else w)
      in w1\<lparr>ctxs := (ctxs w1)(ctx := (ctxs w1 ctx)\<lparr>ct_state := HW_FWD_STATE\<rparr>)\<rparr>)"

definition flowQoS_offload_conn ::
  "('d, ('h, 'p, 'a) ct_world) qos_env \<Rightarrow> int \<Rightarrow> u64 \<Rightarrow> u64 \<Rightarrow> nat \<Rightarrow> ('d, 'h, 'p, 'a) ct_core
     \<Rightarrow> (int \<times> ('d, 'h, 'p, 'a) ct_core) option" where
  "flowQoS_offload_conn env cid tsc_tune tsc_check ctx c =
     (case flowQoS_filter_runtime_tune tsc_tune (attr (world c)) of
        None \<Rightarrow> None
      | Some at1 \<Rightarrow>
        (case flowQoS_should_offload_ct tsc_check (ctxs (world c) ctx) at1 of (ready, at2) \<Rightarrow>
          let c1 = upd_world (\<lambda>w. w\<lparr>attr := at2\<rparr>) c in
          if \<not> ready then Some (0, c1)
          else if ENABLE_FLOWQOS at2 then
            let c2 = c1\<lparr>ents := (ents c1)(ctx := (ents c1 ctx)
                         \<lparr>e_flowQoS_qosHandler := Some qos_handler_cb, e_flowQoS_args := ctx\<rparr>)\<rparr>
            in map_option (\<lambda>c3. (0, upd_world (\<lambda>w. w
                   \<lparr>ctxs := (ctxs w)(ctx := (ctxs w ctx)\<lparr>ct_state := FLOW_QOS_STATE\<rparr>),
                    attr := (attr w)\<lparr>FILTER_WINDOW_ENQUEUED := FILTER_WINDOW_ENQUEUED (attr w) + 1,
                                    FILTER_ENQUEUED_TOTAL := FILTER_ENQUEUED_TOTAL (attr w) + 1\<rparr>\<rparr>) c3))
                 (flowQoS_add_entry_event ctx (unat (e_priority (ents c2 ctx) mod 4)) c2)
          else if CT_NUM (world c1) \<le> 0 then Some (0, c1)
          else
            (case flowQoS_add_entry (env_doca env) (env_pipes env) (e_pipe (ents c1 ctx)) ctx (getFlowQid env cid) 1
                    (ents c1, doca c1) of
               None \<Rightarrow> None
             | Some (ret, es, d) \<Rightarrow>
                 let c2 = c1\<lparr>ents := es, doca := d\<rparr> in
                 if ret \<noteq> 0 then
                   Some (1, upd_world (\<lambda>w.
                     let w1 = (if a_flags (e_action (es ctx)) XOR AGING \<noteq> 0
                               then w\<lparr>timers := flowQoS_timer_del (timers w) (TTimer ctx)\<rparr> else w)
                     in w1\<lparr>ctxs := (ctxs w1)(ctx := (ctxs w1 ctx)\<lparr>ct_state := HW_FWD_STATE\<rparr>),
                           CT_NUM := CT_NUM w1 - 1\<rparr>) c2)
                 else Some (ret, c2))))"

section \<open>Packets\<close>

datatype tx_flag = PKT_TX_IPV4 | PKT_TX_IP_CKSUM | PKT_TX_TCP_CKSUM | PKT_TX_UDP_CKSUM

text \<open>
  The fields of a packet buffer that the module reads and writes. The checksum of TCP and that of
  UDP lie at different offsets of the layer-4 header.
\<close>

record rte_mbuf =
  mb_port :: nat
  mb_is_ipv4 :: bool
  mb_rss :: u32
  mb_ol_flags :: "tx_flag set"
  eth_s_addr :: "u8 list"
  eth_d_addr :: "u8 list"
  ip_src_addr :: u32
  ip_dst_addr :: u32
  ip_next_proto_id :: u8
  ip_type_of_service :: u8
  ip_time_to_live :: u8
  ip_hdr_checksum :: u16
  l4_sport :: u16
  l4_dport :: u16
  tcp_cksum :: u16
  udp_dgram_cksum :: u16

definition flowQoS_packet_parser ::
  "FlowQoS_CONN_ATTR \<Rightarrow> rte_mbuf \<Rightarrow> FlowQoS_ENTRY \<Rightarrow> bool \<times> FlowQoS_ENTRY" where
  "flowQoS_packet_parser at m newEntry =
     (if mb_is_ipv4 m then
        let port_id = mb_port m;
            en = newEntry\<lparr>e_match := (e_match newEntry)\<lparr>m_src_ip := ip_src_addr m, m_dst_ip := ip_dst_addr m,
                             m_proto := ip_next_proto_id m, m_rss := mb_rss m\<rparr>,
                          e_priority := ucast (ip_type_of_service m),
                          e_action := (e_action newEntry)\<lparr>a_flags := ActionFlags at port_id\<rparr>\<rparr>;
            ports = (\<lambda>flags pipe. en\<lparr>e_match := (e_match en)\<lparr>m_src_port := l4_sport m, m_dst_port := l4_dport m,
                                         m_flags := flags\<rparr>, e_pipe := pipe\<rparr>)
        in if ip_next_proto_id m = L4_TCP then (True, ports (TCP_MatchFlags at) (TCP_PIPE at port_id))
           else if ip_next_proto_id m = L4_UDP then (True, ports (UDP_MatchFlags at) (UDP_PIPE at port_id))
           else (False, en)
      else (False, newEntry))"

text \<open>The rewriting of the headers and the choice of checksums to be computed.\<close>

definition modify_headers :: "FlowQoS_ACTION \<Rightarrow> u8 \<Rightarrow> rte_mbuf \<Rightarrow> rte_mbuf" where
  "modify_headers a proto m =
     (let f = a_flags a;
          m = guarded (has f SMAC) (eth_s_addr_update (\<lambda>_. a_src_mac a)) m;
          m = guarded (has f DMAC) (eth_d_addr_update (\<lambda>_. a_dst_mac a)) m;
          m = guarded (has f SIP) (ip_src_addr_update (\<lambda>_. a_src_ip a)) m;
          m = guarded (has f DIP) (ip_dst_addr_update (\<lambda>_. a_dst_ip a)) m;
          m = guarded (has f TTL_DECREASE) (ip_time_to_live_update (\<lambda>t. t - 1)) m;
          m = guarded (has f SPORT) (l4_sport_update (\<lambda>_. a_src_port a)) m;
          m = guarded (has f DPORT) (l4_dport_update (\<lambda>_. a_dst_port a)) m;
          ip_cksum = (has f SIP \<or> has f DIP \<or> has f TTL_DECREASE);
          l4_cksum = (has f SPORT \<or> has f DPORT);
          m = guarded ip_cksum (\<lambda>m. m\<lparr>ip_hdr_checksum := 0,
                mb_ol_flags := mb_ol_flags m \<union> {PKT_TX_IPV4, PKT_TX_IP_CKSUM}\<rparr>) m;
          m = guarded (l4_cksum \<and> proto = L4_TCP) (\<lambda>m. m\<lparr>tcp_cksum := 0,
                mb_ol_flags := insert PKT_TX_TCP_CKSUM (mb_ol_flags m)\<rparr>) m;
          m = guarded (l4_cksum \<and> proto = L4_UDP) (\<lambda>m. m\<lparr>udp_dgram_cksum := 0,
                mb_ol_flags := insert PKT_TX_UDP_CKSUM (mb_ol_flags m)\<rparr>) m
      in m)"

definition flowQoS_packet_modifyer ::
  "u64 \<Rightarrow> u64 \<Rightarrow> rte_mbuf \<Rightarrow> nat \<Rightarrow> ('d, 'h, 'p, 'a) ct_core \<Rightarrow> rte_mbuf \<times> ('d, 'h, 'p, 'a) ct_core" where
  "flowQoS_packet_modifyer tsc1 tsc2 m ctx c =
     (let a = e_action (ents c ctx); w = world c;
          c' = (if has (a_flags a) AGING \<and> CPU_HZ (attr w) < tsc1 - lastResetTimerStmp (ctxs w ctx) \<and>
                   ct_state (ctxs w ctx) \<noteq> HW_FWD_STATE
                then c\<lparr>world := w\<lparr>ctxs := (ctxs w)(ctx := (ctxs w ctx)\<lparr>lastResetTimerStmp := tsc2\<rparr>),
                       timers := snd (flowQoS_timer_reset (timers w) (TTimer ctx) (e_expireTime (ents c ctx) * 1000))\<rparr>\<rparr>
                else c)
      in (modify_headers a (m_proto (e_match (ents c ctx))) m, c'))"

text \<open>The time stamps read while a packet is processed.\<close>

record ct_clock =
  tsc_add :: u64
  tsc_tune :: u64
  tsc_check :: u64
  tsc_flush1 :: u64
  tsc_flush2 :: u64

text \<open>The part of the packet processor after the context of the packet is known.\<close>

definition forward_packet ::
  "('d, ('h, 'p, 'a) ct_world) qos_env \<Rightarrow> int \<Rightarrow> ct_clock \<Rightarrow> rte_mbuf \<Rightarrow> nat \<Rightarrow> ('d, 'h, 'p, 'a) ct_core
     \<Rightarrow> (int \<times> rte_mbuf \<times> ('d, 'h, 'p, 'a) ct_core) option" where
  "forward_packet env cid clk m ctx c =
     (let c1 = upd_world (\<lambda>w. w\<lparr>ctxs := (ctxs w)(ctx := (ctxs w ctx)\<lparr>pktCount := pktCount (ctxs w ctx) + 1\<rparr>)\<rparr>) c in
      case flowQoS_offload_conn env cid (tsc_tune clk) (tsc_check clk) ctx c1 of
        None \<Rightarrow> None
      | Some (_, c2) \<Rightarrow>
        (case env_pipes env (e_pipe (ents c2 ctx)) of
           None \<Rightarrow> None
         | Some pipe \<Rightarrow>
             let (m', c3) = flowQoS_packet_modifyer (tsc_flush1 clk) (tsc_flush2 clk) m ctx c2
             in Some (int (p_port_id pipe XOR 1), m', c3)))"

definition flowQoS_conntrack_packet_processor ::
  "('d, ('h, 'p, 'a) ct_world) qos_env \<Rightarrow> ('h, 'p, 'a) ct_ops \<Rightarrow> int \<Rightarrow> ct_clock \<Rightarrow> rte_mbuf \<Rightarrow> ('d, 'h, 'p, 'a) ct_core
     \<Rightarrow> (int \<times> rte_mbuf \<times> ('d, 'h, 'p, 'a) ct_core) option" where
  "flowQoS_conntrack_packet_processor env ops cid clk m c =
     (if PORT_CT_ENABLED (attr (world c)) (mb_port m) \<noteq> 0 then
        case flowQoS_packet_parser (attr (world c)) m zero_entry of (isL4, newEntry) \<Rightarrow>
          if isL4 then
            case flowQoS_findConnFromHash ops newEntry c of
              Some ctx \<Rightarrow> forward_packet env cid clk m ctx c
            | None \<Rightarrow>
              (case newConn_handler ops of
                 None \<Rightarrow> Some (DROP_PACKETS, m, c)
               | Some h \<Rightarrow>
                  (case h newEntry (app (world c)) of (port, newEntry', a') \<Rightarrow>
                     let c1 = upd_world (\<lambda>w. w\<lparr>app := a'\<rparr>) c in
                     if port < 0 then Some (DROP_PACKETS, m, c1)
                     else case flowQoS_addConnToHash ops (tsc_add clk) newEntry' c1 of
                            (None, c2) \<Rightarrow> Some (DROP_PACKETS, m, c2)
                          | (Some ctx, c2) \<Rightarrow> forward_packet env cid clk m ctx c2))
          else Some (IGNORE_PACKETS, m, c)
      else Some (IGNORE_PACKETS, m, c))"

end
