(* ===== verification/Conntrack_Init.thy ===== *)
theory Conntrack_Init
  imports Conntrack
begin

text \<open>
  How the tasks of a worker core run the conntrack module, and how it is set up: the handlers it
  gives to the scheduler and to the timers, \<open>flowQoS_conntrack_init_env\<close>,
  \<open>flowQoS_conntrack_init_port\<close>, and the statistics the commands collect.
\<close>

section \<open>Tasks of a worker core\<close>

definition ct_env ::
  "('d, ('h, 'p, 'a) ct_world) qos_env \<Rightarrow> ('d, ('h, 'p, 'a) ct_world) qos_env" where
  "ct_env env =
     flowQoS_regist_congestion_handler
       (Some (\<lambda>occupied maxEntry args w. w\<lparr>attr := flowQoS_filter_congestion_cb (attr w)\<rparr>)) 0
       (env\<lparr>qosHandler := (\<lambda>h ctx es w. if h = qos_handler_cb then flowQoS_qosHandler ctx es w else w)\<rparr>)"

text \<open>
  The timer task: the callback of every timer of this module is \<open>flowQoS_conn_expire_sw_cb\<close>. The
  callbacks run on the core while \<open>timer_tick\<close> works on the timer manager, which they do not touch.
\<close>

definition ct_timer_cb ::
  "('h, 'p, 'a) ct_ops \<Rightarrow> nat \<Rightarrow> nat \<Rightarrow> ('d, 'h, 'p, 'a) ct_core option \<Rightarrow> ('d, 'h, 'p, 'a) ct_core option" where
  "ct_timer_cb ops cb args oc =
     (case oc of None \<Rightarrow> None
      | Some c \<Rightarrow> if cb = expire_sw_cb then flowQoS_conn_expire_sw_cb ops args c else None)"

definition ct_timer_task ::
  "('h, 'p, 'a) ct_ops \<Rightarrow> u64 \<Rightarrow> u64 \<Rightarrow> ('d, 'h, 'p, 'a) ct_core \<Rightarrow> (nat \<times> ('d, 'h, 'p, 'a) ct_core) option" where
  "ct_timer_task ops GAP tsc c =
     (case flowQoS_timer_tick (ct_timer_cb ops) GAP tsc (timers (world c)) (Some c) of
        None \<Rightarrow> None
      | Some (n, mgr, oc) \<Rightarrow> map_option (\<lambda>c'. (n, upd_world (\<lambda>w. w\<lparr>timers := mgr\<rparr>) c')) oc)"

section \<open>Initialisation\<close>

definition TIMER_FREQUENCY :: u64 where [flow_consts]: "TIMER_FREQUENCY = 1000"

text \<open>
  \<open>flowQoS_timer_init\<close>: a manager per worker, the number of cycles of a tick, and the general task.
  Tasks are named by their symbol. \<open>allocated\<close> tells on which cores there is memory for the manager; the results of
  \<open>flowQoS_timer_mgr_init\<close> are not looked at.
\<close>

type_synonym task_registry = "(string, string) processors"

definition flowQoS_timer_init ::
  "(nat \<Rightarrow> bool) \<Rightarrow> u64 \<Rightarrow> (nat \<Rightarrow> u64) \<Rightarrow> nat list \<Rightarrow> (tptr \<Rightarrow> flowQoS_timer) \<Rightarrow> task_registry
     \<Rightarrow> (u64 \<times> (nat \<rightharpoonup> flowQoS_timer_mgr) \<times> task_registry) option" where
  "flowQoS_timer_init allocated tsc_hz tsc workers mem r =
     map_option (\<lambda>(_, r').
       (tsc_hz div TIMER_FREQUENCY,
        \<lambda>core. if core \<in> set workers then snd (flowQoS_timer_mgr_init (allocated core) (tsc core) mem) else None, r'))
       (register_general_processor ''_flowQoS_timer_tick'' ''Timer'' r)"

text \<open>The end of \<open>flowQoS_qos_init\<close>: the general task and the command.\<close>

definition qos_init_register :: "task_registry \<times> cmd_state \<Rightarrow> (task_registry \<times> cmd_state) option" where
  "qos_init_register st =
     (case register_general_processor ''flowQoS_do_entry_event'' ''QoS'' (fst st) of
        None \<Rightarrow> None
      | Some (_, r) \<Rightarrow> map_option (\<lambda>cs. (r, cs)) (registerFlowQoSCmd (snd st)))"

text \<open>
  The assignments to the attributes in \<open>flowQoS_conntrack_init_env\<close>; an \<open>int\<close> argument that meets a
  64-bit unsigned operand is converted to it.
\<close>

definition ct_init_attr ::
  "u64 \<Rightarrow> u64 \<Rightarrow> int \<Rightarrow> int \<Rightarrow> int \<Rightarrow> int \<Rightarrow> FlowQoS_CONN_ATTR \<Rightarrow> FlowQoS_CONN_ATTR" where
  "ct_init_attr hz tsc maxConntrack maxOffloadedEntry offloadTime offloadSpeed at =
     (let t = of_int offloadTime * (hz div 1000000);
          max0 = CONNSCHED_DEFAULT_MAX_TTH_SEC * hz
      in at\<lparr>CPU_HZ := hz, CONN_OFFLOAD_TIME := t, CONN_OFFLOAD_TIME_MIN := t,
            CONN_OFFLOAD_TIME_MAX := (if max0 < t then t else max0),
            CONN_OFFLOAD_TIME_DELTA := CONNSCHED_DEFAULT_DELTA_TIME_US * (hz div 1000000),
            PACKET_THRESHOLD := (if 0 < offloadSpeed then CONNSCHED_DEFAULT_PACKET_THRESHOLD else 0),
            FILTER_WINDOW_START := tsc, FILTER_WINDOW_ENQUEUED := 0, FILTER_ENQUEUED_TOTAL := 0,
            FILTER_REJECTED_TOTAL := 0, MAX_OFFLOAD_SPEED := of_int offloadSpeed,
            MaxEntry := of_int maxConntrack, MaxOffloadedEntry := of_int maxOffloadedEntry,
            ENABLE_FLOWQOS := 0 < offloadSpeed\<rparr>)"

record ('h, 'p) ConntrackTable =
  ct_pool :: "'p option"
  ct_table :: "'h option"
  offloadedNum :: u64

text \<open>
  The table of one worker: \<open>ct\<close> is what \<open>rte_hash_create\<close> returned, \<open>args\<close> the pool and the count of
  successes in the array all workers are given. A pool that is null is kept. On failure the code sets
  \<open>((int *)dummy)[2]\<close>, which is the lower half of \<open>args[1]\<close>, the address of the pool: \<open>clobber\<close> gives the
  pool found at the address that results.
\<close>

definition flowQoS_init_per_core ::
  "('p option \<Rightarrow> 'p option) \<Rightarrow> 'h option \<Rightarrow> FlowQoS_CONN_ATTR \<Rightarrow> ('h, 'p) ConntrackTable \<Rightarrow> 'p option \<times> nat
     \<Rightarrow> int \<times> ('h, 'p) ConntrackTable \<times> 'p option \<times> nat" where
  "flowQoS_init_per_core clobber ct at t args =
     (let (pool, succ) = args; t = t\<lparr>ct_pool := pool, ct_table := ct\<rparr> in
      case ct of None \<Rightarrow> (-1, t, clobber pool, succ)
      | Some _ \<Rightarrow> (0, t\<lparr>offloadedNum := MaxOffloadedEntry at\<rparr>, pool, succ + 1))"

fun init_cores ::
  "('p option \<Rightarrow> 'p option) \<Rightarrow> (nat \<Rightarrow> 'h option) \<Rightarrow> FlowQoS_CONN_ATTR \<Rightarrow> nat list \<Rightarrow> (nat \<Rightarrow> ('h, 'p) ConntrackTable)
     \<Rightarrow> 'p option \<times> nat \<Rightarrow> (nat \<Rightarrow> ('h, 'p) ConntrackTable) \<times> 'p option \<times> nat" where
  "init_cores clobber ct at [] ts args = (ts, args)"
| "init_cores clobber ct at (core # cores) ts args =
     (case flowQoS_init_per_core clobber (ct core) at (ts core) args of (_, t, args') \<Rightarrow>
        init_cores clobber ct at cores (ts(core := t)) args')"

definition ct_weights :: "int list" where
  "ct_weights = [1, 1, 2, 4]"

record ('h, 'p) ct_setup =
  su_attr :: FlowQoS_CONN_ATTR
  su_tables :: "nat \<Rightarrow> ('h, 'p) ConntrackTable"
  su_qos :: "nat \<rightharpoonup> FlowQoS_Stats"
  su_GAP :: u64
  su_timers :: "nat \<rightharpoonup> flowQoS_timer_mgr"
  su_tasks :: task_registry
  su_cmds :: cmd_state

definition registerConntrackCmd :: "cmd_state \<Rightarrow> cmd_state option" where
  "registerConntrackCmd = register_once ''Conntrack'' [''cmd_dumpConntrack_obj'']"

text \<open>
  \<open>flowQoS_conntrack_init_env\<close>, run by core \<open>self\<close> for the workers \<open>workers\<close>: \<open>pool\<close> is the memory pool that
  was created, if any, \<open>ct core\<close> the hash table that could be created on a core, and \<open>ctx_mem\<close> and \<open>tim_mem\<close> tell
  for which cores there is memory for the context of the scheduler and for the timer manager.
\<close>

definition flowQoS_conntrack_init_env ::
  "('p option \<Rightarrow> 'p option) \<Rightarrow> u64 \<Rightarrow> u64 \<Rightarrow> nat \<Rightarrow> nat list \<Rightarrow> 'p option \<Rightarrow> (nat \<Rightarrow> 'h option) \<Rightarrow> (nat \<Rightarrow> bool) \<Rightarrow> (nat \<Rightarrow> bool)
     \<Rightarrow> (tptr \<Rightarrow> flowQoS_timer) \<Rightarrow> int \<Rightarrow> int \<Rightarrow> int \<Rightarrow> int \<Rightarrow> ('h, 'p) ct_setup \<Rightarrow> (int \<times> ('h, 'p) ct_setup) option" where
  "flowQoS_conntrack_init_env clobber hz tsc self workers pool ct ctx_mem tim_mem mem maxConntrack maxOffloadedEntry offloadTime offloadSpeed su =
     (let ts = (su_tables su)(self := (su_tables su self)\<lparr>ct_pool := pool\<rparr>) in
      if pool = None then Some (0, su\<lparr>su_tables := ts\<rparr>)
      else
        let at = ct_init_attr hz tsc maxConntrack maxOffloadedEntry offloadTime offloadSpeed (su_attr su) in
        case (if 0 < offloadSpeed then
                Option.bind (flowQoS_qos_init ctx_mem tsc hz workers 4 ct_weights maxOffloadedEntry offloadSpeed)
                  (\<lambda>(_, ctx). map_option (\<lambda>(r, cs). (ctx, r, cs)) (qos_init_register (su_tasks su, su_cmds su)))
              else Some (su_qos su, su_tasks su, su_cmds su)) of
          None \<Rightarrow> None
        | Some (qos, r, cs) \<Rightarrow>
          (case init_cores clobber ct at workers ts (pool, 0) of (ts', _, succ) \<Rightarrow>
            let su1 = su\<lparr>su_attr := at, su_qos := qos, su_tasks := r, su_cmds := cs, su_tables := ts'\<rparr> in
            if succ \<noteq> length workers then Some (0, su1)
            else
              Option.bind (registerConntrackCmd cs) (\<lambda>cs'.
                Option.bind (flowQoS_timer_init tim_mem hz (\<lambda>_. tsc) workers mem r) (\<lambda>(g, tm, r1).
                  Option.bind (register_general_processor ''flowQoS_conn_aging_handle'' ''Aging''
                                 (snd (register_packet_processor ''flowQoS_conntrack_packet_processor'' r1))) (\<lambda>(_, r2).
                    Some (1, su1\<lparr>su_cmds := cs', su_GAP := g, su_timers := tm, su_tasks := r2\<rparr>))))))"

text \<open>
  \<open>flowQoS_conntrack_init_port\<close>; \<open>addr\<close> gives the addresses of the three pipes. The entry of the RSS
  pipe is a local variable, which the hardware gets no pointer to.
\<close>

definition flowQoS_conntrack_init_port ::
  "'d doca_ops \<Rightarrow> (nat \<Rightarrow> nat) \<Rightarrow> nat \<Rightarrow> (nat \<Rightarrow> nat) \<Rightarrow> nat \<Rightarrow> int \<Rightarrow> u64
     \<Rightarrow> FlowQoS_CONN_ATTR \<times> (nat \<rightharpoonup> FlowQoS_PIPE) \<times> cmd_state \<times> 'd
     \<Rightarrow> (int \<times> FlowQoS_CONN_ATTR \<times> (nat \<rightharpoonup> FlowQoS_PIPE) \<times> cmd_state \<times> 'd) option" where
  "flowQoS_conntrack_init_port ops ports lcore_count addr port maxOffloadedEntry actionFlags st =
     (let (at, pipes, cs, d) = st;
          at = at\<lparr>ActionFlags := (ActionFlags at)(port := actionFlags)\<rparr> in
      case flowQoS_build_pipe ops ports lcore_count (addr 0) port (''RSS-PIPE-Port'' @ dec port) 0 0 RSS_TO_QUEUE DROP
             (\<not> IS_ROOT) 2 (pipes, cs, d) of
        None \<Rightarrow> None
      | Some (rss, pipes, cs, d) \<Rightarrow>
        let at = at\<lparr>RSS_PIPE := (RSS_PIPE at)(port := rss)\<rparr> in
        (case flowQoS_add_entry ops pipes rss 1 0 1 (\<lambda>_. zero_entry, d) of
           None \<Rightarrow> None
         | Some (ret, _, d) \<Rightarrow>
           if rss = 0 \<or> ret < 0 then Some (0, at, pipes, cs, d)
           else
             case flowQoS_build_pipe ops ports lcore_count (addr 1) port (''UDP-PIPE-Port'' @ dec port)
                    (UDP_MatchFlags at OR UDP) (ActionFlags at port) PORT (of_nat rss) IS_ROOT
                    (maxOffloadedEntry + 1) (pipes, cs, d) of
               None \<Rightarrow> None
             | Some (udp, pipes, cs, d) \<Rightarrow>
               let at = at\<lparr>UDP_PIPE := (UDP_PIPE at)(port := udp)\<rparr> in
               if udp = 0 then Some (0, at, pipes, cs, d)
               else
                 case flowQoS_build_pipe ops ports lcore_count (addr 2) port (''TCP-PIPE-Port'' @ dec port)
                        (TCP_MatchFlags at) (ActionFlags at port) PORT (of_nat rss) IS_ROOT
                        (maxOffloadedEntry + 1) (pipes, cs, d) of
                   None \<Rightarrow> None
                 | Some (tcp, pipes, cs, d) \<Rightarrow>
                   let at = at\<lparr>TCP_PIPE := (TCP_PIPE at)(port := tcp)\<rparr> in
                   if tcp = 0 then Some (0, at, pipes, cs, d)
                   else Some (1, at\<lparr>PORT_CT_ENABLED := (PORT_CT_ENABLED at)(port := 1)\<rparr>, pipes, cs, d)))"

section \<open>Statistics\<close>

text \<open>
  The contents of a table in the order of \<open>rte_hash_iterate\<close>; at most \<open>MAX_CT_STATS\<close> entries are
  copied out for printing, and as many are printed as the count says and the copy holds.
\<close>

record ConntrackStats =
  cts_count :: nat
  cts_entry :: "FlowQoS_ENTRY list"

definition conntrack_slave :: "(FlowQoS_MATCH \<times> nat) list \<Rightarrow> ConntrackStats \<Rightarrow> ConntrackStats" where
  "conntrack_slave ct s = s\<lparr>cts_count := length ct\<rparr>"

fun conntrackL_copy :: "(nat \<Rightarrow> FlowQoS_ENTRY) \<Rightarrow> (FlowQoS_MATCH \<times> nat) list \<Rightarrow> nat \<Rightarrow> FlowQoS_ENTRY list \<Rightarrow> FlowQoS_ENTRY list" where
  "conntrackL_copy es [] i arr = arr"
| "conntrackL_copy es ((k, ctx) # ct) i arr =
     (let arr' = arr[i := es ctx]; i' = i + 1 in if i' = MAX_CT_STATS then arr' else conntrackL_copy es ct i' arr')"

definition conntrackL_slave ::
  "(nat \<Rightarrow> FlowQoS_ENTRY) \<Rightarrow> (FlowQoS_MATCH \<times> nat) list \<Rightarrow> ConntrackStats \<Rightarrow> ConntrackStats" where
  "conntrackL_slave es ct s = s\<lparr>cts_count := length ct, cts_entry := conntrackL_copy es ct 0 (cts_entry s)\<rparr>"

definition conntrackL_master ::
  "(nat \<rightharpoonup> FlowQoS_PIPE) \<Rightarrow> ConntrackStats \<Rightarrow> (string \<times> string \<times> string) option list" where
  "conntrackL_master pipes s =
     map (\<lambda>i. Option.bind (dumpFlowQoSEntry pipes (cts_entry s ! i)) printFlowQoSEntryToCmdline)
       [0..<min (cts_count s) MAX_CT_STATS]"

end
