(* ===== verification/Conn_Machine.thy ===== *)
theory Conn_Machine
  imports Conntrack_Init Timer_Wheel Qos_Props
begin

text \<open>
  The life of a connection as an abstract machine over the connection table, the pool of contexts,
  the states of the contexts, the set of armed timers and the queues of the scheduler: a context is
  free, handled in software, queued for offload, or handled by hardware. \<open>conn_inv\<close> is the invariant
  that relates the five; the lemmas are its preservation by the transitions of the machine. The
  timers enter through \<open>tim_ok\<close>, the contract of the timing wheel as this module uses it.
\<close>

section \<open>The timers of the connections\<close>

definition tim_ok :: "flowQoS_timer_mgr \<Rightarrow> nat set \<Rightarrow> bool" where
  "tim_ok mgr A \<longleftrightarrow> wheel_inv mgr \<and> A = {x. armed mgr x \<noteq> None} \<and>
     (\<forall>x \<in> A. tm_cb (mgr_mem mgr (TTimer x)) = Some expire_sw_cb \<and> tm_cb_args (mgr_mem mgr (TTimer x)) = x \<and>
              tm_repeat (mgr_mem mgr (TTimer x)) = 0)"

lemma tim_add:
  assumes ok: "tim_ok mgr A" and new: "x \<notin> A" and to: "timeout \<le> TIMER_MAX_TIMEOUT" and wrap: "now mgr + unat timeout < 2 ^ 64"
  shows "tim_ok (snd (flowQoS_timer_add mgr (TTimer x) (Some expire_sw_cb) x timeout)) (insert x A)"
proof -
  have free: "armed mgr x = None" using ok new by (auto simp: tim_ok_def)
  have rpt: "(0 :: u64) \<le> TIMER_MAX_TIMEOUT" by simp
  note st = wheel_inv_start [OF _ free _ to rpt wrap, of "Some expire_sw_cb" x]
  note data = timer_start_data [OF _ to, of "Some expire_sw_cb"]
  show ?thesis using ok st by (auto simp: tim_ok_def flowQoS_timer_add_def data)
qed

lemma tim_del: "tim_ok mgr A \<Longrightarrow> tim_ok (flowQoS_timer_del mgr (TTimer x)) (A - {x})"
  using wheel_inv_stop [of mgr x] same_data_stop [of mgr "TTimer x"]
  by (auto simp: tim_ok_def flowQoS_timer_del_def same_data_def)

lemma tim_reset:
  assumes ok: "tim_ok mgr A" and x: "x \<in> A" and to: "timeout \<le> TIMER_MAX_TIMEOUT" and wrap: "now mgr + unat timeout < 2 ^ 64"
  shows "tim_ok (snd (flowQoS_timer_reset mgr (TTimer x) timeout)) A"
proof -
  have cb: "tm_cb (mgr_mem mgr (TTimer x)) = Some expire_sw_cb" "tm_cb_args (mgr_mem mgr (TTimer x)) = x"
    using ok x by (auto simp: tim_ok_def)
  have eq: "snd (flowQoS_timer_reset mgr (TTimer x) timeout) =
      snd (flowQoS_timer_add (flowQoS_timer_del mgr (TTimer x)) (TTimer x) (Some expire_sw_cb) x timeout)"
    using cb by (simp add: flowQoS_timer_reset_def timer_reset_def flowQoS_timer_add_def flowQoS_timer_del_def Let_def)
  have n: "now (flowQoS_timer_del mgr (TTimer x)) = now mgr" by (simp add: flowQoS_timer_del_def)
  have "tim_ok (snd (flowQoS_timer_add (flowQoS_timer_del mgr (TTimer x)) (TTimer x) (Some expire_sw_cb) x timeout))
      (insert x (A - {x}))"
    by (rule tim_add [OF tim_del [OF ok] _ to]) (use wrap n in simp_all)
  then show ?thesis using x eq by (simp add: insert_absorb)
qed

lemma fold_fire_cb: "\<forall>x \<in> set xs. fire_cb run mgr x = f x \<Longrightarrow> fold (fire_cb run mgr) xs w = fold f xs w"
  by (induction xs arbitrary: w) auto

lemma tim_tick:
  assumes ok: "tim_ok mgr A" and wrap: "now mgr + C * C \<le> 2 ^ 64"
  shows "\<exists>mgr' fired. timer_tick run mgr w = Some (length fired, mgr', fold (\<lambda>x. run expire_sw_cb x) fired w) \<and>
     distinct fired \<and> set fired = {x \<in> A. armed mgr x = Some (now mgr)} \<and> tim_ok mgr' (A - set fired) \<and> now mgr' = Suc (now mgr)"
proof -
  have inv: "wheel_inv mgr" using ok by (simp add: tim_ok_def)
  obtain mgr' fired where t: "timer_tick run mgr w = Some (length fired, mgr', fold (fire_cb run mgr) fired w)"
    "distinct fired" "set fired = {t. armed mgr t = Some (now mgr)}" "wheel_inv mgr'" "now mgr' = Suc (now mgr)"
    "\<forall>t. armed mgr' t = (if armed mgr t = Some (now mgr) then after_fire mgr t else armed mgr t)"
    "\<forall>t. armed mgr t \<noteq> Some (now mgr) \<longrightarrow> same_data mgr mgr' t"
    using timer_tick_correct [OF inv wrap, of run w] by blast
  have sub: "set fired \<subseteq> A" using t(3) ok by (auto simp: tim_ok_def)
  have "after_fire mgr x = None" if "x \<in> set fired" for x
    using ok sub that by (auto simp: tim_ok_def after_fire_def)
  then have arm: "armed mgr' x = (if x \<in> set fired then None else armed mgr x)" for x using t(3,6) by simp
  have "tim_ok mgr' (A - set fired)"
    using ok t(3,4,7) arm unfolding tim_ok_def by (auto simp: same_data_def)
  moreover have "fold (fire_cb run mgr) fired w = fold (\<lambda>x. run expire_sw_cb x) fired w"
    using ok sub by (intro fold_fire_cb) (auto simp: tim_ok_def fire_cb_def fun_eq_iff)
  moreover have "set fired = {x \<in> A. armed mgr x = Some (now mgr)}" using t(3) sub by auto
  ultimately show ?thesis using t(1,2,5) by auto
qed

section \<open>The machine\<close>

text \<open>What is always true of the entry of a tracked connection.\<close>

definition entry_fine :: "(nat \<rightharpoonup> FlowQoS_PIPE) \<Rightarrow> FlowQoS_ENTRY \<Rightarrow> nat \<Rightarrow> bool" where
  "entry_fine P en x \<longleftrightarrow>
     (\<exists>fp. P (e_pipe en) = Some fp \<and> m_flags (p_match_pattern fp) = m_flags (e_match en) \<and>
           a_flags (p_action_pattern fp) \<noteq> AGING) \<and>
     a_flags (e_action en) \<noteq> AGING \<and> e_expireTime en * 1000 \<le> TIMER_MAX_TIMEOUT \<and>
     e_cb en = Some expire_hw_cb \<and> e_cb_args en = x"

definition conn_inv ::
  "(nat \<rightharpoonup> FlowQoS_PIPE) \<Rightarrow> bool \<Rightarrow> (FlowQoS_MATCH \<rightharpoonup> nat) \<Rightarrow> nat set \<Rightarrow> (nat \<Rightarrow> FlowQoS_ENTRY) \<Rightarrow> (nat \<Rightarrow> CT_STATE)
     \<Rightarrow> nat set \<Rightarrow> (nat \<Rightarrow> nat list) \<Rightarrow> bool" where
  "conn_inv P qos L F es S A Q \<longleftrightarrow>
     (\<forall>k x. L k = Some x \<longrightarrow> e_match (es x) = k \<and> x \<notin> F \<and> entry_fine P (es x) x \<and>
        (S x = FLOW_QOS_STATE \<longrightarrow> qos \<and> e_flowQoS_qosHandler (es x) = Some qos_handler_cb \<and> e_flowQoS_args (es x) = x \<and>
           e_priority (es x) < 4)) \<and>
     A = {x \<in> ran L. S x \<noteq> HW_FWD_STATE} \<and>
     (\<forall>i < 4. distinct (Q i) \<and> set (Q i) = {x \<in> ran L. S x = FLOW_QOS_STATE \<and> e_priority (es x) = of_nat i})"

lemma conn_invD:
  assumes "conn_inv P qos L F es S A Q" and "x \<in> ran L"
  shows "L (e_match (es x)) = Some x" "x \<notin> F" "entry_fine P (es x) x"
    "S x = FLOW_QOS_STATE \<Longrightarrow> qos \<and> e_flowQoS_qosHandler (es x) = Some qos_handler_cb \<and> e_flowQoS_args (es x) = x \<and>
       e_priority (es x) < 4"
    "x \<in> A \<longleftrightarrow> S x \<noteq> HW_FWD_STATE"
  using assms by (auto simp: conn_inv_def ran_def)

lemma conn_inv_free: "conn_inv P qos L F es S A Q \<Longrightarrow> x \<in> F \<Longrightarrow> x \<notin> ran L \<and> x \<notin> A"
  by (auto simp: conn_inv_def ran_def)

lemma conn_inv_queue: "conn_inv P qos L F es S A Q \<Longrightarrow> i < 4 \<Longrightarrow>
   distinct (Q i) \<and> (x \<in> set (Q i) \<longleftrightarrow> x \<in> ran L \<and> S x = FLOW_QOS_STATE \<and> e_priority (es x) = of_nat i)"
  by (auto simp: conn_inv_def)

lemma unat_small: "i < 4 \<Longrightarrow> unat (of_nat i :: u64) = i"
  by (simp add: unat_of_nat take_bit_nat_eq_self)

lemma of_nat_small: "i < 4 \<Longrightarrow> j < 4 \<Longrightarrow> (of_nat i :: u64) = of_nat j \<longleftrightarrow> i = j"
  using unat_small by metis

lemma of_nat_lt4: "i < 4 \<Longrightarrow> (of_nat i :: u64) < 4"
  by (simp add: word_less_nat_alt unat_small)

text \<open>A new connection.\<close>

lemma conn_add:
  assumes inv: "conn_inv P qos L F es S A Q" and x: "x \<in> F" and k: "L k = None"
    and en: "entry_fine P en x" "e_match en = k"
  shows "conn_inv P qos (L(k \<mapsto> x)) (F - {x}) (es(x := en)) (S(x := SW_FWD_STATE)) (insert x A) Q"
proof -
  have new: "x \<notin> ran L" using conn_inv_free [OF inv x] by simp
  have ran: "ran (L(k \<mapsto> x)) = insert x (ran L)" by (rule ran_map_upd [where m = L, OF k])
  have "L k' = Some y \<Longrightarrow> y \<noteq> x" for k' y using new by (auto simp: ran_def)
  then show ?thesis using inv en new unfolding conn_inv_def ran by auto
qed

text \<open>A connection is handed to the scheduler.\<close>

lemma conn_enqueue:
  assumes inv: "conn_inv P qos L F es S A Q" and x: "x \<in> ran L" "S x = SW_FWD_STATE" and q: "qos" and i: "i < 4"
  shows "conn_inv P qos L F
     (es(x := (es x)\<lparr>e_flowQoS_qosHandler := Some qos_handler_cb, e_flowQoS_args := x, e_priority := of_nat i\<rparr>))
     (S(x := FLOW_QOS_STATE)) A (Q(i := Q i @ [x]))"
proof -
  have "x \<notin> set (Q j)" if "j < 4" for j using conn_inv_queue [OF inv that] x by auto
  moreover have "(of_nat i :: u64) < 4" using i by (rule of_nat_lt4)
  ultimately show ?thesis using inv x q i of_nat_small
    by (auto simp: conn_inv_def entry_fine_def)
qed

text \<open>An entry gets what adding it to its pipe writes; nothing the machine looks at changes.\<close>

definition touched :: "(nat \<rightharpoonup> FlowQoS_PIPE) \<Rightarrow> FlowQoS_ENTRY \<Rightarrow> nat \<Rightarrow> FlowQoS_ENTRY" where
  "touched P en h = stamped (the (P (e_pipe en))) (e_pipe en) h en"

lemma touched_fine:
  assumes "entry_fine P en x"
  shows "entry_fine P (touched P en h) x" "e_match (touched P en h) = e_match en"
    "e_flowQoS_qosHandler (touched P en h) = e_flowQoS_qosHandler en" "e_flowQoS_args (touched P en h) = e_flowQoS_args en"
    "e_priority (touched P en h) = e_priority en" "e_pipe (touched P en h) = e_pipe en"
    "a_flags (e_action (touched P en h)) \<noteq> AGING" "e_expireTime (touched P en h) = e_expireTime en"
  using assms by (auto simp: entry_fine_def touched_def stamped_def)

lemma conn_touch:
  assumes inv: "conn_inv P qos L F es S A Q" and x: "x \<in> ran L"
  shows "conn_inv P qos L F (es(x := touched P (es x) h)) S A Q"
proof -
  note t = touched_fine [OF conn_invD(3) [OF inv x], of h]
  show ?thesis using inv t unfolding conn_inv_def by auto
qed

text \<open>A connection goes from software to hardware.\<close>

lemma conn_offload:
  assumes inv: "conn_inv P qos L F es S A Q" and x: "x \<in> ran L" "S x = SW_FWD_STATE"
  shows "conn_inv P qos L F es (S(x := HW_FWD_STATE)) (A - {x}) Q"
proof -
  have "x \<notin> set (Q j)" if "j < 4" for j using conn_inv_queue [OF inv that] x by auto
  then show ?thesis using inv by (auto simp: conn_inv_def)
qed

lemma conn_dequeue:
  assumes inv: "conn_inv P qos L F es S A Q" and q: "Q i = x # xs" and i: "i < 4"
  shows "conn_inv P qos L F es (S(x := HW_FWD_STATE)) (A - {x}) (Q(i := xs))"
proof -
  have x: "x \<in> ran L" "S x = FLOW_QOS_STATE" "e_priority (es x) = of_nat i" and d: "distinct (x # xs)"
    and xs: "set (x # xs) = {y \<in> ran L. S y = FLOW_QOS_STATE \<and> e_priority (es y) = of_nat i}"
    using conn_inv_queue [OF inv i] q by auto
  have "x \<notin> set (Q j)" if "j < 4" "j \<noteq> i" for j
    using conn_inv_queue [OF inv that(1)] x(3) that i of_nat_small by auto
  moreover have "set xs = {y \<in> ran L. y \<noteq> x \<and> S y = FLOW_QOS_STATE \<and> e_priority (es y) = of_nat i}"
    using xs d by auto
  ultimately show ?thesis using inv d unfolding conn_inv_def by auto
qed

lemma conn_invI:
  assumes "\<And>k x. L k = Some x \<Longrightarrow> e_match (es x) = k \<and> x \<notin> F \<and> entry_fine P (es x) x \<and>
        (S x = FLOW_QOS_STATE \<longrightarrow> qos \<and> e_flowQoS_qosHandler (es x) = Some qos_handler_cb \<and> e_flowQoS_args (es x) = x \<and>
           e_priority (es x) < 4)"
    and "A = {x \<in> ran L. S x \<noteq> HW_FWD_STATE}"
    and "\<And>i. i < 4 \<Longrightarrow> distinct (Q i)"
    and "\<And>i. i < 4 \<Longrightarrow> set (Q i) = {x \<in> ran L. S x = FLOW_QOS_STATE \<and> e_priority (es x) = of_nat i}"
  shows "conn_inv P qos L F es S A Q"
  using assms unfolding conn_inv_def by blast

text \<open>The invariant looks at the four queues of the scheduler only.\<close>

lemma conn_inv_queues:
  assumes "conn_inv P qos L F es S A Q" and "\<And>i. i < 4 \<Longrightarrow> Q' i = Q i"
  shows "conn_inv P qos L F es S A Q'"
  using assms unfolding conn_inv_def by simp

text \<open>A connection expires.\<close>

lemma conn_expire:
  assumes inv: "conn_inv P qos L F es S A Q" and x: "x \<in> ran L"
  shows "conn_inv P qos (L(e_match (es x) := None)) (insert x F) es S (A - {x}) (\<lambda>i. remove1 x (Q i))"
proof -
  note k = conn_invD(1) [OF inv x]
  have only: "L k' = Some x \<Longrightarrow> k' = e_match (es x)" for k' using inv by (auto simp: conn_inv_def)
  have ran: "ran (L(e_match (es x) := None)) = ran L - {x}"
  proof (intro equalityI subsetI)
    fix y assume "y \<in> ran (L(e_match (es x) := None))"
    then obtain k' where "L k' = Some y" "k' \<noteq> e_match (es x)" by (auto simp: ran_def split: if_splits)
    then show "y \<in> ran L - {x}" using only by (auto simp: ran_def)
  next
    fix y assume y: "y \<in> ran L - {x}"
    then obtain k' where "L k' = Some y" by (auto simp: ran_def)
    then show "y \<in> ran (L(e_match (es x) := None))" using k y by (intro ranI [of _ k']) auto
  qed
  show ?thesis
  proof (rule conn_invI)
    fix k' y assume "(L(e_match (es x) := None)) k' = Some y"
    then have "L k' = Some y" "y \<noteq> x" using k by (auto split: if_splits) (metis only)
    then show "e_match (es y) = k' \<and> y \<notin> insert x F \<and> entry_fine P (es y) y \<and>
        (S y = FLOW_QOS_STATE \<longrightarrow> qos \<and> e_flowQoS_qosHandler (es y) = Some qos_handler_cb \<and> e_flowQoS_args (es y) = y \<and>
           e_priority (es y) < 4)" using inv unfolding conn_inv_def by blast
  next
    show "A - {x} = {y \<in> ran (L(e_match (es x) := None)). S y \<noteq> HW_FWD_STATE}"
      using inv unfolding ran conn_inv_def by blast
  next
    fix i :: nat assume i: "i < 4"
    have d: "distinct (Q i)" and s: "set (Q i) = {y \<in> ran L. S y = FLOW_QOS_STATE \<and> e_priority (es y) = of_nat i}"
      using inv i unfolding conn_inv_def by blast+
    show "distinct (remove1 x (Q i))" using d by (rule distinct_remove1)
    show "set (remove1 x (Q i)) = {y \<in> ran (L(e_match (es x) := None)). S y = FLOW_QOS_STATE \<and> e_priority (es y) = of_nat i}"
      unfolding ran set_remove1_eq [OF d] s by blast
  qed
qed

lemma conn_expire_unqueued:
  assumes inv: "conn_inv P qos L F es S A Q" and x: "x \<in> ran L" "S x \<noteq> FLOW_QOS_STATE"
  shows "conn_inv P qos (L(e_match (es x) := None)) (insert x F) es S (A - {x}) Q"
proof (rule conn_inv_queues [OF conn_expire [OF inv x(1)]])
  fix i :: nat assume i: "i < 4"
  have "x \<notin> set (Q i)" using conn_inv_queue [OF inv i, of x] x(2) by blast
  then show "Q i = remove1 x (Q i)" by (simp add: remove1_idem)
qed

lemma conn_expire_queued:
  assumes inv: "conn_inv P qos L F es S A Q" and x: "x \<in> ran L" "S x = FLOW_QOS_STATE"
  shows "unat (e_priority (es x)) < 4" "x \<in> set (Q (unat (e_priority (es x))))"
    "conn_inv P qos (L(e_match (es x) := None)) (insert x F) es S (A - {x})
       (Q(unat (e_priority (es x)) := remove1 x (Q (unat (e_priority (es x))))))"
proof -
  let ?p = "unat (e_priority (es x))"
  have "e_priority (es x) < 4" using conn_invD(4) [OF inv x] by blast
  then show p: "?p < 4" by (simp add: word_less_nat_alt)
  have prio: "e_priority (es x) = of_nat ?p" by simp
  then show "x \<in> set (Q ?p)" using conn_inv_queue [OF inv p, of x] x by blast
  show "conn_inv P qos (L(e_match (es x) := None)) (insert x F) es S (A - {x}) (Q(?p := remove1 x (Q ?p)))"
  proof (rule conn_inv_queues [OF conn_expire [OF inv x(1)]])
    fix i :: nat assume i: "i < 4"
    have "i = ?p \<or> x \<notin> set (Q i)" using conn_inv_queue [OF inv i, of x] of_nat_small [OF i p] prio by metis
    then show "(Q(?p := remove1 x (Q ?p))) i = remove1 x (Q i)" by (auto simp: remove1_idem)
  qed
qed

end
