(* ===== verification/Conntrack_Inv.thy ===== *)
theory Conntrack_Inv
  imports Conn_Machine
begin

text \<open>
  The invariant of a worker core that tracks connections, and its preservation by everything the
  core runs: packets, rounds of the scheduler, timer ticks and the aging reports of the hardware.
\<close>

section \<open>What is assumed of the hash table and the pool\<close>

definition hash_laws :: "('h, 'p, 'a) ct_ops \<Rightarrow> bool" where
  "hash_laws ops \<longleftrightarrow>
     (\<forall>k v h k'. hash_lookup ops k' (snd (hash_add ops k v h)) =
        (if 0 \<le> fst (hash_add ops k v h) \<and> k' = k then Some v else hash_lookup ops k' h)) \<and>
     (\<forall>k h k'. hash_lookup ops k' (snd (hash_del ops k h)) = (if k' = k then None else hash_lookup ops k' h))"

text \<open>\<open>free\<close> is the set of objects in the pool.\<close>

definition pool_laws :: "('h, 'p, 'a) ct_ops \<Rightarrow> ('p \<Rightarrow> nat set) \<Rightarrow> bool" where
  "pool_laws ops free \<longleftrightarrow>
     (\<forall>p x p'. pool_get ops p = (Some x, p') \<longrightarrow> x \<in> free p \<and> free p' = free p - {x}) \<and>
     (\<forall>p p'. pool_get ops p = (None, p') \<longrightarrow> free p' = free p) \<and>
     (\<forall>x p. free (pool_put ops x p) = insert x (free p))"

definition conn_laws :: "('h, 'p, 'a) ct_ops \<Rightarrow> ('p \<Rightarrow> nat set) \<Rightarrow> bool" where
  "conn_laws ops free \<longleftrightarrow> hash_laws ops \<and> pool_laws ops free"

section \<open>The invariant\<close>

text \<open>The pipes of the enabled ports exist and carry the flags the parser uses.\<close>

definition attr_ok :: "(nat \<rightharpoonup> FlowQoS_PIPE) \<Rightarrow> FlowQoS_CONN_ATTR \<Rightarrow> bool" where
  "attr_ok P at \<longleftrightarrow> 0 < CPU_HZ at \<and> unat (CPU_HZ at) * 1000000 < 2 ^ 64 \<and>
     (\<forall>p. PORT_CT_ENABLED at p \<noteq> 0 \<longrightarrow> ActionFlags at p \<noteq> AGING \<and>
        (\<exists>fp. P (TCP_PIPE at p) = Some fp \<and> m_flags (p_match_pattern fp) = TCP_MatchFlags at \<and>
              a_flags (p_action_pattern fp) \<noteq> AGING) \<and>
        (\<exists>fp. P (UDP_PIPE at p) = Some fp \<and> m_flags (p_match_pattern fp) = UDP_MatchFlags at \<and>
              a_flags (p_action_pattern fp) \<noteq> AGING))"

abbreviation states :: "('d, 'h, 'p, 'a) ct_core \<Rightarrow> nat \<Rightarrow> CT_STATE" where
  "states c \<equiv> (\<lambda>x. ct_state (ctxs (world c) x))"

abbreviation table :: "('h, 'p, 'a) ct_ops \<Rightarrow> ('d, 'h, 'p, 'a) ct_core \<Rightarrow> FlowQoS_MATCH \<rightharpoonup> nat" where
  "table ops c \<equiv> (\<lambda>k. hash_lookup ops k (CT (world c)))"

definition core_inv ::
  "('d, ('h, 'p, 'a) ct_world) qos_env \<Rightarrow> ('h, 'p, 'a) ct_ops \<Rightarrow> ('p \<Rightarrow> nat set) \<Rightarrow> ('d, 'h, 'p, 'a) ct_core \<Rightarrow> nat set \<Rightarrow> bool" where
  "core_inv env ops free c A \<longleftrightarrow>
     (\<exists>pool. POOL (world c) = Some pool \<and>
        conn_inv (env_pipes env) (ENABLE_FLOWQOS (attr (world c))) (table ops c) (free pool) (ents c) (states c) A
          (queue (stats c))) \<and>
     priorityQueueNum (stats c) = 4 \<and> (\<forall>i. buckets (stats c) i \<noteq> None \<longleftrightarrow> i < 4) \<and> maxEntry (stats c) < 2 ^ 31 \<and>
     attr_ok (env_pipes env) (attr (world c))"

definition ct_inv ::
  "('d, ('h, 'p, 'a) ct_world) qos_env \<Rightarrow> ('h, 'p, 'a) ct_ops \<Rightarrow> ('p \<Rightarrow> nat set) \<Rightarrow> ('d, 'h, 'p, 'a) ct_core \<Rightarrow> bool" where
  "ct_inv env ops free c \<longleftrightarrow>
     (\<exists>A. core_inv env ops free c A \<and> tim_ok (timers (world c)) A)"

text \<open>Two cores that the invariant does not tell apart.\<close>

lemma core_inv_cong:
  assumes "core_inv env ops free c A"
    and "POOL (world c') = POOL (world c)" "CT (world c') = CT (world c)" "ents c' = ents c" "states c' = states c"
    and "priorityQueueNum (stats c') = priorityQueueNum (stats c)" "buckets (stats c') = buckets (stats c)"
    and "maxEntry (stats c') < 2 ^ 31" "ENABLE_FLOWQOS (attr (world c')) = ENABLE_FLOWQOS (attr (world c))"
    and "attr_ok (env_pipes env) (attr (world c'))"
  shows "core_inv env ops free c' A"
  using assms unfolding core_inv_def queue_def by simp

lemma queue_upd [simp]: "queue (s\<lparr>buckets := (buckets s)(i \<mapsto> xs)\<rparr>) = (queue s)(i := xs)"
  by (auto simp: queue_def fun_eq_iff)

lemma attr_ok_cong:
  assumes "attr_ok P at" and "CPU_HZ at' = CPU_HZ at" "PORT_CT_ENABLED at' = PORT_CT_ENABLED at"
    "ActionFlags at' = ActionFlags at" "TCP_PIPE at' = TCP_PIPE at" "UDP_PIPE at' = UDP_PIPE at"
    "TCP_MatchFlags at' = TCP_MatchFlags at" "UDP_MatchFlags at' = UDP_MatchFlags at"
  shows "attr_ok P at'"
  using assms by (simp add: attr_ok_def)

section \<open>Expiry\<close>

lemma run_aging_fields [simp]:
  "ents (run_agingConn_handler ops x c) = ents c" "stats (run_agingConn_handler ops x c) = stats c"
  "doca (run_agingConn_handler ops x c) = doca c" "CT (world (run_agingConn_handler ops x c)) = CT (world c)"
  "POOL (world (run_agingConn_handler ops x c)) = POOL (world c)"
  "ctxs (world (run_agingConn_handler ops x c)) = ctxs (world c)"
  "timers (world (run_agingConn_handler ops x c)) = timers (world c)"
  "attr (world (run_agingConn_handler ops x c)) = attr (world c)"
  by (simp_all add: run_agingConn_handler_def split: option.splits)

lemma run_aging_inv:
  assumes "core_inv env ops free c A"
  shows "core_inv env ops free (run_agingConn_handler ops x c) A"
  by (rule core_inv_cong [OF assms]) (use assms in \<open>simp_all add: core_inv_def\<close>)

lemma del_conn_fields [simp]:
  "ents (flowQoS_delConnFromHash ops x c) = ents c" "stats (flowQoS_delConnFromHash ops x c) = stats c"
  "doca (flowQoS_delConnFromHash ops x c) = doca c"
  "ctxs (world (flowQoS_delConnFromHash ops x c)) = ctxs (world c)"
  "timers (world (flowQoS_delConnFromHash ops x c)) = timers (world c)"
  "attr (world (flowQoS_delConnFromHash ops x c)) = attr (world c)"
  "app (world (flowQoS_delConnFromHash ops x c)) = app (world c)"
  by (simp_all add: flowQoS_delConnFromHash_def)

lemma del_conn_table:
  assumes "conn_laws ops free"
  shows "table ops (flowQoS_delConnFromHash ops x c) = (table ops c)(e_match (ents c x) := None)"
  using assms by (auto simp: conn_laws_def hash_laws_def flowQoS_delConnFromHash_def fun_eq_iff)

lemma del_conn_pool:
  assumes "conn_laws ops free" and "POOL (world c) = Some pool"
  shows "\<exists>pool'. POOL (world (flowQoS_delConnFromHash ops x c)) = Some pool' \<and> free pool' = insert x (free pool)"
  using assms by (auto simp: conn_laws_def pool_laws_def flowQoS_delConnFromHash_def)

lemma core_invE:
  assumes "core_inv env ops free c A"
  obtains pool where "POOL (world c) = Some pool"
    "conn_inv (env_pipes env) (ENABLE_FLOWQOS (attr (world c))) (table ops c) (free pool) (ents c) (states c) A (queue (stats c))"
    "priorityQueueNum (stats c) = 4" "\<forall>i. buckets (stats c) i \<noteq> None \<longleftrightarrow> i < 4" "maxEntry (stats c) < 2 ^ 31"
    "attr_ok (env_pipes env) (attr (world c))"
  using assms unfolding core_inv_def by blast

lemma expire_sw_inv:
  assumes laws: "conn_laws ops free" and inv: "core_inv env ops free c A" and x: "x \<in> A"
  shows "\<exists>c'. flowQoS_conn_expire_sw_cb ops x c = Some c' \<and> core_inv env ops free c' (A - {x}) \<and>
           timers (world c') = timers (world c) \<and> table ops c' = (table ops c)(e_match (ents c x) := None) \<and> ents c' = ents c"
proof -
  let ?c1 = "flowQoS_delConnFromHash ops x c"
  from inv obtain pool where p: "POOL (world c) = Some pool"
    "conn_inv (env_pipes env) (ENABLE_FLOWQOS (attr (world c))) (table ops c) (free pool) (ents c) (states c) A (queue (stats c))"
    "priorityQueueNum (stats c) = 4" "\<forall>i. buckets (stats c) i \<noteq> None \<longleftrightarrow> i < 4" "maxEntry (stats c) < 2 ^ 31"
    "attr_ok (env_pipes env) (attr (world c))" by (rule core_invE)
  have ran: "x \<in> ran (table ops c)" using p(2) x by (auto simp: conn_inv_def)
  obtain pool' where pool': "POOL (world ?c1) = Some pool'" "free pool' = insert x (free pool)"
    using del_conn_pool [OF laws p(1)] by blast
  note tab = del_conn_table [OF laws, of x c]
  show ?thesis
  proof (cases "states c x = FLOW_QOS_STATE")
    case True
    let ?i = "unat (e_priority (ents c x))"
    note q = conn_expire_queued [OF p(2) ran True]
    have en: "ENABLE_FLOWQOS (attr (world c))" using conn_invD(4) [OF p(2) ran True] by simp
    let ?c2 = "?c1\<lparr>stats := (stats c)\<lparr>buckets := (buckets (stats c))(?i \<mapsto> remove1 x (queue (stats c) ?i))\<rparr>\<rparr>"
    have "flowQoS_del_entry_event x ?c1 = Some ?c2" using q(2) by (simp add: flowQoS_del_entry_event_def Let_def)
    then have e: "flowQoS_conn_expire_sw_cb ops x c = Some (run_agingConn_handler ops x ?c2)"
      using True en by (simp add: flowQoS_conn_expire_sw_cb_def Let_def)
    have "core_inv env ops free ?c2 (A - {x})"
      unfolding core_inv_def using pool' q(1,3) tab p(3-6) by simp
    then have "core_inv env ops free (run_agingConn_handler ops x ?c2) (A - {x})" by (rule run_aging_inv)
    then show ?thesis using e tab by simp
  next
    case False
    then have e: "flowQoS_conn_expire_sw_cb ops x c = Some (run_agingConn_handler ops x ?c1)"
      by (simp add: flowQoS_conn_expire_sw_cb_def Let_def)
    have "core_inv env ops free ?c1 (A - {x})"
      unfolding core_inv_def using pool' conn_expire_unqueued [OF p(2) ran False] tab p(3-6) by simp
    then have "core_inv env ops free (run_agingConn_handler ops x ?c1) (A - {x})" by (rule run_aging_inv)
    then show ?thesis using e tab by simp
  qed
qed

lemma expire_hw_inv:
  assumes laws: "conn_laws ops free" and inv: "core_inv env ops free c A"
    and x: "x \<in> ran (table ops c)" "states c x = HW_FWD_STATE"
  shows "core_inv env ops free (flowQoS_conn_expire_hw_cb ops x c) A"
    "timers (world (flowQoS_conn_expire_hw_cb ops x c)) = timers (world c)"
    "table ops (flowQoS_conn_expire_hw_cb ops x c) = (table ops c)(e_match (ents c x) := None)"
    "states (flowQoS_conn_expire_hw_cb ops x c) = states c" "ents (flowQoS_conn_expire_hw_cb ops x c) = ents c"
proof -
  let ?c1 = "flowQoS_delConnFromHash ops x c"
  from inv obtain pool where p: "POOL (world c) = Some pool"
    "conn_inv (env_pipes env) (ENABLE_FLOWQOS (attr (world c))) (table ops c) (free pool) (ents c) (states c) A (queue (stats c))"
    "priorityQueueNum (stats c) = 4" "\<forall>i. buckets (stats c) i \<noteq> None \<longleftrightarrow> i < 4" "maxEntry (stats c) < 2 ^ 31"
    "attr_ok (env_pipes env) (attr (world c))" by (rule core_invE)
  obtain pool' where pool': "POOL (world ?c1) = Some pool'" "free pool' = insert x (free pool)"
    using del_conn_pool [OF laws p(1)] by blast
  note tab = del_conn_table [OF laws, of x c]
  have nq: "states c x \<noteq> FLOW_QOS_STATE" using x(2) by simp
  have "A - {x} = A" using conn_invD(5) [OF p(2) x(1)] x(2) by simp
  then have inv1: "core_inv env ops free ?c1 A"
    unfolding core_inv_def using pool' conn_expire_unqueued [OF p(2) x(1) nq] tab p(3-6) by simp
  have lt: "c_int z < 2 ^ 31" for z unfolding c_int_def by (rule signed_take_bit_int_less_exp)
  have ret: "maxEntry (flowQoS_return_entry_event (stats c)) < 2 ^ 31"
    using lt [of "maxEntry (stats c) + 1"] by (auto simp: flowQoS_return_entry_event_def Let_def)
  have c2: "core_inv env ops free (c1\<lparr>stats := flowQoS_return_entry_event (stats c1)\<rparr>) A" if "c1 = ?c1" for c1
    using inv1 p(6) ret that by (elim core_inv_cong) (simp_all add: flowQoS_return_entry_event_def Let_def)
  have c3: "core_inv env ops free (upd_world (\<lambda>w. w\<lparr>CT_NUM := CT_NUM w + 1\<rparr>) ?c1) A"
    using inv1 p(5,6) by (elim core_inv_cong) simp_all
  show "core_inv env ops free (flowQoS_conn_expire_hw_cb ops x c) A"
    unfolding flowQoS_conn_expire_hw_cb_def Let_def by (intro run_aging_inv) (use c2 c3 in auto)
  show "timers (world (flowQoS_conn_expire_hw_cb ops x c)) = timers (world c)"
    "table ops (flowQoS_conn_expire_hw_cb ops x c) = (table ops c)(e_match (ents c x) := None)"
    "states (flowQoS_conn_expire_hw_cb ops x c) = states c" "ents (flowQoS_conn_expire_hw_cb ops x c) = ents c"
    using tab by (simp_all add: flowQoS_conn_expire_hw_cb_def Let_def)
qed

section \<open>The timer task\<close>

text \<open>The table without the contexts of a set.\<close>

definition forget :: "nat set \<Rightarrow> (FlowQoS_MATCH \<rightharpoonup> nat) \<Rightarrow> FlowQoS_MATCH \<rightharpoonup> nat" where
  "forget X L = (\<lambda>k. case L k of Some x \<Rightarrow> if x \<in> X then None else Some x | None \<Rightarrow> None)"

lemma forget_one:
  assumes "conn_inv P qos L F es S A Q" and "x \<in> ran L"
  shows "L(e_match (es x) := None) = forget {x} L"
proof
  fix k
  have "L k = Some x \<longleftrightarrow> k = e_match (es x)" using assms conn_invD(1) [OF assms] unfolding conn_inv_def by blast
  then show "(L(e_match (es x) := None)) k = forget {x} L k" by (auto simp: forget_def split: option.splits)
qed

lemma forget_forget: "forget X (forget Y L) = forget (X \<union> Y) L"
  by (auto simp: forget_def fun_eq_iff split: option.splits)

lemma forget_empty [simp]: "forget {} L = L"
  by (auto simp: forget_def fun_eq_iff split: option.splits)

lemma fold_expire_inv:
  assumes laws: "conn_laws ops free" and "core_inv env ops free c A" and "distinct xs" and "set xs \<subseteq> A"
  shows "\<exists>c'. fold (\<lambda>x. ct_timer_cb ops expire_sw_cb x) xs (Some c) = Some c' \<and> core_inv env ops free c' (A - set xs) \<and>
           timers (world c') = timers (world c) \<and> table ops c' = forget (set xs) (table ops c)"
  using assms(2-4)
proof (induction xs arbitrary: c A)
  case (Cons x xs)
  then obtain c1 where c1: "flowQoS_conn_expire_sw_cb ops x c = Some c1" "core_inv env ops free c1 (A - {x})"
    "timers (world c1) = timers (world c)" "table ops c1 = (table ops c)(e_match (ents c x) := None)"
    using expire_sw_inv [OF laws, of env c A x] by auto
  from Cons.prems(1) obtain pool where ci:
    "conn_inv (env_pipes env) (ENABLE_FLOWQOS (attr (world c))) (table ops c) (free pool) (ents c) (states c) A (queue (stats c))"
    by (rule core_invE) auto
  have x: "x \<in> ran (table ops c)" using ci Cons.prems(3) by (auto simp: conn_inv_def)
  have "set xs \<subseteq> A - {x}" using Cons.prems by auto
  with Cons.IH [OF c1(2)] Cons.prems(2) obtain c' where
    "fold (\<lambda>x. ct_timer_cb ops expire_sw_cb x) xs (Some c1) = Some c'" "core_inv env ops free c' (A - {x} - set xs)"
    "timers (world c') = timers (world c1)" "table ops c' = forget (set xs) (table ops c1)" by auto
  moreover have "A - {x} - set xs = A - set (x # xs)" by auto
  moreover have "ct_timer_cb ops expire_sw_cb x (Some c) = Some c1" using c1(1) by (simp add: ct_timer_cb_def)
  moreover have "forget (set xs) (table ops c1) = forget (set (x # xs)) (table ops c)"
    unfolding c1(4) forget_one [OF ci x] forget_forget by simp
  ultimately show ?case using c1(3) by auto
qed simp

text \<open>A tick of the timer task forgets exactly the connections whose timers are due.\<close>

lemma timer_task_exact:
  assumes laws: "conn_laws ops free" and inv: "ct_inv env ops free c" and wrap: "now (timers (world c)) + C * C \<le> 2 ^ 64"
  shows "\<exists>n c'. ct_timer_task ops GAP tsc c = Some (n, c') \<and> ct_inv env ops free c' \<and>
     (if mgr_startStmp (timers (world c)) + mgr_timeout (timers (world c)) * GAP < tsc
      then table ops c' = forget {x. armed (timers (world c)) x = Some (now (timers (world c)))} (table ops c) \<and>
           now (timers (world c')) = Suc (now (timers (world c)))
      else c' = c)"
proof -
  obtain A where A: "core_inv env ops free c A" "tim_ok (timers (world c)) A" using inv by (auto simp: ct_inv_def)
  show ?thesis
  proof (cases "mgr_startStmp (timers (world c)) + mgr_timeout (timers (world c)) * GAP < tsc")
    case True
    obtain mgr' fired where t:
      "timer_tick (ct_timer_cb ops) (timers (world c)) (Some c) =
         Some (length fired, mgr', fold (\<lambda>x. ct_timer_cb ops expire_sw_cb x) fired (Some c))"
      "distinct fired" "set fired = {x \<in> A. armed (timers (world c)) x = Some (now (timers (world c)))}"
      "tim_ok mgr' (A - set fired)" "now mgr' = Suc (now (timers (world c)))"
      using tim_tick [OF A(2) wrap, of "ct_timer_cb ops" "Some c"] by blast
    have fired: "set fired = {x. armed (timers (world c)) x = Some (now (timers (world c)))}" "set fired \<subseteq> A"
      using t(3) A(2) by (auto simp: tim_ok_def)
    obtain c' where c': "fold (\<lambda>x. ct_timer_cb ops expire_sw_cb x) fired (Some c) = Some c'"
      "core_inv env ops free c' (A - set fired)" "table ops c' = forget (set fired) (table ops c)"
      using fold_expire_inv [OF laws A(1) t(2) fired(2)] by blast
    let ?c = "upd_world (\<lambda>w. w\<lparr>timers := mgr'\<rparr>) c'"
    have "core_inv env ops free ?c (A - set fired)"
      by (rule core_inv_cong [OF c'(2)]) (use c'(2) in \<open>simp_all add: core_inv_def\<close>)
    then have "ct_inv env ops free ?c" using t(4) by (auto simp: ct_inv_def)
    moreover have "ct_timer_task ops GAP tsc c = Some (length fired, ?c)"
      using True t(1) c'(1) by (simp add: ct_timer_task_def flowQoS_timer_tick_def)
    ultimately show ?thesis using True c'(3) t(5) fired(1) by auto
  next
    case False
    then have "ct_timer_task ops GAP tsc c = Some (0, c)"
      by (simp add: ct_timer_task_def flowQoS_timer_tick_def)
    then show ?thesis using inv False by auto
  qed
qed

lemma timer_task_inv:
  assumes "conn_laws ops free" and "ct_inv env ops free c" and "now (timers (world c)) + C * C \<le> 2 ^ 64"
  shows "\<exists>n c'. ct_timer_task ops GAP tsc c = Some (n, c') \<and> ct_inv env ops free c'"
  using timer_task_exact [OF assms, of GAP tsc] by blast

section \<open>Aging reports of the hardware\<close>

text \<open>A report names connections that are handled by hardware, each once.\<close>

definition aged_ok :: "('h, 'p, 'a) ct_ops \<Rightarrow> ('d, 'h, 'p, 'a) ct_core \<Rightarrow> nat list \<Rightarrow> bool" where
  "aged_ok ops c xs \<longleftrightarrow> distinct xs \<and> 0 \<notin> set xs \<and> (\<forall>x \<in> set xs. x \<in> ran (table ops c) \<and> states c x = HW_FWD_STATE)"

lemma core_inv_doca: "core_inv env ops free (c\<lparr>doca := d\<rparr>) A = core_inv env ops free c A"
  by (simp add: core_inv_def)

lemma aging_loop_inv:
  assumes laws: "conn_laws ops free" and "core_inv env ops free c A" and "aged_ok ops c xs"
    and rm: "rm = (\<lambda>h c. case pipe_rm_entry dops q h (doca c) of (r, d) \<Rightarrow> (r, c\<lparr>doca := d\<rparr>))"
    and run: "run = (\<lambda>cb args c. if cb = expire_hw_cb then Some (flowQoS_conn_expire_hw_cb ops args c) else None)"
  shows "\<exists>c'. aging_loop ents rm run xs c = Some c' \<and> core_inv env ops free c' A \<and> timers (world c') = timers (world c)"
  using assms(2,3)
proof (induction xs arbitrary: c)
  case (Cons x xs)
  obtain r d where rd: "pipe_rm_entry dops q (e_entry (ents c x)) (doca c) = (r, d)" by force
  let ?c1 = "c\<lparr>doca := d\<rparr>"
  have inv1: "core_inv env ops free ?c1 A" using Cons.prems(1) by (simp add: core_inv_doca)
  have x: "x \<noteq> 0" "x \<in> ran (table ops c)" "states c x = HW_FWD_STATE" using Cons.prems(2) by (auto simp: aged_ok_def)
  have aged1: "aged_ok ops ?c1 xs" using Cons.prems(2) by (simp add: aged_ok_def)
  from inv1 obtain pool where ci:
    "conn_inv (env_pipes env) (ENABLE_FLOWQOS (attr (world c))) (table ops c) (free pool) (ents c) (states c) A (queue (stats c))"
    by (rule core_invE) auto
  have cb: "e_cb (ents c x) = Some expire_hw_cb" "e_cb_args (ents c x) = x"
    using conn_invD(3) [OF ci x(2)] by (auto simp: entry_fine_def)
  show ?case
  proof (cases "r < 0")
    case True
    then show ?thesis using Cons.IH [OF inv1 aged1] x(1) rd by (simp add: rm)
  next
    case False
    let ?c2 = "flowQoS_conn_expire_hw_cb ops x ?c1"
    have hw: "x \<in> ran (table ops ?c1)" "states ?c1 x = HW_FWD_STATE" using x by simp_all
    note e = expire_hw_inv [OF laws inv1 hw]
    have "y \<in> ran (table ops ?c2)" if "y \<in> set xs" for y
    proof -
      have y: "y \<in> ran (table ops c)" "y \<noteq> x" using Cons.prems(2) that by (auto simp: aged_ok_def)
      have "table ops c (e_match (ents c y)) = Some y" "table ops c (e_match (ents c x)) = Some x"
        using conn_invD(1) [OF ci y(1)] conn_invD(1) [OF ci x(2)] by simp_all
      with y(2) have "table ops ?c2 (e_match (ents c y)) = Some y" using fun_cong [OF e(3)] by auto
      then show ?thesis by (rule ranI)
    qed
    then have "aged_ok ops ?c2 xs" using aged1 fun_cong [OF e(4)] by (simp add: aged_ok_def)
    with Cons.IH [OF e(1)] obtain c' where "aging_loop ents rm run xs ?c2 = Some c'"
      "core_inv env ops free c' A" "timers (world c') = timers (world ?c2)" by blast
    then show ?thesis using False x(1) rd cb e(2) by (auto simp: rm run)
  qed
qed simp

lemma hw_aging_inv:
  assumes laws: "conn_laws ops free" and inv: "ct_inv env ops free c"
    and poll: "aging_poll (env_doca env) (ports port) q MAX_AGED_CT_PER_POLL (doca c) = (num, aged, d)"
    and aged: "aged_ok ops c (take (nat num) aged)"
  shows "\<exists>n c'. hw_aging_port env ops ports port q c = Some (n, c') \<and> ct_inv env ops free c'"
proof -
  obtain A where A: "core_inv env ops free c A" "tim_ok (timers (world c)) A" using inv by (auto simp: ct_inv_def)
  have inv1: "core_inv env ops free (c\<lparr>doca := d\<rparr>) A" using A(1) by (simp add: core_inv_doca)
  have aged1: "aged_ok ops (c\<lparr>doca := d\<rparr>) (take (nat num) aged)" using aged by (simp add: aged_ok_def)
  obtain c' where c': "aging_loop ents (\<lambda>h c. case pipe_rm_entry (env_doca env) q h (doca c) of (r, d) \<Rightarrow> (r, c\<lparr>doca := d\<rparr>))
      (\<lambda>cb args c. if cb = expire_hw_cb then Some (flowQoS_conn_expire_hw_cb ops args c) else None)
      (take (nat num) aged) (c\<lparr>doca := d\<rparr>) = Some c'" "core_inv env ops free c' A" "timers (world c') = timers (world c)"
    using aging_loop_inv [OF laws inv1 aged1 refl refl, of "env_doca env" q] by auto
  then have "hw_aging_port env ops ports port q c = Some (if 0 < num then num else 0, c')"
    using poll by (simp add: hw_aging_port_def flowQoS_aging_handle_def)
  moreover have "ct_inv env ops free c'" using c'(2,3) A(2) by (auto simp: ct_inv_def)
  ultimately show ?thesis by blast
qed

section \<open>The scheduler\<close>

lemma ct_env_fields [simp]:
  "env_pipes (ct_env env) = env_pipes env" "env_doca (ct_env env) = env_doca env" "getFlowQid (ct_env env) = getFlowQid env"
  by (simp_all add: ct_env_def flowQoS_regist_congestion_handler_def)

lemma xor_zero_iff: "a XOR b = 0 \<longleftrightarrow> a = (b :: u64)"
  by (auto simp: bit_eq_iff bit_xor_iff)

lemma congestion_cb_fields [simp]:
  "CPU_HZ (flowQoS_filter_congestion_cb at) = CPU_HZ at"
  "PORT_CT_ENABLED (flowQoS_filter_congestion_cb at) = PORT_CT_ENABLED at"
  "ActionFlags (flowQoS_filter_congestion_cb at) = ActionFlags at"
  "TCP_PIPE (flowQoS_filter_congestion_cb at) = TCP_PIPE at" "UDP_PIPE (flowQoS_filter_congestion_cb at) = UDP_PIPE at"
  "TCP_MatchFlags (flowQoS_filter_congestion_cb at) = TCP_MatchFlags at"
  "UDP_MatchFlags (flowQoS_filter_congestion_cb at) = UDP_MatchFlags at"
  "ENABLE_FLOWQOS (flowQoS_filter_congestion_cb at) = ENABLE_FLOWQOS at"
  by (simp_all add: flowQoS_filter_congestion_cb_def Let_def)

lemma watermark_check_world:
  "world (qos_watermark_check (ct_env env) c) = world c \<or>
   world (qos_watermark_check (ct_env env) c) = (world c)\<lparr>attr := flowQoS_filter_congestion_cb (attr (world c))\<rparr>"
  by (simp add: qos_watermark_check_def ct_env_def flowQoS_regist_congestion_handler_def Let_def)

lemma core_ready_inv:
  assumes "core_inv env ops free c A"
  shows "core_ready (ct_env env) c"
proof -
  from assms obtain pool where p: "POOL (world c) = Some pool"
    "conn_inv (env_pipes env) (ENABLE_FLOWQOS (attr (world c))) (table ops c) (free pool) (ents c) (states c) A (queue (stats c))"
    "priorityQueueNum (stats c) = 4" "\<forall>i. buckets (stats c) i \<noteq> None \<longleftrightarrow> i < 4" "maxEntry (stats c) < 2 ^ 31"
    "attr_ok (env_pipes env) (attr (world c))" by (rule core_invE)
  have "entry_ready (ct_env env) i (ents c e)" if i: "i < 4" and e: "e \<in> set (queue (stats c) i)" for i e
  proof -
    have r: "e \<in> ran (table ops c)" "states c e = FLOW_QOS_STATE" "e_priority (ents c e) = of_nat i"
      using conn_inv_queue [OF p(2) i, of e] e by blast+
    show ?thesis using conn_invD(3) [OF p(2) r(1)] conn_invD(4) [OF p(2) r(1,2)] r(3)
      by (auto simp: entry_ready_def entry_fine_def)
  qed
  then show ?thesis using p(3,5) by (simp add: core_ready_def flow_consts)
qed

lemma asked_touched:
  "env_pipes env (e_pipe (ents c x)) = Some fp \<Longrightarrow>
   asked fp pe x d c = c\<lparr>ents := (ents c)(x := touched (env_pipes env) (ents c x) pe), doca := d\<rparr>"
  by (simp add: asked_def touched_def)

lemma qos_step_inv:
  assumes inv: "ct_inv env ops free c" and step: "qos_step (ct_env env) cid c c'"
  shows "ct_inv env ops free c'"
proof -
  obtain A where A: "core_inv env ops free c A" "tim_ok (timers (world c)) A" using inv by (auto simp: ct_inv_def)
  obtain i x xs ret where st: "queue (stats c) i = x # xs" "entry_ready (ct_env env) i (ents c x)" "i < 2 ^ 64"
    "qos_offload_entry (ct_env env) cid i x c = Some (ret, c')" "0 < maxEntry (stats c)"
    using step by (auto elim: qos_stepE)
  from A(1) obtain pool where p: "POOL (world c) = Some pool"
    "conn_inv (env_pipes env) (ENABLE_FLOWQOS (attr (world c))) (table ops c) (free pool) (ents c) (states c) A (queue (stats c))"
    "priorityQueueNum (stats c) = 4" "\<forall>i. buckets (stats c) i \<noteq> None \<longleftrightarrow> i < 4" "maxEntry (stats c) < 2 ^ 31"
    "attr_ok (env_pipes env) (attr (world c))" by (rule core_invE)
  have i: "i < 4" using st(1) p(4) by (cases "buckets (stats c) i") (auto simp: queue_def)
  have x: "x \<in> ran (table ops c)" "states c x = FLOW_QOS_STATE" using conn_inv_queue [OF p(2) i, of x] st(1) by auto
  obtain fp pe d h where fp: "env_pipes env (e_pipe (ents c x)) = Some fp" and h: "e_flowQoS_qosHandler (ents c x) = Some h"
    and off: "c' = asked fp pe x d c \<or> c' = (let a = accepted (ct_env env) i x h (asked fp pe x d c)
         in a\<lparr>stats := (stats a)\<lparr>buckets := (buckets (stats c))(i \<mapsto> xs)\<rparr>\<rparr>)"
    using offload_entry_exact [OF st(2,1,3), of cid] st(4) by auto
  let ?es = "(ents c)(x := touched (env_pipes env) (ents c x) pe)"
  note asked = asked_touched [where env = env, OF fp, of pe d]
  have touch: "conn_inv (env_pipes env) (ENABLE_FLOWQOS (attr (world c))) (table ops c) (free pool) ?es (states c) A (queue (stats c))"
    by (rule conn_touch [OF p(2) x(1)])
  from off show ?thesis
  proof
    assume "c' = asked fp pe x d c"
    then show ?thesis using touch p A(2) unfolding ct_inv_def core_inv_def asked by auto
  next
    assume c': "c' = (let a = accepted (ct_env env) i x h (asked fp pe x d c)
         in a\<lparr>stats := (stats a)\<lparr>buckets := (buckets (stats c))(i \<mapsto> xs)\<rparr>\<rparr>)"
    have hx: "h = qos_handler_cb" "e_flowQoS_args (ents c x) = x" using conn_invD(4) [OF p(2) x] h by auto
    have flags: "a_flags (e_action (?es x)) XOR AGING \<noteq> 0"
      using touched_fine(7) [OF conn_invD(3) [OF p(2) x(1)], of pe] by (simp add: xor_zero_iff)
    let ?w = "(world c)\<lparr>timers := flowQoS_timer_del (timers (world c)) (TTimer x),
               ctxs := (ctxs (world c))(x := (ctxs (world c) x)\<lparr>ct_state := HW_FWD_STATE\<rparr>)\<rparr>"
    have args: "e_flowQoS_args (?es x) = x"
      using touched_fine(4) [OF conn_invD(3) [OF p(2) x(1)], of pe] hx(2) by simp
    have w: "world c' = ?w \<or> world c' = ?w\<lparr>attr := flowQoS_filter_congestion_cb (attr (world c))\<rparr>"
      using watermark_check_world [of env "(asked fp pe x d c)\<lparr>world := ?w,
         stats := (stats c)\<lparr>maxEntry := c_int (maxEntry (stats c) - 1), finished := (finished (stats c))(i := finished (stats c) i + 1)\<rparr>\<rparr>"]
        args flags hx(1)
      by (auto simp: c' accepted_def asked ct_env_def flowQoS_regist_congestion_handler_def flowQoS_qosHandler_def Let_def)
    have same: "ents c' = ?es" "priorityQueueNum (stats c') = 4" "maxEntry (stats c') = maxEntry (stats c) - 1"
      "buckets (stats c') = (buckets (stats c))(i \<mapsto> xs)"
      using p(3,5) st(5) by (auto simp: c' accepted_def asked Let_def)
    then have q: "queue (stats c') = (queue (stats c))(i := xs)" by (auto simp: queue_def fun_eq_iff)
    have ci: "conn_inv (env_pipes env) (ENABLE_FLOWQOS (attr (world c))) (table ops c) (free pool) ?es
        ((states c)(x := HW_FWD_STATE)) (A - {x}) ((queue (stats c))(i := xs))"
      by (rule conn_dequeue [OF touch st(1) i])
    have att: "attr_ok (env_pipes env) (attr (world c'))" "ENABLE_FLOWQOS (attr (world c')) = ENABLE_FLOWQOS (attr (world c))"
      using w p(6) by (auto intro: attr_ok_cong [OF p(6)])
    have parts: "POOL (world c') = Some pool" "CT (world c') = CT (world c)" "states c' = (states c)(x := HW_FWD_STATE)"
      "timers (world c') = flowQoS_timer_del (timers (world c)) (TTimer x)"
      using w p(1) by (auto simp: fun_eq_iff)
    have "core_inv env ops free c' (A - {x})"
      unfolding core_inv_def same(1,2,4) q att(2) parts(1-3) using ci p(4,5) i att(1) same(3) by auto
    then show ?thesis using tim_del [OF A(2), of x] parts(4) by (auto simp: ct_inv_def)
  qed
qed

lemma qos_round_inv:
  assumes inv: "ct_inv env ops free c"
  shows "\<exists>r c'. flowQoS_do_entry_event (ct_env env) cur cid c = Some (r, c') \<and> ct_inv env ops free c'"
proof (cases "gap (stats c) < cur - lastStmp (stats c)")
  case True
  obtain A where A: "core_inv env ops free c A" using inv by (auto simp: ct_inv_def)
  obtain r c1 c' where ev: "flowQoS_do_entry_event (ct_env env) cur cid c = Some (r, c')"
    "(qos_step (ct_env env) cid)\<^sup>*\<^sup>* c c1" "c' = c1 \<or> c' = c1\<lparr>stats := (stats c1)\<lparr>lastStmp := cur\<rparr>\<rparr>"
    using do_entry_event_cases [OF core_ready_inv [OF A] True, of cid] unfolding Let_def by metis
  have "ct_inv env ops free c1"
    using ev(2) by (induction rule: rtranclp_induct) (use inv qos_step_inv in blast)+
  then obtain A1 where "core_inv env ops free c1 A1" "tim_ok (timers (world c1)) A1" by (auto simp: ct_inv_def)
  then have "ct_inv env ops free c'" using ev(3) core_inv_cong [of env ops free c1 A1 c']
    by (auto simp: ct_inv_def core_inv_def)
  with ev(1) show ?thesis by blast
next
  case False
  then show ?thesis using inv by (simp add: flowQoS_do_entry_event_def)
qed

section \<open>Packets\<close>

lemma ct_invE:
  assumes "ct_inv env ops free c"
  obtains A pool where "POOL (world c) = Some pool"
    "conn_inv (env_pipes env) (ENABLE_FLOWQOS (attr (world c))) (table ops c) (free pool) (ents c) (states c) A (queue (stats c))"
    "priorityQueueNum (stats c) = 4" "\<forall>i. buckets (stats c) i \<noteq> None \<longleftrightarrow> i < 4" "maxEntry (stats c) < 2 ^ 31"
    "attr_ok (env_pipes env) (attr (world c))" "tim_ok (timers (world c)) A" "core_inv env ops free c A"
  using assms unfolding ct_inv_def by (metis core_invE)

lemma tune_returns:
  assumes ok: "attr_ok P at"
  shows "\<exists>at'. flowQoS_filter_runtime_tune tsc at = Some at' \<and> attr_ok P at' \<and> ENABLE_FLOWQOS at' = ENABLE_FLOWQOS at"
proof (cases "tsc - FILTER_WINDOW_START at < CPU_HZ at * CONNSCHED_TUNING_WINDOW_US div 1000000")
  case True
  then show ?thesis using ok attr_ok_cong [OF ok] by (auto simp: flowQoS_filter_runtime_tune_def Let_def)
next
  case False
  have "unat (CPU_HZ at * 1000000 div 1000000) = unat (CPU_HZ at)"
    using ok by (simp add: attr_ok_def unat_div unat_word_ariths)
  then have "CPU_HZ at * CONNSCHED_TUNING_WINDOW_US div 1000000 = CPU_HZ at"
    by (simp add: flow_consts word_unat_eq_iff)
  then have "tsc - FILTER_WINDOW_START at \<noteq> 0" using False ok by (auto simp: attr_ok_def)
  then show ?thesis using ok attr_ok_cong [OF ok] by (auto simp: flowQoS_filter_runtime_tune_def Let_def)
qed

lemma should_offload_fields:
  assumes "attr_ok P at"
  shows "attr_ok P (snd (flowQoS_should_offload_ct tsc ctx at))"
    "ENABLE_FLOWQOS (snd (flowQoS_should_offload_ct tsc ctx at)) = ENABLE_FLOWQOS at"
  using assms attr_ok_cong [OF assms] by (auto simp: flowQoS_should_offload_ct_def Let_def)

lemma priority_mod4: "unat (p mod 4 :: u64) < 4"
  by (simp add: unat_mod_word)

lemma offload_conn_inv:
  assumes inv: "ct_inv env ops free c" and x: "x \<in> ran (table ops c)"
  shows "\<exists>r c'. flowQoS_offload_conn (ct_env env) cid t1 t2 x c = Some (r, c') \<and> ct_inv env ops free c' \<and>
           table ops c' = table ops c \<and> now (timers (world c')) = now (timers (world c))"
proof -
  from inv obtain A pool where p: "POOL (world c) = Some pool"
    "conn_inv (env_pipes env) (ENABLE_FLOWQOS (attr (world c))) (table ops c) (free pool) (ents c) (states c) A (queue (stats c))"
    "priorityQueueNum (stats c) = 4" "\<forall>i. buckets (stats c) i \<noteq> None \<longleftrightarrow> i < 4" "maxEntry (stats c) < 2 ^ 31"
    "attr_ok (env_pipes env) (attr (world c))" "tim_ok (timers (world c)) A" "core_inv env ops free c A" by (rule ct_invE)
  obtain at1 where at1: "flowQoS_filter_runtime_tune t1 (attr (world c)) = Some at1" "attr_ok (env_pipes env) at1"
    "ENABLE_FLOWQOS at1 = ENABLE_FLOWQOS (attr (world c))" using tune_returns [OF p(6)] by blast
  obtain ready at2 where so: "flowQoS_should_offload_ct t2 (ctxs (world c) x) at1 = (ready, at2)" by force
  have at2: "attr_ok (env_pipes env) at2" "ENABLE_FLOWQOS at2 = ENABLE_FLOWQOS (attr (world c))"
    using should_offload_fields [OF at1(2), of t2 "ctxs (world c) x"] so at1(3) by auto
  have sw: "ready \<Longrightarrow> states c x = SW_FWD_STATE" using so by (auto simp: flowQoS_should_offload_ct_def Let_def split: if_splits)
  let ?c1 = "upd_world (\<lambda>w. w\<lparr>attr := at2\<rparr>) c"
  have inv1: "core_inv env ops free ?c1 A" by (rule core_inv_cong [OF p(8)]) (use at2 p(5) in simp_all)
  then have ct1: "ct_inv env ops free ?c1" using p(7) by (auto simp: ct_inv_def)
  consider (idle) "\<not> ready \<or> \<not> ENABLE_FLOWQOS at2 \<and> CT_NUM (world c) \<le> 0" | (qos) "ready" "ENABLE_FLOWQOS at2"
    | (direct) "ready" "\<not> ENABLE_FLOWQOS at2" "\<not> CT_NUM (world c) \<le> 0" by blast
  then show ?thesis
  proof cases
    case idle
    then have "flowQoS_offload_conn (ct_env env) cid t1 t2 x c = Some (0, ?c1)"
      using at1(1) so by (auto simp: flowQoS_offload_conn_def Let_def)
    then show ?thesis using ct1 by auto
  next
    case qos
    let ?i = "unat (e_priority (ents c x) mod 4)"
    obtain q where q: "buckets (stats c) ?i = Some q" using p(4) priority_mod4 by (metis not_None_eq)
    then have qq: "queue (stats c) ?i = q" by (simp add: queue_def)
    let ?es = "(ents c)(x := (ents c x)\<lparr>e_flowQoS_qosHandler := Some qos_handler_cb, e_flowQoS_args := x, e_priority := of_nat ?i\<rparr>)"
    let ?s = "(stats c)\<lparr>buckets := (buckets (stats c))(?i \<mapsto> q @ [x]), total := (total (stats c))(?i := total (stats c) ?i + 1)\<rparr>"
    let ?w = "(world c)\<lparr>ctxs := (ctxs (world c))(x := (ctxs (world c) x)\<lparr>ct_state := FLOW_QOS_STATE\<rparr>),
        attr := at2\<lparr>FILTER_WINDOW_ENQUEUED := FILTER_WINDOW_ENQUEUED at2 + 1, FILTER_ENQUEUED_TOTAL := FILTER_ENQUEUED_TOTAL at2 + 1\<rparr>\<rparr>"
    let ?c' = "c\<lparr>ents := ?es, stats := ?s, world := ?w\<rparr>"
    have "flowQoS_offload_conn (ct_env env) cid t1 t2 x c = Some (0, ?c')"
      using at1(1) so qos q by (simp add: flowQoS_offload_conn_def flowQoS_add_entry_event_def Let_def)
    moreover have "conn_inv (env_pipes env) (ENABLE_FLOWQOS at2) (table ops c) (free pool) ?es
        ((states c)(x := FLOW_QOS_STATE)) A ((queue (stats c))(?i := queue (stats c) ?i @ [x]))"
      using conn_enqueue [OF p(2) x sw [OF qos(1)] _ priority_mod4] qos(2) at2(2) by simp
    moreover have "queue ?s = (queue (stats c))(?i := queue (stats c) ?i @ [x])" "states ?c' = (states c)(x := FLOW_QOS_STATE)"
      using qq by (auto simp: queue_def fun_eq_iff)
    moreover have "attr_ok (env_pipes env) (attr ?w)" by (rule attr_ok_cong [OF at2(1)]) simp_all
    ultimately have "core_inv env ops free ?c' A" using p(1,3,4,5) priority_mod4 unfolding core_inv_def by auto
    then have "ct_inv env ops free ?c'" using p(7) by (auto simp: ct_inv_def)
    then show ?thesis using \<open>flowQoS_offload_conn (ct_env env) cid t1 t2 x c = Some (0, ?c')\<close> by auto
  next
    case direct
    obtain fp where fp: "env_pipes env (e_pipe (ents c x)) = Some fp"
      using conn_invD(3) [OF p(2) x] by (auto simp: entry_fine_def)
    have "\<exists>ret pe d. flowQoS_add_entry (env_doca env) (env_pipes env) (e_pipe (ents c x)) x (getFlowQid env cid) 1 (ents c, doca c) =
       Some (ret, (ents c)(x := touched (env_pipes env) (ents c x) pe), d)"
      unfolding add_entry_now [where pipes = "env_pipes env", OF fp] using fp
      by (auto simp: Let_def touched_def split: prod.splits)
    then obtain ret pe d where add: "flowQoS_add_entry (env_doca env) (env_pipes env) (e_pipe (ents c x)) x (getFlowQid env cid) 1
        (ents c, doca c) = Some (ret, (ents c)(x := touched (env_pipes env) (ents c x) pe), d)" by blast
    let ?es = "(ents c)(x := touched (env_pipes env) (ents c x) pe)"
    have touch: "conn_inv (env_pipes env) (ENABLE_FLOWQOS at2) (table ops c) (free pool) ?es (states c) A (queue (stats c))"
      using conn_touch [OF p(2) x] at2(2) by simp
    let ?c2 = "c\<lparr>ents := ?es, doca := d, world := (world c)\<lparr>attr := at2\<rparr>\<rparr>"
    have ct2: "core_inv env ops free ?c2 A" using touch p(1,3,4,5) at2(1) unfolding core_inv_def by auto
    show ?thesis
    proof (cases "ret = 0")
      case True
      then have "flowQoS_offload_conn (ct_env env) cid t1 t2 x c = Some (0, ?c2)"
        using at1(1) so direct add by (simp add: flowQoS_offload_conn_def Let_def)
      then show ?thesis using ct2 p(7) by (auto simp: ct_inv_def)
    next
      case False
      let ?c3 = "?c2\<lparr>world := (world c)\<lparr>attr := at2, timers := flowQoS_timer_del (timers (world c)) (TTimer x),
          ctxs := (ctxs (world c))(x := (ctxs (world c) x)\<lparr>ct_state := HW_FWD_STATE\<rparr>), CT_NUM := CT_NUM (world c) - 1\<rparr>\<rparr>"
      have "a_flags (e_action (?es x)) XOR AGING \<noteq> 0"
        using touched_fine(7) [OF conn_invD(3) [OF p(2) x], of pe] by (simp add: xor_zero_iff)
      then have "flowQoS_offload_conn (ct_env env) cid t1 t2 x c = Some (1, ?c3)"
        using at1(1) so direct add False by (simp add: flowQoS_offload_conn_def Let_def)
      moreover have "states ?c3 = (states c)(x := HW_FWD_STATE)" by (auto simp: fun_eq_iff)
      moreover note conn_offload [OF touch x sw [OF direct(1)]]
      ultimately have "core_inv env ops free ?c3 (A - {x})" using p(1,3,4,5) at2(1) unfolding core_inv_def by simp
      then have "ct_inv env ops free ?c3" using tim_del [OF p(7), of x] by (auto simp: ct_inv_def)
      moreover have "now (timers (world ?c3)) = now (timers (world c))" by (simp add: flowQoS_timer_del_def)
      ultimately show ?thesis using \<open>flowQoS_offload_conn (ct_env env) cid t1 t2 x c = Some (1, ?c3)\<close> by auto
    qed
  qed
qed

lemma max_timeout_horizon: "timeout \<le> TIMER_MAX_TIMEOUT \<Longrightarrow> n + C * C \<le> 2 ^ 64 \<Longrightarrow> n + unat timeout < 2 ^ 64"
proof -
  assume "timeout \<le> TIMER_MAX_TIMEOUT" and n: "n + C * C \<le> 2 ^ 64"
  then have "unat timeout \<le> unat TIMER_MAX_TIMEOUT" by (simp add: word_le_nat_alt)
  also have "\<dots> < C * C" by (simp add: flow_consts)
  finally show ?thesis using n by simp
qed

lemma modifyer_inv:
  assumes inv: "ct_inv env ops free c" and x: "x \<in> ran (table ops c)" and wrap: "now (timers (world c)) + C * C \<le> 2 ^ 64"
  shows "ct_inv env ops free (snd (flowQoS_packet_modifyer t1 t2 m x c))"
proof -
  from inv obtain A pool where p: "POOL (world c) = Some pool"
    "conn_inv (env_pipes env) (ENABLE_FLOWQOS (attr (world c))) (table ops c) (free pool) (ents c) (states c) A (queue (stats c))"
    "priorityQueueNum (stats c) = 4" "\<forall>i. buckets (stats c) i \<noteq> None \<longleftrightarrow> i < 4" "maxEntry (stats c) < 2 ^ 31"
    "attr_ok (env_pipes env) (attr (world c))" "tim_ok (timers (world c)) A" "core_inv env ops free c A" by (rule ct_invE)
  let ?t = "e_expireTime (ents c x) * 1000"
  let ?w = "(world c)\<lparr>ctxs := (ctxs (world c))(x := (ctxs (world c) x)\<lparr>lastResetTimerStmp := t2\<rparr>),
                       timers := snd (flowQoS_timer_reset (timers (world c)) (TTimer x) ?t)\<rparr>"
  show ?thesis
  proof (cases "snd (flowQoS_packet_modifyer t1 t2 m x c) = c")
    case False
    then have st: "ct_state (ctxs (world c) x) \<noteq> HW_FWD_STATE" and eq: "snd (flowQoS_packet_modifyer t1 t2 m x c) = c\<lparr>world := ?w\<rparr>"
      by (auto simp: flowQoS_packet_modifyer_def Let_def split: if_splits)
    have xA: "x \<in> A" using conn_invD(5) [OF p(2) x] st by simp
    have to: "?t \<le> TIMER_MAX_TIMEOUT" using conn_invD(3) [OF p(2) x] by (simp add: entry_fine_def)
    have "tim_ok (timers ?w) A" using tim_reset [OF p(7) xA to max_timeout_horizon [OF to wrap]] by simp
    moreover have "core_inv env ops free (c\<lparr>world := ?w\<rparr>) A"
      by (rule core_inv_cong [OF p(8)]) (use p(5,6) in \<open>simp_all add: fun_eq_iff\<close>)
    ultimately show ?thesis unfolding eq by (auto simp: ct_inv_def)
  qed (use inv in simp)
qed

lemma forward_inv:
  assumes inv: "ct_inv env ops free c" and x: "x \<in> ran (table ops c)" and wrap: "now (timers (world c)) + C * C \<le> 2 ^ 64"
  shows "\<exists>r m' c'. forward_packet (ct_env env) cid clk m x c = Some (r, m', c') \<and> ct_inv env ops free c'"
proof -
  let ?c1 = "upd_world (\<lambda>w. w\<lparr>ctxs := (ctxs w)(x := (ctxs w x)\<lparr>pktCount := pktCount (ctxs w x) + 1\<rparr>)\<rparr>) c"
  obtain A where A: "core_inv env ops free c A" "tim_ok (timers (world c)) A" using inv by (auto simp: ct_inv_def)
  have "core_inv env ops free ?c1 A"
    by (rule core_inv_cong [OF A(1)]) (use A(1) in \<open>simp_all add: fun_eq_iff core_inv_def\<close>)
  then have inv1: "ct_inv env ops free ?c1" using A(2) by (auto simp: ct_inv_def)
  have x1: "x \<in> ran (table ops ?c1)" using x by simp
  obtain r c2 where c2: "flowQoS_offload_conn (ct_env env) cid (tsc_tune clk) (tsc_check clk) x ?c1 = Some (r, c2)"
    "ct_inv env ops free c2" "table ops c2 = table ops ?c1" "now (timers (world c2)) = now (timers (world c))"
    using offload_conn_inv [OF inv1 x1, of cid "tsc_tune clk" "tsc_check clk"] by auto
  have x2: "x \<in> ran (table ops c2)" using x c2(3) by simp
  obtain A2 pool where ci: "conn_inv (env_pipes env) (ENABLE_FLOWQOS (attr (world c2))) (table ops c2) (free pool) (ents c2) (states c2) A2 (queue (stats c2))"
    using c2(2) by (rule ct_invE)
  obtain fp where fp: "env_pipes env (e_pipe (ents c2 x)) = Some fp"
    using conn_invD(3) [OF ci x2] by (auto simp: entry_fine_def)
  have "ct_inv env ops free (snd (flowQoS_packet_modifyer (tsc_flush1 clk) (tsc_flush2 clk) m x c2))"
    using modifyer_inv [OF c2(2) x2] wrap c2(4) by simp
  moreover obtain m' c' where "flowQoS_packet_modifyer (tsc_flush1 clk) (tsc_flush2 clk) m x c2 = (m', c')" by force
  ultimately show ?thesis using c2(1) fp by (simp add: forward_packet_def Let_def)
qed

text \<open>What the parser makes of a packet of an enabled port.\<close>

lemma parser_fine:
  assumes "attr_ok P at" and "PORT_CT_ENABLED at (mb_port m) \<noteq> 0"
    and "flowQoS_packet_parser at m zero_entry = (True, en)"
  shows "\<exists>fp. P (e_pipe en) = Some fp \<and> m_flags (p_match_pattern fp) = m_flags (e_match en) \<and>
           a_flags (p_action_pattern fp) \<noteq> AGING"
    and "a_flags (e_action en) \<noteq> AGING"
  using assms by (auto simp: attr_ok_def flowQoS_packet_parser_def Let_def split: if_splits)

lemma addConn_inv:
  assumes laws: "conn_laws ops free" and inv: "ct_inv env ops free c" and wrap: "now (timers (world c)) + C * C \<le> 2 ^ 64"
    and new: "table ops c (e_match en) = None"
    and pipe: "\<exists>fp. env_pipes env (e_pipe en) = Some fp \<and> m_flags (p_match_pattern fp) = m_flags (e_match en) \<and>
                 a_flags (p_action_pattern fp) \<noteq> AGING"
    and flags: "a_flags (e_action en) \<noteq> AGING" and exp: "e_expireTime en * 1000 \<le> TIMER_MAX_TIMEOUT"
  shows "case flowQoS_addConnToHash ops tsc en c of
           (None, c') \<Rightarrow> ct_inv env ops free c'
         | (Some x, c') \<Rightarrow> ct_inv env ops free c' \<and> x \<in> ran (table ops c') \<and> now (timers (world c')) = now (timers (world c)) \<and>
                         states c' x = SW_FWD_STATE"
proof -
  from inv obtain A pool where p: "POOL (world c) = Some pool"
    "conn_inv (env_pipes env) (ENABLE_FLOWQOS (attr (world c))) (table ops c) (free pool) (ents c) (states c) A (queue (stats c))"
    "priorityQueueNum (stats c) = 4" "\<forall>i. buckets (stats c) i \<noteq> None \<longleftrightarrow> i < 4" "maxEntry (stats c) < 2 ^ 31"
    "attr_ok (env_pipes env) (attr (world c))" "tim_ok (timers (world c)) A" "core_inv env ops free c A" by (rule ct_invE)
  obtain xo pool' where get: "pool_get ops pool = (xo, pool')" by force
  show ?thesis
  proof (cases xo)
    case None
    then have f: "free pool' = free pool" using laws get by (auto simp: conn_laws_def pool_laws_def)
    have "flowQoS_addConnToHash ops tsc en c = (None, upd_world (\<lambda>w. w\<lparr>POOL := Some pool'\<rparr>) c)"
      using p(1) get None by (simp add: flowQoS_addConnToHash_def)
    moreover have "core_inv env ops free (upd_world (\<lambda>w. w\<lparr>POOL := Some pool'\<rparr>) c) A"
      using p(2-6) f unfolding core_inv_def by simp
    ultimately show ?thesis using p(7) by (auto simp: ct_inv_def)
  next
    case (Some x)
    then have f: "x \<in> free pool" "free pool' = free pool - {x}" using laws get by (auto simp: conn_laws_def pool_laws_def)
    obtain ret ct' where add: "hash_add ops (e_match en) x (CT (world c)) = (ret, ct')" by force
    have look: "hash_lookup ops k ct' = (if 0 \<le> ret \<and> k = e_match en then Some x else table ops c k)" for k
    proof -
      have "hash_lookup ops k (snd (hash_add ops (e_match en) x (CT (world c)))) =
          (if 0 \<le> fst (hash_add ops (e_match en) x (CT (world c))) \<and> k = e_match en then Some x else table ops c k)"
        using laws unfolding conn_laws_def hash_laws_def by blast
      then show ?thesis by (simp add: add)
    qed
    show ?thesis
    proof (cases "ret < 0")
      case True
      let ?c' = "upd_world (\<lambda>w. w\<lparr>CT := ct', POOL := Some (pool_put ops x pool')\<rparr>) c"
      have "free (pool_put ops x pool') = free pool" using laws f by (auto simp: conn_laws_def pool_laws_def)
      moreover have "table ops ?c' = table ops c" using look True by (simp add: fun_eq_iff)
      ultimately have "core_inv env ops free ?c' A" using p(2-6) unfolding core_inv_def by simp
      moreover have "flowQoS_addConnToHash ops tsc en c = (None, ?c')"
        using p(1) get Some add True by (simp add: flowQoS_addConnToHash_def)
      ultimately show ?thesis using p(7) by (auto simp: ct_inv_def)
    next
      case False
      let ?en1 = "if e_expireTime en = 0 then en\<lparr>e_expireTime := 10\<rparr> else en"
      let ?en = "?en1\<lparr>e_cb := Some expire_hw_cb, e_cb_args := x\<rparr>"
      let ?w = "(world c)\<lparr>CT := ct', POOL := Some pool',
          timers := snd (flowQoS_timer_add (timers (world c)) (TTimer x) (Some expire_sw_cb) x (e_expireTime ?en1 * 1000)),
          ctxs := (ctxs (world c))(x := (ctxs (world c) x)\<lparr>startTimeStmp := tsc, pktCount := 0, ct_state := SW_FWD_STATE\<rparr>)\<rparr>"
      let ?c' = "c\<lparr>ents := (ents c)(x := ?en), world := ?w\<rparr>"
      have xor: "a_flags (e_action en) XOR AGING \<noteq> 0" using flags by (simp add: xor_zero_iff)
      have eq: "flowQoS_addConnToHash ops tsc en c = (Some x, ?c')"
        using p(1) get Some add False xor by (simp add: flowQoS_addConnToHash_def Let_def)
      have to: "e_expireTime ?en1 * 1000 \<le> TIMER_MAX_TIMEOUT" using exp by (simp add: flow_consts)
      have fine: "entry_fine (env_pipes env) ?en x" using pipe flags to by (simp add: entry_fine_def)
      have xA: "x \<notin> A" using conn_inv_free [OF p(2) f(1)] by simp
      have tab: "table ops ?c' = (table ops c)(e_match en \<mapsto> x)" using look False by (auto simp: fun_eq_iff)
      have st: "states ?c' = (states c)(x := SW_FWD_STATE)" by (auto simp: fun_eq_iff)
      have "e_match ?en = e_match en" by simp
      then have "conn_inv (env_pipes env) (ENABLE_FLOWQOS (attr (world c))) ((table ops c)(e_match en \<mapsto> x)) (free pool')
          ((ents c)(x := ?en)) ((states c)(x := SW_FWD_STATE)) (insert x A) (queue (stats c))"
        unfolding f(2) by (rule conn_add [OF p(2) f(1) new fine])
      then have ci: "core_inv env ops free ?c' (insert x A)"
        unfolding core_inv_def tab st using p(3-6) by simp
      have "tim_ok (timers ?w) (insert x A)"
        using tim_add [OF p(7) xA to max_timeout_horizon [OF to wrap]] by simp
      with ci have "ct_inv env ops free ?c'" by (auto simp: ct_inv_def)
      moreover have "x \<in> ran (table ops ?c')" unfolding tab by (rule ranI [of _ "e_match en"]) simp
      moreover have "now (timers ?w) = now (timers (world c))" by (simp add: flowQoS_timer_add_def)
      ultimately show ?thesis unfolding eq by simp
    qed
  qed
qed

section \<open>The contract of an application\<close>

text \<open>
  What connection tracking relies on in the handler of new connections that an application
  registers: an accepted connection keeps its key, its pipe and its action flags, and its expiry
  time, given in seconds, fits the timing wheel.
\<close>

locale conn_app =
  fixes new_conn :: "FlowQoS_ENTRY \<Rightarrow> 'a \<Rightarrow> int \<times> FlowQoS_ENTRY \<times> 'a"
  assumes keeps_flow: "new_conn en a = (port, en', a') \<Longrightarrow> 0 \<le> port \<Longrightarrow>
      e_match en' = e_match en \<and> e_pipe en' = e_pipe en \<and> a_flags (e_action en') = a_flags (e_action en)"
    and expiry_fits: "new_conn en a = (port, en', a') \<Longrightarrow> 0 \<le> port \<Longrightarrow> e_expireTime en = 0 \<Longrightarrow>
      e_expireTime en' * 1000 \<le> TIMER_MAX_TIMEOUT"
begin

lemma packet_inv:
  assumes laws: "conn_laws ops free" and inv: "ct_inv env ops free c" and wrap: "now (timers (world c)) + C * C \<le> 2 ^ 64"
    and app: "newConn_handler ops = Some new_conn"
  shows "\<exists>r m' c'. flowQoS_conntrack_packet_processor (ct_env env) ops cid clk m c = Some (r, m', c') \<and> ct_inv env ops free c'"
proof (cases "PORT_CT_ENABLED (attr (world c)) (mb_port m) = 0")
  case True
  then show ?thesis using inv by (simp add: flowQoS_conntrack_packet_processor_def)
next
  case enabled: False
  obtain isL4 en where parse: "flowQoS_packet_parser (attr (world c)) m zero_entry = (isL4, en)" by force
  show ?thesis
  proof (cases isL4)
    case False
    then show ?thesis using inv enabled parse by (simp add: flowQoS_conntrack_packet_processor_def)
  next
    case l4: True
    show ?thesis
    proof (cases "table ops c (e_match en)")
      case (Some x)
      then have "x \<in> ran (table ops c)" by (rule ranI)
      from forward_inv [OF inv this wrap, of cid clk m] Some enabled parse l4 show ?thesis
        by (simp add: flowQoS_conntrack_packet_processor_def flowQoS_findConnFromHash_def)
    next
      case None
      obtain port en' a' where nc: "new_conn en (app (world c)) = (port, en', a')" by (metis prod_cases3)
      let ?c1 = "upd_world (\<lambda>w. w\<lparr>app := a'\<rparr>) c"
      obtain A where A: "core_inv env ops free c A" "tim_ok (timers (world c)) A" using inv by (auto simp: ct_inv_def)
      have "core_inv env ops free ?c1 A" by (rule core_inv_cong [OF A(1)]) (use A(1) in \<open>simp_all add: core_inv_def\<close>)
      then have inv1: "ct_inv env ops free ?c1" using A(2) by (auto simp: ct_inv_def)
      have pp: "flowQoS_conntrack_packet_processor (ct_env env) ops cid clk m c =
          (if port < 0 then Some (DROP_PACKETS, m, ?c1)
           else case flowQoS_addConnToHash ops (tsc_add clk) en' ?c1 of
                  (None, c2) \<Rightarrow> Some (DROP_PACKETS, m, c2)
                | (Some ctx, c2) \<Rightarrow> forward_packet (ct_env env) cid clk m ctx c2)"
        using enabled parse l4 None app nc
        by (simp add: flowQoS_conntrack_packet_processor_def flowQoS_findConnFromHash_def Let_def)
      show ?thesis
      proof (cases "port < 0")
        case True
        then show ?thesis using pp inv1 by simp
      next
        case False
        then have port: "0 \<le> port" by simp
        note k = keeps_flow [OF nc port]
        have at: "attr_ok (env_pipes env) (attr (world c))" using A(1) by (simp add: core_inv_def)
        have l4': "flowQoS_packet_parser (attr (world c)) m zero_entry = (True, en)" using parse l4 by simp
        have z: "e_expireTime en = 0" using parse
          by (auto simp: flowQoS_packet_parser_def zero_entry_def Let_def split: if_splits)
        note fine = parser_fine [OF at enabled l4']
        have "case flowQoS_addConnToHash ops (tsc_add clk) en' ?c1 of
           (None, c') \<Rightarrow> ct_inv env ops free c'
         | (Some x, c') \<Rightarrow> ct_inv env ops free c' \<and> x \<in> ran (table ops c') \<and>
             now (timers (world c')) = now (timers (world ?c1)) \<and> states c' x = SW_FWD_STATE"
          by (rule addConn_inv [OF laws inv1]) (use wrap None k fine expiry_fits [OF nc port z] in simp_all)
        then show ?thesis using pp False wrap forward_inv
          by (fastforce split: prod.splits option.splits)
      qed
    qed
  qed
qed

end

end
