(* ===== verification/Conntrack_Props.thy ===== *)
theory Conntrack_Props
  imports Conntrack_Inv
begin

text \<open>
  The properties of connection tracking: the invariant of a core over every sequence of events, the
  expiry of connections, the bounds of the filter's threshold, the rewriting of packets, and what
  the tests of the AGING flag and the set-up functions really do.
\<close>

section \<open>Everything a core runs\<close>

text \<open>
  The events of a worker core. The horizon of $2^{64} - 2^{36}$ ticks of a millisecond is beyond five
  hundred million years.
\<close>

inductive ct_step ::
  "('d, ('h, 'p, 'a) ct_world) qos_env \<Rightarrow> ('h, 'p, 'a) ct_ops \<Rightarrow> (nat \<Rightarrow> nat) \<Rightarrow> ('d, 'h, 'p, 'a) ct_core
     \<Rightarrow> ('d, 'h, 'p, 'a) ct_core \<Rightarrow> bool"
  for env ops ports where
  packet: "now (timers (world c)) + C * C \<le> 2 ^ 64 \<Longrightarrow>
     flowQoS_conntrack_packet_processor (ct_env env) ops cid clk m c = Some (r, m', c') \<Longrightarrow> ct_step env ops ports c c'"
| round: "flowQoS_do_entry_event (ct_env env) cur cid c = Some (r, c') \<Longrightarrow> ct_step env ops ports c c'"
| tick: "now (timers (world c)) + C * C \<le> 2 ^ 64 \<Longrightarrow> ct_timer_task ops GAP tsc c = Some (n, c') \<Longrightarrow>
     ct_step env ops ports c c'"
| aging: "aging_poll (env_doca env) (ports port) q MAX_AGED_CT_PER_POLL (doca c) = (num, aged, d) \<Longrightarrow>
     aged_ok ops c (take (nat num) aged) \<Longrightarrow> hw_aging_port env ops ports port q c = Some (k, c') \<Longrightarrow>
     ct_step env ops ports c c'"

lemma ct_step_inv:
  assumes laws: "conn_laws ops free" and app: "newConn_handler ops = Some h" "conn_app h"
    and "ct_step env ops ports c c'" and inv: "ct_inv env ops free c"
  shows "ct_inv env ops free c'"
  using assms(4,5)
proof cases
  case (packet cid clk m r m')
  then show ?thesis using conn_app.packet_inv [OF app(2) laws inv packet(1) app(1), of cid clk m] by auto
next
  case (round cur cid r)
  then show ?thesis using qos_round_inv [OF inv, of cur cid] by auto
next
  case (tick GAP tsc n)
  then show ?thesis using timer_task_inv [OF laws inv tick(1), of GAP tsc] by auto
next
  case (aging port q num aged d k)
  then show ?thesis using hw_aging_inv [where ports = ports, OF laws inv aging(1,2)] by auto
qed

lemma ct_reachable_inv:
  assumes "conn_laws ops free" and "newConn_handler ops = Some h" "conn_app h"
    and "(ct_step env ops ports)\<^sup>*\<^sup>* c0 c" and "ct_inv env ops free c0"
  shows "ct_inv env ops free c"
  using assms(4,5) by (induction rule: rtranclp_induct) (use ct_step_inv [OF assms(1-3)] in blast)+

lemma ct_inv_init:
  assumes "POOL (world c) = Some pool" "\<And>k. hash_lookup ops k (CT (world c)) = None"
    and "priorityQueueNum (stats c) = 4" "\<And>i. buckets (stats c) i = (if i < 4 then Some [] else None)"
    and "maxEntry (stats c) < 2 ^ 31" "attr_ok (env_pipes env) (attr (world c))"
    and "timers (world c) = new_timer_mgr tsc (\<lambda>_. zero_timer)"
  shows "ct_inv env ops free c"
proof -
  have "tim_ok (timers (world c)) {}"
    using wheel_inv_init [of "\<lambda>_. zero_timer" tsc] by (simp add: tim_ok_def assms(7) zero_timer_def)
  moreover have "core_inv env ops free c {}"
    using assms(1-6) by (auto simp: core_inv_def conn_inv_def queue_def)
  ultimately show ?thesis by (auto simp: ct_inv_def)
qed

subsection \<open>A concrete core\<close>

definition demo_ct_pipe :: "u64 \<Rightarrow> FlowQoS_PIPE" where
  "demo_ct_pipe f = demo_pipe\<lparr>p_match_pattern := zero_match\<lparr>m_flags := f\<rparr>,
     p_action_pattern := zero_action\<lparr>a_flags := DMAC OR AGING\<rparr>\<rparr>"

definition demo_attr :: FlowQoS_CONN_ATTR where
  "demo_attr = attr_init\<lparr>TCP_PIPE := (\<lambda>_. 5), UDP_PIPE := (\<lambda>_. 6), ActionFlags := (\<lambda>_. DMAC OR AGING),
     PORT_CT_ENABLED := (\<lambda>_. 1), CPU_HZ := 1000000, ENABLE_FLOWQOS := True, MAX_OFFLOAD_SPEED := 10\<rparr>"

text \<open>A hash table that never fails, a pool that is a list of free contexts, and an application that
  accepts every connection for 50 seconds.\<close>

definition demo_ct_ops :: "(FlowQoS_MATCH \<rightharpoonup> nat, nat list, unit) ct_ops" where
  "demo_ct_ops = \<lparr>hash_add = (\<lambda>k v h. (0, h(k \<mapsto> v))), hash_lookup = (\<lambda>k h. h k), hash_del = (\<lambda>k h. (0, h(k := None))),
     pool_get = (\<lambda>p. case p of [] \<Rightarrow> (None, []) | x # xs \<Rightarrow> (Some x, removeAll x xs)), pool_put = (#),
     newConn_handler = Some (\<lambda>en a. (1, en\<lparr>e_expireTime := 50\<rparr>, a)), agingConn_handler = None\<rparr>"

definition demo_ct_env :: "(nat, (FlowQoS_MATCH \<rightharpoonup> nat, nat list, unit) ct_world) qos_env" where
  "demo_ct_env = \<lparr>env_doca = demo_doca,
     env_pipes = [5 \<mapsto> demo_ct_pipe (TCP_MatchFlags attr_init), 6 \<mapsto> demo_ct_pipe (UDP_MatchFlags attr_init)],
     getFlowQid = (\<lambda>cid. cid - 1), qosHandler = (\<lambda>h a es w. w), qosCongestionHandler = None, qosCongestionArgs = 0\<rparr>"

definition demo_ct_core :: "(nat, FlowQoS_MATCH \<rightharpoonup> nat, nat list, unit) ct_core" where
  "demo_ct_core = \<lparr>stats = zero_stats\<lparr>priorityQueueNum := 4, maxEntry := 10, maxEntryLimit := 10,
       buckets := (\<lambda>i. if i < 4 then Some [] else None)\<rparr>, ents = (\<lambda>_. zero_entry), doca = 0,
     world = \<lparr>attr = demo_attr, ctxs = (\<lambda>_. \<lparr>startTimeStmp = 0, lastResetTimerStmp = 0, pktCount = 0, ct_state = SW_FWD_STATE\<rparr>),
       timers = new_timer_mgr 0 (\<lambda>_. zero_timer), CT = Map.empty, POOL = Some [7, 8], CT_NUM = 0, app = ()\<rparr>\<rparr>"

definition demo_packet :: rte_mbuf where
  "demo_packet = \<lparr>mb_port = 0, mb_is_ipv4 = True, mb_rss = 1, mb_ol_flags = {}, eth_s_addr = replicate 6 1, eth_d_addr = replicate 6 2,
     ip_src_addr = 1, ip_dst_addr = 2, ip_next_proto_id = 6, ip_type_of_service = 0, ip_time_to_live = 64, ip_hdr_checksum = 5,
     l4_sport = 1000, l4_dport = 80, tcp_cksum = 6, udp_dgram_cksum = 7\<rparr>"

definition demo_clock :: ct_clock where
  "demo_clock = \<lparr>tsc_add = 1, tsc_tune = 2, tsc_check = 3, tsc_flush1 = 4, tsc_flush2 = 5\<rparr>"

lemma demo_laws: "conn_laws demo_ct_ops set"
  by (auto simp: conn_laws_def hash_laws_def pool_laws_def demo_ct_ops_def split: list.splits)

lemma demo_app: "conn_app (\<lambda>en a. (1, en\<lparr>e_expireTime := 50\<rparr>, a))"
  by unfold_locales (auto simp: flow_consts)

lemma demo_ct_inv: "ct_inv demo_ct_env demo_ct_ops set demo_ct_core"
proof (rule ct_inv_init)
  show "attr_ok (env_pipes demo_ct_env) (attr (world demo_ct_core))"
    by (simp add: attr_ok_def demo_ct_env_def demo_ct_core_def demo_attr_def attr_init_def demo_ct_pipe_def demo_pipe_def
        zero_match_def zero_action_def flow_consts)
qed (auto simp: demo_ct_core_def demo_ct_ops_def)

lemma demo_now: "now (timers (world demo_ct_core)) = 0"
  by (simp add: demo_ct_core_def new_timer_mgr_def)

section \<open>Properties\<close>

text \<open>
  C1: Connection tracking, over every sequence of packets, scheduler rounds, timer ticks and hardware
  aging reports. The next packet, round and tick is always handled without undefined behaviour, and
  in every reachable state of a core: the key under which the table holds a context is the match of
  its entry, so that it can be deleted again; a context in the table is not in the pool; a context
  has a running software timer exactly when it is in the table and not handled by hardware; it waits in
  a queue of the scheduler, once, exactly when it is in the table and handed to the scheduler.
\<close>

theorem conntrack_reachable:
  assumes laws: "conn_laws ops free" and app: "newConn_handler ops = Some h" "conn_app h"
    and reach: "(ct_step env ops ports)\<^sup>*\<^sup>* c0 c" and init: "ct_inv env ops free c0"
    and horizon: "now (timers (world c)) + C * C \<le> 2 ^ 64"
  shows "(\<exists>r. flowQoS_conntrack_packet_processor (ct_env env) ops cid clk m c = Some r) \<and>
         (\<exists>r. flowQoS_do_entry_event (ct_env env) cur cid c = Some r) \<and>
         (\<exists>r. ct_timer_task ops GAP tsc c = Some r) \<and>
         (\<exists>pool. POOL (world c) = Some pool \<and>
           (\<forall>k x. hash_lookup ops k (CT (world c)) = Some x \<longrightarrow> e_match (ents c x) = k \<and> x \<notin> free pool)) \<and>
         (\<forall>x. armed (timers (world c)) x \<noteq> None \<longleftrightarrow>
           (\<exists>k. hash_lookup ops k (CT (world c)) = Some x) \<and> ct_state (ctxs (world c) x) \<noteq> HW_FWD_STATE) \<and>
         (\<forall>x. (\<exists>k. hash_lookup ops k (CT (world c)) = Some x) \<and> ct_state (ctxs (world c) x) = FLOW_QOS_STATE \<longleftrightarrow>
           (\<exists>i < 4. x \<in> set (queue (stats c) i) \<and> distinct (queue (stats c) i)))"
proof -
  have inv: "ct_inv env ops free c" by (rule ct_reachable_inv [OF laws app reach init])
  from inv obtain A pool where p: "POOL (world c) = Some pool"
    "conn_inv (env_pipes env) (ENABLE_FLOWQOS (attr (world c))) (table ops c) (free pool) (ents c) (states c) A (queue (stats c))"
    "tim_ok (timers (world c)) A" by (rule ct_invE)
  have tracked: "x \<in> ran (table ops c) \<longleftrightarrow> (\<exists>k. hash_lookup ops k (CT (world c)) = Some x)" for x by (auto simp: ran_def)
  have q: "(\<exists>k. hash_lookup ops k (CT (world c)) = Some x) \<and> ct_state (ctxs (world c) x) = FLOW_QOS_STATE \<longleftrightarrow>
           (\<exists>i < 4. x \<in> set (queue (stats c) i) \<and> distinct (queue (stats c) i))" for x
  proof
    assume a: "(\<exists>k. hash_lookup ops k (CT (world c)) = Some x) \<and> ct_state (ctxs (world c) x) = FLOW_QOS_STATE"
    then have "x \<in> ran (table ops c)" "states c x = FLOW_QOS_STATE" using tracked by auto
    from conn_expire_queued(1,2) [OF p(2) this] show "\<exists>i < 4. x \<in> set (queue (stats c) i) \<and> distinct (queue (stats c) i)"
      using conn_inv_queue [OF p(2)] by blast
  next
    assume "\<exists>i < 4. x \<in> set (queue (stats c) i) \<and> distinct (queue (stats c) i)"
    then show "(\<exists>k. hash_lookup ops k (CT (world c)) = Some x) \<and> ct_state (ctxs (world c) x) = FLOW_QOS_STATE"
      using conn_inv_queue [OF p(2)] tracked by blast
  qed
  have arm: "armed (timers (world c)) x \<noteq> None \<longleftrightarrow> x \<in> ran (table ops c) \<and> states c x \<noteq> HW_FWD_STATE" for x
    using p(2,3) unfolding tim_ok_def conn_inv_def by blast
  have key: "hash_lookup ops k (CT (world c)) = Some x \<longrightarrow> e_match (ents c x) = k \<and> x \<notin> free pool" for k x
    using p(2) unfolding conn_inv_def by blast
  show ?thesis
    using conn_app.packet_inv [OF app(2) laws inv horizon app(1), of cid clk m] qos_round_inv [OF inv, of cur cid]
      timer_task_inv [OF laws inv horizon, of GAP tsc] p(1) key arm q tracked by blast
qed

lemma conntrack_reachable_witness:
  "(\<exists>r. flowQoS_conntrack_packet_processor (ct_env demo_ct_env) demo_ct_ops 1 demo_clock demo_packet demo_ct_core = Some r) \<and>
   (\<exists>r. flowQoS_do_entry_event (ct_env demo_ct_env) 1 1 demo_ct_core = Some r) \<and>
   armed (timers (world demo_ct_core)) 7 = None"
proof -
  have h: "newConn_handler demo_ct_ops = Some (\<lambda>en a. (1, en\<lparr>e_expireTime := 50\<rparr>, a))" by (simp add: demo_ct_ops_def)
  have hor: "now (timers (world demo_ct_core)) + C * C \<le> 2 ^ 64" unfolding demo_now by (simp add: flow_consts)
  have "hash_lookup demo_ct_ops k (CT (world demo_ct_core)) = None" for k by (simp add: demo_ct_ops_def demo_ct_core_def)
  with conntrack_reachable [OF demo_laws h demo_app rtranclp.rtrancl_refl demo_ct_inv hor] show ?thesis by fastforce
qed

text \<open>
  C14: Expiry in software. When the timer task runs a tick, exactly the connections whose timers are
  due at this tick leave the table, all others stay, and the clock advances by one; before the tick is
  due nothing changes. The invariant of the core is kept, so the contexts of the expired connections
  are neither timed nor queued any more.
\<close>

theorem conntrack_sw_expiry:
  assumes "conn_laws ops free" and "ct_inv env ops free c" and "now (timers (world c)) + C * C \<le> 2 ^ 64"
  shows "\<exists>n c'. ct_timer_task ops GAP tsc c = Some (n, c') \<and> ct_inv env ops free c' \<and>
     (if mgr_startStmp (timers (world c)) + mgr_timeout (timers (world c)) * GAP < tsc
      then (\<forall>k x. hash_lookup ops k (CT (world c')) = Some x \<longleftrightarrow>
              hash_lookup ops k (CT (world c)) = Some x \<and> armed (timers (world c)) x \<noteq> Some (now (timers (world c)))) \<and>
           now (timers (world c')) = Suc (now (timers (world c)))
      else c' = c)"
proof -
  obtain n c' where t: "ct_timer_task ops GAP tsc c = Some (n, c')" "ct_inv env ops free c'"
    "if mgr_startStmp (timers (world c)) + mgr_timeout (timers (world c)) * GAP < tsc
      then table ops c' = forget {x. armed (timers (world c)) x = Some (now (timers (world c)))} (table ops c) \<and>
           now (timers (world c')) = Suc (now (timers (world c)))
      else c' = c"
    using timer_task_exact [OF assms, of GAP tsc] by blast
  have "hash_lookup ops k (CT (world c')) = Some x \<longleftrightarrow>
      hash_lookup ops k (CT (world c)) = Some x \<and> armed (timers (world c)) x \<noteq> Some (now (timers (world c)))"
    if "table ops c' = forget {x. armed (timers (world c)) x = Some (now (timers (world c)))} (table ops c)" for k x
    using fun_cong [OF that, of k] by (auto simp: forget_def split: option.splits if_splits)
  with t show ?thesis by (auto split: if_splits)
qed

lemma conntrack_sw_expiry_witness:
  "\<exists>n c'. ct_timer_task demo_ct_ops 1000 5 demo_ct_core = Some (n, c') \<and> now (timers (world c')) = 1"
proof -
  have hor: "now (timers (world demo_ct_core)) + C * C \<le> 2 ^ 64" unfolding demo_now by (simp add: flow_consts)
  have "mgr_startStmp (timers (world demo_ct_core)) + mgr_timeout (timers (world demo_ct_core)) * 1000 < (5 :: u64)"
    by (simp add: demo_ct_core_def new_timer_mgr_def)
  then show ?thesis using conntrack_sw_expiry [OF demo_laws demo_ct_inv hor, of 1000 5] demo_now by auto
qed

section \<open>The filter\<close>

definition filter_ok :: "FlowQoS_CONN_ATTR \<Rightarrow> bool" where
  "filter_ok at \<longleftrightarrow> CONN_OFFLOAD_TIME_MIN at \<le> CONN_OFFLOAD_TIME at \<and> CONN_OFFLOAD_TIME at \<le> CONN_OFFLOAD_TIME_MAX at"

text \<open>The thresholds are small enough for the additions of the tuning not to wrap around.\<close>

definition filter_small :: "FlowQoS_CONN_ATTR \<Rightarrow> bool" where
  "filter_small at \<longleftrightarrow> unat (CONN_OFFLOAD_TIME_MAX at) < 2 ^ 63 \<and> unat (CONN_OFFLOAD_TIME_DELTA at) < 2 ^ 63"

lemma tune_time:
  assumes "filter_ok at" and "filter_small at" and "flowQoS_filter_runtime_tune tsc at = Some at'"
  shows "filter_ok at' \<and> CONN_OFFLOAD_TIME_MIN at' = CONN_OFFLOAD_TIME_MIN at \<and> CONN_OFFLOAD_TIME_MAX at' = CONN_OFFLOAD_TIME_MAX at"
proof -
  let ?t = "CONN_OFFLOAD_TIME at" and ?d = "CONN_OFFLOAD_TIME_DELTA at"
  have le: "unat (CONN_OFFLOAD_TIME_MIN at) \<le> unat ?t" "unat ?t \<le> unat (CONN_OFFLOAD_TIME_MAX at)"
    using assms(1) by (simp_all add: filter_ok_def word_le_nat_alt)
  have small: "unat (CONN_OFFLOAD_TIME_MAX at) < 2 ^ 63" "unat ?d < 2 ^ 63" using assms(2) by (simp_all add: filter_small_def)
  have sum: "unat (?t + ?d) = unat ?t + unat ?d" "unat (CONN_OFFLOAD_TIME_MIN at + ?d) = unat (CONN_OFFLOAD_TIME_MIN at) + unat ?d"
    using le small by (simp_all add: unat_plus_exact)
  have up: "CONN_OFFLOAD_TIME_MIN at \<le> ?t + ?d" using le sum by (simp add: word_le_nat_alt)
  have mm: "CONN_OFFLOAD_TIME_MIN at \<le> CONN_OFFLOAD_TIME_MAX at" using assms(1) by (auto simp: filter_ok_def)
  have down: "CONN_OFFLOAD_TIME_MIN at \<le> ?t - ?d \<and> ?t - ?d \<le> CONN_OFFLOAD_TIME_MAX at" if "CONN_OFFLOAD_TIME_MIN at + ?d < ?t"
  proof -
    have lt: "unat (CONN_OFFLOAD_TIME_MIN at) + unat ?d < unat ?t" using that sum(2) by (simp add: word_less_nat_alt)
    then have "unat (?t - ?d) = unat ?t - unat ?d" by (intro unat_minus_exact) (simp add: word_le_nat_alt)
    then show ?thesis using lt le unfolding word_le_nat_alt by arith
  qed
  show ?thesis using assms(1,3) up down mm
    by (auto simp: flowQoS_filter_runtime_tune_def filter_ok_def Let_def split: if_splits)
qed

text \<open>
  C30: The time threshold of the ConnSched filter stays between its bounds: after initialisation, under
  the runtime tuning, under the congestion callback and under \<open>flowQoS_conntrack_tune_filter\<close> with
  any arguments. Tuning and congestion never change the bounds. The congestion callback never lowers the
  threshold, but a threshold of 0 stays 0: doubling does not make the filter any more selective.
\<close>

theorem filter_threshold_bounded:
  assumes ok: "filter_ok at" and small: "filter_small at"
  shows "(flowQoS_filter_runtime_tune tsc at = Some at' \<longrightarrow> filter_ok at' \<and>
            CONN_OFFLOAD_TIME_MIN at' = CONN_OFFLOAD_TIME_MIN at \<and> CONN_OFFLOAD_TIME_MAX at' = CONN_OFFLOAD_TIME_MAX at) \<and>
         filter_ok (flowQoS_filter_congestion_cb at) \<and>
         CONN_OFFLOAD_TIME at \<le> CONN_OFFLOAD_TIME (flowQoS_filter_congestion_cb at) \<and>
         (CONN_OFFLOAD_TIME at = 0 \<longrightarrow> flowQoS_filter_congestion_cb at = at) \<and>
         filter_ok (snd (flowQoS_conntrack_tune_filter t p d v at)) \<and>
         filter_ok (ct_init_attr hz tsc mc mo ot os at)"
proof -
  let ?t = "CONN_OFFLOAD_TIME at"
  have le: "unat (CONN_OFFLOAD_TIME_MIN at) \<le> unat ?t" "unat ?t \<le> unat (CONN_OFFLOAD_TIME_MAX at)"
    "unat (CONN_OFFLOAD_TIME_MAX at) < 2 ^ 63"
    using ok small by (simp_all add: filter_ok_def filter_small_def word_le_nat_alt)
  have dbl: "unat (?t * 2) = unat ?t * 2" using le by (simp add: unat_word_ariths)
  then have up: "?t \<le> ?t * 2" "CONN_OFFLOAD_TIME_MIN at \<le> ?t * 2" using le by (simp_all add: word_le_nat_alt)
  have mm: "CONN_OFFLOAD_TIME_MIN at \<le> CONN_OFFLOAD_TIME_MAX at" "?t \<le> CONN_OFFLOAD_TIME_MAX at"
    using ok by (auto simp: filter_ok_def)
  have "filter_ok (flowQoS_filter_congestion_cb at) \<and> ?t \<le> CONN_OFFLOAD_TIME (flowQoS_filter_congestion_cb at)"
    using ok up mm by (auto simp: flowQoS_filter_congestion_cb_def filter_ok_def Let_def)
  moreover have "?t = 0 \<longrightarrow> flowQoS_filter_congestion_cb at = at"
    by (auto simp: flowQoS_filter_congestion_cb_def Let_def)
  moreover have "filter_ok (snd (flowQoS_conntrack_tune_filter t p d v at))"
    using ok by (auto simp: flowQoS_conntrack_tune_filter_def filter_ok_def Let_def)
  moreover have "filter_ok (ct_init_attr hz tsc mc mo ot os at)"
    by (auto simp: ct_init_attr_def filter_ok_def Let_def)
  ultimately show ?thesis using tune_time [OF ok small] by blast
qed

lemma filter_threshold_bounded_witness:
  "filter_ok (flowQoS_filter_congestion_cb (demo_attr\<lparr>CONN_OFFLOAD_TIME := 300, CONN_OFFLOAD_TIME_MAX := 500\<rparr>)) \<and>
   flowQoS_filter_congestion_cb demo_attr = demo_attr"
  using filter_threshold_bounded [of "demo_attr\<lparr>CONN_OFFLOAD_TIME := 300, CONN_OFFLOAD_TIME_MAX := 500\<rparr>"]
    filter_threshold_bounded [of demo_attr]
  by (simp add: filter_ok_def filter_small_def demo_attr_def attr_init_def)

section \<open>Packets\<close>

lemmas mbuf_fields = guarded_field [of eth_s_addr] guarded_field [of eth_d_addr] guarded_field [of ip_src_addr]
  guarded_field [of ip_dst_addr] guarded_field [of ip_time_to_live] guarded_field [of ip_hdr_checksum]
  guarded_field [of l4_sport] guarded_field [of l4_dport] guarded_field [of tcp_cksum] guarded_field [of udp_dgram_cksum]
  guarded_field [of mb_ol_flags] guarded_field [of mb_port] guarded_field [of ip_next_proto_id]

text \<open>
  C29: The rewriting of a packet by \<open>flowQoS_packet_modifyer\<close>. Each header field is replaced exactly when
  its flag is set and kept otherwise; the IPv4 checksum is cleared and requested from the hardware exactly
  when an address or the TTL was touched, the TCP or UDP checksum exactly when a port was touched. A
  rewritten address without a rewritten port therefore leaves the TCP and UDP checksums, which cover the
  addresses, as they were.
\<close>

theorem packet_rewritten:
  shows "let m' = fst (flowQoS_packet_modifyer t1 t2 m x c); a = e_action (ents c x); f = a_flags a;
             proto = m_proto (e_match (ents c x)) in
         eth_s_addr m' = (if has f SMAC then a_src_mac a else eth_s_addr m) \<and>
         eth_d_addr m' = (if has f DMAC then a_dst_mac a else eth_d_addr m) \<and>
         ip_src_addr m' = (if has f SIP then a_src_ip a else ip_src_addr m) \<and>
         ip_dst_addr m' = (if has f DIP then a_dst_ip a else ip_dst_addr m) \<and>
         ip_time_to_live m' = (if has f TTL_DECREASE then ip_time_to_live m - 1 else ip_time_to_live m) \<and>
         l4_sport m' = (if has f SPORT then a_src_port a else l4_sport m) \<and>
         l4_dport m' = (if has f DPORT then a_dst_port a else l4_dport m) \<and>
         ip_hdr_checksum m' = (if has f SIP \<or> has f DIP \<or> has f TTL_DECREASE then 0 else ip_hdr_checksum m) \<and>
         tcp_cksum m' = (if (has f SPORT \<or> has f DPORT) \<and> proto = L4_TCP then 0 else tcp_cksum m) \<and>
         udp_dgram_cksum m' = (if (has f SPORT \<or> has f DPORT) \<and> proto = L4_UDP then 0 else udp_dgram_cksum m) \<and>
         mb_ol_flags m' = mb_ol_flags m \<union>
           (if has f SIP \<or> has f DIP \<or> has f TTL_DECREASE then {PKT_TX_IPV4, PKT_TX_IP_CKSUM} else {}) \<union>
           (if has f SPORT \<or> has f DPORT then
              (if proto = L4_TCP then {PKT_TX_TCP_CKSUM} else if proto = L4_UDP then {PKT_TX_UDP_CKSUM} else {}) else {})"
proof -
  have p: "L4_TCP \<noteq> L4_UDP" by (simp add: flow_consts)
  define a f proto where defs: "a = e_action (ents c x)" "f = a_flags a" "proto = m_proto (e_match (ents c x))"
  have m': "fst (flowQoS_packet_modifyer t1 t2 m x c) = modify_headers a proto m"
    by (simp add: flowQoS_packet_modifyer_def defs Let_def)
  show ?thesis unfolding Let_def m' defs(1) [symmetric] defs(3) [symmetric] defs(2) [symmetric]
    unfolding modify_headers_def Let_def defs(2) [symmetric] using p
    by (intro conjI; simp add: mbuf_fields)
qed

lemma packet_rewritten_witness:
  "let c = demo_ct_core\<lparr>ents := (\<lambda>_. zero_entry\<lparr>e_action := zero_action\<lparr>a_flags := DMAC OR SPORT, a_dst_mac := replicate 6 9, a_src_port := 99\<rparr>\<rparr>)\<rparr>;
       m' = fst (flowQoS_packet_modifyer 0 0 demo_packet 7 c) in
     eth_d_addr m' = replicate 6 9 \<and> l4_sport m' = 99 \<and> ip_src_addr m' = 1 \<and> ip_hdr_checksum m' = 5"
proof -
  define a where "a = zero_action\<lparr>a_flags := DMAC OR SPORT, a_dst_mac := replicate 6 9, a_src_port := 99\<rparr>"
  define c where "c = demo_ct_core\<lparr>ents := (\<lambda>_. zero_entry\<lparr>e_action := a\<rparr>)\<rparr>"
  have ent: "e_action (ents c 7) = a" by (simp add: c_def)
  have f: "has (a_flags a) DMAC" "has (a_flags a) SPORT" "\<not> has (a_flags a) SIP" "\<not> has (a_flags a) DIP" "\<not> has (a_flags a) TTL_DECREASE"
    by (simp_all add: a_def flow_consts)
  have r: "a_dst_mac a = replicate 6 9" "a_src_port a = 99" "ip_src_addr demo_packet = 1" "ip_hdr_checksum demo_packet = 5"
    by (simp_all add: a_def demo_packet_def)
  from packet_rewritten [of 0 0 demo_packet 7 c] f r show ?thesis
    unfolding c_def [symmetric] a_def [symmetric] Let_def ent by simp
qed

text \<open>
  The test of the AGING flag by exclusive or, as \<open>flowQoS_addConnToHash\<close> makes it, holds for all flags
  but AGING alone. So a connection whose only action is aging gets no software timer and never expires in
  software, while one whose flags do not contain AGING at all does get a timer and expires.
\<close>

theorem aging_flag_test:
  assumes "POOL (world c) = Some pool" "pool_get ops pool = (Some x, pool')"
    and "hash_add ops (e_match en) x (CT (world c)) = (ret, ct')" "0 \<le> ret"
  shows "let c' = snd (flowQoS_addConnToHash ops tsc en c); t = (if e_expireTime en = 0 then 10 else e_expireTime en) * 1000 in
         (a_flags (e_action en) = AGING \<longrightarrow> timers (world c') = timers (world c) \<and> ents c' x = en) \<and>
         (a_flags (e_action en) \<noteq> AGING \<longrightarrow>
            timers (world c') = snd (flowQoS_timer_add (timers (world c)) (TTimer x) (Some expire_sw_cb) x t)) \<and>
         (a_flags (e_action en) AND AGING = 0 \<longrightarrow> a_flags (e_action en) XOR AGING \<noteq> 0)"
proof -
  have nz: "AGING AND AGING \<noteq> 0" by (simp add: flow_consts)
  show ?thesis using assms nz
    by (auto simp: flowQoS_addConnToHash_def xor_zero_iff Let_def)
qed

lemma aging_flag_test_witness:
  "timers (world (snd (flowQoS_addConnToHash demo_ct_ops 1 (zero_entry\<lparr>e_action := zero_action\<lparr>a_flags := AGING\<rparr>\<rparr>) demo_ct_core))) =
   timers (world demo_ct_core)"
proof -
  let ?en = "zero_entry\<lparr>e_action := zero_action\<lparr>a_flags := AGING\<rparr>\<rparr>"
  have "POOL (world demo_ct_core) = Some [7, 8]" "pool_get demo_ct_ops [7, 8] = (Some 7, [8])"
    "hash_add demo_ct_ops (e_match ?en) 7 (CT (world demo_ct_core)) = (0, (CT (world demo_ct_core))(e_match ?en \<mapsto> 7))" "(0 :: int) \<le> 0"
    by (simp_all add: demo_ct_core_def demo_ct_ops_def)
  from aging_flag_test [OF this, of 1] show ?thesis by (simp add: Let_def)
qed

text \<open>
  What becomes of a packet. Packets of a port without connection tracking and packets that are not
  TCP or UDP over IPv4 are ignored and nothing changes; a packet of an unknown connection is dropped when no
  application is registered or the application refuses it; a packet of a known connection is counted
  and leaves by the other port of its connection's pipe.
\<close>

theorem packet_verdicts:
  shows "(PORT_CT_ENABLED (attr (world c)) (mb_port m) = 0 \<or> \<not> mb_is_ipv4 m \<or>
            ip_next_proto_id m \<noteq> L4_TCP \<and> ip_next_proto_id m \<noteq> L4_UDP \<longrightarrow>
          flowQoS_conntrack_packet_processor env ops cid clk m c = Some (IGNORE_PACKETS, m, c)) \<and>
         (PORT_CT_ENABLED (attr (world c)) (mb_port m) \<noteq> 0 \<and> fst (flowQoS_packet_parser (attr (world c)) m zero_entry) \<and>
          hash_lookup ops (e_match (snd (flowQoS_packet_parser (attr (world c)) m zero_entry))) (CT (world c)) = None \<longrightarrow>
            (newConn_handler ops = None \<longrightarrow>
               flowQoS_conntrack_packet_processor env ops cid clk m c = Some (DROP_PACKETS, m, c)) \<and>
            (\<forall>h port en a. newConn_handler ops = Some h \<and>
                h (snd (flowQoS_packet_parser (attr (world c)) m zero_entry)) (app (world c)) = (port, en, a) \<and> port < 0 \<longrightarrow>
               flowQoS_conntrack_packet_processor env ops cid clk m c = Some (DROP_PACKETS, m, upd_world (\<lambda>w. w\<lparr>app := a\<rparr>) c))) \<and>
         (PORT_CT_ENABLED (attr (world c)) (mb_port m) \<noteq> 0 \<and> fst (flowQoS_packet_parser (attr (world c)) m zero_entry) \<and>
          hash_lookup ops (e_match (snd (flowQoS_packet_parser (attr (world c)) m zero_entry))) (CT (world c)) = Some x \<and>
          flowQoS_conntrack_packet_processor env ops cid clk m c = Some (r, m', c') \<longrightarrow>
            pktCount (ctxs (world c') x) = pktCount (ctxs (world c) x) + 1 \<and>
            (\<exists>pipe. env_pipes env (e_pipe (ents c' x)) = Some pipe \<and> r = int (p_port_id pipe XOR 1)))"
proof (intro conjI)
  have l4: "fst (flowQoS_packet_parser at m en) \<longleftrightarrow>
      mb_is_ipv4 m \<and> (ip_next_proto_id m = L4_TCP \<or> ip_next_proto_id m = L4_UDP)" for at en
    by (simp add: flowQoS_packet_parser_def Let_def)
  show "PORT_CT_ENABLED (attr (world c)) (mb_port m) = 0 \<or> \<not> mb_is_ipv4 m \<or>
            ip_next_proto_id m \<noteq> L4_TCP \<and> ip_next_proto_id m \<noteq> L4_UDP \<longrightarrow>
          flowQoS_conntrack_packet_processor env ops cid clk m c = Some (IGNORE_PACKETS, m, c)"
    using l4 [of "attr (world c)" zero_entry]
    by (auto simp: flowQoS_conntrack_packet_processor_def split: prod.splits)
next
  show "PORT_CT_ENABLED (attr (world c)) (mb_port m) \<noteq> 0 \<and> fst (flowQoS_packet_parser (attr (world c)) m zero_entry) \<and>
          hash_lookup ops (e_match (snd (flowQoS_packet_parser (attr (world c)) m zero_entry))) (CT (world c)) = None \<longrightarrow>
            (newConn_handler ops = None \<longrightarrow>
               flowQoS_conntrack_packet_processor env ops cid clk m c = Some (DROP_PACKETS, m, c)) \<and>
            (\<forall>h port en a. newConn_handler ops = Some h \<and>
                h (snd (flowQoS_packet_parser (attr (world c)) m zero_entry)) (app (world c)) = (port, en, a) \<and> port < 0 \<longrightarrow>
               flowQoS_conntrack_packet_processor env ops cid clk m c = Some (DROP_PACKETS, m, upd_world (\<lambda>w. w\<lparr>app := a\<rparr>) c))"
    by (auto simp: flowQoS_conntrack_packet_processor_def flowQoS_findConnFromHash_def split: prod.splits)
next
  have off: "pktCount (ctxs (world d') x) = pktCount (ctxs (world d) x)"
    if "flowQoS_offload_conn env cid a b x d = Some (k, d')" for a b d k d'
    using that
    by (auto simp: flowQoS_offload_conn_def flowQoS_add_entry_event_def Let_def
        split: option.splits prod.splits if_splits)
  have fwd: "pktCount (ctxs (world c') x) = pktCount (ctxs (world c) x) + 1 \<and>
            (\<exists>pipe. env_pipes env (e_pipe (ents c' x)) = Some pipe \<and> r = int (p_port_id pipe XOR 1))"
    if "forward_packet env cid clk m x c = Some (r, m', c')"
    using that
    by (auto simp: forward_packet_def flowQoS_packet_modifyer_def Let_def split: option.splits prod.splits if_splits dest!: off)
  show "PORT_CT_ENABLED (attr (world c)) (mb_port m) \<noteq> 0 \<and> fst (flowQoS_packet_parser (attr (world c)) m zero_entry) \<and>
          hash_lookup ops (e_match (snd (flowQoS_packet_parser (attr (world c)) m zero_entry))) (CT (world c)) = Some x \<and>
          flowQoS_conntrack_packet_processor env ops cid clk m c = Some (r, m', c') \<longrightarrow>
            pktCount (ctxs (world c') x) = pktCount (ctxs (world c) x) + 1 \<and>
            (\<exists>pipe. env_pipes env (e_pipe (ents c' x)) = Some pipe \<and> r = int (p_port_id pipe XOR 1))"
    using fwd by (auto simp: flowQoS_conntrack_packet_processor_def flowQoS_findConnFromHash_def split: prod.splits)
qed

lemma packet_verdicts_witness:
  "flowQoS_conntrack_packet_processor (ct_env demo_ct_env) demo_ct_ops 1 demo_clock (demo_packet\<lparr>ip_next_proto_id := 1\<rparr>) demo_ct_core =
     Some (-2, demo_packet\<lparr>ip_next_proto_id := 1\<rparr>, demo_ct_core)"
  using packet_verdicts [of demo_ct_core "demo_packet\<lparr>ip_next_proto_id := 1\<rparr>" "ct_env demo_ct_env" demo_ct_ops 1 demo_clock]
  by (simp add: flow_consts)

section \<open>Set-up\<close>

text \<open>
  \<open>flowQoS_conntrack_init_port\<close> never returns a negative number, so the tests \<open>< 0\<close> of its callers never
  notice a failure; the port is enabled exactly when it returns 1. When the RSS pipe cannot be created the
  function does not return 0: it first adds an entry to the null pipe.
\<close>

theorem init_port_results:
  shows "(flowQoS_conntrack_init_port ops ports n addr port mx fl (at, pipes, cs, d) = Some (r, at', pipes', cs', d') \<longrightarrow>
            (r = 0 \<or> r = 1) \<and> (r = 1 \<longrightarrow> PORT_CT_ENABLED at' port = 1 \<and> ActionFlags at' port = fl \<and> TCP_PIPE at' port \<noteq> 0 \<and>
               UDP_PIPE at' port \<noteq> 0 \<and> RSS_PIPE at' port \<noteq> 0) \<and>
            (r = 0 \<longrightarrow> PORT_CT_ENABLED at' port = PORT_CT_ENABLED at port)) \<and>
         (addr 0 = 0 \<and> pipes 0 = None \<longrightarrow> flowQoS_conntrack_init_port ops ports n addr port mx fl (at, pipes, cs, d) = None)"
proof (intro conjI impI)
  assume a: "flowQoS_conntrack_init_port ops ports n addr port mx fl (at, pipes, cs, d) = Some (r, at', pipes', cs', d')"
  show "r = 0 \<or> r = 1"
    "r = 1 \<Longrightarrow> PORT_CT_ENABLED at' port = 1" "r = 1 \<Longrightarrow> ActionFlags at' port = fl" "r = 1 \<Longrightarrow> TCP_PIPE at' port \<noteq> 0"
    "r = 1 \<Longrightarrow> UDP_PIPE at' port \<noteq> 0" "r = 1 \<Longrightarrow> RSS_PIPE at' port \<noteq> 0"
    "r = 0 \<Longrightarrow> PORT_CT_ENABLED at' port = PORT_CT_ENABLED at port"
    using a by (auto simp: flowQoS_conntrack_init_port_def Let_def split: option.splits prod.splits if_splits)
next
  assume "addr 0 = 0 \<and> pipes 0 = None"
  then show "flowQoS_conntrack_init_port ops ports n addr port mx fl (at, pipes, cs, d) = None"
    by (simp add: flowQoS_conntrack_init_port_def flowQoS_build_pipe_def flowQoS_add_entry_def Let_def)
qed

lemma init_port_results_witness:
  "flowQoS_conntrack_init_port demo_doca (\<lambda>_. 1) 3 (\<lambda>_. 0) 0 10 DMAC (attr_init, Map.empty, cmd_init, 0) = None"
  using init_port_results [of demo_doca "\<lambda>_. 1" 3 "\<lambda>_. 0" 0 10 DMAC attr_init Map.empty cmd_init 0] by simp

lemma conntrackL_copy_spec:
  assumes "i + length ct \<le> MAX_CT_STATS \<or> i < MAX_CT_STATS" and "length arr = MAX_CT_STATS" and "i < MAX_CT_STATS"
  shows "conntrackL_copy es ct i arr =
     take i arr @ map (es \<circ> snd) (take (MAX_CT_STATS - i) ct) @ drop (i + length (take (MAX_CT_STATS - i) ct)) arr"
  using assms(2,3)
proof (induction es ct i arr rule: conntrackL_copy.induct)
  case (2 es k ctx ct i arr)
  obtain n where n: "MAX_CT_STATS - i = Suc n" using "2.prems"(2) by (metis Suc_diff_Suc)
  have split: "arr[i := es ctx] = take i arr @ es ctx # drop (Suc i) arr" using "2.prems" by (simp add: upd_conv_take_nth_drop)
  have t: "take (Suc i) (arr[i := es ctx]) = take i arr @ [es ctx]" "drop (Suc i + m) (arr[i := es ctx]) = drop (Suc i + m) arr" for m
    using "2.prems" by (simp_all add: take_Suc_conv_app_nth)
  show ?case
  proof (cases "i + 1 = MAX_CT_STATS")
    case True
    then have "n = 0" using n by simp
    then show ?thesis using True n split by simp
  next
    case False
    then have "i + 1 < MAX_CT_STATS" "MAX_CT_STATS - (i + 1) = n" using "2.prems" n by auto
    with "2.IH" [OF refl refl False] "2.prems" False n t show ?thesis by simp
  qed
qed simp

text \<open>
  The listing of connections. A worker copies the first entries of its table into the array of 50
  entries and never writes past it; the main core prints as many entries as the table holds, at most 50,
  and these are the copied ones in order.
\<close>

theorem conntrack_listing:
  assumes "length (cts_entry s) = MAX_CT_STATS"
  shows "cts_count (conntrackL_slave es ct s) = length ct \<and> length (cts_entry (conntrackL_slave es ct s)) = MAX_CT_STATS \<and>
         conntrackL_master pipes (conntrackL_slave es ct s) =
           map (\<lambda>(k, ctx). Option.bind (dumpFlowQoSEntry pipes (es ctx)) printFlowQoSEntryToCmdline) (take MAX_CT_STATS ct)"
proof -
  have z: "0 < MAX_CT_STATS" by (simp add: flow_consts)
  have copy: "conntrackL_copy es ct 0 (cts_entry s) =
      map (es \<circ> snd) (take MAX_CT_STATS ct) @ drop (length (take MAX_CT_STATS ct)) (cts_entry s)"
    using conntrackL_copy_spec [of 0 ct "cts_entry s" es] assms z by simp
  have nth: "conntrackL_copy es ct 0 (cts_entry s) ! i = es (snd (take MAX_CT_STATS ct ! i))" if "i < min (length ct) MAX_CT_STATS" for i
    using that unfolding copy by (simp add: nth_append)
  have "map (\<lambda>i. Option.bind (dumpFlowQoSEntry pipes (conntrackL_copy es ct 0 (cts_entry s) ! i)) printFlowQoSEntryToCmdline)
      [0..<min (length ct) MAX_CT_STATS] =
      map (\<lambda>(k, ctx). Option.bind (dumpFlowQoSEntry pipes (es ctx)) printFlowQoSEntryToCmdline) (take MAX_CT_STATS ct)"
    by (rule nth_equalityI) (auto simp: nth split: prod.splits)
  moreover have "length (conntrackL_copy es ct 0 (cts_entry s)) = MAX_CT_STATS" unfolding copy using assms by simp
  ultimately show ?thesis by (simp add: conntrackL_slave_def conntrackL_master_def)
qed

lemma conntrack_listing_witness:
  "cts_count (conntrackL_slave (\<lambda>_. zero_entry) (replicate 60 (zero_match, 1)) \<lparr>cts_count = 0, cts_entry = replicate MAX_CT_STATS zero_entry\<rparr>) = 60 \<and>
   length (conntrackL_master Map.empty (conntrackL_slave (\<lambda>_. zero_entry) (replicate 60 (zero_match, 1))
     \<lparr>cts_count = 0, cts_entry = replicate MAX_CT_STATS zero_entry\<rparr>)) = 50"
  using conntrack_listing [of "\<lparr>cts_count = 0, cts_entry = replicate MAX_CT_STATS zero_entry\<rparr>" "\<lambda>_. zero_entry" "replicate 60 (zero_match, 1)" Map.empty]
  by (simp add: flow_consts)

end
