(* ===== verification/Worker_Props.thy ===== *)
theory Worker_Props
  imports Worker
begin

text \<open>
  Properties of the worker cores: the transmit buffers never overflow, no packet is lost or freed twice
  on core 0, what happens on the other cores when the device does not accept every packet, and the
  bounds of the task arrays.
\<close>

section \<open>Buffers\<close>

definition buf_ok :: "QueuesBuf \<Rightarrow> bool" where
  "buf_ok b \<longleftrightarrow> length (tx_burst b) = MAX_PKT_BURST \<and> tx_len b \<le> MAX_PKT_BURST \<and> 0 \<notin> set (take (tx_len b) (tx_burst b))"

definition conf_ok :: "('d, 's) worker_state \<Rightarrow> nat \<Rightarrow> bool" where
  "conf_ok s cid \<longleftrightarrow> port_num (lcore_conf s cid) = MAX_ETHPORTS \<and> (\<forall>p. buf_ok (buf s cid p))"

definition waiting :: "QueuesBuf \<Rightarrow> nat multiset" where
  "waiting b = mset (take (tx_len b) (tx_burst b))"

definition held :: "('d, 's) worker_state \<Rightarrow> nat \<Rightarrow> nat multiset" where
  "held s cid = waiting (buf s cid 0) + waiting (buf s cid 1)"

text \<open>
  What the device promises, with \<open>rcvd\<close> and \<open>sent\<close> the packets it delivered and accepted so far: a burst
  delivers at most the number asked for and no null, and transmits a prefix of what it is given.
\<close>

definition eth_laws :: "'d eth_ops \<Rightarrow> ('d \<Rightarrow> nat multiset) \<Rightarrow> ('d \<Rightarrow> nat multiset) \<Rightarrow> bool" where
  "eth_laws ops rcvd sent \<longleftrightarrow>
     (\<forall>p q n d ms d'. rte_eth_rx_burst ops p q n d = (ms, d') \<longrightarrow>
        length ms \<le> n \<and> 0 \<notin> set ms \<and> rcvd d' = rcvd d + mset ms \<and> sent d' = sent d) \<and>
     (\<forall>p q ms d k d'. rte_eth_tx_burst ops p q ms d = (k, d') \<longrightarrow>
        k \<le> length ms \<and> rcvd d' = rcvd d \<and> sent d' = sent d + mset (take k ms))"

lemma eth_txD:
  assumes "eth_laws ops rcvd sent" and "rte_eth_tx_burst ops p q ms d = (k, d')"
  shows "k \<le> length ms" "rcvd d' = rcvd d" "sent d' = sent d + mset (take k ms)"
  using assms by (auto simp: eth_laws_def)

definition tx_accepts_all :: "'d eth_ops \<Rightarrow> bool" where
  "tx_accepts_all ops \<longleftrightarrow> (\<forall>p q ms d. fst (rte_eth_tx_burst ops p q ms d) = length ms)"

text \<open>The verdicts a packet task may return.\<close>

definition verdict_ok :: "int \<Rightarrow> bool" where
  "verdict_ok a \<longleftrightarrow> a = DROP_PACKETS \<or> a = IGNORE_PACKETS \<or> (0 \<le> a \<and> a < int MAX_ETHPORTS)"

definition jobs_ok :: "'s packet_processor list \<Rightarrow> bool" where
  "jobs_ok jobs \<longleftrightarrow> (\<forall>job \<in> set jobs. \<forall>m t. \<exists>a t'. job m t = Some (a, t') \<and> verdict_ok a)"

definition accounted :: "('d \<Rightarrow> nat multiset) \<Rightarrow> ('d, 's) worker_state \<Rightarrow> nat \<Rightarrow> nat multiset" where
  "accounted sent s cid = sent (eth s) + mset (freed s) + held s cid"

section \<open>The steps\<close>

lemma buf_upd_buf [simp]:
  "buf (upd_buf cid p f s) c q = (if c = cid \<and> q = p then f (buf s cid p) else buf s c q)"
  "port_num (lcore_conf (upd_buf cid p f s) c) = port_num (lcore_conf s c)"
  "queue_id (lcore_conf (upd_buf cid p f s) c) = queue_id (lcore_conf s c)"
  "eth (upd_buf cid p f s) = eth s" "freed (upd_buf cid p f s) = freed s" "tasks (upd_buf cid p f s) = tasks s"
  by (simp_all add: upd_buf_def)

lemma buf_free [simp]: "lcore_conf (rte_pktmbuf_free m s) = lcore_conf s" "eth (rte_pktmbuf_free m s) = eth s"
  "tasks (rte_pktmbuf_free m s) = tasks s"
  by (simp_all add: rte_pktmbuf_free_def)

lemma free_slots_eq:
  "free_slots from port a n s = s\<lparr>freed := freed s @ filter (\<lambda>m. m \<noteq> 0) (map ((!) (tx_burst (buf s from port))) [a..<n])\<rparr>"
proof -
  have "fold (\<lambda>i s. rte_pktmbuf_free (tx_burst (buf s from port) ! i) s) is s =
        s\<lparr>freed := freed s @ filter (\<lambda>m. m \<noteq> 0) (map ((!) (tx_burst (buf s from port))) is)\<rparr>" for "is" and s :: "('a, 'b) worker_state"
    by (induction "is" arbitrary: s) (simp_all add: rte_pktmbuf_free_def)
  then show ?thesis by (simp add: free_slots_def)
qed

lemma nth_slots: "a \<le> n \<Longrightarrow> n \<le> length xs \<Longrightarrow> map ((!) xs) [a..<n] = drop a (take n xs)"
  by (rule nth_equalityI) auto

text \<open>The packets not accepted of a transmit burst on the core whose buffer is freed are given back.\<close>

lemma free_own_slots:
  assumes "buf_ok b" and "k \<le> n" and "n = tx_len b"
  shows "mset (take k (take n (tx_burst b))) + mset (filter (\<lambda>m. m \<noteq> 0) (map ((!) (tx_burst b)) [k..<n])) = waiting b"
proof -
  have n: "n \<le> length (tx_burst b)" and nz: "0 \<notin> set (take n (tx_burst b))" using assms by (auto simp: buf_ok_def)
  have "0 \<notin> set (drop k (take n (tx_burst b)))" using nz by (meson in_set_dropD)
  then have f: "filter (\<lambda>m. m \<noteq> 0) (drop k (take n (tx_burst b))) = drop k (take n (tx_burst b))"
    by (intro filter_True) (metis)
  show ?thesis unfolding nth_slots [OF assms(2) n] f mset_append [symmetric] append_take_drop_id
    using assms(3) by (simp add: waiting_def)
qed

lemma accounted_flush:
  assumes p: "p = 0 \<or> p = 1" and s': "s' = upd_buf cid p (\<lambda>b. b\<lparr>tx_len := 0\<rparr>) (s\<lparr>eth := d, freed := freed s @ F\<rparr>)"
    and d: "sent d = sent (eth s) + T" and T: "T + mset F = waiting (buf s cid p)"
  shows "accounted sent s' cid = accounted sent s cid"
proof -
  have "held s cid = held s' cid + (T + mset F)" unfolding s' T
    using p by (auto simp: held_def waiting_def [of "b\<lparr>tx_len := 0\<rparr>" for b])
  moreover have "eth s' = d" "freed s' = freed s @ F" by (simp_all add: s')
  ultimately show ?thesis using d by (simp add: accounted_def)
qed

lemma send_packets_ok:
  assumes laws: "eth_laws ops rcvd sent" and ok: "conf_ok s cid" and port: "0 \<le> port" "port < int MAX_ETHPORTS" and m: "m \<noteq> 0"
  shows "\<exists>n s'. send_packets ops port cid m s = Some (n, s') \<and> conf_ok s' cid \<and>
           accounted sent s' cid = accounted sent s cid + {#m#} \<and> rcvd (eth s') = rcvd (eth s) \<and> tasks s' = tasks s"
proof -
  define p where "p = nat port"
  have p: "p = 0 \<or> p = 1" using port by (auto simp: p_def flow_consts)
  have put: "\<exists>s'. s' = upd_buf cid p (\<lambda>b. b\<lparr>tx_burst := (tx_burst b)[tx_len b := m], tx_len := tx_len b + 1\<rparr>) s1 \<and>
      conf_ok s' cid \<and> accounted sent s' cid = accounted sent s1 cid + {#m#} \<and> rcvd (eth s') = rcvd (eth s1) \<and> tasks s' = tasks s1"
    if "conf_ok s1 cid" "tx_len (buf s1 cid p) < MAX_PKT_BURST" for s1 :: "('a, 'b) worker_state"
  proof -
    have "take (Suc k) (xs[k := m]) = take k xs @ [m]" if "k < length xs" for k and xs :: "nat list"
      using that by (simp add: take_Suc_conv_app_nth)
    then show ?thesis using that p m
      by (auto simp: conf_ok_def buf_ok_def accounted_def held_def waiting_def)
  qed
  show ?thesis
  proof (cases "tx_len (buf s cid p) = MAX_PKT_BURST")
    case False
    then have "tx_len (buf s cid p) < MAX_PKT_BURST" using ok by (auto simp: conf_ok_def buf_ok_def le_less)
    with put [OF ok this] False port show ?thesis by (auto simp: send_packets_def p_def [symmetric] Let_def)
  next
    case True
    obtain k d where tx: "rte_eth_tx_burst ops p (queue_id (lcore_conf s cid)) (take MAX_PKT_BURST (tx_burst (buf s cid p))) (eth s) = (k, d)"
      by force
    define s1 where "s1 = upd_buf cid p (\<lambda>b. b\<lparr>tx_len := 0\<rparr>) (free_slots cid p k MAX_PKT_BURST (s\<lparr>eth := d\<rparr>))"
    have b: "buf_ok (buf s cid p)" using ok by (simp add: conf_ok_def)
    have k: "k \<le> MAX_PKT_BURST" "rcvd d = rcvd (eth s)"
      "sent d = sent (eth s) + mset (take k (take MAX_PKT_BURST (tx_burst (buf s cid p))))"
      using eth_txD [OF laws tx] b by (auto simp: buf_ok_def)
    have ok1: "conf_ok s1 cid" "tx_len (buf s1 cid p) < MAX_PKT_BURST"
      using ok by (auto simp: s1_def free_slots_eq conf_ok_def buf_ok_def flow_consts)
    have own: "mset (take k (take MAX_PKT_BURST (tx_burst (buf s cid p)))) +
        mset (filter (\<lambda>m. m \<noteq> 0) (map ((!) (tx_burst (buf s cid p))) [k..<MAX_PKT_BURST])) = waiting (buf s cid p)"
      by (rule free_own_slots [OF b k(1)]) (simp add: True)
    have "accounted sent s1 cid = accounted sent s cid"
      by (rule accounted_flush [OF p _ k(3) own]) (simp add: s1_def free_slots_eq)
    moreover have "rcvd (eth s1) = rcvd (eth s)" "tasks s1 = tasks s" using k(2) by (simp_all add: s1_def free_slots_eq)
    ultimately show ?thesis using put [OF ok1] ok1(2) port True tx
      by (auto simp: send_packets_def p_def [symmetric] Let_def s1_def [symmetric])
  qed
qed

lemma packet_verdict_ok:
  assumes "jobs_ok jobs" and "verdict_ok a" "a \<noteq> IGNORE_PACKETS"
  shows "\<exists>a' t'. packet_verdict jobs m a t = Some (a', t') \<and> verdict_ok a' \<and> a' \<noteq> IGNORE_PACKETS"
  using assms
proof (induction jobs arbitrary: a t)
  case (Cons job jobs)
  obtain b t' where b: "job m t = Some (b, t')" "verdict_ok b" using Cons.prems(1) unfolding jobs_ok_def
    by (meson list.set_intros(1))
  have "jobs_ok jobs" using Cons.prems(1) by (simp add: jobs_ok_def)
  from Cons.IH [OF this, of "if b \<noteq> IGNORE_PACKETS then b else a" t'] b Cons.prems(2,3) show ?case by auto
qed simp

lemma rx_loop_ok:
  assumes laws: "eth_laws ops rcvd sent" and "jobs_ok jobs" and "conf_ok s cid" and "0 \<notin> set ms"
  shows "\<exists>s'. rx_loop ops jobs cid ms s = Some s' \<and> conf_ok s' cid \<and>
           accounted sent s' cid = accounted sent s cid + mset ms \<and> rcvd (eth s') = rcvd (eth s)"
  using assms(3,4)
proof (induction ms arbitrary: s)
  case (Cons m ms)
  have drop: "verdict_ok DROP_PACKETS" "DROP_PACKETS \<noteq> IGNORE_PACKETS" by (auto simp: verdict_ok_def flow_consts)
  obtain a t where a: "packet_verdict jobs m DROP_PACKETS (tasks s) = Some (a, t)" "verdict_ok a" "a \<noteq> IGNORE_PACKETS"
    using packet_verdict_ok [OF assms(2) drop] by blast
  define s1 where "s1 = s\<lparr>tasks := t\<rparr>"
  have s1: "conf_ok s1 cid" "accounted sent s1 cid = accounted sent s cid" "rcvd (eth s1) = rcvd (eth s)"
    using Cons.prems(1) by (auto simp: s1_def conf_ok_def accounted_def held_def)
  show ?case
  proof (cases "a = DROP_PACKETS")
    case True
    have ok2: "conf_ok (rte_pktmbuf_free m s1) cid" using s1(1) by (simp add: conf_ok_def)
    have acc2: "accounted sent (rte_pktmbuf_free m s1) cid = accounted sent s1 cid + {#m#}"
      using Cons.prems(2) by (simp add: accounted_def held_def rte_pktmbuf_free_def)
    have "rx_loop ops jobs cid (m # ms) s = rx_loop ops jobs cid ms (rte_pktmbuf_free m s1)"
      using a(1) True by (simp add: s1_def Let_def)
    with Cons.IH [OF ok2] Cons.prems(2) acc2 s1 show ?thesis by auto
  next
    case False
    with a have port: "0 \<le> a" "a < int MAX_ETHPORTS" by (auto simp: verdict_ok_def)
    obtain n s2 where s2: "send_packets ops a cid m s1 = Some (n, s2)" "conf_ok s2 cid"
      "accounted sent s2 cid = accounted sent s1 cid + {#m#}" "rcvd (eth s2) = rcvd (eth s1)"
      using send_packets_ok [OF laws s1(1) port, of m] Cons.prems(2) by auto
    have "rx_loop ops jobs cid (m # ms) s = rx_loop ops jobs cid ms s2"
      using a(1) False s2(1) by (simp add: s1_def Let_def)
    with Cons.IH [OF s2(2)] Cons.prems(2) s2 s1 show ?thesis by auto
  qed
qed simp

lemma process_port_ok:
  assumes laws: "eth_laws ops rcvd sent" and jobs: "jobs_ok jobs" and ok: "conf_ok s cid" and port: "port = 0 \<or> port = 1"
  shows "\<exists>n s'. process_port ops jobs cid port s = Some (n, s') \<and> conf_ok s' cid \<and>
           (cid = 0 \<or> tx_accepts_all ops \<longrightarrow>
              accounted sent s' cid + rcvd (eth s) = accounted sent s cid + rcvd (eth s'))"
proof -
  obtain ms d where rx: "rte_eth_rx_burst ops port (queue_id (lcore_conf s cid)) PACKET_BURST (eth s) = (ms, d)" by force
  with laws have ms: "0 \<notin> set ms" "rcvd d = rcvd (eth s) + mset ms" "sent d = sent (eth s)" by (auto simp: eth_laws_def)
  define s1 where "s1 = upd_buf cid port (\<lambda>b. b\<lparr>rx_burst := ms @ drop (length ms) (rx_burst b), rx_len := length ms\<rparr>) (s\<lparr>eth := d\<rparr>)"
  have s1: "conf_ok s1 cid" "accounted sent s1 cid = accounted sent s cid" "eth s1 = d"
    using ok port ms by (auto simp: s1_def conf_ok_def buf_ok_def accounted_def held_def waiting_def)
  obtain s2 where s2: "rx_loop ops jobs cid ms s1 = Some s2" "conf_ok s2 cid"
    "accounted sent s2 cid = accounted sent s1 cid + mset ms" "rcvd (eth s2) = rcvd (eth s1)"
    using rx_loop_ok [OF laws jobs s1(1) ms(1)] by blast
  define n where "n = tx_len (buf s2 cid port)"
  obtain k d2 where tx: "rte_eth_tx_burst ops port (queue_id (lcore_conf s2 cid)) (take n (tx_burst (buf s2 cid port))) (eth s2) = (k, d2)"
    by force
  have b: "buf_ok (buf s2 cid port)" using s2(2) by (simp add: conf_ok_def)
  then have n: "n \<le> MAX_PKT_BURST" "length (take n (tx_burst (buf s2 cid port))) = n" by (auto simp: buf_ok_def n_def)
  have k: "k \<le> n" "rcvd d2 = rcvd (eth s2)" "sent d2 = sent (eth s2) + mset (take k (take n (tx_burst (buf s2 cid port))))"
    using eth_txD [OF laws tx] n(2) by auto
  define s3 where "s3 = upd_buf cid port (\<lambda>b. b\<lparr>tx_len := 0\<rparr>) (free_slots 0 port k n (s2\<lparr>eth := d2\<rparr>))"
  have pp: "process_port ops jobs cid port s = Some (length ms + n, s3)"
    using rx s2(1) tx by (simp add: process_port_def s1_def Let_def n_def s3_def)
  have ok3: "conf_ok s3 cid" using s2(2) by (auto simp: s3_def free_slots_eq conf_ok_def buf_ok_def)
  have "accounted sent s3 cid = accounted sent s2 cid" if h: "cid = 0 \<or> tx_accepts_all ops"
  proof -
    have "mset (take k (take n (tx_burst (buf s2 cid port)))) +
        mset (filter (\<lambda>m. m \<noteq> 0) (map ((!) (tx_burst (buf s2 cid port))) [k..<n])) = waiting (buf s2 cid port)"
      by (rule free_own_slots [OF b k(1)]) (simp add: n_def)
    moreover have "map ((!) (tx_burst (buf s2 0 port))) [k..<n] = map ((!) (tx_burst (buf s2 cid port))) [k..<n]"
      using h
    proof
      assume "tx_accepts_all ops"
      then have "k = n" using tx n(2) by (metis fst_conv tx_accepts_all_def)
      then show ?thesis by simp
    qed simp
    ultimately have e: "mset (take k (take n (tx_burst (buf s2 cid port)))) +
        mset (filter (\<lambda>m. m \<noteq> 0) (map ((!) (tx_burst (buf s2 0 port))) [k..<n])) = waiting (buf s2 cid port)"
      by (simp only:)
    show ?thesis by (rule accounted_flush [OF port _ k(3) e]) (simp add: s3_def free_slots_eq)
  qed
  moreover have "rcvd (eth s3) = rcvd (eth s2)" using k(2) by (simp add: s3_def free_slots_eq)
  ultimately show ?thesis using pp ok3 s2 s1 ms by auto
qed

lemma process_ports_ok:
  assumes laws: "eth_laws ops rcvd sent" and jobs: "jobs_ok jobs" and "conf_ok s cid" and "set ports \<subseteq> {0, 1}"
  shows "\<exists>n s'. process_ports ops jobs cid ports ret s = Some (n, s') \<and> conf_ok s' cid \<and>
           (cid = 0 \<or> tx_accepts_all ops \<longrightarrow>
              accounted sent s' cid + rcvd (eth s) = accounted sent s cid + rcvd (eth s'))"
  using assms(3,4)
proof (induction ports arbitrary: s ret)
  case (Cons port ports)
  then obtain n s1 where s1: "process_port ops jobs cid port s = Some (n, s1)" "conf_ok s1 cid"
    "cid = 0 \<or> tx_accepts_all ops \<longrightarrow> accounted sent s1 cid + rcvd (eth s) = accounted sent s cid + rcvd (eth s1)"
    using process_port_ok [OF laws jobs, of s cid port] by auto
  have sub: "set ports \<subseteq> {0, 1}" using Cons.prems(2) by auto
  obtain n' s2 where s2: "process_ports ops jobs cid ports (ret + n) s1 = Some (n', s2)" "conf_ok s2 cid"
    "cid = 0 \<or> tx_accepts_all ops \<longrightarrow> accounted sent s2 cid + rcvd (eth s1) = accounted sent s1 cid + rcvd (eth s2)"
    using Cons.IH [OF s1(2) sub, of "ret + n"] by blast
  have "accounted sent s2 cid + rcvd (eth s) = accounted sent s cid + rcvd (eth s2)" if h: "cid = 0 \<or> tx_accepts_all ops"
  proof -
    have "(accounted sent s2 cid + rcvd (eth s1)) + (accounted sent s1 cid + rcvd (eth s)) =
          (accounted sent s1 cid + rcvd (eth s2)) + (accounted sent s cid + rcvd (eth s1))" using s1(3) s2(3) h by simp
    then have "(accounted sent s2 cid + rcvd (eth s)) + (rcvd (eth s1) + accounted sent s1 cid) =
          (accounted sent s cid + rcvd (eth s2)) + (rcvd (eth s1) + accounted sent s1 cid)" by (simp only: ac_simps)
    then show ?thesis by (simp only: add_right_cancel)
  qed
  moreover have "process_ports ops jobs cid (port # ports) ret s = Some (n', s2)" using s1(1) s2(1) by simp
  ultimately show ?case using s2(2) by blast
qed simp

section \<open>The task arrays as lists\<close>

definition registry_ok :: "('pp, 'gp) processors \<Rightarrow> bool" where
  "registry_ok r \<longleftrightarrow> length (packet_processor_arr r) = MAX_PROCESSOR_NUM \<and> length (general_processor_arr r) = MAX_PROCESSOR_NUM \<and>
     packet_processor_num r \<le> MAX_PROCESSOR_NUM \<and> general_processor_num r \<le> MAX_PROCESSOR_NUM"

definition general_tasks :: "('pp, 'gp) processors \<Rightarrow> 'gp option list" where
  "general_tasks r = take (general_processor_num r) (general_processor_arr r)"

definition packet_tasks :: "('pp, 'gp) processors \<Rightarrow> 'pp option list" where
  "packet_tasks r = take (packet_processor_num r) (packet_processor_arr r)"

lemma register_general_appends:
  assumes "registry_ok r" and "general_processor_num r < MAX_PROCESSOR_NUM" and "length name < PROCESSOR_NAME_LENGTH"
  shows "\<exists>r'. register_general_processor g name r = Some (1, r') \<and> registry_ok r' \<and> general_tasks r' = general_tasks r @ [Some g] \<and>
           packet_tasks r' = packet_tasks r \<and> general_processor_num r' = general_processor_num r + 1 \<and>
           packet_processor_num r' = packet_processor_num r"
  using assms by (auto simp: register_general_processor_def registry_ok_def general_tasks_def packet_tasks_def take_Suc_conv_app_nth)

lemma register_packet_appends:
  assumes "registry_ok r" and "packet_processor_num r < MAX_PROCESSOR_NUM"
  shows "\<exists>r'. register_packet_processor p r = (1, r') \<and> registry_ok r' \<and> packet_tasks r' = packet_tasks r @ [Some p] \<and>
           general_tasks r' = general_tasks r \<and> general_processor_num r' = general_processor_num r"
  using assms by (auto simp: register_packet_processor_def registry_ok_def general_tasks_def packet_tasks_def take_Suc_conv_app_nth)

section \<open>Properties\<close>

text \<open>A device with no packet to receive that accepts one packet of a burst.\<close>

definition demo_eth :: "(nat multiset \<times> nat multiset) eth_ops" where
  "demo_eth = \<lparr>rte_eth_rx_burst = (\<lambda>p q n d. ([], d)),
     rte_eth_tx_burst = (\<lambda>p q ms (r, t). (min 1 (length ms), (r, t + mset (take 1 ms))))\<rparr>"

lemma demo_eth_laws: "eth_laws demo_eth fst snd"
  by (auto simp: eth_laws_def demo_eth_def min_def split: prod.splits)

definition demo_worker :: "(nat multiset \<times> nat multiset, unit) worker_state" where
  "demo_worker = \<lparr>lcore_conf = (\<lambda>cid. if cid = 1 then zero_conf\<lparr>port_num := MAX_ETHPORTS,
       queuesBuf := (\<lambda>_. zero_buf\<lparr>tx_burst := [7, 8] @ replicate 126 0, tx_len := 2\<rparr>)\<rparr> else zero_conf),
     eth = ({#}, {#}), freed = [], force_quit = False, cpuConsumption = (\<lambda>_ _. 0), tasks = ()\<rparr>"

lemma demo_conf_ok: "conf_ok demo_worker 1"
  by (simp add: conf_ok_def buf_ok_def demo_worker_def zero_conf_def zero_buf_def flow_consts)

text \<open>
  C10: The packet task of a worker core. With packet tasks that return a verdict it always returns, the
  transmit buffers keep within their 128 slots, and if the core is core 0 or the device accepts every
  burst, every packet received is afterwards exactly once among the packets sent, freed or waiting in
  the core's transmit buffers. On any core, when a port has nothing to receive and the device accepts
  \<open>k\<close> of the waiting packets, the mbufs given back are those in the slots from \<open>k\<close> on of the buffer of
  core 0: on another core the refused packets themselves are leaked.
\<close>

theorem worker_packets_conserved:
  assumes laws: "eth_laws ops rcvd sent" and jobs: "jobs_ok jobs" and ok: "conf_ok s cid"
  shows "(\<exists>n s'. general_pkt_processor ops jobs cid s = Some (n, s') \<and> conf_ok s' cid \<and>
           (cid = 0 \<or> tx_accepts_all ops \<longrightarrow>
              sent (eth s') + mset (freed s') + held s' cid + rcvd (eth s) =
              sent (eth s) + mset (freed s) + held s cid + rcvd (eth s'))) \<and>
         (rte_eth_rx_burst ops port (queue_id (lcore_conf s cid)) PACKET_BURST (eth s) = ([], d) \<longrightarrow>
          rte_eth_tx_burst ops port (queue_id (lcore_conf s cid)) (take (tx_len (buf s cid port)) (tx_burst (buf s cid port))) d = (k, d') \<longrightarrow>
          (\<exists>s'. process_port ops jobs cid port s = Some (tx_len (buf s cid port), s') \<and> tx_len (buf s' cid port) = 0 \<and>
             freed s' = freed s @ filter (\<lambda>m. m \<noteq> 0) (map ((!) (tx_burst (buf s 0 port))) [k..<tx_len (buf s cid port)])))"
proof
  have "set [0..<port_num (lcore_conf s cid)] \<subseteq> {0, 1}" using ok by (auto simp: conf_ok_def flow_consts)
  then show "\<exists>n s'. general_pkt_processor ops jobs cid s = Some (n, s') \<and> conf_ok s' cid \<and>
           (cid = 0 \<or> tx_accepts_all ops \<longrightarrow>
              sent (eth s') + mset (freed s') + held s' cid + rcvd (eth s) =
              sent (eth s) + mset (freed s) + held s cid + rcvd (eth s'))"
    using process_ports_ok [OF laws jobs ok, of "[0..<port_num (lcore_conf s cid)]" 0]
    by (simp add: general_pkt_processor_def accounted_def)
qed (auto simp: process_port_def free_slots_eq Let_def)

lemma worker_packets_conserved_witness:
  "(\<exists>n s'. general_pkt_processor demo_eth [\<lambda>m t. Some (1, t)] 1 demo_worker = Some (n, s') \<and> conf_ok s' 1) \<and>
   (\<exists>s'. process_port demo_eth [\<lambda>m t. Some (1, t)] 1 0 demo_worker = Some (2, s') \<and> tx_len (buf s' 1 0) = 0 \<and> freed s' = [])"
proof -
  have jobs: "jobs_ok [\<lambda>m (t :: unit). Some (1, t)]" by (simp add: jobs_ok_def verdict_ok_def flow_consts)
  have rx: "rte_eth_rx_burst demo_eth 0 q PACKET_BURST (eth demo_worker) = ([], ({#}, {#}))" for q
    by (simp add: demo_eth_def demo_worker_def)
  have tx: "rte_eth_tx_burst demo_eth 0 q (take (tx_len (buf demo_worker 1 0)) (tx_burst (buf demo_worker 1 0))) ({#}, {#}) =
      (1, ({#}, {#7#}))" for q
    by (simp add: demo_eth_def demo_worker_def)
  have free: "freed demo_worker = []" by (simp add: demo_worker_def)
  have "tx_len (buf demo_worker 1 0) = 2" "tx_burst (buf demo_worker 0 0) ! 1 = 0"
    by (simp_all add: demo_worker_def zero_conf_def zero_buf_def flow_consts)
  then show ?thesis
    using worker_packets_conserved [OF demo_eth_laws jobs demo_conf_ok, of 0 "({#}, {#})" 1 "({#}, {#7#})"] rx tx free
    by (simp add: upt_rec) blast
qed

lemma assign_queues_other: "c \<notin> set ids \<Longrightarrow> assign_queues ids q conf c = conf c"
  by (induction ids q conf rule: assign_queues.induct) auto

lemma assign_queues_nth:
  "distinct ids \<Longrightarrow> i < length ids \<Longrightarrow> q + i < MAX_QUEUES \<Longrightarrow>
     queue_id (assign_queues ids q conf (ids ! i)) = q + i \<and> FlowQueueId (assign_queues ids q conf (ids ! i)) = q + i \<and>
     port_num (assign_queues ids q conf (ids ! i)) = MAX_ETHPORTS"
proof (induction ids arbitrary: q conf i)
  case (Cons c ids)
  show ?case
  proof (cases i)
    case (Suc k)
    from Cons.IH [of k "q + 1"] Cons.prems Suc show ?thesis by (simp del: fun_upd_apply)
  qed (use Cons.prems in \<open>simp add: assign_queues_other\<close>)
qed simp

text \<open>
  Registration and launch. A task array takes tasks until its 30 slots are full (29 general ones, slot
  0 being the packet task) and refuses the next without touching anything; launching gives the workers
  the hardware queues 0, 1, \<open>\<dots>\<close> in order, each its own, sets the packet task and keeps the others; the workers
  run from then on until they are stopped.
\<close>

theorem worker_registration:
  assumes "length (packet_processor_arr r) = MAX_PROCESSOR_NUM" "length (general_processor_arr r) = MAX_PROCESSOR_NUM"
    and "packet_processor_num r \<le> MAX_PROCESSOR_NUM" "0 < general_processor_num r" "general_processor_num r \<le> MAX_PROCESSOR_NUM"
    and "length name < PROCESSOR_NAME_LENGTH" and "distinct workers" "length workers \<le> MAX_QUEUES"
    and "register_general_processor g name r = Some (ret, r')" and "register_packet_processor p r = (ret2, r2)"
    and "launch_worker pkt workers (r', cs, s) = Some (r3, cs', s')"
  shows "ret = (if general_processor_num r < MAX_PROCESSOR_NUM then 1 else 0) \<and> (ret = 0 \<longrightarrow> r' = r) \<and>
         (ret = 1 \<longrightarrow> general_processor_num r' = general_processor_num r + 1 \<and>
            general_processor_arr r3 ! general_processor_num r = Some g) \<and>
         (\<forall>i. 0 < i \<and> i < general_processor_num r \<longrightarrow> general_processor_arr r3 ! i = general_processor_arr r ! i) \<and>
         general_processor_arr r3 ! 0 = Some pkt \<and>
         ret2 = (if packet_processor_num r < MAX_PROCESSOR_NUM then 1 else 0) \<and> (ret2 = 0 \<longrightarrow> r2 = r) \<and>
         (ret2 = 1 \<longrightarrow> packet_processor_arr r2 ! packet_processor_num r = Some p) \<and>
         (\<forall>i < packet_processor_num r. packet_processor_arr r2 ! i = packet_processor_arr r ! i) \<and>
         is_worker_running s' \<and> \<not> is_worker_running (stop_worker s') \<and>
         (\<forall>i < length workers. worker_getFlowQid s' (workers ! i) = i \<and> queue_id (lcore_conf s' (workers ! i)) = i \<and>
            port_num (lcore_conf s' (workers ! i)) = MAX_ETHPORTS)"
proof -
  note g = assms(9) [unfolded register_general_processor_def] and p = assms(10) [unfolded register_packet_processor_def]
  have ret: "ret = (if general_processor_num r < MAX_PROCESSOR_NUM then 1 else 0)" "ret = 0 \<longrightarrow> r' = r"
    using g assms(5,6) by (auto split: if_splits)
  have ret2: "ret2 = (if packet_processor_num r < MAX_PROCESSOR_NUM then 1 else 0)" "ret2 = 0 \<longrightarrow> r2 = r"
    "ret2 = 1 \<longrightarrow> packet_processor_arr r2 ! packet_processor_num r = Some p"
    "\<forall>i < packet_processor_num r. packet_processor_arr r2 ! i = packet_processor_arr r ! i"
    using p assms(1,3) by (auto split: if_splits)
  have l: "general_processor_arr r3 = (general_processor_arr r')[0 := Some pkt]" "force_quit s' = False"
    "lcore_conf s' = assign_queues workers 0 (lcore_conf s)"
    using assms(11) by (auto simp: launch_worker_def Let_def)
  have r3: "ret = 1 \<longrightarrow> general_processor_num r' = general_processor_num r + 1 \<and>
      general_processor_arr r3 ! general_processor_num r = Some g"
    "\<forall>i. 0 < i \<and> i < general_processor_num r \<longrightarrow> general_processor_arr r3 ! i = general_processor_arr r ! i"
    "general_processor_arr r3 ! 0 = Some pkt"
    using g assms(2,4,5,6) by (auto simp: l flow_consts split: if_splits)
  have q: "\<forall>i < length workers. worker_getFlowQid s' (workers ! i) = i \<and> queue_id (lcore_conf s' (workers ! i)) = i \<and>
      port_num (lcore_conf s' (workers ! i)) = MAX_ETHPORTS"
    using assign_queues_nth [OF assms(7), of _ 0] assms(8) by (auto simp: l(3) worker_getFlowQid_def)
  show ?thesis using ret ret2 r3 q l(2) by (simp add: is_worker_running_def stop_worker_def)
qed

lemma worker_registration_witness:
  "\<exists>r' r3 cs' s'. register_general_processor ''flowQoS_timer_tick'' ''Timer'' (processors_init :: (string, string) processors) = Some (1, r') \<and>
     launch_worker ''general_pkt_processor'' [1, 2] (r', cmd_init, demo_worker) = Some (r3, cs', s') \<and>
     general_processor_arr r3 ! 1 = Some ''flowQoS_timer_tick'' \<and> general_processor_arr r3 ! 0 = Some ''general_pkt_processor'' \<and>
     worker_getFlowQid s' 2 = 1"
proof -
  let ?r = "processors_init :: (string, string) processors"
  obtain r' where r': "register_general_processor ''flowQoS_timer_tick'' ''Timer'' ?r = Some (1, r')"
    by (simp add: register_general_processor_def processors_init_def flow_consts)
  obtain cs' where "registerWorkerCmd cmd_init = Some cs'"
    using register_once_ok [OF cmd_ok_init, of "[''cmd_dumpWorker_obj'']" "''Worker''"]
    by (auto simp: registerWorkerCmd_def flow_consts cmd_init_def)
  then obtain r3 s' where l: "launch_worker ''general_pkt_processor'' [1, 2] (r', cmd_init, demo_worker) = Some (r3, cs', s')"
    by (simp add: launch_worker_def Let_def)
  have "worker_getFlowQid s' ([1, 2] ! 1) = 1 \<and> general_processor_arr r3 ! general_processor_num ?r = Some ''flowQoS_timer_tick'' \<and>
      general_processor_arr r3 ! 0 = Some ''general_pkt_processor''"
    using worker_registration [OF _ _ _ _ _ _ _ _ r' surjective_pairing l, where p = "''flowQoS_conntrack_packet_processor''"]
    by (simp add: processors_init_def flow_consts All_less_Suc)
  then show ?thesis using r' l by (simp add: processors_init_def)
qed

end
