(* ===== verification/Conntrack_Setup.thy ===== *)
theory Conntrack_Setup
  imports Conntrack_Init Worker_Props
begin

text \<open>
  Properties of \<open>flowQoS_conntrack_init_env\<close>: what it reports, what every worker finds afterwards, and
  which tasks are registered.
\<close>

abbreviation failed_before :: "(nat \<Rightarrow> 'h option) \<Rightarrow> nat list \<Rightarrow> nat \<Rightarrow> nat" where
  "failed_before ct cores i \<equiv> length (filter (\<lambda>c. ct c = None) (take i cores))"

lemma init_cores_other: "c \<notin> set cores \<Longrightarrow> fst (init_cores clobber ct at cores ts args) c = ts c"
  by (induction clobber ct at cores ts args rule: init_cores.induct) (auto split: prod.splits)

lemma init_cores_count:
  "snd (snd (init_cores clobber ct at cores ts (pool, n))) = n + length (filter (\<lambda>c. ct c \<noteq> None) cores)"
proof (induction cores arbitrary: ts pool n)
  case (Cons c cores)
  then show ?case by (cases "ct c") (simp_all add: flowQoS_init_per_core_def)
qed simp

lemma init_cores_table:
  assumes "distinct cores" and "i < length cores"
  shows "ct_table (fst (init_cores clobber ct at cores ts (pool, n)) (cores ! i)) = ct (cores ! i) \<and>
         ct_pool (fst (init_cores clobber ct at cores ts (pool, n)) (cores ! i)) = (clobber ^^ failed_before ct cores i) pool \<and>
         (ct (cores ! i) \<noteq> None \<longrightarrow> offloadedNum (fst (init_cores clobber ct at cores ts (pool, n)) (cores ! i)) = MaxOffloadedEntry at)"
  using assms
proof (induction cores arbitrary: ts pool n i)
  case (Cons c cores)
  show ?case
  proof (cases i)
    case 0
    then show ?thesis using Cons.prems
      by (cases "ct c") (simp_all add: flowQoS_init_per_core_def init_cores_other)
  next
    case (Suc k)
    note IH = Cons.IH [of k]
    show ?thesis
      using IH [of _ "clobber pool" n] IH [of _ pool "n + 1"] Cons.prems Suc
      by (cases "ct c") (simp_all add: flowQoS_init_per_core_def funpow_swap1 del: fun_upd_apply)
  qed
qed simp

lemma length_filter_all: "length (filter P xs) = length xs \<longleftrightarrow> (\<forall>x \<in> set xs. P x)"
  using length_filter_less [of _ xs P] by (metis filter_True less_irrefl)

lemma qos_register_tasks:
  assumes "registry_ok r" and "general_processor_num r < MAX_PROCESSOR_NUM" and "qos_init_register (r, cs) = Some (r', cs')"
  shows "registry_ok r' \<and> general_tasks r' = general_tasks r @ [Some ''flowQoS_do_entry_event''] \<and> packet_tasks r' = packet_tasks r \<and>
         general_processor_num r' = general_processor_num r + 1 \<and> packet_processor_num r' = packet_processor_num r"
  using register_general_appends [OF assms(1,2), of "''QoS''" "''flowQoS_do_entry_event''"] assms(3)
  by (auto simp: qos_init_register_def flow_consts)

text \<open>The tasks registered after the tables were created.\<close>

lemma late_tasks:
  assumes r: "registry_ok r" "general_processor_num r + 2 \<le> MAX_PROCESSOR_NUM" "packet_processor_num r < MAX_PROCESSOR_NUM"
    and t: "flowQoS_timer_init tim_mem hz tsc workers mem r = Some (g, tm, r1)"
    and a: "register_general_processor ''flowQoS_conn_aging_handle'' ''Aging''
              (snd (register_packet_processor ''flowQoS_conntrack_packet_processor'' r1)) = Some (k, r2)"
  shows "general_tasks r2 = general_tasks r @ [Some ''_flowQoS_timer_tick'', Some ''flowQoS_conn_aging_handle''] \<and>
         packet_tasks r2 = packet_tasks r @ [Some ''flowQoS_conntrack_packet_processor''] \<and>
         tm = (\<lambda>core. if core \<in> set workers then snd (flowQoS_timer_mgr_init (tim_mem core) (tsc core) mem) else None)"
proof -
  have lt: "general_processor_num r < MAX_PROCESSOR_NUM" using r(2) by simp
  have name: "length ''Timer'' < PROCESSOR_NAME_LENGTH" "length ''Aging'' < PROCESSOR_NAME_LENGTH" by (simp_all add: flow_consts)
  obtain r1' where r1': "register_general_processor ''_flowQoS_timer_tick'' ''Timer'' r = Some (1, r1')" "registry_ok r1'"
    "general_tasks r1' = general_tasks r @ [Some ''_flowQoS_timer_tick'']" "packet_tasks r1' = packet_tasks r"
    "general_processor_num r1' = general_processor_num r + 1" "packet_processor_num r1' = packet_processor_num r"
    using register_general_appends [OF r(1) lt name(1)] by blast
  have e: "r1' = r1" "tm = (\<lambda>core. if core \<in> set workers then snd (flowQoS_timer_mgr_init (tim_mem core) (tsc core) mem) else None)"
    using t r1'(1) by (auto simp: flowQoS_timer_init_def)
  obtain r2' where r2': "register_packet_processor ''flowQoS_conntrack_packet_processor'' r1 = (1, r2')" "registry_ok r2'"
    "packet_tasks r2' = packet_tasks r1 @ [Some ''flowQoS_conntrack_packet_processor'']" "general_tasks r2' = general_tasks r1"
    "general_processor_num r2' = general_processor_num r1"
    using register_packet_appends [of r1] r1' r(3) e(1) by metis
  have lt2: "general_processor_num r2' < MAX_PROCESSOR_NUM" using r(2) r1'(5) r2'(5) e(1) by simp
  show ?thesis using register_general_appends [OF r2'(2) lt2 name(2), of "''flowQoS_conn_aging_handle''"] a r1' r2' e by auto
qed

text \<open>
  C35: Setting up connection tracking. Without a pool, or when a hash table could not be created on some
  worker, the result is 0, otherwise 1. Every worker gets its own hash table; it also gets the shared pool
  unless an earlier worker failed, in which case it gets whatever lies at the pool's address after its
  lower half was overwritten. On success the scheduler (with a positive offload speed), the timer and
  the aging task are registered in this order behind the existing general tasks, and the packet task
  behind the existing packet tasks; each worker then has a fresh timer manager if there was memory for it, and
  none otherwise, which the result does not show.
\<close>

theorem conntrack_init_env_results:
  assumes run: "flowQoS_conntrack_init_env clobber hz tsc self workers pool ct ctx_mem tim_mem mem mc mo ot speed su = Some (ret, su')"
    and "distinct workers" and reg: "registry_ok (su_tasks su)" "general_processor_num (su_tasks su) + 3 \<le> MAX_PROCESSOR_NUM"
    "packet_processor_num (su_tasks su) < MAX_PROCESSOR_NUM"
  shows "ret = (if pool \<noteq> None \<and> (\<forall>core \<in> set workers. ct core \<noteq> None) then 1 else 0) \<and>
         (pool \<noteq> None \<longrightarrow> (\<forall>i < length workers.
            ct_table (su_tables su' (workers ! i)) = ct (workers ! i) \<and>
            ct_pool (su_tables su' (workers ! i)) = (clobber ^^ failed_before ct workers i) pool)) \<and>
         (ret = 1 \<longrightarrow>
            general_tasks (su_tasks su') = general_tasks (su_tasks su) @
              (if 0 < speed then [Some ''flowQoS_do_entry_event''] else []) @
              [Some ''_flowQoS_timer_tick'', Some ''flowQoS_conn_aging_handle''] \<and>
            packet_tasks (su_tasks su') = packet_tasks (su_tasks su) @ [Some ''flowQoS_conntrack_packet_processor''] \<and>
            (\<forall>core \<in> set workers. ct_pool (su_tables su' core) = pool \<and>
               offloadedNum (su_tables su' core) = of_int mo \<and> su_timers su' core = (if tim_mem core then Some (new_timer_mgr tsc mem) else None)))"
proof (cases pool)
  case None
  then show ?thesis using run by (simp add: flowQoS_conntrack_init_env_def)
next
  case (Some p)
  define at where "at = ct_init_attr hz tsc mc mo ot speed (su_attr su)"
  define ts where "ts = (su_tables su)(self := (su_tables su self)\<lparr>ct_pool := pool\<rparr>)"
  obtain ts' pl n where ic: "init_cores clobber ct at workers ts (pool, 0) = (ts', pl, n)" by (metis prod_cases3)
  have tab: "ct_table (ts' (workers ! i)) = ct (workers ! i) \<and> ct_pool (ts' (workers ! i)) = (clobber ^^ failed_before ct workers i) pool \<and>
      (ct (workers ! i) \<noteq> None \<longrightarrow> offloadedNum (ts' (workers ! i)) = of_int mo)" if "i < length workers" for i
    using init_cores_table [OF assms(2) that, where at = at and ts = ts and pool = pool and n = 0 and clobber = clobber and ct = ct] ic
    by (simp add: at_def ct_init_attr_def Let_def)
  have n: "n = length workers \<longleftrightarrow> (\<forall>core \<in> set workers. ct core \<noteq> None)"
    using init_cores_count [of clobber ct at workers ts pool 0] ic by (simp add: length_filter_all)
  obtain qos r cs where q: "(if 0 < speed then
                Option.bind (flowQoS_qos_init ctx_mem tsc hz workers 4 ct_weights mo speed)
                  (\<lambda>(_, ctx). map_option (\<lambda>(r, cs). (ctx, r, cs)) (qos_init_register (su_tasks su, su_cmds su)))
              else Some (su_qos su, su_tasks su, su_cmds su)) = Some (qos, r, cs)"
    using run by (auto simp: flowQoS_conntrack_init_env_def Let_def Some split: option.splits)
  have r: "registry_ok r \<and> general_tasks r = general_tasks (su_tasks su) @ (if 0 < speed then [Some ''flowQoS_do_entry_event''] else []) \<and>
      packet_tasks r = packet_tasks (su_tasks su) \<and> general_processor_num r \<le> general_processor_num (su_tasks su) + 1 \<and>
      packet_processor_num r = packet_processor_num (su_tasks su)"
    using q reg qos_register_tasks [OF reg(1), of "su_cmds su" r cs] by (auto simp: bind_eq_Some_conv split: if_splits)
  have np: "(pool = None) = False" using Some by simp
  define su1 where "su1 = su\<lparr>su_attr := at, su_qos := qos, su_tasks := r, su_cmds := cs, su_tables := ts'\<rparr>"
  have body: "(if n \<noteq> length workers then Some (0, su1)
            else
              Option.bind (registerConntrackCmd cs) (\<lambda>cs'.
                Option.bind (flowQoS_timer_init tim_mem hz (\<lambda>_. tsc) workers mem r) (\<lambda>(g, tm, r1).
                  Option.bind (register_general_processor ''flowQoS_conn_aging_handle'' ''Aging''
                                 (snd (register_packet_processor ''flowQoS_conntrack_packet_processor'' r1))) (\<lambda>(_, r2).
                    Some (1, su1\<lparr>su_cmds := cs', su_GAP := g, su_timers := tm, su_tasks := r2\<rparr>))))) = Some (ret, su')"
    using run np unfolding flowQoS_conntrack_init_env_def Let_def at_def [symmetric] ts_def [symmetric] q ic su1_def
    by (simp only: option.case prod.case if_False)
  show ?thesis
  proof (cases "n = length workers")
    case False
    then show ?thesis using body n tab Some by (auto simp: su1_def)
  next
    case True
    then obtain cs' g tm r1 k r2 where t: "flowQoS_timer_init tim_mem hz (\<lambda>_. tsc) workers mem r = Some (g, tm, r1)"
      and a: "register_general_processor ''flowQoS_conn_aging_handle'' ''Aging''
                (snd (register_packet_processor ''flowQoS_conntrack_packet_processor'' r1)) = Some (k, r2)"
      and e: "ret = 1" "su' = su1\<lparr>su_cmds := cs', su_GAP := g, su_timers := tm, su_tasks := r2\<rparr>"
      using body by (auto simp: bind_eq_Some_conv)
    have "general_processor_num r + 2 \<le> MAX_PROCESSOR_NUM" "packet_processor_num r < MAX_PROCESSOR_NUM" using r reg by auto
    note late = late_tasks [OF conjunct1 [OF r] this t a]
    have all: "\<forall>core \<in> set workers. ct core \<noteq> None" using n True by simp
    then have nf: "failed_before ct workers i = 0" for i by (auto dest: in_set_takeD simp: filter_empty_conv)
    have "\<forall>core \<in> set workers. ct_pool (ts' core) = pool \<and> offloadedNum (ts' core) = of_int mo"
      using tab nf all by (fastforce simp: in_set_conv_nth)
    then show ?thesis using e late r tab all Some by (auto simp: su1_def flowQoS_timer_mgr_init_def)
  qed
qed

lemma conntrack_init_env_results_witness:
  "\<exists>ret su'. flowQoS_conntrack_init_env (\<lambda>_. None) 1000000 5 0 [1, 2, 3] (Some ''pool'') [1 \<mapsto> ''CT-1'', 3 \<mapsto> ''CT-3''] (\<lambda>_. True) (\<lambda>core. core \<noteq> 2) (\<lambda>_. zero_timer)
       100 50 0 0 \<lparr>su_attr = attr_init, su_tables = (\<lambda>_. \<lparr>ct_pool = None, ct_table = None, offloadedNum = 0\<rparr>), su_qos = Map.empty, su_GAP = 0,
         su_timers = Map.empty, su_tasks = processors_init, su_cmds = cmd_init\<rparr> = Some (ret, su') \<and>
     ret = 0 \<and> ct_pool (su_tables su' 2) = Some ''pool'' \<and> ct_pool (su_tables su' 3) = None"
proof -
  define su where "su = \<lparr>su_attr = attr_init, su_tables = (\<lambda>_ :: nat. \<lparr>ct_pool = None :: string option, ct_table = None :: string option, offloadedNum = 0\<rparr>),
    su_qos = Map.empty :: nat \<rightharpoonup> FlowQoS_Stats, su_GAP = 0, su_timers = Map.empty :: nat \<rightharpoonup> flowQoS_timer_mgr, su_tasks = processors_init, su_cmds = cmd_init\<rparr>"
  let ?ct = "[1 \<mapsto> ''CT-1'', 3 \<mapsto> ''CT-3'']" and ?w = "[1, 2, 3 :: nat]"
  let ?run = "flowQoS_conntrack_init_env (\<lambda>_. None) 1000000 5 0 ?w (Some ''pool'') ?ct (\<lambda>_. True) (\<lambda>core. core \<noteq> 2) (\<lambda>_. zero_timer) 100 50 0 0 su"
  obtain ret su' where run: "?run = Some (ret, su')"
    by (simp add: flowQoS_conntrack_init_env_def flowQoS_init_per_core_def Let_def)
  have reg: "registry_ok (su_tasks su)" "general_processor_num (su_tasks su) + 3 \<le> MAX_PROCESSOR_NUM"
    "packet_processor_num (su_tasks su) < MAX_PROCESSOR_NUM"
    by (simp_all add: su_def registry_ok_def processors_init_def flow_consts)
  have "distinct ?w" by simp
  from conntrack_init_env_results [OF run this reg]
  have "ret = 0" "\<forall>i < length ?w. ct_pool (su_tables su' (?w ! i)) = ((\<lambda>_. None) ^^ failed_before ?ct ?w i) (Some ''pool'')"
    by simp_all
  with run show ?thesis unfolding su_def by (simp add: All_less_Suc numeral_2_eq_2 numeral_3_eq_3)
qed

end
