(* ===== verification/Router.thy ===== *)
theory Router
  imports Conntrack
begin

text \<open>
  The router (\<open>src/src/flowQoS_router.c\<close>): the addresses of the local ports, one ARP table per port, the
  routing table with its longest-prefix-match index, the commands that change them, and the packet task
  that answers ARP and ICMP echo requests. The LPM library, the allocation of an ARP table and the value
  the machine gives to a shift of 32 bits or more, which C leaves undefined, are parameters. A result
  \<open>None\<close> means that the call does not return (a lock is never obtained) or is undefined. Port numbers come
  from the device or from \<open>isLocalIP\<close> and are below \<open>MAX_ETHPORTS\<close>. Addresses are in host order.
\<close>

section \<open>Data\<close>

definition IPV4_L3FWD_LPM_MAX_RULES :: nat where [flow_consts]: "IPV4_L3FWD_LPM_MAX_RULES = 256"

record ARP_Entry =
  ae_ip :: u32
  ae_mac :: "u8 list"

text \<open>A lock counts its readers; -1 is a writer.\<close>

record ARP_Table =
  at_port_id :: u32
  at_MaxEntry :: u32
  at_Mask :: u32
  at_arps :: "ARP_Entry list option"
  at_lock :: int

record LocalPortInfo =
  pi_name :: string
  pi_ip :: u32
  pi_prefix :: u32
  pi_mac :: "u8 list"
  pi_mtu :: u16
  pi_txqueuelen :: u16

record 'l RoutingTable =
  rt_lpm :: "'l option"
  rt_ip :: "nat \<Rightarrow> u32"
  rt_prefix :: "nat \<Rightarrow> u32"
  rt_gw_ip :: "nat \<Rightarrow> u32"
  rt_port_id :: "nat \<Rightarrow> u32"
  rt_lock :: int

record 'l router =
  arp_tables :: "nat \<Rightarrow> ARP_Table"
  localPortInfo :: "nat \<Rightarrow> LocalPortInfo"
  routingTable :: "'l RoutingTable"

record 'l router_ops =
  rte_lpm_create :: "nat \<Rightarrow> 'l option"
  rte_lpm_lookup :: "u32 \<Rightarrow> 'l \<Rightarrow> u32 option"
  rte_lpm_add :: "u32 \<Rightarrow> u32 \<Rightarrow> u32 \<Rightarrow> 'l \<Rightarrow> int \<times> 'l"
  rte_lpm_delete :: "u32 \<Rightarrow> u32 \<Rightarrow> 'l \<Rightarrow> int \<times> 'l"
  arp_malloc :: "u32 \<Rightarrow> bool"
  shift_out :: "u32 \<Rightarrow> u32"

definition zero_arp :: ARP_Entry where
  "zero_arp = \<lparr>ae_ip = 0, ae_mac = replicate 6 0\<rparr>"

definition arp_table_init :: ARP_Table where
  "arp_table_init = \<lparr>at_port_id = 0, at_MaxEntry = 0, at_Mask = 0, at_arps = None, at_lock = 0\<rparr>"

definition port_info_init :: LocalPortInfo where
  "port_info_init = \<lparr>pi_name = [], pi_ip = 0, pi_prefix = 0, pi_mac = replicate 6 0, pi_mtu = 0, pi_txqueuelen = 0\<rparr>"

definition routing_table_init :: "'l RoutingTable" where
  "routing_table_init = \<lparr>rt_lpm = None, rt_ip = (\<lambda>_. 0), rt_prefix = (\<lambda>_. 0), rt_gw_ip = (\<lambda>_. 0), rt_port_id = (\<lambda>_. 0), rt_lock = 0\<rparr>"

text \<open>\<open>1 << n\<close> and the netmask \<open>~((1 << (32 - prefix)) - 1)\<close>.\<close>

definition shl1 :: "'l router_ops \<Rightarrow> u32 \<Rightarrow> u32" where
  "shl1 ops n = (if n < 32 then push_bit (unat n) 1 else shift_out ops n)"

definition netmask :: "'l router_ops \<Rightarrow> u32 \<Rightarrow> u32" where
  "netmask ops prefix = NOT (shl1 ops (32 - prefix) - 1)"

section \<open>Local ports\<close>

text \<open>What the device reports for a port: MTU, length of a transmit queue and MAC address.\<close>

definition initLocalPortInfo :: "(nat \<Rightarrow> u16 \<times> u16 \<times> u8 list) \<Rightarrow> nat \<Rightarrow> 'l router \<Rightarrow> 'l router" where
  "initLocalPortInfo dev port_id s =
     (case dev port_id of (mtu, nb_desc, mac) \<Rightarrow>
        s\<lparr>localPortInfo := (localPortInfo s)(port_id := (localPortInfo s port_id)\<lparr>pi_name := ''dpdk'' @ dec port_id,
            pi_mtu := mtu, pi_txqueuelen := nb_desc, pi_mac := mac\<rparr>)\<rparr>)"

definition flowQoS_router_getPortMac :: "nat \<Rightarrow> 'l router \<Rightarrow> u8 list" where
  "flowQoS_router_getPortMac port_id s = pi_mac (localPortInfo s port_id)"

definition flowQoS_router_setPortMac :: "nat \<Rightarrow> u8 list \<Rightarrow> 'l router \<Rightarrow> 'l router" where
  "flowQoS_router_setPortMac port_id mac s =
     s\<lparr>localPortInfo := (localPortInfo s)(port_id := (localPortInfo s port_id)\<lparr>pi_mac := mac\<rparr>)\<rparr>"

definition flowQoS_router_getLocalName :: "nat \<Rightarrow> 'l router \<Rightarrow> string option" where
  "flowQoS_router_getLocalName port_id s = (if port_id < NB_PORTS then Some (pi_name (localPortInfo s port_id)) else None)"

definition flowQoS_router_getLocalIP :: "nat \<Rightarrow> 'l router \<Rightarrow> u32" where
  "flowQoS_router_getLocalIP port_id s = pi_ip (localPortInfo s port_id)"

fun first_local :: "'l router_ops \<Rightarrow> u32 \<Rightarrow> nat list \<Rightarrow> 'l router \<Rightarrow> int" where
  "first_local ops tip [] s = -1"
| "first_local ops tip (i # is) s =
     (let mask = netmask ops (pi_prefix (localPortInfo s i)) in
      if tip AND mask = pi_ip (localPortInfo s i) AND mask then int i else first_local ops tip is s)"

definition flowQoS_router_isLocalIP :: "'l router_ops \<Rightarrow> u32 \<Rightarrow> 'l router \<Rightarrow> int" where
  "flowQoS_router_isLocalIP ops tip s = first_local ops tip [0..<NB_PORTS] s"

section \<open>ARP tables\<close>

text \<open>
  An operation on an ARP table takes its lock, which it obtains when no writer (and, to write, no reader)
  holds it, and releases it on every path, so that the count is the same afterwards.
\<close>

definition upd_arp :: "nat \<Rightarrow> (ARP_Table \<Rightarrow> ARP_Table) \<Rightarrow> 'l router \<Rightarrow> 'l router" where
  "upd_arp port_id f s = s\<lparr>arp_tables := (arp_tables s)(port_id := f (arp_tables s port_id))\<rparr>"

definition flowQoS_router_initARP_Table :: "'l router_ops \<Rightarrow> nat \<Rightarrow> u32 \<Rightarrow> 'l router \<Rightarrow> (int \<times> 'l router) option" where
  "flowQoS_router_initARP_Table ops port_id postfix_len s =
     (if at_lock (arp_tables s port_id) \<noteq> 0 then None
      else
        let n = shl1 ops postfix_len;
            s1 = upd_arp port_id (\<lambda>t. t\<lparr>at_port_id := of_nat port_id, at_MaxEntry := n, at_Mask := n - 1\<rparr>) s
        in if arp_malloc ops n
           then Some (1, upd_arp port_id (\<lambda>t. t\<lparr>at_arps := Some (replicate (unat n) zero_arp)\<rparr>) s1)
           else Some (0, upd_arp port_id (\<lambda>t. t\<lparr>at_arps := None\<rparr>) s1))"

definition arp_pos :: "ARP_Table \<Rightarrow> u32 \<Rightarrow> nat" where
  "arp_pos t ip = unat (ip AND at_Mask t)"

text \<open>Both \<open>put_arp\<close> and \<open>del_arp\<close> store an entry at the position of the address.\<close>

definition store_arp :: "nat \<Rightarrow> u32 \<Rightarrow> ARP_Entry \<Rightarrow> 'l router \<Rightarrow> (int \<times> 'l router) option" where
  "store_arp port_id ip en s =
     (let t = arp_tables s port_id in
      if at_lock t \<noteq> 0 then None
      else case at_arps t of
             None \<Rightarrow> Some (0, s)
           | Some arps \<Rightarrow> if arp_pos t ip < length arps
                          then Some (1, upd_arp port_id (\<lambda>t. t\<lparr>at_arps := Some (arps[arp_pos t ip := en])\<rparr>) s)
                          else None)"

definition flowQoS_router_put_arp :: "nat \<Rightarrow> u32 \<Rightarrow> u8 list \<Rightarrow> 'l router \<Rightarrow> (int \<times> 'l router) option" where
  "flowQoS_router_put_arp port_id ip mac s = store_arp port_id ip \<lparr>ae_ip = ip, ae_mac = mac\<rparr> s"

definition flowQoS_router_del_arp :: "nat \<Rightarrow> u32 \<Rightarrow> 'l router \<Rightarrow> (int \<times> 'l router) option" where
  "flowQoS_router_del_arp port_id ip s = store_arp port_id ip zero_arp s"

text \<open>The MAC address found, if any.\<close>

definition flowQoS_router_get_arp :: "nat \<Rightarrow> u32 \<Rightarrow> 'l router \<Rightarrow> (u8 list option) option" where
  "flowQoS_router_get_arp port_id ip s =
     (let t = arp_tables s port_id in
      if at_lock t < 0 then None
      else case at_arps t of
             None \<Rightarrow> Some None
           | Some arps \<Rightarrow> if arp_pos t ip < length arps
                          then let en = arps ! arp_pos t ip in Some (if ae_ip en = 0 then None else Some (ae_mac en))
                          else None)"

section \<open>The routing table\<close>

definition upd_rt :: "('l RoutingTable \<Rightarrow> 'l RoutingTable) \<Rightarrow> 'l router \<Rightarrow> 'l router" where
  "upd_rt f s = s\<lparr>routingTable := f (routingTable s)\<rparr>"

definition rte_rwlock_read_lock :: "'l router \<Rightarrow> 'l router option" where
  "rte_rwlock_read_lock s = (if rt_lock (routingTable s) < 0 then None else Some (upd_rt (\<lambda>r. r\<lparr>rt_lock := rt_lock r + 1\<rparr>) s))"

definition rte_rwlock_read_unlock :: "'l router \<Rightarrow> 'l router" where
  "rte_rwlock_read_unlock = upd_rt (\<lambda>r. r\<lparr>rt_lock := rt_lock r - 1\<rparr>)"

definition rte_rwlock_write_lock :: "'l router \<Rightarrow> 'l router option" where
  "rte_rwlock_write_lock s = (if rt_lock (routingTable s) \<noteq> 0 then None else Some (upd_rt (\<lambda>r. r\<lparr>rt_lock := -1\<rparr>) s))"

definition rte_rwlock_write_unlock :: "'l router \<Rightarrow> 'l router" where
  "rte_rwlock_write_unlock = upd_rt (\<lambda>r. r\<lparr>rt_lock := 0\<rparr>)"

definition flowQoS_router_initRoutingTable :: "'l router_ops \<Rightarrow> 'l router \<Rightarrow> int \<times> 'l router" where
  "flowQoS_router_initRoutingTable ops s =
     (if rt_lpm (routingTable s) \<noteq> None then (0, s)
      else case rte_lpm_create ops IPV4_L3FWD_LPM_MAX_RULES of
             None \<Rightarrow> (0, s)
           | Some l \<Rightarrow> (1, upd_rt (\<lambda>r. r\<lparr>rt_lpm := Some l, rt_lock := 0\<rparr>) s))"

text \<open>
  The result and the port and gateway stored through the pointers. A lookup that fails leaves the
  position 0; the library looks nothing up in a table that was never created.
\<close>

definition flowQoS_router_findRoute :: "'l router_ops \<Rightarrow> u32 \<Rightarrow> 'l router \<Rightarrow> (int \<times> u32 \<times> u32 \<times> 'l router) option" where
  "flowQoS_router_findRoute ops ip s =
     (case rte_rwlock_read_lock s of None \<Rightarrow> None
      | Some s1 \<Rightarrow>
        (case rt_lpm (routingTable s1) of None \<Rightarrow> None
         | Some l \<Rightarrow>
           let (ret, pos) = (case rte_lpm_lookup ops ip l of
                               Some p \<Rightarrow> (1, unat p)
                             | None \<Rightarrow> (case rte_lpm_lookup ops 0 l of Some p \<Rightarrow> (1, unat p) | None \<Rightarrow> (0, 0)))
           in if pos < IPV4_L3FWD_LPM_MAX_RULES
              then Some (ret, rt_port_id (routingTable s1) pos, rt_gw_ip (routingTable s1) pos, rte_rwlock_read_unlock s1)
              else None))"

definition isRoute :: "nat \<Rightarrow> 'l router \<Rightarrow> bool" where
  "isRoute pos s \<longleftrightarrow>
     rt_port_id (routingTable s) pos + rt_gw_ip (routingTable s) pos + rt_ip (routingTable s) pos + rt_prefix (routingTable s) pos \<noteq> 0"

text \<open>The search of \<open>addRoute\<close>: \<open>None\<close> when a route to the network exists, else the last free position.\<close>

fun find_slot :: "u32 \<Rightarrow> nat list \<Rightarrow> int \<Rightarrow> 'l router \<Rightarrow> int option" where
  "find_slot ip [] pos s = Some pos"
| "find_slot ip (i # is) pos s =
     (if isRoute i s then (if ip = rt_ip (routingTable s) i then None else find_slot ip is pos s)
      else find_slot ip is (int i) s)"

definition add_at :: "'l router_ops \<Rightarrow> u32 \<Rightarrow> u32 \<Rightarrow> u32 \<Rightarrow> nat \<Rightarrow> 'l router \<Rightarrow> int \<times> 'l router" where
  "add_at ops ip prefix gw_ip pos s =
     (case rt_lpm (routingTable s) of None \<Rightarrow> (0, s)
      | Some l \<Rightarrow>
        (case rte_lpm_add ops ip prefix (of_nat pos) l of (ret, l') \<Rightarrow>
           let s1 = upd_rt (\<lambda>r. r\<lparr>rt_lpm := Some l'\<rparr>) s in
           if ret = 0 then
             let port = flowQoS_router_isLocalIP ops (if gw_ip = 0 then ip else gw_ip) s1 in
             if port = -1 then (0, s1)
             else (1, upd_rt (\<lambda>r. r\<lparr>rt_ip := (rt_ip r)(pos := ip AND netmask ops prefix), rt_prefix := (rt_prefix r)(pos := prefix),
                                  rt_gw_ip := (rt_gw_ip r)(pos := gw_ip), rt_port_id := (rt_port_id r)(pos := of_int port)\<rparr>) s1)
           else (0, s1)))"

definition flowQoS_router_addRoute :: "'l router_ops \<Rightarrow> u32 \<Rightarrow> u32 \<Rightarrow> u32 \<Rightarrow> 'l router \<Rightarrow> (int \<times> 'l router) option" where
  "flowQoS_router_addRoute ops ip prefix gw_ip s =
     (case rte_rwlock_write_lock s of None \<Rightarrow> None
      | Some s1 \<Rightarrow>
        let ip = ip AND netmask ops prefix in
        (case find_slot ip [0..<IPV4_L3FWD_LPM_MAX_RULES] (-1) s1 of
           None \<Rightarrow> Some (0, rte_rwlock_write_unlock s1)
         | Some pos \<Rightarrow>
             if pos = -1 then Some (0, rte_rwlock_write_unlock s1)
             else case add_at ops ip prefix gw_ip (nat pos) s1 of (ret, s2) \<Rightarrow> Some (ret, rte_rwlock_write_unlock s2)))"

fun del_loop :: "'l router_ops \<Rightarrow> u32 \<Rightarrow> u32 \<Rightarrow> nat list \<Rightarrow> 'l router \<Rightarrow> (int \<times> 'l router) option" where
  "del_loop ops ip prefix [] s = Some (0, s)"
| "del_loop ops ip prefix (i # is) s =
     (if isRoute i s \<and> ip = rt_ip (routingTable s) i then
        case flowQoS_router_findRoute ops (rt_ip (routingTable s) i) s of None \<Rightarrow> None
        | Some (_, _, _, s1) \<Rightarrow>
          (case rt_lpm (routingTable s1) of None \<Rightarrow> del_loop ops ip prefix is s1
           | Some l \<Rightarrow>
             (case rte_lpm_delete ops ip prefix l of (ret, l') \<Rightarrow>
                let s2 = upd_rt (\<lambda>r. r\<lparr>rt_lpm := Some l'\<rparr>) s1 in
                if ret = 0 then Some (1, upd_rt (\<lambda>r. r\<lparr>rt_ip := (rt_ip r)(i := 0), rt_prefix := (rt_prefix r)(i := 0),
                                                     rt_gw_ip := (rt_gw_ip r)(i := 0), rt_port_id := (rt_port_id r)(i := 0)\<rparr>) s2)
                else del_loop ops ip prefix is s2))
      else del_loop ops ip prefix is s)"

definition flowQoS_router_delRoute :: "'l router_ops \<Rightarrow> u32 \<Rightarrow> u32 \<Rightarrow> 'l router \<Rightarrow> (int \<times> 'l router) option" where
  "flowQoS_router_delRoute ops ip prefix s =
     (case rte_rwlock_write_lock s of None \<Rightarrow> None
      | Some s1 \<Rightarrow>
        (case del_loop ops (ip AND netmask ops prefix) prefix [0..<IPV4_L3FWD_LPM_MAX_RULES] s1 of None \<Rightarrow> None
         | Some (ret, s2) \<Rightarrow> Some (ret, rte_rwlock_write_unlock s2)))"

text \<open>The rows of \<open>dumpRoute\<close>: destination, gateway, netmask and port name.\<close>

definition dotted :: "u32 \<Rightarrow> string" where
  "dotted ip = ip_str (bswap32 ip)"

fun route_rows :: "'l router_ops \<Rightarrow> nat list \<Rightarrow> 'l router \<Rightarrow> ((string \<times> string \<times> string \<times> string) list \<times> 'l router) option" where
  "route_rows ops [] s = Some ([], s)"
| "route_rows ops (i # is) s =
     (if isRoute i s then
        let ip = rt_ip (routingTable s) i; mask = netmask ops (rt_prefix (routingTable s) i) in
        case flowQoS_router_findRoute ops ip s of None \<Rightarrow> None
        | Some (ret, port_id, gw_ip, s1) \<Rightarrow>
            map_option (\<lambda>(rows, s2).
              ((if ret \<noteq> 0 then [(if ip = 0 then ''default'' else dotted ip, dotted gw_ip, if ip = 0 then ''0.0.0.0'' else dotted mask,
                                 pi_name (localPortInfo s1 (unat port_id)))] else []) @ rows, s2))
              (route_rows ops is s1)
      else route_rows ops is s)"

definition flowQoS_router_dumpRoute ::
  "'l router_ops \<Rightarrow> 'l router \<Rightarrow> (int \<times> (string \<times> string \<times> string \<times> string) list \<times> 'l router) option" where
  "flowQoS_router_dumpRoute ops s =
     (case rte_rwlock_read_lock s of None \<Rightarrow> None
      | Some s1 \<Rightarrow> map_option (\<lambda>(rows, s2). (int (length rows), rows, rte_rwlock_read_unlock s2))
                      (route_rows ops [0..<IPV4_L3FWD_LPM_MAX_RULES] s1))"

text \<open>The rows of \<open>dumpARP\<close>: address, MAC address and port name.\<close>

definition printARP :: "ARP_Entry \<Rightarrow> u32 \<Rightarrow> 'l router \<Rightarrow> string \<times> string \<times> string" where
  "printARP en port_id s = (dotted (ae_ip en), mac_str (ae_mac en), pi_name (localPortInfo s (unat port_id)))"

definition flowQoS_router_dumpARP :: "'l router \<Rightarrow> ((string \<times> string \<times> string) list) option" where
  "flowQoS_router_dumpARP s =
     (if \<exists>i \<in> set [0..<MAX_ETHPORTS]. at_lock (arp_tables s i) < 0 then None
      else Some (concat (map (\<lambda>i. let t = arp_tables s i in
        case at_arps t of None \<Rightarrow> []
        | Some arps \<Rightarrow> map (\<lambda>en. printARP en (at_port_id t) s) (filter (\<lambda>en. ae_ip en \<noteq> 0) (take (unat (at_MaxEntry t)) arps)))
        [0..<MAX_ETHPORTS])))"

text \<open>The line of \<open>printLocalPortInfo\<close> with the address, the netmask and the broadcast address.\<close>

definition inet_line :: "'l router_ops \<Rightarrow> nat \<Rightarrow> 'l router \<Rightarrow> (string \<times> string \<times> string) option" where
  "inet_line ops port_id s =
     (let tip = pi_ip (localPortInfo s port_id); prefix = pi_prefix (localPortInfo s port_id) in
      if tip \<noteq> 0 then Some (dotted tip, dotted (netmask ops prefix), dotted (tip OR (shl1 ops (32 - prefix) - 1))) else None)"

section \<open>Commands\<close>

fun ifconfig_loop :: "'l router_ops \<Rightarrow> string \<Rightarrow> u32 \<Rightarrow> u32 \<Rightarrow> nat list \<Rightarrow> 'l router \<Rightarrow> (int \<times> 'l router) option" where
  "ifconfig_loop ops name ip prefix [] s = Some (0, s)"
| "ifconfig_loop ops name ip prefix (i # is) s =
     (if pi_name (localPortInfo s i) = name then
        case (if pi_ip (localPortInfo s i) \<noteq> 0
              then flowQoS_router_delRoute ops (pi_ip (localPortInfo s i)) (pi_prefix (localPortInfo s i)) s
              else Some (0, s)) of None \<Rightarrow> None
        | Some (_, s1) \<Rightarrow>
          (let s2 = s1\<lparr>localPortInfo := (localPortInfo s1)(i := (localPortInfo s1 i)\<lparr>pi_ip := ip, pi_prefix := prefix\<rparr>)\<rparr> in
           case flowQoS_router_initARP_Table ops i (32 - prefix) s2 of None \<Rightarrow> None
           | Some (_, s3) \<Rightarrow> map_option (\<lambda>(_, s4). (1, s4)) (flowQoS_router_addRoute ops ip prefix 0 s3))
      else ifconfig_loop ops name ip prefix is s)"

definition flowQoS_router_ifconfig :: "'l router_ops \<Rightarrow> string \<Rightarrow> u32 \<Rightarrow> u32 \<Rightarrow> 'l router \<Rightarrow> (int \<times> 'l router) option" where
  "flowQoS_router_ifconfig ops name ip prefix s = ifconfig_loop ops name ip prefix [0..<NB_PORTS] s"

text \<open>The prefix length of a netmask, as \<open>ifconfig_cmd_parsed\<close> and \<open>route_cmd_parsed\<close> search for it.\<close>

definition prefix_of_netmask :: "u32 \<Rightarrow> nat" where
  "prefix_of_netmask mask_ip =
     (let prefix = fold (\<lambda>i prefix. if NOT (push_bit i 1 - 1) = mask_ip then 32 - i else prefix) [0..<32] 0
      in if prefix = 0 then 24 else prefix)"

text \<open>
  The commands; an address is \<open>None\<close> when it is not an IPv4 address, and the MAC address \<open>None\<close> when it
  does not parse. The result tells whether the command was carried out.
\<close>

definition ifconfig_cmd_parsed :: "'l router_ops \<Rightarrow> string \<Rightarrow> u32 option \<Rightarrow> u32 option \<Rightarrow> 'l router \<Rightarrow> 'l router option" where
  "ifconfig_cmd_parsed ops dev ip mask_ip s =
     (case (ip, mask_ip) of
        (Some a, Some b) \<Rightarrow> map_option snd (flowQoS_router_ifconfig ops dev (bswap32 a) (of_nat (prefix_of_netmask (bswap32 b))) s)
      | _ \<Rightarrow> Some s)"

definition arp_cmd_parsed :: "'l router_ops \<Rightarrow> string \<Rightarrow> u32 option \<Rightarrow> u8 list option \<Rightarrow> 'l router \<Rightarrow> 'l router option" where
  "arp_cmd_parsed ops action ip mac s =
     (case ip of None \<Rightarrow> Some s
      | Some a \<Rightarrow>
        (case mac of None \<Rightarrow> Some s
         | Some peer_addr \<Rightarrow>
           let tip = bswap32 a; port = flowQoS_router_isLocalIP ops tip s in
           if port \<noteq> -1
           then map_option snd (if action = ''-s'' then flowQoS_router_put_arp (nat port) tip peer_addr s
                                else flowQoS_router_del_arp (nat port) tip s)
           else Some s))"

text \<open>The family of the netmask of \<open>route\<close> is not tested.\<close>

definition route_cmd_parsed :: "'l router_ops \<Rightarrow> string \<Rightarrow> u32 option \<Rightarrow> u32 \<Rightarrow> u32 option \<Rightarrow> 'l router \<Rightarrow> 'l router option" where
  "route_cmd_parsed ops action ip mask_ip gw_ip s =
     (case (ip, gw_ip) of
        (Some a, Some g) \<Rightarrow>
          let prefix = of_nat (prefix_of_netmask (bswap32 mask_ip)) in
          map_option snd (if action = ''add'' then flowQoS_router_addRoute ops (bswap32 a) prefix (bswap32 g) s
                          else flowQoS_router_delRoute ops (bswap32 a) prefix s)
      | _ \<Rightarrow> Some s)"

definition default_route_cmd_parsed :: "'l router_ops \<Rightarrow> string \<Rightarrow> u32 option \<Rightarrow> 'l router \<Rightarrow> 'l router option" where
  "default_route_cmd_parsed ops action gw_ip s =
     (case gw_ip of None \<Rightarrow> Some s
      | Some g \<Rightarrow> map_option snd (if action = ''add'' then flowQoS_router_addRoute ops 0 32 (bswap32 g) s
                                  else flowQoS_router_delRoute ops 0 32 s))"

definition registRoutingModule ::
  "'l router_ops \<Rightarrow> (nat \<Rightarrow> u16 \<times> u16 \<times> u8 list) \<Rightarrow> bool \<Rightarrow> cmd_state \<times> 'l router \<Rightarrow> (cmd_state \<times> 'l router) option" where
  "registRoutingModule ops dev needCmdline st =
     (let s = fold (\<lambda>i s. upd_arp i (\<lambda>t. t\<lparr>at_lock := 0\<rparr>) (initLocalPortInfo dev i s)) [0..<NB_PORTS] (snd st);
          s1 = snd (flowQoS_router_initRoutingTable ops s)
      in if needCmdline then
           map_option (\<lambda>cs. (cs, s1))
             (fold (\<lambda>obj r. case r of None \<Rightarrow> None | Some cs \<Rightarrow> map_option snd (flowQoS_registCmd obj cs))
                [''cmd_routing_simple_obj'', ''default_route_cmd_obj'', ''ifconfig_cmd_obj'', ''arp_cmd_obj'', ''route_cmd_obj'']
                (Some (fst st)))
         else Some (fst st, s1))"

section \<open>The ARP and ICMP responder\<close>

text \<open>The further fields of a packet the responder works on; multi-byte fields are in network order.\<close>

record icmp_mbuf = rte_mbuf +
  ether_type :: u16
  arp_hardware :: u16
  arp_protocol :: u16
  arp_hlen :: u8
  arp_plen :: u8
  arp_opcode :: u16
  arp_sip :: u32
  arp_tip :: u32
  arp_sha :: "u8 list"
  arp_tha :: "u8 list"
  ip_packet_id :: u16
  ip_fragment_offset :: u16
  icmp_type :: u8
  icmp_cksum :: u16
  mb_l2_len :: nat
  mb_l3_len :: nat

definition RTE_ETHER_TYPE_ARP :: u16 where [flow_consts]: "RTE_ETHER_TYPE_ARP = 0x0806"
definition RTE_ETHER_TYPE_IPV4 :: u16 where [flow_consts]: "RTE_ETHER_TYPE_IPV4 = 0x0800"
definition RTE_IP_ICMP_ECHO_REQUEST :: u8 where [flow_consts]: "RTE_IP_ICMP_ECHO_REQUEST = 8"
definition RTE_IP_ICMP_ECHO_REPLY :: u8 where [flow_consts]: "RTE_IP_ICMP_ECHO_REPLY = 0"

definition arp_reply :: "u8 list \<Rightarrow> icmp_mbuf \<Rightarrow> icmp_mbuf" where
  "arp_reply mac m =
     m\<lparr>arp_hardware := bswap16 1, arp_protocol := bswap16 RTE_ETHER_TYPE_IPV4, arp_hlen := 6, arp_plen := 4, arp_opcode := bswap16 2,
       eth_d_addr := eth_s_addr m, eth_s_addr := mac, arp_sha := mac, arp_tha := eth_s_addr m,
       arp_sip := arp_tip m, arp_tip := arp_sip m\<rparr>"

definition icmp_reply :: "icmp_mbuf \<Rightarrow> icmp_mbuf" where
  "icmp_reply m =
     m\<lparr>eth_s_addr := eth_d_addr m, eth_d_addr := eth_s_addr m, ip_packet_id := 0, ip_fragment_offset := 0, ip_time_to_live := 64,
       ip_src_addr := ip_dst_addr m, ip_dst_addr := ip_src_addr m, ip_hdr_checksum := 0, mb_l2_len := 14, mb_l3_len := 20,
       mb_ol_flags := mb_ol_flags m \<union> {PKT_TX_IPV4, PKT_TX_IP_CKSUM},
       icmp_type := RTE_IP_ICMP_ECHO_REPLY, icmp_cksum := icmp_cksum m + bswap16 0x0800\<rparr>"

definition flowQoS_ARP_ICMP_PROCESS :: "icmp_mbuf \<Rightarrow> 'l router \<Rightarrow> (int \<times> icmp_mbuf \<times> 'l router) option" where
  "flowQoS_ARP_ICMP_PROCESS m s =
     (if ether_type m = bswap16 RTE_ETHER_TYPE_ARP then
        if bswap32 (arp_tip m) = flowQoS_router_getLocalIP (mb_port m) s then
          map_option (\<lambda>(_, s'). (int (mb_port m), arp_reply (pi_mac (localPortInfo s' (mb_port m))) m, s'))
            (flowQoS_router_put_arp (mb_port m) (bswap32 (arp_sip m)) (eth_s_addr m) s)
        else Some (IGNORE_PACKETS, m, s)
      else if mb_is_ipv4 m \<and> ip_next_proto_id m = 1 \<and> bswap32 (ip_dst_addr m) = flowQoS_router_getLocalIP (mb_port m) s \<and>
              icmp_type m = RTE_IP_ICMP_ECHO_REQUEST
           then Some (int (mb_port m), icmp_reply m, s)
           else Some (IGNORE_PACKETS, m, s))"

end
