(* ===== verification/Router_Props.thy ===== *)
theory Router_Props
  imports Router
begin

text \<open>
  Properties of the router: the ARP table of a port as a map on the addresses of its subnet, netmasks and
  prefix lengths, adding, finding and deleting routes on top of the laws of longest prefix match, and the
  answers to ARP and ICMP echo requests.
\<close>

section \<open>ARP tables\<close>

definition arp_ok :: "nat \<Rightarrow> 'l router \<Rightarrow> bool" where
  "arp_ok port s \<longleftrightarrow> (let t = arp_tables s port in at_lock t = 0 \<and>
     (case at_arps t of None \<Rightarrow> True | Some arps \<Rightarrow> unat (at_Mask t) < length arps))"

definition same_subnet :: "ARP_Table \<Rightarrow> u32 \<Rightarrow> u32 \<Rightarrow> bool" where
  "same_subnet t a b \<longleftrightarrow> a AND NOT (at_Mask t) = b AND NOT (at_Mask t)"

lemma arp_pos_bound: "arp_ok port s \<Longrightarrow> at_arps (arp_tables s port) = Some arps \<Longrightarrow> arp_pos (arp_tables s port) ip < length arps"
proof -
  assume a: "arp_ok port s" "at_arps (arp_tables s port) = Some arps"
  have "ip AND at_Mask (arp_tables s port) \<le> at_Mask (arp_tables s port)" by (rule word_and_le1)
  then show ?thesis using a by (auto simp: arp_ok_def arp_pos_def Let_def word_le_nat_alt)
qed

lemma word_split_mask: "(a :: 'a::len word) AND m = b AND m \<Longrightarrow> a AND NOT m = b AND NOT m \<Longrightarrow> a = b"
proof (rule bit_word_eqI)
  fix n
  assume "a AND m = b AND m" and "a AND NOT m = b AND NOT m" and n: "n < LENGTH('a)"
  then have "bit (a AND m) n = bit (b AND m) n" "bit (a AND NOT m) n = bit (b AND NOT m) n" by simp_all
  then show "bit a n = bit b n" using n by (auto simp: bit_simps)
qed

lemma arp_pos_inj: "same_subnet t a b \<Longrightarrow> arp_pos t a = arp_pos t b \<longleftrightarrow> a = b"
  using word_split_mask [of a "at_Mask t" b] by (auto simp: same_subnet_def arp_pos_def word_unat_eq_iff [symmetric])

lemma shl1_small: "n < 32 \<Longrightarrow> unat (shl1 ops n) = 2 ^ unat n"
proof -
  assume n: "n < 32"
  then have k: "unat n < 32" by (simp add: word_less_nat_alt)
  then have "(2 :: nat) ^ unat n < 2 ^ 32" by (rule power_strict_increasing) simp
  then have "unat (of_nat (2 ^ unat n) :: u32) = 2 ^ unat n" by (simp only: unsigned_of_nat) (simp add: take_bit_nat_eq_self k)
  then show ?thesis using n by (simp add: shl1_def push_bit_eq_mult)
qed

lemma init_arp_ok:
  assumes "postfix < 32" and "flowQoS_router_initARP_Table ops port postfix s = Some (r, s')"
  shows "arp_ok port s'"
proof -
  have "unat (shl1 ops postfix) = 2 ^ unat postfix" by (rule shl1_small [OF assms(1)])
  moreover have "unat (shl1 ops postfix - 1) = unat (shl1 ops postfix) - 1"
    using \<open>unat (shl1 ops postfix) = 2 ^ unat postfix\<close> by (subst unat_minus_one) auto
  moreover have "(0::nat) < 2 ^ unat postfix" by simp
  ultimately have "unat (shl1 ops postfix - 1) < unat (shl1 ops postfix)" by linarith
  then show ?thesis using assms(2)
    by (auto simp: flowQoS_router_initARP_Table_def arp_ok_def upd_arp_def Let_def split: if_splits)
qed

lemma store_arp_eq:
  assumes "arp_ok port s" and "at_arps (arp_tables s port) = Some arps"
  shows "store_arp port ip en s = Some (1, upd_arp port (\<lambda>t. t\<lparr>at_arps := Some (arps[arp_pos t ip := en])\<rparr>) s)"
  using assms arp_pos_bound [OF assms, of ip] by (simp add: store_arp_def arp_ok_def Let_def)

lemma get_after_store:
  assumes ok: "arp_ok port s" and arps: "at_arps (arp_tables s port) = Some arps" and sub: "same_subnet (arp_tables s port) ip ip'"
    and st: "store_arp port ip en s = Some (r, s')"
  shows "arp_ok port s' \<and> at_Mask (arp_tables s' port) = at_Mask (arp_tables s port) \<and>
         flowQoS_router_get_arp port ip' s' =
           (if ip' = ip then Some (if ae_ip en = 0 then None else Some (ae_mac en)) else flowQoS_router_get_arp port ip' s)"
proof -
  have s': "s' = upd_arp port (\<lambda>t. t\<lparr>at_arps := Some (arps[arp_pos t ip := en])\<rparr>) s" using st store_arp_eq [OF ok arps] by simp
  have pos: "arp_pos (arp_tables s port) x < length arps" for x by (rule arp_pos_bound [OF ok arps])
  have pos': "arp_pos (t\<lparr>at_arps := v\<rparr>) x = arp_pos t x" for t v x by (simp add: arp_pos_def)
  show ?thesis using ok arps pos arp_pos_inj [OF sub]
    by (auto simp: s' upd_arp_def arp_ok_def flowQoS_router_get_arp_def Let_def pos' nth_list_update)
qed

text \<open>
  C11: The ARP table of a port. Without a table every operation reports 0. With one, on the addresses of
  the port's subnet the table is a map: an address that was put is found with its MAC address until it is
  put again or deleted, and other addresses keep theirs. The address itself is not compared: an address of
  another subnet with the same host part is answered with the same MAC address.
\<close>

theorem arp_table_refines_map:
  assumes ok: "arp_ok port s"
  shows "(at_arps (arp_tables s port) = None \<longrightarrow>
            flowQoS_router_put_arp port ip mac s = Some (0, s) \<and> flowQoS_router_del_arp port ip s = Some (0, s) \<and>
            flowQoS_router_get_arp port ip s = Some None) \<and>
         (at_arps (arp_tables s port) \<noteq> None \<longrightarrow>
            (\<exists>s1. flowQoS_router_put_arp port ip mac s = Some (1, s1) \<and> arp_ok port s1 \<and>
               (\<forall>ip'. same_subnet (arp_tables s port) ip ip' \<longrightarrow> flowQoS_router_get_arp port ip' s1 =
                  (if ip' = ip then Some (if ip = 0 then None else Some mac) else flowQoS_router_get_arp port ip' s))) \<and>
            (\<exists>s2. flowQoS_router_del_arp port ip s = Some (1, s2) \<and> arp_ok port s2 \<and>
               (\<forall>ip'. same_subnet (arp_tables s port) ip ip' \<longrightarrow> flowQoS_router_get_arp port ip' s2 =
                  (if ip' = ip then Some None else flowQoS_router_get_arp port ip' s))) \<and>
            (ip AND at_Mask (arp_tables s port) = ip2 AND at_Mask (arp_tables s port) \<longrightarrow>
               flowQoS_router_get_arp port ip2 s = flowQoS_router_get_arp port ip s))"
proof (cases "at_arps (arp_tables s port)")
  case None
  then show ?thesis using ok
    by (simp add: arp_ok_def Let_def flowQoS_router_put_arp_def flowQoS_router_del_arp_def store_arp_def flowQoS_router_get_arp_def)
next
  case (Some arps)
  have st: "\<exists>s'. store_arp port ip en s = Some (1, s') \<and> arp_ok port s' \<and>
      (\<forall>ip'. same_subnet (arp_tables s port) ip ip' \<longrightarrow> flowQoS_router_get_arp port ip' s' =
        (if ip' = ip then Some (if ae_ip en = 0 then None else Some (ae_mac en)) else flowQoS_router_get_arp port ip' s))" for en
  proof -
    note e = store_arp_eq [OF ok Some, of ip en]
    have "arp_ok port (upd_arp port (\<lambda>t. t\<lparr>at_arps := Some (arps[arp_pos t ip := en])\<rparr>) s)"
      using get_after_store [OF ok Some _ e, of ip] by (simp add: same_subnet_def)
    with e get_after_store [OF ok Some _ e] show ?thesis by blast
  qed
  have hit: "ip AND at_Mask (arp_tables s port) = ip2 AND at_Mask (arp_tables s port) \<longrightarrow>
      flowQoS_router_get_arp port ip2 s = flowQoS_router_get_arp port ip s"
    unfolding flowQoS_router_get_arp_def arp_pos_def Let_def by metis
  have z: "(ae_ip zero_arp = 0) = True" by (simp add: zero_arp_def)
  note put = st [of "\<lparr>ae_ip = ip, ae_mac = mac\<rparr>", unfolded ARP_Entry.select_convs, folded flowQoS_router_put_arp_def]
  note del = st [of zero_arp, unfolded z if_True, folded flowQoS_router_del_arp_def]
  show ?thesis using put del hit Some by (simp only:) blast
qed

text \<open>
  An index kept as a map, searched from the longest prefix down, and a router with one configured port,
  10.0.0.1/30.
\<close>

definition lpm_mask :: "u32 \<Rightarrow> u32" where
  "lpm_mask d = NOT (push_bit (32 - unat d) 1 - 1)"

definition depths :: "u32 list" where
  "depths = map of_nat (rev [1..<33])"

definition demo_lpm :: "(u32 \<times> u32 \<rightharpoonup> u32) router_ops" where
  "demo_lpm = \<lparr>rte_lpm_create = (\<lambda>_. Some Map.empty),
     rte_lpm_lookup = (\<lambda>ip l. case filter (\<lambda>d. l (ip AND lpm_mask d, d) \<noteq> None) depths of [] \<Rightarrow> None | d # _ \<Rightarrow> l (ip AND lpm_mask d, d)),
     rte_lpm_add = (\<lambda>ip d h l. if d \<in> set depths then (0, l((ip AND lpm_mask d, d) \<mapsto> h)) else (-1, l)),
     rte_lpm_delete = (\<lambda>ip d l. if d \<in> set depths then (0, l((ip AND lpm_mask d, d) := None)) else (-1, l)), arp_malloc = (\<lambda>_. True), shift_out = (\<lambda>_. 1)\<rparr>"

definition demo_router :: "'l router" where
  "demo_router = \<lparr>arp_tables = (\<lambda>i. if i = 0 then arp_table_init\<lparr>at_MaxEntry := 4, at_Mask := 3, at_arps := Some (replicate 4 zero_arp)\<rparr>
       else arp_table_init),
     localPortInfo = (\<lambda>i. if i = 0 then port_info_init\<lparr>pi_name := ''dpdk0'', pi_ip := 0x0A000001, pi_prefix := 30\<rparr> else port_info_init),
     routingTable = routing_table_init\<rparr>"

lemma demo_arp_ok: "arp_ok 0 demo_router"
  by (simp add: arp_ok_def demo_router_def arp_table_init_def)

lemma arp_table_refines_map_witness:
  "\<exists>s1. flowQoS_router_put_arp 0 0x0A000002 [1, 2, 3, 4, 5, 6] (demo_router :: unit router) = Some (1, s1) \<and>
        flowQoS_router_get_arp 0 0x0A000002 s1 = Some (Some [1, 2, 3, 4, 5, 6]) \<and> flowQoS_router_get_arp 0 0x0A000003 s1 = Some None"
proof -
  have a: "at_arps (arp_tables (demo_router :: unit router) 0) \<noteq> None"
    and sub: "same_subnet (arp_tables (demo_router :: unit router) 0) 0x0A000002 0x0A000003"
      "same_subnet (arp_tables (demo_router :: unit router) 0) 0x0A000002 0x0A000002"
    and g: "flowQoS_router_get_arp 0 0x0A000003 (demo_router :: unit router) = Some None"
    by (simp_all add: demo_router_def same_subnet_def arp_table_init_def flowQoS_router_get_arp_def arp_pos_def zero_arp_def)
  from arp_table_refines_map [OF demo_arp_ok, of "0x0A000002" "[1, 2, 3, 4, 5, 6]"] a obtain s1 :: "unit router" where
    s1: "flowQoS_router_put_arp 0 0x0A000002 [1, 2, 3, 4, 5, 6] demo_router = Some (1, s1)"
    "\<forall>ip'. same_subnet (arp_tables (demo_router :: unit router) 0) 0x0A000002 ip' \<longrightarrow> flowQoS_router_get_arp 0 ip' s1 =
       (if ip' = 0x0A000002 then Some (if (0x0A000002 :: u32) = 0 then None else Some [1, 2, 3, 4, 5, 6])
        else flowQoS_router_get_arp 0 ip' (demo_router :: unit router))" by blast
  from s1(2) [rule_format, OF sub(1)] s1(2) [rule_format, OF sub(2)] s1(1) g show ?thesis by simp
qed

section \<open>Netmasks\<close>

lemma netmask_lpm:
  assumes "0 < prefix" and "prefix \<le> 32"
  shows "netmask ops prefix = lpm_mask prefix"
proof -
  have "unat (32 - prefix) = 32 - unat prefix" using assms(2) by (simp add: unat_minus_exact)
  moreover have "0 < unat prefix" using assms(1) by (simp add: unat_gt_0 word_neq_0_conv)
  ultimately have "32 - prefix < 32" by (simp add: word_less_nat_alt)
  then show ?thesis using \<open>unat (32 - prefix) = 32 - unat prefix\<close> by (simp add: netmask_def shl1_def lpm_mask_def)
qed

lemma host_mask_inj:
  assumes "NOT (push_bit i 1 - 1 :: u32) = NOT (push_bit j 1 - 1)" and "i < 32" and "j < 32"
  shows "i = j"
proof -
  have "(2 :: u32) ^ i = 2 ^ j" using assms(1) by (simp add: push_bit_eq_mult)
  then have "bit ((2 :: u32) ^ i) i = bit ((2 :: u32) ^ j) i" by simp
  then show ?thesis using assms(2) by (simp add: bit_simps)
qed

lemma fold_pick:
  assumes "inj_on f (set xs)"
  shows "fold (\<lambda>i p. if f i = m then g i else p) xs a = (if \<exists>i \<in> set xs. f i = m then g (inv_into (set xs) f m) else a)"
  using assms
proof (induction xs arbitrary: a rule: rev_induct)
  case (snoc x xs)
  have "inj_on f (set xs)" using snoc.prems by (rule inj_on_subset) auto
  note IH = snoc.IH [OF this]
  show ?case
  proof (cases "f x = m")
    case True
    then have "inv_into (set (xs @ [x])) f m = x" using snoc.prems by (metis inv_into_f_f last_in_set last_snoc snoc_eq_iff_butlast)
    then show ?thesis using True by simp
  next
    case False
    have "inv_into (set xs) f m = inv_into (set (xs @ [x])) f m" if "i \<in> set xs" "f i = m" for i
      using that snoc.prems \<open>inj_on f (set xs)\<close> by (metis UnCI inv_into_f_f set_append)
    then show ?thesis using False IH by auto
  qed
qed simp

text \<open>
  Netmasks on the command line. The netmask of a prefix length from 1 to 32 is read back as that
  prefix length, and every other mask, among them 0.0.0.0, as 24.
\<close>

theorem netmask_prefix_roundtrip:
  assumes "0 < p" and "p \<le> 32"
  shows "prefix_of_netmask (netmask ops (of_nat p)) = p \<and>
         ((\<forall>q. 0 < q \<and> q \<le> 32 \<longrightarrow> m \<noteq> netmask ops (of_nat q)) \<longrightarrow> prefix_of_netmask m = 24) \<and> prefix_of_netmask 0 = 24"
proof -
  let ?f = "\<lambda>i. NOT (push_bit i 1 - 1 :: u32)"
  have inj: "inj_on ?f (set [0..<32])" by (rule inj_onI) (use host_mask_inj in auto)
  have eq: "prefix_of_netmask m = (if \<exists>i \<in> set [0..<32]. ?f i = m then 32 - inv_into (set [0..<32]) ?f m else 24)" for m
  proof -
    have lt: "inv_into (set [0..<32]) ?f m < 32" if "\<exists>i \<in> set [0..<32]. ?f i = m"
      using that inv_into_into [of m ?f "set [0..<32]"] by auto
    show ?thesis
    proof (cases "\<exists>i \<in> set [0..<32]. ?f i = m")
      case True
      then show ?thesis using lt [OF True] unfolding prefix_of_netmask_def fold_pick [OF inj, where g = "\<lambda>i. 32 - i"] Let_def
        by (simp only: if_True) simp
    next
      case False
      then show ?thesis unfolding prefix_of_netmask_def fold_pick [OF inj, where g = "\<lambda>i. 32 - i"] Let_def
        by (simp only: if_False) simp
    qed
  qed
  have nm: "netmask ops (of_nat q) = ?f (32 - q)" if "0 < q" "q \<le> 32" for q
  proof -
    have u: "unat (of_nat q :: u32) = q" using that by (simp add: unat_of_nat)
    have "0 < (of_nat q :: u32)" "(of_nat q :: u32) \<le> 32" using that u by (simp_all add: word_less_nat_alt word_le_nat_alt)
    from netmask_lpm [OF this] u show ?thesis by (simp add: lpm_mask_def)
  qed
  have "inv_into (set [0..<32]) ?f (?f (32 - p)) = 32 - p" by (rule inv_into_f_f [OF inj]) (use assms in auto)
  moreover have "\<exists>i \<in> set [0..<32]. ?f i = ?f (32 - p)" using assms by (intro bexI [of _ "32 - p"]) auto
  ultimately have one: "prefix_of_netmask (netmask ops (of_nat p)) = p" using assms unfolding nm [OF assms] eq by simp
  have two: "prefix_of_netmask m = 24" if "\<forall>q. 0 < q \<and> q \<le> 32 \<longrightarrow> m \<noteq> netmask ops (of_nat q)" for m
  proof -
    have "?f i \<noteq> m" if "i < 32" for i
      using \<open>\<forall>q. 0 < q \<and> q \<le> 32 \<longrightarrow> m \<noteq> netmask ops (of_nat q)\<close> [rule_format, of "32 - i"] nm [of "32 - i"] that by auto
    then show ?thesis by (auto simp: eq)
  qed
  have "?f i \<noteq> 0" if "i < 32" for i
  proof
    assume "?f i = 0"
    then have "push_bit i 1 = (0 :: u32)" by (simp add: not_eq_complement)
    then show False using that by (simp add: push_bit_eq_mult)
  qed
  then have "prefix_of_netmask 0 = 24" by (auto simp: eq)
  then show ?thesis using one two by blast
qed

lemma netmask_prefix_roundtrip_witness:
  "prefix_of_netmask (netmask demo_lpm 24) = 24 \<and> prefix_of_netmask 0 = 24 \<and> prefix_of_netmask (netmask demo_lpm 9) = 9"
  using netmask_prefix_roundtrip [of 24 demo_lpm] netmask_prefix_roundtrip [of 9 demo_lpm] by simp

section \<open>Routes\<close>

text \<open>
  What the LPM library promises, with \<open>rules l\<close> the rules of an index, from network and prefix length to
  the stored number: a lookup gives the rule with the longest prefix that covers the address, adding and
  deleting change one rule or, with a negative result, none.
\<close>

definition covers :: "u32 \<Rightarrow> u32 \<Rightarrow> u32 \<Rightarrow> bool" where
  "covers n d ip \<longleftrightarrow> ip AND lpm_mask d = n"

definition lpm_laws :: "'l router_ops \<Rightarrow> ('l \<Rightarrow> u32 \<times> u32 \<rightharpoonup> u32) \<Rightarrow> bool" where
  "lpm_laws ops rules \<longleftrightarrow>
     (\<forall>ip l. case rte_lpm_lookup ops ip l of
        None \<Rightarrow> \<forall>n d. rules l (n, d) \<noteq> None \<longrightarrow> \<not> covers n d ip
      | Some h \<Rightarrow> \<exists>n d. rules l (n, d) = Some h \<and> covers n d ip \<and> (\<forall>n' d'. rules l (n', d') \<noteq> None \<and> covers n' d' ip \<longrightarrow> d' \<le> d)) \<and>
     (\<forall>ip d h l r l'. rte_lpm_add ops ip d h l = (r, l') \<longrightarrow>
        rules l' = (if r = 0 then (rules l)((ip AND lpm_mask d, d) \<mapsto> h) else rules l)) \<and>
     (\<forall>ip d l r l'. rte_lpm_delete ops ip d l = (r, l') \<longrightarrow>
        rules l' = (if r = 0 then (rules l)((ip AND lpm_mask d, d) := None) else rules l))"

lemma lpm_addD: "lpm_laws ops rules \<Longrightarrow> rte_lpm_add ops ip d h l = (r, l') \<Longrightarrow>
    rules l' = (if r = 0 then (rules l)((ip AND lpm_mask d, d) \<mapsto> h) else rules l)"
  unfolding lpm_laws_def by blast

lemma lpm_lookup_longest:
  assumes laws: "lpm_laws ops rules" and r: "rules l (n, d) = Some h" "covers n d ip"
    and longest: "\<And>n' d'. rules l (n', d') \<noteq> None \<Longrightarrow> covers n' d' ip \<Longrightarrow> d' \<le> d"
  shows "rte_lpm_lookup ops ip l = Some h"
proof -
  note look = laws [unfolded lpm_laws_def, THEN conjunct1, THEN spec [of _ ip], THEN spec [of _ l]]
  show ?thesis
proof (cases "rte_lpm_lookup ops ip l")
  case None
  then have "\<forall>n d. rules l (n, d) \<noteq> None \<longrightarrow> \<not> covers n d ip" using look by simp
  then show ?thesis using r by auto
next
  case (Some h')
  then have "\<exists>n d. rules l (n, d) = Some h' \<and> covers n d ip \<and> (\<forall>n' d'. rules l (n', d') \<noteq> None \<and> covers n' d' ip \<longrightarrow> d' \<le> d)"
    using look by simp
  then obtain n' d' where w: "rules l (n', d') = Some h'" "covers n' d' ip"
    "\<forall>n'' d''. rules l (n'', d'') \<noteq> None \<and> covers n'' d'' ip \<longrightarrow> d'' \<le> d'" by blast
  have "d' \<le> d" using longest [of n' d'] w(1,2) by simp
  moreover have "d \<le> d'" using w(3) r by (metis option.distinct(1))
  ultimately have "d' = d" by simp
  moreover from this have "n' = n" using w(2) r(2) by (simp add: covers_def)
  ultimately show ?thesis using Some w(1) r(1) by simp
qed
qed

lemma upd_rt_simps [simp]:
  "routingTable (upd_rt f s) = f (routingTable s)" "localPortInfo (upd_rt f s) = localPortInfo s" "arp_tables (upd_rt f s) = arp_tables s"
  by (simp_all add: upd_rt_def)

lemma isLocalIP_upd [simp]: "flowQoS_router_isLocalIP ops ip (upd_rt f s) = flowQoS_router_isLocalIP ops ip s"
proof -
  have "first_local ops ip is (upd_rt f s) = first_local ops ip is s" for "is" by (induction "is") (simp_all add: Let_def)
  then show ?thesis by (simp add: flowQoS_router_isLocalIP_def)
qed

lemma isRoute_lock [simp]: "isRoute i (upd_rt (\<lambda>r. r\<lparr>rt_lock := v\<rparr>) s) = isRoute i s"
  by (simp add: isRoute_def)

lemma find_slot_lock [simp]: "find_slot ip is pos (upd_rt (\<lambda>r. r\<lparr>rt_lock := v\<rparr>) s) = find_slot ip is pos s"
  by (induction "is" arbitrary: pos) simp_all

lemma find_slot_None: "find_slot ip is pos s = None \<longleftrightarrow> (\<exists>i \<in> set is. isRoute i s \<and> rt_ip (routingTable s) i = ip)"
  by (induction "is" arbitrary: pos) auto

lemma find_slot_Some: "find_slot ip is pos s = Some p \<Longrightarrow> p = pos \<or> (\<exists>i \<in> set is. p = int i \<and> \<not> isRoute i s)"
  by (induction "is" arbitrary: pos) (fastforce split: if_splits)+

text \<open>The position that is found is the last free one.\<close>

lemma find_slot_last:
  "sorted_wrt (<) is \<Longrightarrow> find_slot ip is pos s = Some p \<Longrightarrow>
   p = pos \<and> (\<forall>i \<in> set is. isRoute i s) \<or>
    (\<exists>i \<in> set is. p = int i \<and> \<not> isRoute i s \<and> (\<forall>j \<in> set is. i < j \<longrightarrow> isRoute j s))"
proof (induction "is" arbitrary: pos)
  case (Cons i "is")
  have less: "\<forall>j \<in> set is. i < j" and sorted: "sorted_wrt (<) is" using Cons.prems(1) by simp_all
  show ?case
  proof (cases "isRoute i s")
    case True
    then have "find_slot ip is pos s = Some p" using Cons.prems(2) by (simp split: if_splits)
    with Cons.IH [OF sorted] True less show ?thesis by fastforce
  next
    case False
    then have "find_slot ip is (int i) s = Some p" using Cons.prems(2) by simp
    with Cons.IH [OF sorted] False less show ?thesis by fastforce
  qed
qed simp

lemma relock [simp]: "rt_lock (routingTable s) = 0 \<Longrightarrow>
    upd_rt (\<lambda>r. r\<lparr>rt_lock := 0\<rparr>) (upd_rt (\<lambda>r. r\<lparr>rt_lock := v\<rparr>) s) = s"
  by (cases s; cases "routingTable s") (simp add: upd_rt_def)

text \<open>Changing the table under the lock and releasing it is changing the table.\<close>

lemma unlock_upd:
  "rt_lock (routingTable s) = 0 \<Longrightarrow> (\<And>r v. rt_lock_update (\<lambda>_. 0) (f (r\<lparr>rt_lock := v\<rparr>)) = f (r\<lparr>rt_lock := 0\<rparr>)) \<Longrightarrow>
   upd_rt (\<lambda>r. r\<lparr>rt_lock := 0\<rparr>) (upd_rt f (upd_rt (\<lambda>r. r\<lparr>rt_lock := v\<rparr>) s)) = upd_rt f s"
proof -
  assume s: "rt_lock (routingTable s) = 0" and f: "\<And>r v. rt_lock_update (\<lambda>_. 0) (f (r\<lparr>rt_lock := v\<rparr>)) = f (r\<lparr>rt_lock := 0\<rparr>)"
  have "(routingTable s)\<lparr>rt_lock := 0\<rparr> = routingTable s" using s by (cases "routingTable s") simp
  then show ?thesis using f [where r = "routingTable s" and v = v] by (simp add: upd_rt_def)
qed

lemmas lock_defs = rte_rwlock_read_lock_def rte_rwlock_read_unlock_def rte_rwlock_write_lock_def rte_rwlock_write_unlock_def

lemma findRoute_hit:
  assumes "rt_lock (routingTable s) = 0" "rt_lpm (routingTable s) = Some l" "rte_lpm_lookup ops ip l = Some p" "unat p < IPV4_L3FWD_LPM_MAX_RULES"
  shows "flowQoS_router_findRoute ops ip s = Some (1, rt_port_id (routingTable s) (unat p), rt_gw_ip (routingTable s) (unat p), s)"
proof -
  have "upd_rt (\<lambda>r. r\<lparr>rt_lock := rt_lock r - 1\<rparr>) (upd_rt (\<lambda>r. r\<lparr>rt_lock := rt_lock r + 1\<rparr>) s) = s"
    by (cases s; cases "routingTable s") (simp add: upd_rt_def)
  then show ?thesis using assms by (simp add: flowQoS_router_findRoute_def lock_defs)
qed

text \<open>Every address of the network whose longest prefix it is, with respect to the rules \<open>R\<close>, is found so.\<close>

definition found_with :: "'l router_ops \<Rightarrow> (u32 \<times> u32 \<rightharpoonup> u32) \<Rightarrow> u32 \<Rightarrow> u32 \<Rightarrow> u32 \<Rightarrow> u32 \<Rightarrow> 'l router \<Rightarrow> bool" where
  "found_with ops R net d port gw s \<longleftrightarrow>
     (\<forall>a. covers net d a \<and> (\<forall>n d'. R (n, d') \<noteq> None \<and> covers n d' a \<longrightarrow> d' \<le> d) \<longrightarrow>
        flowQoS_router_findRoute ops a s = Some (1, port, gw, s))"

lemma found_withI:
  assumes laws: "lpm_laws ops rules" and st: "rt_lock (routingTable s) = 0" "rt_lpm (routingTable s) = Some l'"
    and l': "rules l' = R((net, d) \<mapsto> of_nat pos)" and pos: "pos < IPV4_L3FWD_LPM_MAX_RULES"
    and fields: "rt_port_id (routingTable s) pos = port" "rt_gw_ip (routingTable s) pos = gw"
  shows "found_with ops R net d port gw s"
  unfolding found_with_def
proof (intro allI impI)
  fix a assume a: "covers net d a \<and> (\<forall>n d'. R (n, d') \<noteq> None \<and> covers n d' a \<longrightarrow> d' \<le> d)"
  have u: "unat (of_nat pos :: u32) = pos" using pos by (simp add: flow_consts unsigned_of_nat take_bit_nat_eq_self)
  have "rte_lpm_lookup ops a l' = Some (of_nat pos)"
    by (rule lpm_lookup_longest [OF laws, of l' net d]) (use a l' in \<open>auto split: if_splits\<close>)
  from findRoute_hit [OF st this] u pos fields show "flowQoS_router_findRoute ops a s = Some (1, port, gw, s)" by simp
qed

text \<open>
  C12: Adding a route. The call always returns and leaves the lock free. A route to a network that is in the table
  already, or to a table without a free position, is refused and changes nothing. Otherwise the last free position
  is taken and LPM is asked to add the rule. When LPM refuses, the result is 0 and the rules and the table stay as
  they are. When LPM accepts and the gateway (the network itself for a local route) is on a local network, the
  result is 1, the position holds the route, and every address of the network that no longer prefix covers is found
  with the given gateway on the port of the gateway. When LPM accepts and the gateway is on no local network, the
  result is 0 and the table is unchanged, but the rule stays in the index: its addresses are then found with
  gateway 0.0.0.0 on port 0.
\<close>

theorem route_add_then_find:
  assumes laws: "lpm_laws ops rules" and st: "rt_lock (routingTable s) = 0" "rt_lpm (routingTable s) = Some l"
    and pre: "0 < prefix" "prefix \<le> 32"
    and empty: "\<And>i. \<not> isRoute i s \<Longrightarrow> rt_port_id (routingTable s) i = 0 \<and> rt_gw_ip (routingTable s) i = 0"
    and net: "net = ip AND lpm_mask prefix" and port: "port = flowQoS_router_isLocalIP ops (if gw = 0 then net else gw) s"
  shows "if (\<exists>i < IPV4_L3FWD_LPM_MAX_RULES. isRoute i s \<and> rt_ip (routingTable s) i = net) \<or> (\<forall>i < IPV4_L3FWD_LPM_MAX_RULES. isRoute i s)
    then flowQoS_router_addRoute ops ip prefix gw s = Some (0, s)
    else \<exists>pos < IPV4_L3FWD_LPM_MAX_RULES. \<not> isRoute pos s \<and> (\<forall>i < IPV4_L3FWD_LPM_MAX_RULES. pos < i \<longrightarrow> isRoute i s) \<and>
      (case rte_lpm_add ops net prefix (of_nat pos) l of (r, l') \<Rightarrow>
         let s1 = upd_rt (\<lambda>t. t\<lparr>rt_lpm := Some l'\<rparr>) s in
         if r \<noteq> 0 then flowQoS_router_addRoute ops ip prefix gw s = Some (0, s1) \<and> rules l' = rules l
         else if port = -1 then flowQoS_router_addRoute ops ip prefix gw s = Some (0, s1) \<and> found_with ops (rules l) net prefix 0 0 s1
         else \<exists>s'. flowQoS_router_addRoute ops ip prefix gw s = Some (1, s') \<and> rt_lock (routingTable s') = 0 \<and>
                found_with ops (rules l) net prefix (of_int port) gw s' \<and> rt_ip (routingTable s') pos = net \<and>
                rt_prefix (routingTable s') pos = prefix \<and> (\<forall>i. i \<noteq> pos \<longrightarrow> isRoute i s' = isRoute i s))"
proof -
  have mask: "netmask ops prefix = lpm_mask prefix" by (rule netmask_lpm [OF pre])
  have netnet: "net AND lpm_mask prefix = net" by (simp add: net and.assoc)
  define s1 where "s1 = upd_rt (\<lambda>r. r\<lparr>rt_lock := -1\<rparr>) s"
  let ?slots = "[0..<IPV4_L3FWD_LPM_MAX_RULES]"
  have add: "flowQoS_router_addRoute ops ip prefix gw s =
     (case find_slot net ?slots (-1) s of
           None \<Rightarrow> Some (0, s)
         | Some pos \<Rightarrow> if pos = -1 then Some (0, s)
             else case add_at ops net prefix gw (nat pos) s1 of (ret, s2) \<Rightarrow> Some (ret, rte_rwlock_write_unlock s2))"
    using st by (simp add: flowQoS_router_addRoute_def lock_defs mask net s1_def Let_def split: option.split)
  show ?thesis
  proof (cases "find_slot net ?slots (-1) s")
    case None
    then have "\<exists>i < IPV4_L3FWD_LPM_MAX_RULES. isRoute i s \<and> rt_ip (routingTable s) i = net" by (auto simp: find_slot_None)
    moreover have "flowQoS_router_addRoute ops ip prefix gw s = Some (0, s)" using add None by simp
    ultimately show ?thesis by (simp only: if_True simp_thms)
  next
    case (Some p)
    have new: "\<not> (\<exists>i < IPV4_L3FWD_LPM_MAX_RULES. isRoute i s \<and> rt_ip (routingTable s) i = net)"
      using find_slot_None [of net ?slots "-1" s] Some by auto
    show ?thesis
    proof (cases "\<forall>i < IPV4_L3FWD_LPM_MAX_RULES. isRoute i s")
      case True
      then have "p = -1" using find_slot_last [OF _ Some] sorted_wrt_upt [of 0 IPV4_L3FWD_LPM_MAX_RULES] by auto
      then show ?thesis using add Some True by simp
    next
      case False
      then obtain pos where pos: "p = int pos" "pos < IPV4_L3FWD_LPM_MAX_RULES" "\<not> isRoute pos s"
        "\<forall>i < IPV4_L3FWD_LPM_MAX_RULES. pos < i \<longrightarrow> isRoute i s"
        using find_slot_last [OF _ Some] sorted_wrt_upt [of 0 IPV4_L3FWD_LPM_MAX_RULES] by auto
      obtain r l' where l': "rte_lpm_add ops net prefix (of_nat pos) l = (r, l')" by force
      note rules' = lpm_addD [OF laws l', unfolded netnet]
      define s2 where "s2 = upd_rt (\<lambda>t. t\<lparr>rt_lpm := Some l'\<rparr>) s"
      define s3 where "s3 = upd_rt (\<lambda>r. r\<lparr>rt_ip := (rt_ip r)(pos := net), rt_prefix := (rt_prefix r)(pos := prefix),
          rt_gw_ip := (rt_gw_ip r)(pos := gw), rt_port_id := (rt_port_id r)(pos := of_int port)\<rparr>) s2"
      have run: "flowQoS_router_addRoute ops ip prefix gw s =
          (if r = 0 \<and> port \<noteq> -1 then Some (1, s3) else Some (0, s2))"
        using add Some pos(1) st l'
        by (simp add: add_at_def s1_def s2_def s3_def port mask netnet Let_def rte_rwlock_write_unlock_def unlock_upd)
      have case_pos: "?thesis" if "case rte_lpm_add ops net prefix (of_nat pos) l of (r, l') \<Rightarrow>
         let s1 = upd_rt (\<lambda>t. t\<lparr>rt_lpm := Some l'\<rparr>) s in
         if r \<noteq> 0 then flowQoS_router_addRoute ops ip prefix gw s = Some (0, s1) \<and> rules l' = rules l
         else if port = -1 then flowQoS_router_addRoute ops ip prefix gw s = Some (0, s1) \<and> found_with ops (rules l) net prefix 0 0 s1
         else \<exists>s'. flowQoS_router_addRoute ops ip prefix gw s = Some (1, s') \<and> rt_lock (routingTable s') = 0 \<and>
                found_with ops (rules l) net prefix (of_int port) gw s' \<and> rt_ip (routingTable s') pos = net \<and>
                rt_prefix (routingTable s') pos = prefix \<and> (\<forall>i. i \<noteq> pos \<longrightarrow> isRoute i s' = isRoute i s)"
      proof -
        have no: "\<not> ((\<exists>i < IPV4_L3FWD_LPM_MAX_RULES. isRoute i s \<and> rt_ip (routingTable s) i = net) \<or>
            (\<forall>i < IPV4_L3FWD_LPM_MAX_RULES. isRoute i s))" using new False by blast
        show ?thesis unfolding if_not_P [OF no] by (intro exI [of _ pos] conjI pos(2-4) that)
      qed
      have R: "rules l' = (rules l)((net, prefix) \<mapsto> of_nat pos)" if "r = 0" using rules' that by simp
      have stale: "found_with ops (rules l) net prefix 0 0 s2" if "r = 0"
        by (rule found_withI [OF laws _ _ R [OF that] pos(2)]) (use empty [OF pos(3)] st in \<open>simp_all add: s2_def\<close>)
      have found: "found_with ops (rules l) net prefix (of_int port) gw s3" if "r = 0"
        by (rule found_withI [OF laws _ _ R [OF that] pos(2)]) (use st in \<open>simp_all add: s3_def s2_def\<close>)
      have s3: "rt_lock (routingTable s3) = 0" "rt_ip (routingTable s3) pos = net" "rt_prefix (routingTable s3) pos = prefix"
        "\<forall>i. i \<noteq> pos \<longrightarrow> isRoute i s3 = isRoute i s"
        using st by (simp_all add: s3_def s2_def isRoute_def)
      show ?thesis
        by (rule case_pos) (use run stale found s3 rules' in \<open>auto simp: l' Let_def s2_def [symmetric]\<close>)
    qed
  qed
qed

definition demo_rules :: "(u32 \<times> u32 \<rightharpoonup> u32) \<Rightarrow> u32 \<times> u32 \<rightharpoonup> u32" where
  "demo_rules l = (\<lambda>(n, d). if d \<in> set depths then l (n, d) else None)"

lemma depths_sorted: "sorted_wrt (\<ge>) depths"
  by (simp add: depths_def upt_rec)

lemma sorted_filter_head: "sorted_wrt (\<ge>) xs \<Longrightarrow> filter P xs = d # ys \<Longrightarrow> x \<in> set xs \<Longrightarrow> P x \<Longrightarrow> x \<le> (d :: u32)"
proof -
  assume a: "sorted_wrt (\<ge>) xs" "filter P xs = d # ys" "x \<in> set xs" "P x"
  have "x \<in> set (d # ys)" unfolding a(2) [symmetric] using a(3,4) by simp
  moreover have "sorted_wrt (\<ge>) (d # ys)" unfolding a(2) [symmetric] using a(1) by (rule sorted_wrt_filter)
  ultimately show "x \<le> d" by auto
qed

lemma demo_lpm_laws: "lpm_laws demo_lpm demo_rules"
proof -
  have look: "case rte_lpm_lookup demo_lpm ip l of
        None \<Rightarrow> \<forall>n d. demo_rules l (n, d) \<noteq> None \<longrightarrow> \<not> covers n d ip
      | Some h \<Rightarrow> \<exists>n d. demo_rules l (n, d) = Some h \<and> covers n d ip \<and>
          (\<forall>n' d'. demo_rules l (n', d') \<noteq> None \<and> covers n' d' ip \<longrightarrow> d' \<le> d)" for ip l
  proof (cases "filter (\<lambda>d. l (ip AND lpm_mask d, d) \<noteq> None) depths")
    case Nil
    then have "l (ip AND lpm_mask d, d) = None" if "d \<in> set depths" for d using that by (auto simp: filter_empty_conv)
    then show ?thesis using Nil by (auto simp: demo_lpm_def demo_rules_def covers_def)
  next
    case (Cons d ds)
    then have "d \<in> set (filter (\<lambda>d. l (ip AND lpm_mask d, d) \<noteq> None) depths)" by simp
    then have d: "d \<in> set depths" "l (ip AND lpm_mask d, d) \<noteq> None" by simp_all
    then obtain h where h: "l (ip AND lpm_mask d, d) = Some h" by blast
    have "d' \<le> d" if "demo_rules l (n', d') \<noteq> None" "covers n' d' ip" for n' d'
      by (rule sorted_filter_head [OF depths_sorted Cons]) (use that in \<open>auto simp: demo_rules_def covers_def split: if_splits\<close>)
    then have "demo_rules l (ip AND lpm_mask d, d) = Some h \<and> covers (ip AND lpm_mask d) d ip \<and>
        (\<forall>n' d'. demo_rules l (n', d') \<noteq> None \<and> covers n' d' ip \<longrightarrow> d' \<le> d)"
      using d h by (simp add: demo_rules_def covers_def)
    moreover have "rte_lpm_lookup demo_lpm ip l = Some h" using Cons h by (simp add: demo_lpm_def)
    ultimately show ?thesis by (simp only: option.case) blast
  qed
  show ?thesis unfolding lpm_laws_def
    by (intro conjI allI impI look) (auto simp: demo_lpm_def demo_rules_def split: if_splits intro!: ext)
qed

text \<open>The port 0 of this router has the address 10.0.0.1; the network 10.0.0.0/30 is added as a local route.\<close>

lemma route_add_then_find_witness:
  "\<exists>s'. flowQoS_router_addRoute demo_lpm 0x0A000001 30 0 (upd_rt (\<lambda>r. r\<lparr>rt_lpm := Some Map.empty\<rparr>) demo_router) = Some (1, s') \<and>
     rt_lock (routingTable s') = 0 \<and> flowQoS_router_findRoute demo_lpm 0x0A000002 s' = Some (1, 0, 0, s')"
proof -
  define s where "s = upd_rt (\<lambda>r. r\<lparr>rt_lpm := Some Map.empty\<rparr>) (demo_router :: (u32 \<times> u32 \<rightharpoonup> u32) router)"
  have st: "rt_lock (routingTable s) = 0" "rt_lpm (routingTable s) = Some Map.empty" "(0 :: u32) < 30" "(30 :: u32) \<le> 32"
    "\<And>i. rt_port_id (routingTable s) i = 0 \<and> rt_gw_ip (routingTable s) i = 0"
    by (simp_all add: s_def demo_router_def routing_table_init_def)
  have no: "\<not> isRoute i s" for i by (simp add: s_def isRoute_def demo_router_def routing_table_init_def)
  have none: "demo_rules Map.empty = Map.empty" by (simp add: demo_rules_def fun_eq_iff)
  have mask: "lpm_mask 30 = 0xFFFFFFFC" by (simp add: lpm_mask_def)
  have port: "flowQoS_router_isLocalIP demo_lpm (if (0 :: u32) = 0 then 0x0A000001 AND lpm_mask 30 else 0) s = 0"
    by (simp add: s_def mask flowQoS_router_isLocalIP_def demo_router_def flow_consts upt_rec netmask_def shl1_def)
  note add = route_add_then_find [where ip = "0x0A000001" and gw = 0, OF demo_lpm_laws st refl refl, unfolded port none]
  have free: "\<not> ((\<exists>i < IPV4_L3FWD_LPM_MAX_RULES. isRoute i s \<and> rt_ip (routingTable s) i = 0x0A000001 AND lpm_mask 30) \<or>
      (\<forall>i < IPV4_L3FWD_LPM_MAX_RULES. isRoute i s))" using no by (auto simp: flow_consts intro: exI [of _ 0])
  have "30 \<in> set depths" by (simp add: depths_def upt_rec)
  then have accepts: "\<exists>l'. rte_lpm_add demo_lpm n 30 h l = (0, l')" for n h l by (simp add: demo_lpm_def)
  from add [unfolded if_not_P [OF free]] obtain pos where "case rte_lpm_add demo_lpm (0x0A000001 AND lpm_mask 30) 30 (of_nat pos) Map.empty of (r, l') \<Rightarrow>
      let s1 = upd_rt (\<lambda>t. t\<lparr>rt_lpm := Some l'\<rparr>) s in
      if r \<noteq> 0 then flowQoS_router_addRoute demo_lpm 0x0A000001 30 0 s = Some (0, s1) \<and> demo_rules l' = Map.empty
      else if (0 :: int) = -1 then flowQoS_router_addRoute demo_lpm 0x0A000001 30 0 s = Some (0, s1) \<and>
        found_with demo_lpm Map.empty (0x0A000001 AND lpm_mask 30) 30 0 0 s1
      else \<exists>s'. flowQoS_router_addRoute demo_lpm 0x0A000001 30 0 s = Some (1, s') \<and> rt_lock (routingTable s') = 0 \<and>
        found_with demo_lpm Map.empty (0x0A000001 AND lpm_mask 30) 30 (of_int 0) 0 s' \<and>
        rt_ip (routingTable s') pos = 0x0A000001 AND lpm_mask 30 \<and> rt_prefix (routingTable s') pos = 30 \<and>
        (\<forall>i. i \<noteq> pos \<longrightarrow> isRoute i s' = isRoute i s)" by (elim exE conjE) (rule that)
  with accepts [of "0x0A000001 AND lpm_mask 30" "of_nat pos" Map.empty] obtain s' where
      s': "flowQoS_router_addRoute demo_lpm 0x0A000001 30 0 s = Some (1, s')" "rt_lock (routingTable s') = 0"
      "found_with demo_lpm Map.empty (0x0A000001 AND lpm_mask 30) 30 0 0 s'"
    by (auto simp: Let_def)
  moreover have "covers (0x0A000001 AND lpm_mask 30) 30 0x0A000002" by (simp add: covers_def mask)
  ultimately have "flowQoS_router_findRoute demo_lpm 0x0A000002 s' = Some (1, 0, 0, s')"
    by (auto simp: found_with_def)
  then show ?thesis using s' unfolding s_def by blast
qed

text \<open>
  C33: Deleting a route. \<open>delRoute\<close> takes the lock for writing and then calls \<open>findRoute\<close>, which takes it for
  reading: for a route that is in the table the call never returns. Otherwise it reports 0 and changes
  nothing. In the same way \<open>ifconfig\<close> never returns when the first port of the given name has an address and the
  table has a route to the network of this address.
\<close>

theorem route_delete_blocks:
  assumes "rt_lock (routingTable s) = 0"
  shows "flowQoS_router_delRoute ops ip prefix s =
           (if \<exists>i < IPV4_L3FWD_LPM_MAX_RULES. isRoute i s \<and> rt_ip (routingTable s) i = ip AND netmask ops prefix then None else Some (0, s)) \<and>
         (port < NB_PORTS \<and> pi_name (localPortInfo s port) = name \<and> (\<forall>j < port. pi_name (localPortInfo s j) \<noteq> name) \<and>
          pi_ip (localPortInfo s port) \<noteq> 0 \<and>
          (\<exists>i < IPV4_L3FWD_LPM_MAX_RULES. isRoute i s \<and>
             rt_ip (routingTable s) i = pi_ip (localPortInfo s port) AND netmask ops (pi_prefix (localPortInfo s port))) \<longrightarrow>
          flowQoS_router_ifconfig ops name new_ip new_prefix s = None)"
proof -
  define s1 where "s1 = upd_rt (\<lambda>r. r\<lparr>rt_lock := -1\<rparr>) s"
  have block: "flowQoS_router_findRoute ops a s1 = None" for a by (simp add: flowQoS_router_findRoute_def lock_defs s1_def)
  have r1: "isRoute i s1 = isRoute i s" "rt_ip (routingTable s1) = rt_ip (routingTable s)" for i by (simp_all add: s1_def)
  have loop: "del_loop ops n p is s1 = (if \<exists>i \<in> set is. isRoute i s \<and> rt_ip (routingTable s) i = n then None else Some (0, s1))" for n p "is"
    by (induction "is") (auto simp: block r1)
  have del: "flowQoS_router_delRoute ops a p s =
      (if \<exists>i < IPV4_L3FWD_LPM_MAX_RULES. isRoute i s \<and> rt_ip (routingTable s) i = a AND netmask ops p then None else Some (0, s))" for a p
    using assms loop [of "a AND netmask ops p" p "[0..<IPV4_L3FWD_LPM_MAX_RULES]"]
    by (auto simp: flowQoS_router_delRoute_def lock_defs s1_def [symmetric]) (simp_all add: s1_def)
  have cfg: "flowQoS_router_ifconfig ops name new_ip new_prefix s = None"
    if p: "port < NB_PORTS" "pi_name (localPortInfo s port) = name" "\<forall>j < port. pi_name (localPortInfo s j) \<noteq> name"
      "pi_ip (localPortInfo s port) \<noteq> 0"
      "\<exists>i < IPV4_L3FWD_LPM_MAX_RULES. isRoute i s \<and>
         rt_ip (routingTable s) i = pi_ip (localPortInfo s port) AND netmask ops (pi_prefix (localPortInfo s port))"
  proof -
    have "[0..<NB_PORTS] = [0..<port] @ port # [Suc port..<NB_PORTS]"
      using p(1) upt_add_eq_append [of 0 port "NB_PORTS - port"] by (simp add: upt_rec [of port])
    moreover have "ifconfig_loop ops name new_ip new_prefix (xs @ ps) s = ifconfig_loop ops name new_ip new_prefix ps s"
      if "\<forall>j \<in> set xs. pi_name (localPortInfo s j) \<noteq> name" for xs ps using that by (induction xs) auto
    ultimately show ?thesis using p del by (simp add: flowQoS_router_ifconfig_def)
  qed
  show ?thesis by (intro conjI impI del) (elim conjE, rule cfg)
qed

lemma route_delete_blocks_witness:
  "flowQoS_router_delRoute demo_lpm 0x0A000001 30
     (upd_rt (\<lambda>r. r\<lparr>rt_ip := (rt_ip r)(3 := 0x0A000000), rt_prefix := (rt_prefix r)(3 := 30)\<rparr>) demo_router) = None \<and>
   flowQoS_router_delRoute demo_lpm 0x0B000001 24 demo_router = Some (0, demo_router) \<and>
   flowQoS_router_ifconfig demo_lpm ''dpdk0'' 0x0A000101 24
     (upd_rt (\<lambda>r. r\<lparr>rt_ip := (rt_ip r)(3 := 0x0A000000), rt_prefix := (rt_prefix r)(3 := 30)\<rparr>) demo_router) = None"
proof -
  define s where "s = upd_rt (\<lambda>r. r\<lparr>rt_ip := (rt_ip r)(3 := 0x0A000000), rt_prefix := (rt_prefix r)(3 := 30)\<rparr>)
    (demo_router :: (u32 \<times> u32 \<rightharpoonup> u32) router)"
  have l: "rt_lock (routingTable s) = 0" "rt_lock (routingTable (demo_router :: (u32 \<times> u32 \<rightharpoonup> u32) router)) = 0"
    by (simp_all add: s_def demo_router_def routing_table_init_def)
  have "netmask demo_lpm 30 = 0xFFFFFFFC" by (simp add: netmask_def shl1_def)
  then have "isRoute 3 s \<and> rt_ip (routingTable s) 3 = 0x0A000001 AND netmask demo_lpm 30"
    by (simp add: s_def isRoute_def demo_router_def routing_table_init_def)
  moreover have "3 < IPV4_L3FWD_LPM_MAX_RULES" by (simp add: flow_consts)
  moreover have "\<not> isRoute i (demo_router :: (u32 \<times> u32 \<rightharpoonup> u32) router)" for i
    by (simp add: isRoute_def demo_router_def routing_table_init_def)
  moreover have "0 < NB_PORTS" "pi_name (localPortInfo s 0) = ''dpdk0''" "pi_ip (localPortInfo s 0) = 0x0A000001"
    "pi_prefix (localPortInfo s 0) = 30"
    by (simp_all add: s_def demo_router_def flow_consts)
  ultimately show ?thesis
    using route_delete_blocks [where ops = demo_lpm and ip = "0x0A000001" and prefix = 30 and port = 0 and name = "''dpdk0''"
        and new_ip = "0x0A000101" and new_prefix = 24, OF l(1)]
      route_delete_blocks [where ops = demo_lpm and ip = "0x0B000001" and prefix = 24, OF l(2)]
    unfolding s_def [symmetric] by auto
qed

section \<open>The responder\<close>

text \<open>One's complement addition of 16-bit words, as the Internet checksum uses it.\<close>

definition oc_add :: "nat \<Rightarrow> nat \<Rightarrow> nat" where
  "oc_add a b = (if a + b < 65536 then a + b else a + b - 65535)"

lemma unat_bswap16: "unat (bswap16 x) = 256 * (unat x mod 256) + unat x div 256"
proof -
  have "push_bit 8 x AND drop_bit 8 x = 0"
    by (rule bit_word_eqI) (auto simp: bit_simps dest: bit_imp_le_length)
  then have "bswap16 x = push_bit 8 x + drop_bit 8 x" by (simp add: bswap16_def disjunctive_add_eq_or)
  moreover have "unat (push_bit 8 x) = 256 * (unat x mod 256)"
    using mod_mult_mult2 [of "unat x" 256 256] by (subst unsigned_push_bit_eq) (simp add: push_bit_eq_mult take_bit_eq_mod)
  moreover have "unat x < 65536" using unsigned_less [of x] by simp
  ultimately show ?thesis by (simp add: unat_plus_exact word_nat) 
qed

text \<open>
  C32: The reply to an ICMP echo request. A request to the port's own address is sent back with its
  addresses swapped, as a reply, on the port it came from. The stored checksum is increased by 8 as a
  little-endian number; that is the one's complement sum with 0x0800, and so the checksum of the reply,
  except when the high byte of the checksum is at least 0xF8 and its low byte 0xFF, where the final carry
  is lost and the checksum is wrong.
\<close>

theorem icmp_echo_reply_checksum:
  assumes "ether_type m \<noteq> bswap16 RTE_ETHER_TYPE_ARP" and "mb_is_ipv4 m" "ip_next_proto_id m = 1"
    and "icmp_type m = RTE_IP_ICMP_ECHO_REQUEST" and "bswap32 (ip_dst_addr m) = flowQoS_router_getLocalIP (mb_port m) s"
    and c: "c = unat (bswap16 (icmp_cksum m))"
  shows "\<exists>m'. flowQoS_ARP_ICMP_PROCESS m s = Some (int (mb_port m), m', s) \<and> icmp_type m' = RTE_IP_ICMP_ECHO_REPLY \<and>
           ip_src_addr m' = ip_dst_addr m \<and> ip_dst_addr m' = ip_src_addr m \<and>
           eth_s_addr m' = eth_d_addr m \<and> eth_d_addr m' = eth_s_addr m \<and>
           (unat (bswap16 (icmp_cksum m')) = oc_add c 0x0800 \<longleftrightarrow> \<not> (0xF8 \<le> c div 256 \<and> c mod 256 = 0xFF))"
proof -
  define x where "x = icmp_cksum m"
  define h l where hl: "h = unat x mod 256" "l = unat x div 256"
  have x: "unat x = 256 * l + h" "h < 256" and "unat x < 65536" using unsigned_less [of x] by (simp_all add: hl)
  then have l: "l < 256" by simp
  have c': "c = 256 * h + l" using c by (simp add: unat_bswap16 x_def [symmetric] hl)
  then have cb: "c div 256 = h" "c mod 256 = l" using l by simp_all
  have b8: "bswap16 0x0800 = 8" by (simp add: bswap16_def)
  have u: "unat (x + 8) = (256 * l + h + 8) mod 65536" by (simp add: unat_word_ariths x)
  define A where "A = (256 * l + h + 8) mod 65536"
  have r: "unat (bswap16 (x + 8)) = 256 * (A mod 256) + A div 256" by (simp only: unat_bswap16 u A_def)
  have "unat (bswap16 (x + 8)) = oc_add c 0x0800 \<longleftrightarrow> \<not> (0xF8 \<le> h \<and> l = 0xFF)"
  proof (cases "h < 248")
    case True
    then have "A = 256 * l + (h + 8)" using l by (simp add: A_def)
    then have "A mod 256 = h + 8" "A div 256 = l" using True by (simp_all del: add_mult_distrib2)
    then show ?thesis using True l by (simp add: r oc_add_def c')
  next
    case big: False
    show ?thesis
    proof (cases "l = 255")
      case True
      then have "A = h - 248" using big x(2) by (simp add: A_def mod_if)
      then have "A mod 256 = h - 248" "A div 256 = 0" using x(2) by simp_all
      then show ?thesis using True big x(2) by (simp add: r oc_add_def c')
    next
      case False
      then have lt: "l < 255" using l by simp
      have e: "256 * l + h + 8 = 256 * (l + 1) + (h - 248)" using big by simp
      have "A = 256 * (l + 1) + (h - 248)" unfolding A_def e using lt x(2) by (intro mod_less) simp
      then have "A mod 256 = (h - 248) mod 256" "A div 256 = l + 1 + (h - 248) div 256" by (simp_all only: mod_mult_self4 div_mult_self4)
      then have "A mod 256 = h - 248" "A div 256 = l + 1" using x(2) by simp_all
      then show ?thesis using lt big x(2) by (simp add: r oc_add_def c')
    qed
  qed
  then show ?thesis using assms(1-5) cb
    by (auto simp: flowQoS_ARP_ICMP_PROCESS_def icmp_reply_def b8 x_def)
qed

definition demo_icmp :: icmp_mbuf where
  "demo_icmp = \<lparr>mb_port = 0, mb_is_ipv4 = True, mb_rss = 1, mb_ol_flags = {}, eth_s_addr = replicate 6 1, eth_d_addr = replicate 6 2,
     ip_src_addr = bswap32 0x0A000002, ip_dst_addr = bswap32 0x0A000001, ip_next_proto_id = 1, ip_type_of_service = 0, ip_time_to_live = 9,
     ip_hdr_checksum = 5, l4_sport = 0, l4_dport = 0, tcp_cksum = 0, udp_dgram_cksum = 0, ether_type = bswap16 RTE_ETHER_TYPE_IPV4,
     arp_hardware = 0, arp_protocol = 0, arp_hlen = 0, arp_plen = 0, arp_opcode = 0, arp_sip = 0, arp_tip = 0, arp_sha = [], arp_tha = [],
     ip_packet_id = 3, ip_fragment_offset = 0, icmp_type = 8, icmp_cksum = bswap16 0xF8FF, mb_l2_len = 0, mb_l3_len = 0\<rparr>"

lemma icmp_echo_reply_checksum_witness:
  "\<exists>m'. flowQoS_ARP_ICMP_PROCESS demo_icmp (demo_router :: unit router) = Some (0, m', demo_router) \<and> icmp_type m' = 0 \<and>
        unat (bswap16 (icmp_cksum m')) \<noteq> oc_add 0xF8FF 0x0800"
proof -
  have h: "ether_type demo_icmp \<noteq> bswap16 RTE_ETHER_TYPE_ARP" "mb_is_ipv4 demo_icmp" "ip_next_proto_id demo_icmp = 1"
    "icmp_type demo_icmp = RTE_IP_ICMP_ECHO_REQUEST"
    "bswap32 (ip_dst_addr demo_icmp) = flowQoS_router_getLocalIP (mb_port demo_icmp) (demo_router :: unit router)"
    "0xF8FF = unat (bswap16 (icmp_cksum demo_icmp))" "mb_port demo_icmp = 0"
    by (simp_all add: demo_icmp_def flow_consts bswap16_def bswap32_def flowQoS_router_getLocalIP_def demo_router_def)
  from icmp_echo_reply_checksum [OF h(1-6)] h(7) show ?thesis by (auto simp: flow_consts)
qed

text \<open>
  C34: ARP requests. A request for the port's own address is answered on the port it came from, to the
  sender, with the port's MAC address, and the sender's address is learned: while the table exists the
  sender is found with its MAC address afterwards. An ARP packet for another address is ignored.
\<close>

theorem arp_request_answered:
  assumes "ether_type m = bswap16 RTE_ETHER_TYPE_ARP" and ok: "arp_ok (mb_port m) s"
  shows "(bswap32 (arp_tip m) \<noteq> flowQoS_router_getLocalIP (mb_port m) s \<longrightarrow>
            flowQoS_ARP_ICMP_PROCESS m s = Some (IGNORE_PACKETS, m, s)) \<and>
         (bswap32 (arp_tip m) = flowQoS_router_getLocalIP (mb_port m) s \<longrightarrow>
            (\<exists>m' s'. flowQoS_ARP_ICMP_PROCESS m s = Some (int (mb_port m), m', s') \<and> arp_ok (mb_port m) s' \<and>
               bswap16 (arp_opcode m') = 2 \<and> arp_sip m' = arp_tip m \<and> arp_tip m' = arp_sip m \<and> arp_tha m' = eth_s_addr m \<and>
               eth_d_addr m' = eth_s_addr m \<and> arp_sha m' = flowQoS_router_getPortMac (mb_port m) s \<and>
               eth_s_addr m' = flowQoS_router_getPortMac (mb_port m) s \<and>
               (at_arps (arp_tables s (mb_port m)) \<noteq> None \<and> bswap32 (arp_sip m) \<noteq> 0 \<longrightarrow>
                  flowQoS_router_get_arp (mb_port m) (bswap32 (arp_sip m)) s' = Some (Some (eth_s_addr m)))))"
proof -
  define p ip where defs: "p = mb_port m" "ip = bswap32 (arp_sip m)"
  have "\<exists>r s'. flowQoS_router_put_arp p ip (eth_s_addr m) s = Some (r, s') \<and> arp_ok p s' \<and> localPortInfo s' = localPortInfo s \<and>
      (at_arps (arp_tables s p) \<noteq> None \<and> ip \<noteq> 0 \<longrightarrow> flowQoS_router_get_arp p ip s' = Some (Some (eth_s_addr m)))"
  proof (cases "at_arps (arp_tables s p)")
    case None
    then show ?thesis using ok
      by (auto simp: flowQoS_router_put_arp_def store_arp_def arp_ok_def Let_def defs)
  next
    case (Some arps)
    have ok': "arp_ok p s" using ok by (simp add: defs)
    note e = store_arp_eq [OF ok' Some, of ip "\<lparr>ae_ip = ip, ae_mac = eth_s_addr m\<rparr>"]
    show ?thesis using get_after_store [OF ok' Some _ e, of ip] e
      by (simp add: flowQoS_router_put_arp_def same_subnet_def upd_arp_def)
  qed
  moreover have "bswap16 (bswap16 2) = 2" by (simp add: bswap16_def)
  ultimately show ?thesis using assms(1)
    by (auto simp: flowQoS_ARP_ICMP_PROCESS_def arp_reply_def flowQoS_router_getPortMac_def defs)
qed

lemma arp_request_answered_witness:
  "\<exists>m' s'. flowQoS_ARP_ICMP_PROCESS (demo_icmp\<lparr>ether_type := bswap16 RTE_ETHER_TYPE_ARP, arp_tip := bswap32 0x0A000001,
       arp_sip := bswap32 0x0A000002\<rparr>) (demo_router :: unit router) = Some (0, m', s') \<and>
     flowQoS_router_get_arp 0 0x0A000002 s' = Some (Some (replicate 6 1))"
proof -
  define m where "m = demo_icmp\<lparr>ether_type := bswap16 RTE_ETHER_TYPE_ARP, arp_tip := bswap32 0x0A000001, arp_sip := bswap32 0x0A000002\<rparr>"
  have h: "ether_type m = bswap16 RTE_ETHER_TYPE_ARP" "mb_port m = 0" "bswap32 (arp_sip m) = 0x0A000002" "eth_s_addr m = replicate 6 1"
    "bswap32 (arp_tip m) = flowQoS_router_getLocalIP (mb_port m) (demo_router :: unit router)"
    "at_arps (arp_tables (demo_router :: unit router) 0) \<noteq> None"
    by (simp_all add: m_def demo_icmp_def bswap32_def flowQoS_router_getLocalIP_def demo_router_def)
  have "arp_ok (mb_port m) (demo_router :: unit router)" using demo_arp_ok h(2) by simp
  from arp_request_answered [OF h(1) this] h show ?thesis unfolding m_def [symmetric] by auto
qed

end
