(* ===== verification/App_Setup.thy ===== *)
theory App_Setup
  imports Conntrack_Init Router
begin

text \<open>
  What the applications under \<open>src/apps\<close> share: hash tables of \<open>rte_hash\<close> from keys to addresses, and the
  state they set up by calling the modules: connection tracking, pipes, hardware, router and the
  registered handlers.
\<close>

section \<open>Hash tables\<close>

record ('k, 'h) kv_ops =
  kv_add :: "'k \<Rightarrow> nat \<Rightarrow> 'h \<Rightarrow> int \<times> 'h"
  kv_lookup :: "'k \<Rightarrow> 'h \<Rightarrow> nat option"
  kv_del :: "'k \<Rightarrow> 'h \<Rightarrow> int \<times> 'h"

text \<open>The contents of a table; adding a key replaces its value, and a negative result means no change.\<close>

definition kv_map :: "('k, 'h) kv_ops \<Rightarrow> 'h \<Rightarrow> 'k \<rightharpoonup> nat" where
  "kv_map ops h = (\<lambda>k. kv_lookup ops k h)"

definition kv_laws :: "('k, 'h) kv_ops \<Rightarrow> bool" where
  "kv_laws ops \<longleftrightarrow>
     (\<forall>k v h r h'. kv_add ops k v h = (r, h') \<longrightarrow> kv_map ops h' = (if r < 0 then kv_map ops h else (kv_map ops h)(k \<mapsto> v))) \<and>
     (\<forall>k h. kv_map ops (snd (kv_del ops k h)) = (kv_map ops h)(k := None))"

lemma kv_addD: "kv_laws ops \<Longrightarrow> kv_add ops k v h = (r, h') \<Longrightarrow>
    kv_map ops h' = (if r < 0 then kv_map ops h else (kv_map ops h)(k \<mapsto> v))"
  by (simp add: kv_laws_def)

lemma kv_delD: "kv_laws ops \<Longrightarrow> kv_map ops (snd (kv_del ops k h)) = (kv_map ops h)(k := None)"
  by (simp add: kv_laws_def)

text \<open>A table kept as a map.\<close>

definition map_kv :: "('k, 'k \<rightharpoonup> nat) kv_ops" where
  "map_kv = \<lparr>kv_add = (\<lambda>k v h. (0, h(k \<mapsto> v))), kv_lookup = (\<lambda>k h. h k), kv_del = (\<lambda>k h. (0, h(k := None)))\<rparr>"

lemma map_kv_laws: "kv_laws map_kv"
  by (simp add: kv_laws_def map_kv_def kv_map_def fun_eq_iff)

section \<open>Calls of the modules\<close>

text \<open>What the set-up functions are given: the machine, the memory they obtain and the libraries.\<close>

record ('h, 'p, 'd, 'l) app_params =
  pa_clobber :: "'p option \<Rightarrow> 'p option"
  pa_hz :: u64
  pa_tsc :: u64
  pa_self :: nat
  pa_workers :: "nat list"
  pa_pool :: "'p option"
  pa_ct :: "nat \<Rightarrow> 'h option"
  pa_ctx_mem :: "nat \<Rightarrow> bool"
  pa_tim_mem :: "nat \<Rightarrow> bool"
  pa_mem :: "tptr \<Rightarrow> flowQoS_timer"
  pa_doca :: "'d doca_ops"
  pa_ports :: "nat \<Rightarrow> nat"
  pa_addr :: "nat \<Rightarrow> nat"
  pa_router :: "'l router_ops"
  pa_dev :: "nat \<Rightarrow> u16 \<times> u16 \<times> u8 list"

record ('h, 'p, 'd, 'l, 'a) app_state =
  ap_ct :: "('h, 'p) ct_setup"
  ap_pipes :: "nat \<rightharpoonup> FlowQoS_PIPE"
  ap_doca :: 'd
  ap_router :: "'l router"
  ap_ops :: "('h, 'p, 'a) ct_ops"

definition lcore_count :: "('h, 'p, 'd, 'l) app_params \<Rightarrow> nat" where
  "lcore_count P = length (pa_workers P) + 1"

definition app_init_env ::
  "('h, 'p, 'd, 'l) app_params \<Rightarrow> int \<Rightarrow> int \<Rightarrow> int \<Rightarrow> int \<Rightarrow> ('h, 'p, 'd, 'l, 'a) app_state \<Rightarrow> (int \<times> ('h, 'p, 'd, 'l, 'a) app_state) option" where
  "app_init_env P maxConntrack maxOffloadedEntry offloadTime offloadSpeed s =
     map_option (\<lambda>(r, su). (r, s\<lparr>ap_ct := su\<rparr>))
       (flowQoS_conntrack_init_env (pa_clobber P) (pa_hz P) (pa_tsc P) (pa_self P) (pa_workers P) (pa_pool P) (pa_ct P) (pa_ctx_mem P) (pa_tim_mem P) (pa_mem P)
          maxConntrack maxOffloadedEntry offloadTime offloadSpeed (ap_ct s))"

text \<open>The three pipes of a port are at three consecutive positions of \<open>pa_addr\<close>.\<close>

definition app_init_port ::
  "('h, 'p, 'd, 'l) app_params \<Rightarrow> nat \<Rightarrow> int \<Rightarrow> u64 \<Rightarrow> ('h, 'p, 'd, 'l, 'a) app_state \<Rightarrow> (int \<times> ('h, 'p, 'd, 'l, 'a) app_state) option" where
  "app_init_port P port maxEnt flags s =
     map_option (\<lambda>(r, at, pipes, cs, d).
         (r, s\<lparr>ap_ct := (ap_ct s)\<lparr>su_attr := at, su_cmds := cs\<rparr>, ap_pipes := pipes, ap_doca := d\<rparr>))
       (flowQoS_conntrack_init_port (pa_doca P) (pa_ports P) (lcore_count P) (\<lambda>i. pa_addr P (3 * port + i)) port maxEnt flags
          (su_attr (ap_ct s), ap_pipes s, su_cmds (ap_ct s), ap_doca s))"

definition app_handlers ::
  "(FlowQoS_ENTRY \<Rightarrow> 'a \<Rightarrow> int \<times> FlowQoS_ENTRY \<times> 'a) \<Rightarrow> (FlowQoS_ENTRY \<Rightarrow> 'a \<Rightarrow> 'a)
     \<Rightarrow> ('h, 'p, 'd, 'l, 'a) app_state \<Rightarrow> ('h, 'p, 'd, 'l, 'a) app_state" where
  "app_handlers new aging s =
     s\<lparr>ap_ops := snd (flowQoS_regist_agingConn_handler (Some aging) (snd (flowQoS_regist_newConn_handler (Some new) (ap_ops s))))\<rparr>"

text \<open>\<open>registRoutingModule(true)\<close> and the registration of the responder.\<close>

definition app_routing ::
  "('h, 'p, 'd, 'l) app_params \<Rightarrow> ('h, 'p, 'd, 'l, 'a) app_state \<Rightarrow> ('h, 'p, 'd, 'l, 'a) app_state option" where
  "app_routing P s =
     map_option (\<lambda>(cs, r). s\<lparr>ap_ct := (ap_ct s)\<lparr>su_cmds := cs\<rparr>, ap_router := r\<rparr>)
       (registRoutingModule (pa_router P) (pa_dev P) True (su_cmds (ap_ct s), ap_router s))"

definition app_responder :: "('h, 'p, 'd, 'l, 'a) app_state \<Rightarrow> ('h, 'p, 'd, 'l, 'a) app_state" where
  "app_responder s =
     s\<lparr>ap_ct := (ap_ct s)\<lparr>su_tasks := snd (register_packet_processor ''flowQoS_ARP_ICMP_PROCESS'' (su_tasks (ap_ct s)))\<rparr>\<rparr>"

text \<open>A call of \<open>flowQoS_build_pipe\<close> on the state of the application.\<close>

definition app_pipe ::
  "('h, 'p, 'd, 'l) app_params \<Rightarrow> nat \<Rightarrow> nat \<Rightarrow> string \<Rightarrow> u64 \<Rightarrow> u64 \<Rightarrow> FlowQoS_FWD \<Rightarrow> FlowQoS_FWD \<Rightarrow> bool \<Rightarrow> int
     \<Rightarrow> ('h, 'p, 'd, 'l, 'a) app_state \<Rightarrow> (nat \<times> ('h, 'p, 'd, 'l, 'a) app_state) option" where
  "app_pipe P n port name mf af matched unmatched root cap s =
     map_option (\<lambda>(x, pipes, cs, d). (x, s\<lparr>ap_pipes := pipes, ap_ct := (ap_ct s)\<lparr>su_cmds := cs\<rparr>, ap_doca := d\<rparr>))
       (flowQoS_build_pipe (pa_doca P) (pa_ports P) (lcore_count P) (pa_addr P n) port name mf af matched unmatched root cap
          (ap_pipes s, su_cmds (ap_ct s), ap_doca s))"

text \<open>The router is configured by a sequence of calls whose results are not looked at.\<close>

definition RTE_IPV4 :: "u32 \<Rightarrow> u32 \<Rightarrow> u32 \<Rightarrow> u32 \<Rightarrow> u32" where
  "RTE_IPV4 a b c d = push_bit 24 (a AND 0xff) OR push_bit 16 (b AND 0xff) OR push_bit 8 (c AND 0xff) OR (d AND 0xff)"

datatype router_call = Ifconfig string u32 u32 | Put_arp nat u32 "u8 list" | Set_mac nat "u8 list"

fun run_call :: "'l router_ops \<Rightarrow> router_call \<Rightarrow> 'l router \<Rightarrow> 'l router option" where
  "run_call ops (Ifconfig name ip prefix) s = map_option snd (flowQoS_router_ifconfig ops name ip prefix s)"
| "run_call ops (Put_arp port ip mac) s = map_option snd (flowQoS_router_put_arp port ip mac s)"
| "run_call ops (Set_mac port mac) s = Some (flowQoS_router_setPortMac port mac s)"

fun router_calls :: "'l router_ops \<Rightarrow> router_call list \<Rightarrow> 'l router \<Rightarrow> 'l router option" where
  "router_calls ops [] s = Some s"
| "router_calls ops (c # cs) s = Option.bind (run_call ops c s) (router_calls ops cs)"

definition mac1 :: "u8 list" where "mac1 = [0x08, 0xc0, 0xeb, 0xbf, 0xef, 0x9a]"
definition mac2 :: "u8 list" where "mac2 = [0x08, 0xc0, 0xeb, 0xbf, 0xef, 0x82]"
definition mac3 :: "u8 list" where "mac3 = [0xb8, 0xce, 0xf6, 0xd5, 0xd6, 0xf7]"
definition mac4 :: "u8 list" where "mac4 = [0xb8, 0xce, 0xf6, 0xd5, 0xcc, 0x5f]"
definition mac5 :: "u8 list" where "mac5 = [0x08, 0xc0, 0xeb, 0xbf, 0xef, 0x83]"

end
