(* ===== verification/Snat.thy ===== *)
theory Snat
  imports App_Setup
begin

text \<open>
  The source NAT application (\<open>src/apps/flowQoS_snat.c\<close>): the pool of 65536 source addresses, the table with
  an upstream and a downstream key for each connection, and the handlers of new and aged connections. A
  pool entry is named by its position in \<open>entries\<close>; \<open>bucket\<close> is the list of free ones. \<open>pipe_port\<close> reads the
  port of a pipe. The ARP locks are free while a handler runs: their holders wait for nothing.
\<close>

definition WAN_PORT :: nat where [flow_consts]: "WAN_PORT = 1"
definition LAN_PORT :: nat where [flow_consts]: "LAN_PORT = 0"
definition MAX_CT_OFFLOADED :: int where [flow_consts]: "MAX_CT_OFFLOADED = 2 ^ 16"
definition MAX_ENTRY_IN_PIPE :: int where [flow_consts]: "MAX_ENTRY_IN_PIPE = MAX_CT_OFFLOADED + 10"
definition MAX_CT_IN_POOL :: int where [flow_consts]: "MAX_CT_IN_POOL = MAX_CT_OFFLOADED * 2 + 10"
definition CONN_EXPIRE :: u64 where [flow_consts]: "CONN_EXPIRE = 50"
definition POOL_SIZE :: nat where [flow_consts]: "POOL_SIZE = 65536"

record snat_match =
  sm_sip :: u32
  sm_dip :: u32
  sm_sport :: u16
  sm_dport :: u16
  sm_proto :: u8

record snat_pool_entry =
  pe_sip :: u32
  pe_dip :: u32
  pe_sport :: u16
  pe_dport :: u16

record ('h, 'l) flowQoS_snat_attr =
  snat_table :: 'h
  entries :: "nat \<Rightarrow> snat_pool_entry"
  bucket :: "nat list"
  snat_router :: "'l router"

definition flowQoS_snat_pool_put :: "nat \<Rightarrow> ('h, 'l) flowQoS_snat_attr \<Rightarrow> ('h, 'l) flowQoS_snat_attr" where
  "flowQoS_snat_pool_put e s = s\<lparr>bucket := e # bucket s\<rparr>"

definition flowQoS_snat_pool_get :: "('h, 'l) flowQoS_snat_attr \<Rightarrow> nat option \<times> ('h, 'l) flowQoS_snat_attr" where
  "flowQoS_snat_pool_get s = (case bucket s of [] \<Rightarrow> (None, s) | e # es \<Rightarrow> (Some e, s\<lparr>bucket := es\<rparr>))"

text \<open>\<open>flowQoS_snat_pool_init\<close>: \<open>table\<close> is the hash table that could be created, \<open>mem\<close> the memory of the entries.\<close>

definition flowQoS_snat_pool_init ::
  "'h option \<Rightarrow> (nat \<Rightarrow> snat_pool_entry) option \<Rightarrow> 'l router \<Rightarrow> nat \<times> ('h, 'l) flowQoS_snat_attr option" where
  "flowQoS_snat_pool_init table mem r =
     (case (table, mem) of
        (Some t, Some es) \<Rightarrow>
          let sip = flowQoS_router_getLocalIP WAN_PORT r;
              s = fold (\<lambda>i s. flowQoS_snat_pool_put i
                     (s\<lparr>entries := (entries s)(i := (entries s i)\<lparr>pe_sip := bswap32 sip, pe_sport := of_nat i\<rparr>)\<rparr>))
                     [0..<POOL_SIZE] \<lparr>snat_table = t, entries = es, bucket = [], snat_router = r\<rparr>
          in (length (bucket s), Some s)
      | _ \<Rightarrow> (0, None))"

definition upstream_key :: "FlowQoS_MATCH \<Rightarrow> snat_match" where
  "upstream_key k = \<lparr>sm_sip = m_src_ip k, sm_dip = m_dst_ip k, sm_sport = m_src_port k, sm_dport = m_dst_port k, sm_proto = m_proto k\<rparr>"

definition downstream_key :: "FlowQoS_MATCH \<Rightarrow> snat_pool_entry \<Rightarrow> snat_match" where
  "downstream_key k e = \<lparr>sm_sip = m_dst_ip k, sm_dip = pe_sip e, sm_sport = m_dst_port k, sm_dport = pe_sport e, sm_proto = m_proto k\<rparr>"

definition arp_of :: "nat \<Rightarrow> u32 \<Rightarrow> 'l router \<Rightarrow> u8 list option" where
  "arp_of port ip r = (case flowQoS_router_get_arp port (bswap32 ip) r of Some (Some mac) \<Rightarrow> Some mac | _ \<Rightarrow> None)"

text \<open>A new connection from the LAN.\<close>

definition snat_upstream ::
  "(snat_match, 'h) kv_ops \<Rightarrow> FlowQoS_ENTRY \<Rightarrow> ('h, 'l) flowQoS_snat_attr \<Rightarrow> int \<times> FlowQoS_ENTRY \<times> ('h, 'l) flowQoS_snat_attr" where
  "snat_upstream ops en s =
     (case arp_of WAN_PORT (m_dst_ip (e_match en)) (snat_router s) of
        None \<Rightarrow> (DROP_PACKETS, en, s)
      | Some mac \<Rightarrow>
        (case flowQoS_snat_pool_get s of
           (None, s1) \<Rightarrow> (DROP_PACKETS, en, s1)
         | (Some e, s1) \<Rightarrow>
           let k = e_match en;
               s2 = s1\<lparr>entries := (entries s1)(e := (entries s1 e)\<lparr>pe_dip := m_src_ip k, pe_dport := m_src_port k\<rparr>)\<rparr>;
               (ret, t1) = kv_add ops (upstream_key k) e (snat_table s2) in
           if ret < 0 then (DROP_PACKETS, en, flowQoS_snat_pool_put e (s2\<lparr>snat_table := t1\<rparr>))
           else
             let (ret2, t2) = kv_add ops (downstream_key k (entries s2 e)) e t1 in
             if ret2 < 0 then (DROP_PACKETS, en, flowQoS_snat_pool_put e (s2\<lparr>snat_table := snd (kv_del ops (upstream_key k) t2)\<rparr>))
             else (int WAN_PORT,
                   en\<lparr>e_expireTime := CONN_EXPIRE,
                      e_action := (e_action en)\<lparr>a_src_ip := pe_sip (entries s2 e), a_src_port := pe_sport (entries s2 e), a_dst_mac := mac\<rparr>\<rparr>,
                   s2\<lparr>snat_table := t2\<rparr>)))"

text \<open>A new connection from the WAN.\<close>

definition snat_downstream ::
  "(snat_match, 'h) kv_ops \<Rightarrow> FlowQoS_ENTRY \<Rightarrow> ('h, 'l) flowQoS_snat_attr \<Rightarrow> int \<times> FlowQoS_ENTRY \<times> ('h, 'l) flowQoS_snat_attr" where
  "snat_downstream ops en s =
     (case kv_lookup ops (upstream_key (e_match en)) (snat_table s) of
        None \<Rightarrow> (DROP_PACKETS, en, s)
      | Some e \<Rightarrow>
        let en1 = en\<lparr>e_expireTime := CONN_EXPIRE,
                     e_action := (e_action en)\<lparr>a_dst_ip := pe_dip (entries s e), a_dst_port := pe_dport (entries s e)\<rparr>\<rparr> in
        (case arp_of LAN_PORT (a_dst_ip (e_action en1)) (snat_router s) of
           None \<Rightarrow> (DROP_PACKETS, en1, s)
         | Some mac \<Rightarrow> (int LAN_PORT, en1\<lparr>e_action := (e_action en1)\<lparr>a_dst_mac := mac\<rparr>\<rparr>, s)))"

definition snat_newConn_handler ::
  "(snat_match, 'h) kv_ops \<Rightarrow> (nat \<Rightarrow> nat) \<Rightarrow> FlowQoS_ENTRY \<Rightarrow> ('h, 'l) flowQoS_snat_attr \<Rightarrow> int \<times> FlowQoS_ENTRY \<times> ('h, 'l) flowQoS_snat_attr" where
  "snat_newConn_handler ops pipe_port en s =
     (if pipe_port (e_pipe en) = LAN_PORT then snat_upstream ops en s else snat_downstream ops en s)"

definition snat_agingConn_handler ::
  "(snat_match, 'h) kv_ops \<Rightarrow> (nat \<Rightarrow> nat) \<Rightarrow> FlowQoS_ENTRY \<Rightarrow> ('h, 'l) flowQoS_snat_attr \<Rightarrow> ('h, 'l) flowQoS_snat_attr" where
  "snat_agingConn_handler ops pipe_port en s =
     (if pipe_port (e_pipe en) = LAN_PORT then
        case kv_lookup ops (upstream_key (e_match en)) (snat_table s) of
          None \<Rightarrow> s
        | Some e \<Rightarrow>
            flowQoS_snat_pool_put e (s\<lparr>snat_table :=
              snd (kv_del ops (downstream_key (e_match en) (entries s e)) (snd (kv_del ops (upstream_key (e_match en)) (snat_table s))))\<rparr>)
      else s)"

text \<open>The counts that the command \<open>show\<close> prints; \<open>keys\<close> is \<open>rte_hash_count\<close>.\<close>

definition cmd_snat_parsed :: "('h \<Rightarrow> nat) \<Rightarrow> ('h, 'l) flowQoS_snat_attr \<Rightarrow> nat \<times> nat" where
  "cmd_snat_parsed keys s = (keys (snat_table s), length (bucket s))"

definition registerSnatCmd :: "cmd_state \<Rightarrow> cmd_state option" where
  "registerSnatCmd = register_once ''Snat'' [''cmd_snat_obj'']"

text \<open>
  \<open>init_snat\<close>; the result of the port set-up, which is 0 or 1, is compared with \<open>< 0\<close>.
\<close>

definition snat_router_calls :: "router_call list" where
  "snat_router_calls =
     [Ifconfig ''dpdk0'' (RTE_IPV4 192 168 200 2) 24, Ifconfig ''dpdk1'' (RTE_IPV4 192 168 201 2) 24,
      Put_arp 0 (RTE_IPV4 192 168 200 1) mac2, Put_arp 0 (RTE_IPV4 192 168 200 102) mac3, Put_arp 0 (RTE_IPV4 192 168 200 103) mac4,
      Put_arp 1 (RTE_IPV4 192 168 201 1) mac5, Set_mac 0 mac1]"

definition init_snat ::
  "('h, 'p, 'd, 'l) app_params \<Rightarrow> (snat_match, 'k) kv_ops \<Rightarrow> (nat \<Rightarrow> nat) \<Rightarrow> 'k option \<Rightarrow> (nat \<Rightarrow> snat_pool_entry) option
     \<Rightarrow> ('h, 'p, 'd, 'l, ('k, 'l) flowQoS_snat_attr) app_state
     \<Rightarrow> (nat \<times> ('k, 'l) flowQoS_snat_attr option \<times> ('h, 'p, 'd, 'l, ('k, 'l) flowQoS_snat_attr) app_state) option" where
  "init_snat P kv pipe_port table mem s =
     (if lcore_count P \<noteq> 2 then Some (0, None, s)
      else
        Option.bind (app_init_env P MAX_CT_IN_POOL MAX_CT_OFFLOADED 0 0 s) (\<lambda>(r, s1).
        if r \<le> 0 then Some (0, None, s1)
        else
        Option.bind (app_init_port P LAN_PORT MAX_ENTRY_IN_PIPE (SIP OR SPORT OR DMAC OR AGING) s1) (\<lambda>(r1, s2).
        if r1 < 0 then Some (0, None, s2)
        else
        Option.bind (app_init_port P WAN_PORT MAX_ENTRY_IN_PIPE (DIP OR DPORT OR DMAC OR AGING) s2) (\<lambda>(r2, s3).
        if r2 < 0 then Some (0, None, s3)
        else
        Option.bind (app_routing P (app_handlers (snat_newConn_handler kv pipe_port) (snat_agingConn_handler kv pipe_port) s3)) (\<lambda>s4.
        Option.bind (registerSnatCmd (su_cmds (ap_ct s4))) (\<lambda>cs.
        let s5 = app_responder (s4\<lparr>ap_ct := (ap_ct s4)\<lparr>su_cmds := cs\<rparr>\<rparr>) in
        Option.bind (router_calls (pa_router P) snat_router_calls (ap_router s5)) (\<lambda>r.
        let (n, a) = flowQoS_snat_pool_init table mem r in Some (n, a, s5\<lparr>ap_router := r\<rparr>))))))))"

end
