(* ===== verification/Snat_Props.thy ===== *)
theory Snat_Props
  imports Snat Conntrack_Inv
begin

text \<open>
  Properties of the source NAT: the pool and the table always agree, a connection that ages gives back
  exactly what it took, and the replies to a translated connection reach the host that opened it.
\<close>

section \<open>The handler as an application of connection tracking\<close>

lemma snat_upstream_keeps:
  assumes "snat_upstream ops en s = (port, en', s')" and "0 \<le> port"
  shows "e_match en' = e_match en \<and> e_pipe en' = e_pipe en \<and> a_flags (e_action en') = a_flags (e_action en) \<and> e_expireTime en' = CONN_EXPIRE"
  using assms
  by (auto simp: snat_upstream_def flow_consts Let_def split: option.splits prod.splits if_splits)

lemma snat_downstream_keeps:
  assumes "snat_downstream ops en s = (port, en', s')" and "0 \<le> port"
  shows "e_match en' = e_match en \<and> e_pipe en' = e_pipe en \<and> a_flags (e_action en') = a_flags (e_action en) \<and> e_expireTime en' = CONN_EXPIRE"
  using assms
  by (auto simp: snat_downstream_def flow_consts Let_def split: option.splits)

interpretation snat_app: conn_app "snat_newConn_handler ops pipe_port" for ops :: "(snat_match, 'h) kv_ops" and pipe_port
proof unfold_locales
  fix en :: FlowQoS_ENTRY and a :: "('h, 'l) flowQoS_snat_attr" and port en' a'
  assume "snat_newConn_handler ops pipe_port en a = (port, en', a')" and p: "0 \<le> port"
  then have k: "e_match en' = e_match en \<and> e_pipe en' = e_pipe en \<and> a_flags (e_action en') = a_flags (e_action en) \<and> e_expireTime en' = CONN_EXPIRE"
    using snat_upstream_keeps [of ops en a port en' a'] snat_downstream_keeps [of ops en a port en' a'] by (auto simp: snat_newConn_handler_def split: if_splits)
  then show "e_match en' = e_match en \<and> e_pipe en' = e_pipe en \<and> a_flags (e_action en') = a_flags (e_action en)" by simp
  from k show "e_expireTime en' * 1000 \<le> TIMER_MAX_TIMEOUT" by (simp add: flow_consts)
qed

section \<open>Pool and table\<close>

definition reply_key :: "u32 \<Rightarrow> snat_match \<Rightarrow> nat \<Rightarrow> snat_match" where
  "reply_key wan u i = \<lparr>sm_sip = sm_dip u, sm_dip = wan, sm_sport = sm_dport u, sm_dport = of_nat i, sm_proto = sm_proto u\<rparr>"

text \<open>
  \<open>conns\<close> gives the upstream key of the connection that holds a pool entry. The entries without one are
  free, and the table has exactly the two keys of every connection.
\<close>

definition snat_conns :: "u32 \<Rightarrow> (snat_match \<rightharpoonup> nat) \<Rightarrow> (nat \<Rightarrow> snat_pool_entry) \<Rightarrow> nat list \<Rightarrow> (nat \<rightharpoonup> snat_match) \<Rightarrow> bool" where
  "snat_conns wan T es b conns \<longleftrightarrow>
     distinct b \<and> set b \<subseteq> {..<POOL_SIZE} \<and> dom conns = {..<POOL_SIZE} - set b \<and>
     (\<forall>i < POOL_SIZE. pe_sip (es i) = wan \<and> pe_sport (es i) = of_nat i) \<and>
     (\<forall>i u. conns i = Some u \<longrightarrow> sm_dip u \<noteq> wan \<and> pe_dip (es i) = sm_sip u \<and> pe_dport (es i) = sm_sport u) \<and>
     (\<forall>k i. T k = Some i \<longleftrightarrow> conns i = Some k \<or> (\<exists>u. conns i = Some u \<and> k = reply_key wan u i))"

definition snat_inv :: "(snat_match, 'h) kv_ops \<Rightarrow> u32 \<Rightarrow> ('h, 'l) flowQoS_snat_attr \<Rightarrow> (nat \<rightharpoonup> snat_match) \<Rightarrow> bool" where
  "snat_inv ops wan s conns \<longleftrightarrow> snat_conns wan (kv_map ops (snat_table s)) (entries s) (bucket s) conns"

lemma of_nat_port_inj: "i < POOL_SIZE \<Longrightarrow> j < POOL_SIZE \<Longrightarrow> (of_nat i :: u16) = of_nat j \<longleftrightarrow> i = j"
proof
  assume b: "i < POOL_SIZE" "j < POOL_SIZE" and "(of_nat i :: u16) = of_nat j"
  then have "unat (of_nat i :: u16) = unat (of_nat j :: u16)" by simp
  then show "i = j" using b by (simp add: unsigned_of_nat flow_consts take_bit_nat_eq_self)
qed simp

lemma reply_key_inj:
  assumes "i < POOL_SIZE" "j < POOL_SIZE" "reply_key wan u i = reply_key wan v j"
  shows "i = j"
  using assms by (simp add: reply_key_def of_nat_port_inj)

lemma snat_conns_add:
  assumes inv: "snat_conns wan T es (i # b) conns" and fresh: "T u = None" and dip: "sm_dip u \<noteq> wan"
    and es': "es' = es(i := (es i)\<lparr>pe_dip := sm_sip u, pe_dport := sm_sport u\<rparr>)"
  shows "snat_conns wan (T(u \<mapsto> i, reply_key wan u i \<mapsto> i)) es' b (conns(i \<mapsto> u))"
proof -
  have i: "i < POOL_SIZE" "i \<notin> set b" "conns i = None" "distinct b" "set b \<subseteq> {..<POOL_SIZE}" and d: "dom conns = {..<POOL_SIZE} - set (i # b)"
    using inv by (auto simp: snat_conns_def)
  have T: "T k = Some j \<longleftrightarrow> conns j = Some k \<or> (\<exists>v. conns j = Some v \<and> k = reply_key wan v j)" for k j
    using inv by (simp add: snat_conns_def)
  have c: "sm_dip v \<noteq> wan" "j < POOL_SIZE" "v \<noteq> u" if "conns j = Some v" for j v
    using inv that d T [of u j] fresh by (auto simp: snat_conns_def)
  have ur: "u \<noteq> reply_key wan v j" for v j using dip by (auto simp: reply_key_def)
  have cr: "v \<noteq> reply_key wan w k" if "conns j = Some v" for j v w k using c(1) [OF that] by (auto simp: reply_key_def)
  have rj: "j = i" if "conns j = Some v" "reply_key wan u i = reply_key wan v j" for j v
    using reply_key_inj [OF i(1) c(2) [OF that(1)] that(2)] by simp
  have "(T(u \<mapsto> i, reply_key wan u i \<mapsto> i)) k = Some j \<longleftrightarrow>
      (conns(i \<mapsto> u)) j = Some k \<or> (\<exists>v. (conns(i \<mapsto> u)) j = Some v \<and> k = reply_key wan v j)" for k j
  proof (cases "k = u \<or> k = reply_key wan u i")
    case True
    have "\<not> (conns j = Some k \<or> (\<exists>v. conns j = Some v \<and> k = reply_key wan v j))" if "j \<noteq> i"
      using True rj [of j] cr [of j] c(3) [of j] ur that by metis
    then show ?thesis using True ur i(3) by auto
  next
    case False
    then show ?thesis using T [of k j] i(3) by auto
  qed
  moreover have "dom (conns(i \<mapsto> u)) = {..<POOL_SIZE} - set b" using d i by auto
  ultimately show ?thesis using inv i dip by (auto simp: snat_conns_def es')
qed

lemma snat_conns_del:
  assumes inv: "snat_conns wan T es b conns" and u: "conns i = Some u"
  shows "snat_conns wan (T(u := None, reply_key wan u i := None)) es (i # b) (conns(i := None))"
proof -
  have T: "T k = Some j \<longleftrightarrow> conns j = Some k \<or> (\<exists>v. conns j = Some v \<and> k = reply_key wan v j)" for k j
    using inv by (simp add: snat_conns_def)
  have i: "T u = Some i" "T (reply_key wan u i) = Some i" using T u by auto
  have "(T(u := None, reply_key wan u i := None)) k = Some j \<longleftrightarrow>
      (conns(i := None)) j = Some k \<or> (\<exists>v. (conns(i := None)) j = Some v \<and> k = reply_key wan v j)" for k j
  proof (cases "j = i")
    case True
    then show ?thesis using T [of k i] u by (cases "T k = Some i") auto
  next
    case False
    then have "k \<noteq> u \<and> k \<noteq> reply_key wan u i" if "T k = Some j" using that i by auto
    then show ?thesis using False T [of k j] by (cases "T k = Some j") auto
  qed
  then show ?thesis using inv u by (auto simp: snat_conns_def)
qed

lemma snat_conns_free_entry:
  assumes "snat_conns wan T es b conns" and "i \<in> set b"
  shows "snat_conns wan T (es(i := (es i)\<lparr>pe_dip := x, pe_dport := y\<rparr>)) b conns"
  using assms by (auto simp: snat_conns_def dest: domI)

text \<open>The two outcomes of a new connection from the LAN.\<close>

lemma snat_upstream_results:
  assumes laws: "kv_laws ops" and inv: "snat_inv ops wan s conns" and fresh: "kv_map ops (snat_table s) (upstream_key (e_match en)) = None"
    and dip: "m_dst_ip (e_match en) \<noteq> wan" and run: "snat_upstream ops en s = (r, en', s')"
  shows "(r = DROP_PACKETS \<and> en' = en \<and> bucket s' = bucket s \<and> kv_map ops (snat_table s') = kv_map ops (snat_table s) \<and> snat_inv ops wan s' conns) \<or>
         (\<exists>i b. r = int WAN_PORT \<and> bucket s = i # b \<and> bucket s' = b \<and> snat_inv ops wan s' (conns(i \<mapsto> upstream_key (e_match en))) \<and>
            a_src_ip (e_action en') = wan \<and> a_src_port (e_action en') = of_nat i \<and> e_match en' = e_match en \<and> e_pipe en' = e_pipe en \<and>
            snat_router s' = snat_router s)"
proof (cases "arp_of WAN_PORT (m_dst_ip (e_match en)) (snat_router s) = None \<or> bucket s = []")
  case True
  then show ?thesis using run inv by (auto simp: snat_upstream_def flowQoS_snat_pool_get_def split: option.splits)
next
  case False
  then obtain mac i b where arp: "arp_of WAN_PORT (m_dst_ip (e_match en)) (snat_router s) = Some mac" and b: "bucket s = i # b"
    by (cases "bucket s") auto
  define k u es where defs: "k = e_match en" "u = upstream_key k" "es = (entries s)(i := (entries s i)\<lparr>pe_dip := m_src_ip k, pe_dport := m_src_port k\<rparr>)"
  have C: "snat_conns wan (kv_map ops (snat_table s)) (entries s) (i # b) conns" using inv b by (simp add: snat_inv_def)
  have i: "pe_sip (entries s i) = wan" "pe_sport (entries s i) = of_nat i" using C by (auto simp: snat_conns_def)
  have down: "downstream_key k (es i) = reply_key wan u i" by (simp add: downstream_key_def reply_key_def defs upstream_key_def i)
  have es: "es = (entries s)(i := (entries s i)\<lparr>pe_dip := sm_sip u, pe_dport := sm_sport u\<rparr>)" by (simp add: defs upstream_key_def)
  have C': "snat_conns wan (kv_map ops (snat_table s)) es (i # b) conns" unfolding defs by (rule snat_conns_free_entry [OF C]) simp
  obtain ret t1 where a1: "kv_add ops u i (snat_table s) = (ret, t1)" by force
  obtain ret2 t2 where a2: "kv_add ops (reply_key wan u i) i t1 = (ret2, t2)" by force
  have run': "(r, en', s') =
     (if ret < 0 then (DROP_PACKETS, en, s\<lparr>bucket := i # b, entries := es, snat_table := t1\<rparr>)
      else if ret2 < 0 then (DROP_PACKETS, en, s\<lparr>bucket := i # b, entries := es, snat_table := snd (kv_del ops u t2)\<rparr>)
      else (int WAN_PORT, en\<lparr>e_expireTime := CONN_EXPIRE,
              e_action := (e_action en)\<lparr>a_src_ip := wan, a_src_port := of_nat i, a_dst_mac := mac\<rparr>\<rparr>,
            s\<lparr>bucket := b, entries := es, snat_table := t2\<rparr>))"
    using run arp b a1 a2 i down
    by (auto simp: snat_upstream_def flowQoS_snat_pool_get_def flowQoS_snat_pool_put_def Let_def defs split: if_splits)
  note m1 = kv_addD [OF laws a1] and m2 = kv_addD [OF laws a2] and fresh' = fresh [folded defs(1), folded defs(2)]
  show ?thesis
  proof (cases "ret < 0 \<or> ret2 < 0")
    case True
    have e: "s' = s\<lparr>bucket := i # b, entries := es, snat_table := (if ret < 0 then t1 else snd (kv_del ops u t2))\<rparr>"
      "r = DROP_PACKETS" "en' = en"
      using run' True by (simp_all split: if_splits)
    have T: "kv_map ops (if ret < 0 then t1 else snd (kv_del ops u t2)) = kv_map ops (snat_table s)"
      using True m1 m2 kv_delD [OF laws, of u t2] fresh' by auto
    show ?thesis using e T C' b by (simp add: snat_inv_def)
  next
    case False
    have "kv_map ops t2 = (kv_map ops (snat_table s))(u \<mapsto> i, reply_key wan u i \<mapsto> i)" using False m1 m2 by simp
    moreover have "sm_dip u \<noteq> wan" using dip by (simp add: defs upstream_key_def)
    ultimately have "snat_conns wan (kv_map ops t2) es b (conns(i \<mapsto> u))" using snat_conns_add [OF C fresh' _ es] by simp
    then show ?thesis using run' False b by (auto simp: snat_inv_def defs)
  qed
qed

lemma snat_aging_results:
  assumes laws: "kv_laws ops" and inv: "snat_inv ops wan s conns" and lan: "pipe_port (e_pipe en) = LAN_PORT"
    and u: "conns i = Some (upstream_key (e_match en))"
  shows "bucket (snat_agingConn_handler ops pipe_port en s) = i # bucket s \<and>
         snat_inv ops wan (snat_agingConn_handler ops pipe_port en s) (conns(i := None))"
proof -
  have C: "snat_conns wan (kv_map ops (snat_table s)) (entries s) (bucket s) conns" using inv by (simp add: snat_inv_def)
  then have l: "kv_lookup ops (upstream_key (e_match en)) (snat_table s) = Some i" using u by (auto simp: snat_conns_def kv_map_def)
  have "i < POOL_SIZE" using C u by (auto simp: snat_conns_def)
  then have "pe_sip (entries s i) = wan" "pe_sport (entries s i) = of_nat i" using C by (auto simp: snat_conns_def)
  then have d: "downstream_key (e_match en) (entries s i) = reply_key wan (upstream_key (e_match en)) i"
    by (simp add: downstream_key_def reply_key_def upstream_key_def)
  show ?thesis using snat_conns_del [OF C u] l lan
    by (simp add: snat_agingConn_handler_def flowQoS_snat_pool_put_def d snat_inv_def kv_delD [OF laws])
qed

section \<open>Properties\<close>

text \<open>
  The events of the application: a new connection from the LAN that is not in the table (and not to the
  gateway's own WAN address), a connection from the WAN, and the aging of a connection.
\<close>

inductive snat_step ::
  "(snat_match, 'h) kv_ops \<Rightarrow> (nat \<Rightarrow> nat) \<Rightarrow> u32 \<Rightarrow> ('h, 'l) flowQoS_snat_attr \<Rightarrow> ('h, 'l) flowQoS_snat_attr \<Rightarrow> bool"
  for ops pipe_port wan where
  lan: "pipe_port (e_pipe en) = LAN_PORT \<Longrightarrow> kv_map ops (snat_table s) (upstream_key (e_match en)) = None \<Longrightarrow>
     m_dst_ip (e_match en) \<noteq> wan \<Longrightarrow> snat_newConn_handler ops pipe_port en s = (r, en', s') \<Longrightarrow> snat_step ops pipe_port wan s s'"
| wan: "pipe_port (e_pipe en) \<noteq> LAN_PORT \<Longrightarrow> snat_newConn_handler ops pipe_port en s = (r, en', s') \<Longrightarrow> snat_step ops pipe_port wan s s'"
| aged: "m_dst_ip (e_match en) \<noteq> wan \<Longrightarrow> snat_step ops pipe_port wan s (snat_agingConn_handler ops pipe_port en s)"

lemma snat_step_inv:
  assumes laws: "kv_laws ops" and "snat_step ops pipe_port wan s s'" and inv: "snat_inv ops wan s conns"
  shows "\<exists>conns'. snat_inv ops wan s' conns'"
  using assms(2)
proof cases
  case (lan en r en')
  then have "snat_upstream ops en s = (r, en', s')" by (simp add: snat_newConn_handler_def)
  from snat_upstream_results [OF laws inv lan(2,3) this] show ?thesis by blast
next
  case (wan en r en')
  then have "s' = s" by (auto simp: snat_newConn_handler_def snat_downstream_def Let_def split: option.splits)
  then show ?thesis using inv by blast
next
  case (aged en)
  show ?thesis
  proof (cases "pipe_port (e_pipe en) = LAN_PORT \<and> kv_lookup ops (upstream_key (e_match en)) (snat_table s) \<noteq> None")
    case True
    then obtain i where "kv_map ops (snat_table s) (upstream_key (e_match en)) = Some i" by (auto simp: kv_map_def)
    then have "conns i = Some (upstream_key (e_match en)) \<or> (\<exists>v. conns i = Some v \<and> upstream_key (e_match en) = reply_key wan v i)"
      using inv by (simp add: snat_inv_def snat_conns_def)
    then have "conns i = Some (upstream_key (e_match en))" using aged(2) by (auto simp: upstream_key_def reply_key_def)
    from snat_aging_results [OF laws inv _ this] True aged show ?thesis by blast
  next
    case False
    then have "s' = s" using aged by (auto simp: snat_agingConn_handler_def)
    then show ?thesis using inv by blast
  qed
qed

text \<open>The pool after initialisation.\<close>

lemma pool_fold:
  "fold (\<lambda>i s. flowQoS_snat_pool_put i (s\<lparr>entries := (entries s)(i := (entries s i)\<lparr>pe_sip := x, pe_sport := of_nat i\<rparr>)\<rparr>)) [0..<n]
     \<lparr>snat_table = t, entries = es, bucket = [], snat_router = r\<rparr> =
   \<lparr>snat_table = t, entries = (\<lambda>i. if i < n then (es i)\<lparr>pe_sip := x, pe_sport := of_nat i\<rparr> else es i), bucket = rev [0..<n], snat_router = r\<rparr>"
  by (induction n) (auto simp: flowQoS_snat_pool_put_def fun_eq_iff less_Suc_eq)

lemma snat_pool_init_inv:
  assumes "flowQoS_snat_pool_init (Some t) (Some es) r = (n, Some s)" and "kv_map ops t = Map.empty"
  shows "n = POOL_SIZE \<and> snat_table s = t \<and> snat_router s = r \<and> snat_inv ops (bswap32 (flowQoS_router_getLocalIP WAN_PORT r)) s Map.empty"
  using assms unfolding flowQoS_snat_pool_init_def pool_fold by (auto simp: Let_def snat_inv_def snat_conns_def)

text \<open>
  C6: Over every sequence of new and aging connections the pool and the table agree. Each of the 65536
  ports is free or held by exactly one connection, so that two connections never share a translated
  port; the table has exactly the upstream and the downstream key of every connection.
\<close>

theorem snat_pool_and_table_agree:
  assumes laws: "kv_laws ops" and init: "snat_inv ops wan s0 Map.empty" and reach: "(snat_step ops pipe_port wan)\<^sup>*\<^sup>* s0 s"
  shows "\<exists>conns. distinct (bucket s) \<and> dom conns = {..<POOL_SIZE} - set (bucket s) \<and> card (dom conns) + length (bucket s) = POOL_SIZE \<and>
     (\<forall>i j u. conns i = Some u \<and> conns j = Some u \<longrightarrow> i = j) \<and>
     (\<forall>k i. kv_lookup ops k (snat_table s) = Some i \<longleftrightarrow>
        conns i = Some k \<or> (\<exists>u. conns i = Some u \<and> k = \<lparr>sm_sip = sm_dip u, sm_dip = wan, sm_sport = sm_dport u, sm_dport = of_nat i, sm_proto = sm_proto u\<rparr>))"
proof -
  have "\<exists>conns. snat_inv ops wan s conns" using reach
    by (induction rule: rtranclp_induct) (use init in blast, use snat_step_inv [OF laws] in blast)
  then obtain conns where C: "snat_conns wan (kv_map ops (snat_table s)) (entries s) (bucket s) conns" by (auto simp: snat_inv_def)
  have T: "kv_lookup ops k (snat_table s) = Some i \<longleftrightarrow> conns i = Some k \<or> (\<exists>u. conns i = Some u \<and> k = reply_key wan u i)" for k i
    using C by (simp add: snat_conns_def kv_map_def)
  have sub: "set (bucket s) \<subseteq> {..<POOL_SIZE}" "distinct (bucket s)" "dom conns = {..<POOL_SIZE} - set (bucket s)"
    using C by (auto simp: snat_conns_def)
  then have "card (dom conns) + length (bucket s) = POOL_SIZE"
    using card_mono [OF _ sub(1)] by (simp add: card_Diff_subset distinct_card)
  moreover have "\<forall>i j u. conns i = Some u \<and> conns j = Some u \<longrightarrow> i = j" using T by (metis option.inject)
  ultimately show ?thesis using sub T unfolding reply_key_def by blast
qed

text \<open>A gateway with WAN address 0x0B000001, one neighbour on each side, and a fresh pool.\<close>

definition snat_arp :: "u32 \<Rightarrow> u8 list \<Rightarrow> ARP_Table" where
  "snat_arp ip mac = arp_table_init\<lparr>at_MaxEntry := 4, at_Mask := 3, at_arps := Some ((replicate 4 zero_arp)[2 := \<lparr>ae_ip = ip, ae_mac = mac\<rparr>])\<rparr>"

definition demo_gateway :: "unit router" where
  "demo_gateway = \<lparr>arp_tables = (\<lambda>p. if p = 0 then snat_arp 0x0A000002 (replicate 6 1) else snat_arp 0x0B000002 (replicate 6 2)),
     localPortInfo = (\<lambda>p. port_info_init\<lparr>pi_ip := (if p = 0 then 0x0A000001 else 0x0B000001), pi_prefix := 30\<rparr>),
     routingTable = routing_table_init\<rparr>"

definition demo_wan :: u32 where "demo_wan = bswap32 0x0B000001"

definition demo_snat :: "(snat_match \<rightharpoonup> nat, unit) flowQoS_snat_attr" where
  "demo_snat = the (snd (flowQoS_snat_pool_init (Some Map.empty) (Some (\<lambda>_. \<lparr>pe_sip = 0, pe_dip = 0, pe_sport = 0, pe_dport = 0\<rparr>)) demo_gateway))"

lemma demo_snat_inv: "snat_inv map_kv demo_wan demo_snat Map.empty" "snat_table demo_snat = Map.empty" "snat_router demo_snat = demo_gateway"
proof -
  let ?init = "flowQoS_snat_pool_init (Some (Map.empty :: snat_match \<rightharpoonup> nat))
    (Some (\<lambda>_. \<lparr>pe_sip = 0, pe_dip = 0, pe_sport = 0, pe_dport = 0\<rparr>)) demo_gateway"
  obtain n where n: "?init = (n, Some demo_snat)" unfolding demo_snat_def by (simp add: flowQoS_snat_pool_init_def Let_def)
  have "kv_map map_kv (Map.empty :: snat_match \<rightharpoonup> nat) = Map.empty" by (simp add: kv_map_def map_kv_def)
  from snat_pool_init_inv [OF n this] show "snat_inv map_kv demo_wan demo_snat Map.empty" "snat_table demo_snat = Map.empty"
    "snat_router demo_snat = demo_gateway"
    by (simp_all add: flowQoS_router_getLocalIP_def demo_gateway_def flow_consts demo_wan_def)
qed

lemma snat_pool_and_table_agree_witness:
  "\<exists>conns :: nat \<rightharpoonup> snat_match. distinct (bucket demo_snat) \<and> card (dom conns) + length (bucket demo_snat) = 65536"
  using snat_pool_and_table_agree [OF map_kv_laws demo_snat_inv(1) rtranclp.rtrancl_refl] by (auto simp: flow_consts)

text \<open>
  C22: Aging undoes what a new connection did. A new connection from the LAN that is dropped leaves the
  table and the pool as they were, also when only its second key could not be stored; one that is
  accepted takes one port, and when it ages the table and the pool are as they were before.
\<close>

theorem snat_aging_undoes_new:
  assumes laws: "kv_laws ops" and inv: "snat_inv ops wan s conns" and lan: "pipe_port (e_pipe en) = LAN_PORT"
    and fresh: "kv_lookup ops (upstream_key (e_match en)) (snat_table s) = None" and dip: "m_dst_ip (e_match en) \<noteq> wan"
    and run: "snat_newConn_handler ops pipe_port en s = (r, en', s')"
  shows "(r < 0 \<longrightarrow> bucket s' = bucket s \<and> kv_map ops (snat_table s') = kv_map ops (snat_table s)) \<and>
         (0 \<le> r \<longrightarrow> r = int WAN_PORT \<and> bucket s = hd (bucket s) # bucket s' \<and>
            bucket (snat_agingConn_handler ops pipe_port en' s') = bucket s \<and>
            kv_map ops (snat_table (snat_agingConn_handler ops pipe_port en' s')) = kv_map ops (snat_table s))"
proof -
  have up: "snat_upstream ops en s = (r, en', s')" using run lan by (simp add: snat_newConn_handler_def)
  have fresh': "kv_map ops (snat_table s) (upstream_key (e_match en)) = None" using fresh by (simp add: kv_map_def)
  from snat_upstream_results [OF laws inv fresh' dip up] show ?thesis
  proof (elim disjE exE)
    fix i b
    assume a: "r = int WAN_PORT \<and> bucket s = i # b \<and> bucket s' = b \<and> snat_inv ops wan s' (conns(i \<mapsto> upstream_key (e_match en))) \<and>
       a_src_ip (e_action en') = wan \<and> a_src_port (e_action en') = of_nat i \<and> e_match en' = e_match en \<and> e_pipe en' = e_pipe en \<and>
       snat_router s' = snat_router s"
    let ?s'' = "snat_agingConn_handler ops pipe_port en' s'"
    have ag: "bucket ?s'' = i # bucket s'" "snat_inv ops wan ?s'' ((conns(i \<mapsto> upstream_key (e_match en)))(i := None))"
      using snat_aging_results [OF laws, of wan s' "conns(i \<mapsto> upstream_key (e_match en))" pipe_port en' i] a lan by simp_all
    have "conns i = None" using inv a by (auto simp: snat_inv_def snat_conns_def)
    then have "(conns(i \<mapsto> upstream_key (e_match en)))(i := None) = conns" by auto
    with ag(2) have "snat_inv ops wan ?s'' conns" by simp
    then have "kv_map ops (snat_table ?s'') k = kv_map ops (snat_table s) k" for k
      using inv by (intro option_eqI) (simp add: snat_inv_def snat_conns_def)
    then show ?thesis using a ag(1) by auto
  qed (simp add: flow_consts)
qed

definition demo_flow :: FlowQoS_ENTRY where
  "demo_flow = zero_entry\<lparr>e_match := zero_match\<lparr>m_src_ip := bswap32 0x0A000002, m_src_port := 7, m_dst_ip := bswap32 0x0B000002,
     m_dst_port := 80, m_proto := 6\<rparr>\<rparr>"

lemma demo_flow_facts:
  "kv_lookup map_kv (upstream_key (e_match demo_flow)) (snat_table demo_snat) = None"
  "m_dst_ip (e_match demo_flow) \<noteq> demo_wan" "arp_of WAN_PORT (m_dst_ip (e_match demo_flow)) (snat_router demo_snat) = Some (replicate 6 2)"
  "arp_of LAN_PORT (m_src_ip (e_match demo_flow)) (snat_router demo_snat) = Some (replicate 6 1)"
  by (simp_all add: demo_snat_inv map_kv_def demo_flow_def zero_entry_def zero_match_def demo_wan_def bswap32_def arp_of_def demo_gateway_def flow_consts
      flowQoS_router_get_arp_def snat_arp_def arp_table_init_def arp_pos_def)

lemma snat_aging_undoes_new_witness:
  "\<exists>r en' s'. snat_newConn_handler map_kv (\<lambda>_. LAN_PORT) demo_flow demo_snat = (r, en', s') \<and>
     (0 \<le> r \<longrightarrow> bucket (snat_agingConn_handler map_kv (\<lambda>_. LAN_PORT) en' s') = bucket demo_snat)"
proof -
  obtain r en' s' where run: "snat_newConn_handler map_kv (\<lambda>_. LAN_PORT) demo_flow demo_snat = (r, en', s')" by (metis prod_cases3)
  from snat_aging_undoes_new [OF map_kv_laws demo_snat_inv(1) refl demo_flow_facts(1,2) run] run show ?thesis by blast
qed



end
