(* ===== verification/Load_Balancer.thy ===== *)
theory Load_Balancer
  imports App_Setup
begin

text \<open>
  The layer-4 load balancer (\<open>src/apps/flowQoS_l4_load_balancing.c\<close>): per-core tables of virtual services, the
  round-robin choice of a real server for a new connection, the counts of active connections per real
  server, and the set-up of services and downstream pipes. A service is named by its address in the memory
  of its core. Arrays are lists of their fixed length; reading or writing outside them is \<open>None\<close> where the
  code can do it.
\<close>

section \<open>Data\<close>

definition MAX_RIP_PER_VIP :: nat where [flow_consts]: "MAX_RIP_PER_VIP = 8"
definition MAX_SERVICE :: nat where [flow_consts]: "MAX_SERVICE = 8"
definition FLOWQOS_DELAY :: int where [flow_consts]: "FLOWQOS_DELAY = 0"
definition FLOWQOS_OFFLOAD_SPEED :: int where [flow_consts]: "FLOWQOS_OFFLOAD_SPEED = 100000"
definition LB_CONN_EXPIRE :: u64 where [flow_consts]: "LB_CONN_EXPIRE = 3"
definition LB_MAX_CT :: int where [flow_consts]: "LB_MAX_CT = 2 ^ 22"
definition LB_FLOWQOS_MAX_OFFLOAD_CT :: int where [flow_consts]: "LB_FLOWQOS_MAX_OFFLOAD_CT = 2 ^ 21"
definition LB_PIPE_MAX_OFFLOAD_CT :: int where [flow_consts]: "LB_PIPE_MAX_OFFLOAD_CT = 2 ^ 21"

record service_key =
  sk_dport :: u16
  sk_proto :: u16
  sk_dip :: u32

record SERVICE =
  sv_key :: service_key
  totalRealServers :: u32
  totalConnections :: u32
  flowStats :: "u32 list"
  rip :: "u32 list"
  rport :: "u32 list"

record LB_ATTR =
  TCP_DownStreamPIPE :: nat
  UDP_DownStreamPIPE :: nat
  LB_RSS_PIPE :: nat
  LB_TCP_MatchFlags :: u64
  LB_UDP_MatchFlags :: u64
  actionFlags :: u64
  cc :: "nat \<Rightarrow> u64"
  WAN_PORT_ID :: nat
  LAN_PORT_ID :: nat

definition lb_attr_init :: LB_ATTR where
  "lb_attr_init = \<lparr>TCP_DownStreamPIPE = 0, UDP_DownStreamPIPE = 0, LB_RSS_PIPE = 0, LB_TCP_MatchFlags = 0, LB_UDP_MatchFlags = 0,
     actionFlags = 0, cc = (\<lambda>_. 0), WAN_PORT_ID = 0, LAN_PORT_ID = 0\<rparr>"

text \<open>The state of the application on a core.\<close>

record ('h, 'l) lb_core =
  ST :: 'h
  services :: "nat \<Rightarrow> SERVICE"
  lb_attr :: LB_ATTR
  lb_router :: "'l router"

section \<open>The handlers\<close>

definition key_of :: "FlowQoS_MATCH \<Rightarrow> service_key" where
  "key_of k = \<lparr>sk_dport = m_dst_port k, sk_proto = ucast (m_proto k), sk_dip = m_dst_ip k\<rparr>"

definition lb_arp :: "nat \<Rightarrow> u32 \<Rightarrow> 'l router \<Rightarrow> u8 list option" where
  "lb_arp port ip r = (case flowQoS_router_get_arp port (bswap32 ip) r of Some (Some mac) \<Rightarrow> Some mac | _ \<Rightarrow> None)"

text \<open>
  The choice of the real server and the fields it fills in. A service has from one to
  \<open>MAX_RIP_PER_VIP\<close> real servers; the remainder by 0 is undefined. An \<open>int\<close> holds the remainder.
\<close>

definition pick_server :: "SERVICE \<Rightarrow> nat" where
  "pick_server ser = unat (totalConnections ser mod totalRealServers ser)"

definition lb_newConn_handler ::
  "(service_key, 'h) kv_ops \<Rightarrow> (nat \<Rightarrow> nat) \<Rightarrow> nat \<Rightarrow> FlowQoS_ENTRY \<Rightarrow> ('h, 'l) lb_core \<Rightarrow> int \<times> FlowQoS_ENTRY \<times> ('h, 'l) lb_core" where
  "lb_newConn_handler ops pipe_port cid en s =
     (if pipe_port (e_pipe en) = WAN_PORT_ID (lb_attr s) then
        let en = en\<lparr>e_expireTime := LB_CONN_EXPIRE\<rparr> in
        case kv_lookup ops (key_of (e_match en)) (ST s) of
          None \<Rightarrow> (IGNORE_PACKETS, en, s)
        | Some p \<Rightarrow>
            let ser = services s p; Rserver = pick_server ser;
                s1 = s\<lparr>services := (services s)(p := ser\<lparr>totalConnections := totalConnections ser + 1\<rparr>)\<rparr>;
                en1 = en\<lparr>e_action := (e_action en)\<lparr>a_dst_ip := rip ser ! Rserver, a_dst_port := ucast (rport ser ! Rserver),
                        a_src_ip := of_nat Rserver, a_src_mac := flowQoS_router_getPortMac (LAN_PORT_ID (lb_attr s)) (lb_router s)\<rparr>\<rparr>
            in case lb_arp (LAN_PORT_ID (lb_attr s)) (a_dst_ip (e_action en1)) (lb_router s) of
                 None \<Rightarrow> (IGNORE_PACKETS, en1, s1)
               | Some mac \<Rightarrow>
                   (int (LAN_PORT_ID (lb_attr s)), en1\<lparr>e_action := (e_action en1)\<lparr>a_dst_mac := mac\<rparr>\<rparr>,
                    s1\<lparr>services := (services s1)(p := (services s1 p)\<lparr>flowStats := (flowStats ser)[Rserver := flowStats ser ! Rserver + 1]\<rparr>),
                       lb_attr := (lb_attr s1)\<lparr>cc := (cc (lb_attr s1))(cid := cc (lb_attr s1) cid + 1)\<rparr>\<rparr>)
      else (IGNORE_PACKETS, en, s))"

definition lb_agingConn_handler ::
  "(service_key, 'h) kv_ops \<Rightarrow> FlowQoS_ENTRY \<Rightarrow> ('h, 'l) lb_core \<Rightarrow> ('h, 'l) lb_core" where
  "lb_agingConn_handler ops en s =
     (case kv_lookup ops (key_of (e_match en)) (ST s) of
        None \<Rightarrow> s
      | Some p \<Rightarrow>
          let ser = services s p; j = unat (a_src_ip (e_action en)) in
          s\<lparr>services := (services s)(p := ser\<lparr>flowStats := (flowStats ser)[j := flowStats ser ! j - 1]\<rparr>)\<rparr>)"

section \<open>Statistics\<close>

text \<open>
  \<open>printST_slave\<close> copies the counts of every service of the core, in the order the hash table is iterated,
  into the rows of the core; \<open>printST\<close> adds up the rows of all cores into the services of the main core.
\<close>

definition stat_index :: "nat \<Rightarrow> nat \<Rightarrow> nat \<Rightarrow> nat" where
  "stat_index cid sid j = cid * MAX_RIP_PER_VIP * MAX_SERVICE + sid * MAX_RIP_PER_VIP + j"

definition copy_service :: "nat \<Rightarrow> nat \<Rightarrow> SERVICE \<Rightarrow> u32 list \<Rightarrow> u32 list" where
  "copy_service cid sid ser arr =
     fold (\<lambda>j st. st[stat_index cid sid j := flowStats ser ! j]) [0..<unat (totalRealServers ser)] arr"

fun printST_slave :: "nat \<Rightarrow> nat \<Rightarrow> SERVICE list \<Rightarrow> u32 list \<Rightarrow> u32 list" where
  "printST_slave cid sid [] arr = arr"
| "printST_slave cid sid (ser # sers) arr = printST_slave cid (sid + 1) sers (copy_service cid sid ser arr)"

definition sum_server :: "u32 list \<Rightarrow> nat \<Rightarrow> nat \<Rightarrow> u32" where
  "sum_server arr sid j = fold (\<lambda>i acc. acc + arr ! stat_index i sid j) [0..<MAX_CORES] 0"

definition getAddre :: "u32 \<Rightarrow> u32 \<Rightarrow> string" where
  "getAddre dip dport = ip_str dip @ '':'' @ dec (unat (bswap16 (ucast dport)))"

text \<open>The lines printed for a service: its protocol and address, and for each real server address and count.\<close>

fun printST :: "u32 list \<Rightarrow> nat \<Rightarrow> SERVICE list \<Rightarrow> (string \<times> string \<times> (string \<times> u32) list) list \<times> SERVICE list" where
  "printST arr sid [] = ([], [])"
| "printST arr sid (ser # sers) =
     (let n = unat (totalRealServers ser);
          counts = map (sum_server arr sid) [0..<n];
          row = (if sk_proto (sv_key ser) = 6 then ''TCP'' else ''UDP'', getAddre (sk_dip (sv_key ser)) (ucast (sk_dport (sv_key ser))),
                 map (\<lambda>j. (getAddre (rip ser ! j) (rport ser ! j), counts ! j)) [0..<n]);
          (rows, sers') = printST arr (sid + 1) sers
      in (row # rows, ser\<lparr>flowStats := counts @ drop n (flowStats ser)\<rparr> # sers'))"

text \<open>\<open>getCPS\<close>: one second, with the counters of new connections and the offload counts before and after it.\<close>

definition sum_cc :: "(nat \<Rightarrow> u64) \<Rightarrow> u64" where
  "sum_cc c = fold (\<lambda>i acc. acc + c i) [0..<MAX_CORES] 0"

definition getCPS :: "(nat \<Rightarrow> u64) \<Rightarrow> (nat \<Rightarrow> u64) \<Rightarrow> u64 \<Rightarrow> u64 \<Rightarrow> u64 \<times> u64" where
  "getCPS cc0 cc1 o0 o1 = (sum_cc cc1 - sum_cc cc0, o1 - o0)"

section \<open>Set-up\<close>

text \<open>The services the program is configured with.\<close>

definition be32 :: "u32 \<Rightarrow> u32" where "be32 = bswap32"
definition be16 :: "u16 \<Rightarrow> u32" where "be16 p = ucast (bswap16 p)"

definition lb_service :: "u16 \<Rightarrow> u16 \<Rightarrow> SERVICE" where
  "lb_service proto port =
     \<lparr>sv_key = \<lparr>sk_dport = bswap16 port, sk_proto = proto, sk_dip = be32 (RTE_IPV4 192 168 201 2)\<rparr>,
      totalRealServers = 2, totalConnections = 0, flowStats = replicate MAX_RIP_PER_VIP 0,
      rip = [be32 (RTE_IPV4 192 168 200 102), be32 (RTE_IPV4 192 168 200 103)] @ replicate 6 0,
      rport = [be16 port, be16 port] @ replicate 6 0\<rparr>"

definition lb_services :: "SERVICE list" where
  "lb_services = [lb_service 6 80, lb_service 17 5001, lb_service 6 5001]"

text \<open>
  \<open>load_params_to_st\<close>: a table for the core, if one could be created, filled with copies of the services at
  the addresses \<open>base\<close>, \<open>base + 1\<close>, \<open>\<dots>\<close>. The first component tells whether \<open>args[0]\<close> was increased. The
  copy is made without a check that memory was obtained.
\<close>

fun add_services :: "(service_key, 'h) kv_ops \<Rightarrow> nat \<Rightarrow> SERVICE list \<Rightarrow> 'h \<Rightarrow> (nat \<Rightarrow> SERVICE) \<Rightarrow> bool \<times> 'h \<times> (nat \<Rightarrow> SERVICE)" where
  "add_services ops p [] t mem = (True, t, mem)"
| "add_services ops p (ser # sers) t mem =
     (case kv_add ops (sv_key ser) p t of (ret, t') \<Rightarrow>
        if ret < 0 then (False, t', mem) else add_services ops (p + 1) sers t' mem)"

definition load_params_to_st ::
  "(service_key, 'h) kv_ops \<Rightarrow> 'h option \<Rightarrow> nat \<Rightarrow> SERVICE list \<Rightarrow> (nat \<Rightarrow> SERVICE) \<Rightarrow> (bool \<times> 'h option \<times> (nat \<Rightarrow> SERVICE)) option" where
  "load_params_to_st ops tab base sers mem =
     (case tab of None \<Rightarrow> Some (False, None, mem)
      | Some t \<Rightarrow>
          if base = 0 then None
          else let mem' = (\<lambda>p. if base \<le> p \<and> p < base + length sers then sers ! (p - base) else mem p) in
          (case add_services ops base sers t mem' of (ok, t', m) \<Rightarrow> Some (ok, Some t', m)))"

text \<open>The launches on the workers and the call on the main core, one after the other; the count is \<open>args[0]\<close>.\<close>

fun load_cores ::
  "(service_key, 'h) kv_ops \<Rightarrow> (nat \<Rightarrow> 'h option) \<Rightarrow> (nat \<Rightarrow> nat) \<Rightarrow> SERVICE list \<Rightarrow> nat list \<Rightarrow> nat \<times> (nat \<Rightarrow> 'h option) \<times> (nat \<Rightarrow> SERVICE)
     \<Rightarrow> (nat \<times> (nat \<Rightarrow> 'h option) \<times> (nat \<Rightarrow> SERVICE)) option" where
  "load_cores ops created base sers [] st = Some st"
| "load_cores ops created base sers (cid # cids) (n, tabs, mem) =
     (case load_params_to_st ops (created cid) (base cid) sers mem of None \<Rightarrow> None
      | Some (ok, t, mem') \<Rightarrow> load_cores ops created base sers cids (if ok then n + 1 else n, tabs(cid := t), mem'))"

text \<open>The entry of the downstream pipe for a real server.\<close>

definition downstream_entry :: "LB_ATTR \<Rightarrow> u8 list \<Rightarrow> SERVICE \<Rightarrow> nat \<Rightarrow> FlowQoS_ENTRY" where
  "downstream_entry at localMac ser j =
     zero_entry\<lparr>e_match := zero_match\<lparr>m_flags := (if sk_proto (sv_key ser) = 6 then LB_TCP_MatchFlags at else LB_UDP_MatchFlags at),
                  m_src_ip := rip ser ! j, m_src_port := ucast (rport ser ! j)\<rparr>,
                e_action := zero_action\<lparr>a_flags := actionFlags at, a_src_ip := sk_dip (sv_key ser), a_src_port := sk_dport (sv_key ser),
                  a_src_mac := localMac, a_dst_mac := mac5\<rparr>\<rparr>"

definition downstream_pipe :: "LB_ATTR \<Rightarrow> SERVICE \<Rightarrow> nat" where
  "downstream_pipe at ser = (if sk_proto (sv_key ser) = 6 then TCP_DownStreamPIPE at else UDP_DownStreamPIPE at)"

text \<open>The double loop over services and real servers; it stops at the first entry that could not be added.\<close>

fun add_downstream ::
  "'d doca_ops \<Rightarrow> (nat \<rightharpoonup> FlowQoS_PIPE) \<Rightarrow> LB_ATTR \<Rightarrow> u8 list \<Rightarrow> (SERVICE \<times> nat) list \<Rightarrow> 'd \<Rightarrow> (bool \<times> 'd) option" where
  "add_downstream ops pipes at mac [] d = Some (True, d)"
| "add_downstream ops pipes at mac ((ser, j) # rest) d =
     (case flowQoS_add_entry ops pipes (downstream_pipe at ser) 1 0 1 (\<lambda>_. downstream_entry at mac ser j, d) of
        None \<Rightarrow> None
      | Some (ret, es, d') \<Rightarrow>
          if ret \<noteq> 0
          then Option.bind (Option.bind (dumpFlowQoSEntry pipes (es 1)) printFlowQoSEntry) (\<lambda>_. add_downstream ops pipes at mac rest d')
          else Some (False, d'))"

definition all_servers :: "SERVICE list \<Rightarrow> (SERVICE \<times> nat) list" where
  "all_servers sers = concat (map (\<lambda>ser. map (Pair ser) [0..<unat (totalRealServers ser)]) sers)"

definition lb_router_calls :: "nat \<Rightarrow> router_call list" where
  "lb_router_calls lan =
     [Ifconfig ''dpdk0'' (RTE_IPV4 192 168 200 2) 24, Ifconfig ''dpdk1'' (RTE_IPV4 192 168 201 2) 24,
      Put_arp lan (RTE_IPV4 192 168 200 1) mac2, Put_arp lan (RTE_IPV4 192 168 200 102) mac3,
      Put_arp lan (RTE_IPV4 192 168 200 103) mac4, Set_mac lan mac1]"

definition registerLBCmd :: "cmd_state \<Rightarrow> cmd_state option" where
  "registerLBCmd = register_once ''LB'' [''cmd_ipvsadm_obj'']"

text \<open>\<open>LB_load_params\<close>, with the tables and the memory the cores obtain.\<close>

definition LB_load_params ::
  "('h, 'p, 'd, 'l) app_params \<Rightarrow> (service_key, 'g) kv_ops \<Rightarrow> (nat \<Rightarrow> 'g option) \<Rightarrow> (nat \<Rightarrow> nat) \<Rightarrow> LB_ATTR \<Rightarrow> ('h, 'p, 'd, 'l, 'a) app_state
     \<Rightarrow> (nat \<Rightarrow> 'g option) \<times> (nat \<Rightarrow> SERVICE) \<Rightarrow> (int \<times> ((nat \<Rightarrow> 'g option) \<times> (nat \<Rightarrow> SERVICE)) \<times> ('h, 'p, 'd, 'l, 'a) app_state) option" where
  "LB_load_params P ops created base at s st =
     (case router_calls (pa_router P) (lb_router_calls (LAN_PORT_ID at)) (ap_router s) of None \<Rightarrow> None
      | Some r \<Rightarrow>
        let s1 = s\<lparr>ap_router := r\<rparr> in
        (case load_cores ops created base lb_services (pa_workers P @ [pa_self P]) (0, st) of None \<Rightarrow> None
         | Some (loaded, st') \<Rightarrow>
             if loaded \<noteq> lcore_count P then Some (0, st', s1)
             else case add_downstream (pa_doca P) (ap_pipes s1) at (flowQoS_router_getPortMac (WAN_PORT_ID at) r) (all_servers lb_services) (ap_doca s1) of
                    None \<Rightarrow> None
                  | Some (False, d) \<Rightarrow> Some (0, st', s1\<lparr>ap_doca := d\<rparr>)
                  | Some (True, d) \<Rightarrow>
                      map_option (\<lambda>cs. (1, st', s1\<lparr>ap_doca := d, ap_ct := (ap_ct s1)\<lparr>su_cmds := cs\<rparr>\<rparr>)) (registerLBCmd (su_cmds (ap_ct s1)))))"

definition lb_attr_set :: "LB_ATTR \<Rightarrow> LB_ATTR" where
  "lb_attr_set at = at\<lparr>LB_TCP_MatchFlags := SIP OR SPORT OR TCP, LB_UDP_MatchFlags := SIP OR SPORT OR UDP,
     actionFlags := SIP OR SPORT OR TTL_DECREASE OR SMAC OR DMAC, WAN_PORT_ID := 1, LAN_PORT_ID := 0\<rparr>"

text \<open>\<open>LB_init\<close> after the environment is set up; the pipes of the load balancer are at \<open>pa_addr 6\<close> to \<open>8\<close>.\<close>

definition LB_init ::
  "('h, 'p, 'd, 'l) app_params \<Rightarrow> (service_key, 'g) kv_ops \<Rightarrow> (nat \<Rightarrow> 'g option) \<Rightarrow> (nat \<Rightarrow> nat)
     \<Rightarrow> (FlowQoS_ENTRY \<Rightarrow> 'a \<Rightarrow> int \<times> FlowQoS_ENTRY \<times> 'a) \<Rightarrow> (FlowQoS_ENTRY \<Rightarrow> 'a \<Rightarrow> 'a)
     \<Rightarrow> LB_ATTR \<Rightarrow> ('h, 'p, 'd, 'l, 'a) app_state \<Rightarrow> (nat \<Rightarrow> 'g option) \<times> (nat \<Rightarrow> SERVICE)
     \<Rightarrow> (int \<times> LB_ATTR \<times> ((nat \<Rightarrow> 'g option) \<times> (nat \<Rightarrow> SERVICE)) \<times> ('h, 'p, 'd, 'l, 'a) app_state) option" where
  "LB_init P ops created base new aging at0 s st =
     (let at = lb_attr_set at0 in
      Option.bind (app_pipe P 6 (LAN_PORT_ID at) ''LAN-RSS'' 0 0 RSS_TO_QUEUE DROP (\<not> IS_ROOT) 2 s) (\<lambda>(rss, s1).
      Option.bind (flowQoS_add_entry (pa_doca P) (ap_pipes s1) rss 1 0 1 (\<lambda>_. zero_entry, ap_doca s1)) (\<lambda>(ret, _, d).
      Option.bind (app_pipe P 7 (LAN_PORT_ID at) ''LAN-TCP'' (LB_TCP_MatchFlags at) (actionFlags at) PORT (of_nat rss) IS_ROOT 100
                     (s1\<lparr>ap_doca := d\<rparr>)) (\<lambda>(tcp, s2).
      Option.bind (app_pipe P 8 (LAN_PORT_ID at) ''LAN-UDP'' (LB_UDP_MatchFlags at) (actionFlags at) PORT (of_nat rss) IS_ROOT 100 s2) (\<lambda>(udp, s3).
      let at = at\<lparr>LB_RSS_PIPE := rss, TCP_DownStreamPIPE := tcp, UDP_DownStreamPIPE := udp\<rparr> in
      if ret \<le> 0 \<or> rss = 0 \<or> tcp = 0 \<or> udp = 0 then Some (0, at, st, s3)
      else
        Option.bind (app_init_env P LB_MAX_CT LB_FLOWQOS_MAX_OFFLOAD_CT FLOWQOS_DELAY FLOWQOS_OFFLOAD_SPEED s3) (\<lambda>(r, s4).
        if r \<le> 0 then Some (0, at, st, s4)
        else
          Option.bind (app_init_port P (WAN_PORT_ID at) LB_PIPE_MAX_OFFLOAD_CT (DPORT OR DIP OR SMAC OR TTL_DECREASE OR DMAC OR AGING) s4) (\<lambda>(r1, s5).
          if r1 < 0 then Some (0, at, st, s5)
          else
            Option.bind (app_routing P s5) (\<lambda>s6.
            map_option (\<lambda>(r2, st', s7). (r2, at, st', s7)) (LB_load_params P ops created base at (app_handlers new aging (app_responder s6)) st)))))))))"

end
