(* ===== verification/Load_Balancer_Props.thy ===== *)
theory Load_Balancer_Props
  imports Load_Balancer Conntrack_Inv "HOL-Library.Multiset"
begin

text \<open>
  Properties of the load balancer: the round robin gives every real server its turn, the counts of active
  connections are exact over every sequence of new and aging connections, and every core finds the
  configured services in its table.
\<close>

section \<open>The outcomes of a new connection\<close>

text \<open>A service with from one to \<open>MAX_RIP_PER_VIP\<close> real servers.\<close>

definition service_ok :: "SERVICE \<Rightarrow> bool" where
  "service_ok ser \<longleftrightarrow> 0 < totalRealServers ser \<and> unat (totalRealServers ser) \<le> MAX_RIP_PER_VIP \<and> length (flowStats ser) = MAX_RIP_PER_VIP"

lemma pick_server_eq: "pick_server ser = unat (totalConnections ser) mod unat (totalRealServers ser)"
  by (simp add: pick_server_def unat_mod)

lemma pick_server_less:
  assumes "service_ok ser"
  shows "pick_server ser < unat (totalRealServers ser)" "pick_server ser < MAX_RIP_PER_VIP"
proof -
  show "pick_server ser < unat (totalRealServers ser)" using assms by (simp add: service_ok_def pick_server_eq word_less_nat_alt)
  then show "pick_server ser < MAX_RIP_PER_VIP" using assms by (simp add: service_ok_def)
qed

lemma unat_server: "n < MAX_RIP_PER_VIP \<Longrightarrow> unat (of_nat n :: u32) = n"
  by (simp add: unsigned_of_nat flow_consts take_bit_nat_eq_self)

definition served :: "SERVICE \<Rightarrow> SERVICE" where
  "served ser = ser\<lparr>totalConnections := totalConnections ser + 1,
     flowStats := (flowStats ser)[pick_server ser := flowStats ser ! pick_server ser + 1]\<rparr>"

lemma served_ok: "service_ok ser \<Longrightarrow> service_ok (served ser)"
  by (simp add: service_ok_def served_def)

text \<open>A connection is accepted exactly when it comes from the WAN to a known service and the chosen server has a known MAC.\<close>

lemma lb_new_results:
  assumes "lb_newConn_handler ops pipe_port cid en s = (r, en', s')"
  shows "(r = IGNORE_PACKETS \<and> (s' = s \<or> (\<exists>p. s' = s\<lparr>services := (services s)(p := (services s p)\<lparr>totalConnections := totalConnections (services s p) + 1\<rparr>)\<rparr>))) \<or>
     (\<exists>p. kv_lookup ops (key_of (e_match en)) (ST s) = Some p \<and> r = int (LAN_PORT_ID (lb_attr s)) \<and>
        e_match en' = e_match en \<and> e_pipe en' = e_pipe en \<and> a_flags (e_action en') = a_flags (e_action en) \<and> e_expireTime en' = LB_CONN_EXPIRE \<and>
        a_src_ip (e_action en') = of_nat (pick_server (services s p)) \<and>
        s' = s\<lparr>services := (services s)(p := served (services s p)),
               lb_attr := (lb_attr s)\<lparr>cc := (cc (lb_attr s))(cid := cc (lb_attr s) cid + 1)\<rparr>\<rparr>)"
  using assms
  by (auto simp: lb_newConn_handler_def Let_def served_def split: if_splits option.splits)

lemma lb_new_accepts:
  assumes "pipe_port (e_pipe en) = WAN_PORT_ID (lb_attr s)" "kv_lookup ops (key_of (e_match en)) (ST s) = Some p" "services s p = ser"
    and "lb_arp (LAN_PORT_ID (lb_attr s)) (rip ser ! pick_server ser) (lb_router s) \<noteq> None"
  shows "\<exists>en'. lb_newConn_handler ops pipe_port cid en s = (int (LAN_PORT_ID (lb_attr s)), en',
       s\<lparr>services := (services s)(p := served ser), lb_attr := (lb_attr s)\<lparr>cc := (cc (lb_attr s))(cid := cc (lb_attr s) cid + 1)\<rparr>\<rparr>) \<and>
     a_dst_ip (e_action en') = rip ser ! pick_server ser \<and> a_dst_port (e_action en') = ucast (rport ser ! pick_server ser)"
  using assms by (auto simp: lb_newConn_handler_def Let_def served_def)

interpretation lb_app: conn_app "lb_newConn_handler ops pipe_port cid" for ops :: "(service_key, 'h) kv_ops" and pipe_port cid
proof unfold_locales
  fix en :: FlowQoS_ENTRY and a :: "('h, 'l) lb_core" and port en' a'
  assume "lb_newConn_handler ops pipe_port cid en a = (port, en', a')" and p: "0 \<le> port"
  from lb_new_results [OF this(1)] p
  have k: "e_match en' = e_match en \<and> e_pipe en' = e_pipe en \<and> a_flags (e_action en') = a_flags (e_action en) \<and> e_expireTime en' = LB_CONN_EXPIRE"
    by (auto simp: flow_consts)
  then show "e_match en' = e_match en \<and> e_pipe en' = e_pipe en \<and> a_flags (e_action en') = a_flags (e_action en)" by simp
  from k show "e_expireTime en' * 1000 \<le> TIMER_MAX_TIMEOUT" by (simp add: flow_consts)
qed

section \<open>Round robin\<close>

text \<open>A sequence of new connections on a core, with the answers of the handler.\<close>

fun lb_run ::
  "(service_key, 'h) kv_ops \<Rightarrow> (nat \<Rightarrow> nat) \<Rightarrow> nat \<Rightarrow> FlowQoS_ENTRY list \<Rightarrow> ('h, 'l) lb_core \<Rightarrow> (int \<times> FlowQoS_ENTRY) list \<times> ('h, 'l) lb_core" where
  "lb_run ops pipe_port cid [] s = ([], s)"
| "lb_run ops pipe_port cid (en # ens) s =
     (case lb_newConn_handler ops pipe_port cid en s of (r, en', s1) \<Rightarrow>
        case lb_run ops pipe_port cid ens s1 of (outs, s2) \<Rightarrow> ((r, en') # outs, s2))"

lemma lb_run_round_robin:
  fixes ser :: SERVICE
  defines "n \<equiv> unat (totalRealServers ser)"
  assumes "lb_run ops pipe_port cid ens s = (outs, s')" and "services s p = ser" and "service_ok ser"
    and "\<forall>en\<in>set ens. pipe_port (e_pipe en) = WAN_PORT_ID (lb_attr s) \<and> kv_lookup ops (key_of (e_match en)) (ST s) = Some p"
    and "\<forall>j<n. lb_arp (LAN_PORT_ID (lb_attr s)) (rip ser ! j) (lb_router s) \<noteq> None"
    and "unat (totalConnections ser) + length ens < 2 ^ 32"
  shows "length outs = length ens \<and>
     (\<forall>i < length ens. let j = (unat (totalConnections ser) + i) mod n in
        fst (outs ! i) = int (LAN_PORT_ID (lb_attr s)) \<and> a_dst_ip (e_action (snd (outs ! i))) = rip ser ! j \<and>
        a_dst_port (e_action (snd (outs ! i))) = ucast (rport ser ! j)) \<and>
     (\<forall>j < n. flowStats (services s' p) ! j = flowStats ser ! j + of_nat (turns n j (unat (totalConnections ser)) (length ens)))"
  using assms(2-)
  unfolding n_def
proof (induction ens arbitrary: s ser outs)
  case (Cons en ens)
  let ?c = "unat (totalConnections ser)" and ?n = "unat (totalRealServers ser)"
  have pick: "pick_server ser = ?c mod ?n" by (rule pick_server_eq)
  have less: "pick_server ser < ?n" "pick_server ser < length (flowStats ser)"
    using pick_server_less Cons.prems(3) by (auto simp: service_ok_def)
  have "lb_arp (LAN_PORT_ID (lb_attr s)) (rip ser ! pick_server ser) (lb_router s) \<noteq> None" using Cons.prems(5) less(1) by blast
  from lb_new_accepts [OF _ _ Cons.prems(2) this, where en = en and pipe_port = pipe_port and ops = ops and cid = cid] Cons.prems(4)
  obtain en' where h: "lb_newConn_handler ops pipe_port cid en s = (int (LAN_PORT_ID (lb_attr s)), en',
       s\<lparr>services := (services s)(p := served ser), lb_attr := (lb_attr s)\<lparr>cc := (cc (lb_attr s))(cid := cc (lb_attr s) cid + 1)\<rparr>\<rparr>)"
     and e: "a_dst_ip (e_action en') = rip ser ! pick_server ser" "a_dst_port (e_action en') = ucast (rport ser ! pick_server ser)"
    by auto
  let ?s1 = "s\<lparr>services := (services s)(p := served ser), lb_attr := (lb_attr s)\<lparr>cc := (cc (lb_attr s))(cid := cc (lb_attr s) cid + 1)\<rparr>\<rparr>"
  obtain outs1 where r: "lb_run ops pipe_port cid ens ?s1 = (outs1, s')" and o: "outs = (int (LAN_PORT_ID (lb_attr s)), en') # outs1"
    using Cons.prems(1) h by (auto split: prod.splits)
  have c1: "unat (totalConnections ser + 1) = Suc ?c" using Cons.prems(6) by (simp add: unat_word_ariths(1))
  have srv: "totalRealServers (served ser) = totalRealServers ser" "rip (served ser) = rip ser" "rport (served ser) = rport ser"
    "unat (totalConnections (served ser)) = Suc ?c"
    "flowStats (served ser) = (flowStats ser)[pick_server ser := flowStats ser ! pick_server ser + 1]" using c1 by (simp_all add: served_def)
  have IH: "length outs1 = length ens \<and>
     (\<forall>i < length ens. let j = (Suc ?c + i) mod ?n in
        fst (outs1 ! i) = int (LAN_PORT_ID (lb_attr s)) \<and> a_dst_ip (e_action (snd (outs1 ! i))) = rip ser ! j \<and>
        a_dst_port (e_action (snd (outs1 ! i))) = ucast (rport ser ! j)) \<and>
     (\<forall>j < ?n. flowStats (services s' p) ! j = flowStats (served ser) ! j + of_nat (turns ?n j (Suc ?c) (length ens)))"
    using Cons.IH [OF r, of "served ser"] Cons.prems(3-6) srv by (simp add: served_ok)
  have "flowStats (services s' p) ! j = flowStats ser ! j + of_nat (turns ?n j ?c (length (en # ens)))" if "j < ?n" for j
    using IH that less pick by (simp add: srv(5) nth_list_update turns_first)
  moreover have "let j = (?c + i) mod ?n in fst (outs ! i) = int (LAN_PORT_ID (lb_attr s)) \<and> a_dst_ip (e_action (snd (outs ! i))) = rip ser ! j \<and>
        a_dst_port (e_action (snd (outs ! i))) = ucast (rport ser ! j)" if "i < length (en # ens)" for i
    using that IH e pick by (cases i) (simp_all add: o)
  ultimately show ?case using IH o by simp
qed simp

section \<open>Properties\<close>

text \<open>
  C23: Round robin. While the MAC addresses of the real servers are known, consecutive new connections to a
  service with \<open>n\<close> real servers are all accepted, go to the real servers in turn, starting where the
  service's counter stands, and after every \<open>k\<close> full rounds each server has \<open>k\<close> more active connections.
\<close>

theorem lb_round_robin:
  assumes run: "lb_run ops pipe_port cid ens s = (outs, s')" and ok: "service_ok (services s p)"
    and flow: "\<forall>en\<in>set ens. pipe_port (e_pipe en) = WAN_PORT_ID (lb_attr s) \<and> kv_lookup ops (key_of (e_match en)) (ST s) = Some p"
    and arp: "\<forall>j < unat (totalRealServers (services s p)). lb_arp (LAN_PORT_ID (lb_attr s)) (rip (services s p) ! j) (lb_router s) \<noteq> None"
    and bound: "unat (totalConnections (services s p)) + length ens < 2 ^ 32"
  shows "length outs = length ens \<and>
     (\<forall>i < length ens. let j = (unat (totalConnections (services s p)) + i) mod unat (totalRealServers (services s p)) in
        fst (outs ! i) = int (LAN_PORT_ID (lb_attr s)) \<and> a_dst_ip (e_action (snd (outs ! i))) = rip (services s p) ! j \<and>
        a_dst_port (e_action (snd (outs ! i))) = ucast (rport (services s p) ! j)) \<and>
     (\<forall>k. length ens = k * unat (totalRealServers (services s p)) \<longrightarrow>
        (\<forall>j < unat (totalRealServers (services s p)). flowStats (services s' p) ! j = flowStats (services s p) ! j + of_nat k))"
proof -
  note R = lb_run_round_robin [OF run refl ok flow arp bound]
  have "flowStats (services s' p) ! j = flowStats (services s p) ! j + of_nat k"
    if "length ens = k * unat (totalRealServers (services s p))" "j < unat (totalRealServers (services s p))" for k j
    using R that turns_rounds [OF that(2)] by simp
  then show ?thesis using R by blast
qed

text \<open>A core with the configured services and the neighbours of the LAN.\<close>

definition demo_lb_router :: "unit router" where
  "demo_lb_router = \<lparr>arp_tables = (\<lambda>_. arp_table_init\<lparr>at_MaxEntry := 256, at_Mask := 255,
       at_arps := Some ((replicate 256 zero_arp)[102 := \<lparr>ae_ip = RTE_IPV4 192 168 200 102, ae_mac = mac3\<rparr>, 103 := \<lparr>ae_ip = RTE_IPV4 192 168 200 103, ae_mac = mac4\<rparr>])\<rparr>),
     localPortInfo = (\<lambda>p. port_info_init\<lparr>pi_ip := RTE_IPV4 192 168 200 2, pi_prefix := 24\<rparr>), routingTable = routing_table_init\<rparr>"

definition demo_lb :: "(service_key \<rightharpoonup> nat, unit) lb_core" where
  "demo_lb = \<lparr>ST = [sv_key (lb_service 6 80) \<mapsto> 0], services = (\<lambda>_. lb_service 6 80), lb_attr = lb_attr_set lb_attr_init, lb_router = demo_lb_router\<rparr>"

definition demo_client :: FlowQoS_ENTRY where
  "demo_client = zero_entry\<lparr>e_match := zero_match\<lparr>m_dst_port := bswap16 80, m_proto := 6, m_dst_ip := bswap32 (RTE_IPV4 192 168 201 2)\<rparr>\<rparr>"

lemma demo_lb_facts:
  "service_ok (services demo_lb p)" "WAN_PORT_ID (lb_attr demo_lb) = 1" "kv_lookup map_kv (key_of (e_match demo_client)) (ST demo_lb) = Some 0"
  "totalRealServers (services demo_lb p) = 2" "totalConnections (services demo_lb p) = 0"
  by (simp_all add: service_ok_def demo_lb_def lb_service_def flow_consts lb_attr_set_def map_kv_def key_of_def demo_client_def zero_entry_def
      zero_match_def be32_def)

lemma demo_lb_arp: "j < 2 \<Longrightarrow> lb_arp (LAN_PORT_ID (lb_attr demo_lb)) (rip (services demo_lb p) ! j) (lb_router demo_lb) \<noteq> None"
  by (cases j rule: nat.exhaust [case_names 0 Suc])
    (simp_all add: demo_lb_def lb_service_def lb_arp_def be32_def RTE_IPV4_def bswap32_def demo_lb_router_def flowQoS_router_get_arp_def arp_pos_def
      arp_table_init_def flow_consts lb_attr_set_def)

lemma lb_round_robin_witness:
  "\<exists>outs s'. lb_run map_kv (\<lambda>_. 1) 0 (replicate 4 demo_client) demo_lb = (outs, s') \<and> length outs = 4 \<and>
     a_dst_ip (e_action (snd (outs ! 0))) = be32 (RTE_IPV4 192 168 200 102) \<and> a_dst_ip (e_action (snd (outs ! 1))) = be32 (RTE_IPV4 192 168 200 103) \<and>
     flowStats (services s' 0) ! 0 = 2 \<and> flowStats (services s' 0) ! 1 = 2"
proof -
  obtain outs s' where run: "lb_run map_kv (\<lambda>_. 1) 0 (replicate 4 demo_client) demo_lb = (outs, s')" by fastforce
  have flow: "\<forall>en\<in>set (replicate 4 demo_client). (\<lambda>_. 1 :: nat) (e_pipe en) = WAN_PORT_ID (lb_attr demo_lb) \<and>
      kv_lookup map_kv (key_of (e_match en)) (ST demo_lb) = Some 0"
    using demo_lb_facts(2,3) by simp
  have arp: "\<forall>j < unat (totalRealServers (services demo_lb 0)). lb_arp (LAN_PORT_ID (lb_attr demo_lb)) (rip (services demo_lb 0) ! j) (lb_router demo_lb) \<noteq> None"
    using demo_lb_arp by (simp add: demo_lb_facts)
  have bound: "unat (totalConnections (services demo_lb 0)) + length (replicate 4 demo_client) < 2 ^ 32" by (simp add: demo_lb_facts)
  have f: "flowStats (services demo_lb 0) ! 0 = 0" "flowStats (services demo_lb 0) ! 1 = 0" "rip (services demo_lb 0) ! 0 = be32 (RTE_IPV4 192 168 200 102)"
    "rip (services demo_lb 0) ! 1 = be32 (RTE_IPV4 192 168 200 103)" by (simp_all add: demo_lb_def lb_service_def flow_consts)
  note R = lb_round_robin [OF run demo_lb_facts(1) flow arp bound]
  have len: "length outs = 4" using R by simp
  have i: "a_dst_ip (e_action (snd (outs ! i))) = rip (services demo_lb 0) ! (i mod 2)" if "i < 4" for i
    using R that by (simp add: Let_def demo_lb_facts)
  have st: "flowStats (services s' 0) ! j = flowStats (services demo_lb 0) ! j + of_nat 2" if "j < 2" for j
    using R that by (simp add: demo_lb_facts)
  show ?thesis using run len i [of 0] i [of 1] st [of 0] st [of 1] f by auto
qed

text \<open>
  The events on a core, together with the connections it has accepted and not yet aged, as the entries hold
  them: a new connection, and the aging of an accepted one.
\<close>

inductive lb_step ::
  "(service_key, 'h) kv_ops \<Rightarrow> (nat \<Rightarrow> nat) \<Rightarrow> nat \<Rightarrow> ('h, 'l) lb_core \<times> FlowQoS_ENTRY multiset \<Rightarrow> ('h, 'l) lb_core \<times> FlowQoS_ENTRY multiset \<Rightarrow> bool"
  for ops pipe_port cid where
  new: "lb_newConn_handler ops pipe_port cid en s = (r, en', s') \<Longrightarrow>
     lb_step ops pipe_port cid (s, act) (s', if 0 \<le> r then add_mset en' act else act)"
| aged: "en \<in># act \<Longrightarrow> lb_step ops pipe_port cid (s, act) (lb_agingConn_handler ops en s, act - {#en#})"

definition active :: "(service_key, 'h) kv_ops \<Rightarrow> 'h \<Rightarrow> nat \<Rightarrow> nat \<Rightarrow> FlowQoS_ENTRY \<Rightarrow> bool" where
  "active ops t p j en \<longleftrightarrow> kv_lookup ops (key_of (e_match en)) t = Some p \<and> a_src_ip (e_action en) = of_nat j"

definition lb_counts :: "(service_key, 'h) kv_ops \<Rightarrow> ('h, 'l) lb_core \<Rightarrow> FlowQoS_ENTRY multiset \<Rightarrow> bool" where
  "lb_counts ops s act \<longleftrightarrow>
     (\<forall>k p. kv_lookup ops k (ST s) = Some p \<longrightarrow> service_ok (services s p) \<and>
        (\<forall>j < MAX_RIP_PER_VIP. flowStats (services s p) ! j = of_nat (size (filter_mset (active ops (ST s) p j) act)))) \<and>
     (\<forall>en. en \<in># act \<longrightarrow> kv_lookup ops (key_of (e_match en)) (ST s) \<noteq> None \<and> unat (a_src_ip (e_action en)) < MAX_RIP_PER_VIP)"

lemma of_nat_server_eq: "i < MAX_RIP_PER_VIP \<Longrightarrow> j < MAX_RIP_PER_VIP \<Longrightarrow> (of_nat i :: u32) = of_nat j \<longleftrightarrow> i = j"
  using unat_server by metis

lemma lb_new_counts:
  assumes inv: "lb_counts ops s act" and run: "lb_newConn_handler ops pipe_port cid en s = (r, en', s')"
  shows "ST s' = ST s \<and> lb_counts ops s' (if 0 \<le> r then add_mset en' act else act)"
  using lb_new_results [OF run]
proof (elim disjE exE conjE)
  fix p
  let ?ser = "services s p"
  assume p: "kv_lookup ops (key_of (e_match en)) (ST s) = Some p" and r: "r = int (LAN_PORT_ID (lb_attr s))" and m: "e_match en' = e_match en"
    and j: "a_src_ip (e_action en') = of_nat (pick_server ?ser)"
    and s': "s' = s\<lparr>services := (services s)(p := served ?ser), lb_attr := (lb_attr s)\<lparr>cc := (cc (lb_attr s))(cid := cc (lb_attr s) cid + 1)\<rparr>\<rparr>"
  have ok: "service_ok ?ser" using inv p by (auto simp: lb_counts_def)
  note less = pick_server_less(2) [OF ok]
  have len: "length (flowStats ?ser) = MAX_RIP_PER_VIP" using ok by (simp add: service_ok_def)
  have a: "active ops (ST s) q i en' \<longleftrightarrow> q = p \<and> i = pick_server ?ser" if "i < MAX_RIP_PER_VIP" for q i
    using p m j of_nat_server_eq [OF less that] by (auto simp: active_def)
  have "flowStats (services s' q) ! i = of_nat (size (filter_mset (active ops (ST s) q i) (add_mset en' act)))"
    if "kv_lookup ops k (ST s) = Some q" "i < MAX_RIP_PER_VIP" for k q i
    using inv that a [OF that(2)] len by (auto simp: lb_counts_def s' served_def)
  moreover have "service_ok (services s' q)" if "kv_lookup ops k (ST s) = Some q" for k q
    using inv that ok by (auto simp: lb_counts_def s' served_ok)
  ultimately show ?thesis using inv r s' p m j less by (auto simp: lb_counts_def unat_server)
qed (use inv in \<open>auto simp: lb_counts_def flow_consts service_ok_def\<close>)

lemma lb_aged_counts:
  assumes inv: "lb_counts ops s act" and en: "en \<in># act"
  shows "ST (lb_agingConn_handler ops en s) = ST s \<and> lb_counts ops (lb_agingConn_handler ops en s) (act - {#en#})"
proof -
  obtain act' where act: "act = add_mset en act'" using en by (metis insert_DiffM)
  obtain p where p: "kv_lookup ops (key_of (e_match en)) (ST s) = Some p" and less: "unat (a_src_ip (e_action en)) < MAX_RIP_PER_VIP"
    using inv en by (auto simp: lb_counts_def)
  let ?ser = "services s p" and ?j = "unat (a_src_ip (e_action en))"
  let ?s' = "s\<lparr>services := (services s)(p := ?ser\<lparr>flowStats := (flowStats ?ser)[?j := flowStats ?ser ! ?j - 1]\<rparr>)\<rparr>"
  have run: "lb_agingConn_handler ops en s = ?s'" using p by (simp add: lb_agingConn_handler_def Let_def)
  have ok: "service_ok ?ser" using inv p by (auto simp: lb_counts_def)
  then have len: "length (flowStats ?ser) = MAX_RIP_PER_VIP" by (simp add: service_ok_def)
  have a: "active ops (ST s) q i en \<longleftrightarrow> q = p \<and> i = ?j" if "i < MAX_RIP_PER_VIP" for q i
    using p of_nat_server_eq [OF that less] by (auto simp: active_def)
  have "flowStats (services ?s' q) ! i = of_nat (size (filter_mset (active ops (ST s) q i) act'))"
    if "kv_lookup ops k (ST s) = Some q" "i < MAX_RIP_PER_VIP" for k q i
  proof -
    have "flowStats (services s q) ! i = of_nat (size (filter_mset (active ops (ST s) q i) act))" using inv that by (auto simp: lb_counts_def)
    then show ?thesis using a [OF that(2), of q] len less by (cases "q = p \<and> i = ?j") (auto simp: act)
  qed
  moreover have "service_ok (services ?s' q)" if "kv_lookup ops k (ST s) = Some q" for k q
    using inv that ok by (auto simp: lb_counts_def service_ok_def)
  ultimately show ?thesis using inv unfolding run by (auto simp: lb_counts_def act)
qed

lemma lb_step_counts: "lb_step ops pipe_port cid c c' \<Longrightarrow> lb_counts ops (fst c) (snd c) \<Longrightarrow> ST (fst c') = ST (fst c) \<and> lb_counts ops (fst c') (snd c')"
  by (induction rule: lb_step.induct) (simp_all only: fst_conv snd_conv lb_new_counts lb_aged_counts simp_thms)

text \<open>
  C9: The counts shown by \<open>ipvsadm\<close> are exact. From a core whose services count nothing, over every sequence of
  new connections (accepted or not) and aging ones, the count of a real server is the number of
  connections sent to it that have not aged.
\<close>

theorem lb_active_counts_exact:
  assumes init: "\<forall>k p. kv_lookup ops k (ST s0) = Some p \<longrightarrow> service_ok (services s0 p) \<and> flowStats (services s0 p) = replicate MAX_RIP_PER_VIP 0"
    and reach: "(lb_step ops pipe_port cid)\<^sup>*\<^sup>* (s0, {#}) (s, act)"
    and p: "kv_lookup ops k (ST s0) = Some p" and j: "j < MAX_RIP_PER_VIP"
  shows "flowStats (services s p) ! j = of_nat (size (filter_mset (\<lambda>en. kv_lookup ops (key_of (e_match en)) (ST s0) = Some p \<and> a_src_ip (e_action en) = of_nat j) act))"
proof -
  have "ST (fst c) = ST s0 \<and> lb_counts ops (fst c) (snd c)" if "(lb_step ops pipe_port cid)\<^sup>*\<^sup>* (s0, {#}) c" for c
    using that
  proof (induction rule: rtranclp_induct)
    case base
    show ?case using init by (auto simp: lb_counts_def)
  next
    case (step c c')
    then show ?case using lb_step_counts by metis
  qed
  from this [OF reach] p j have "flowStats (services s p) ! j = of_nat (size (filter_mset (active ops (ST s0) p j) act))" by (auto simp: lb_counts_def)
  then show ?thesis unfolding active_def .
qed

lemma lb_active_counts_exact_witness:
  "\<exists>s act. lb_step map_kv (\<lambda>_. 1) 0 (demo_lb, {#}) (s, act) \<and> size act = 1 \<and>
     flowStats (services s 0) ! 0 = of_nat (size (filter_mset (\<lambda>en. kv_lookup map_kv (key_of (e_match en)) (ST demo_lb) = Some 0 \<and> a_src_ip (e_action en) = of_nat 0) act))"
proof -
  have "lb_arp (LAN_PORT_ID (lb_attr demo_lb)) (rip (services demo_lb 0) ! pick_server (services demo_lb 0)) (lb_router demo_lb) \<noteq> None"
    using demo_lb_arp [of 0] by (simp add: pick_server_eq demo_lb_facts)
  from lb_new_accepts [OF _ demo_lb_facts(3) refl this, where pipe_port = "\<lambda>_. 1" and cid = 0] demo_lb_facts(2)
  obtain en' s' where run: "lb_newConn_handler map_kv (\<lambda>_. 1) 0 demo_client demo_lb = (int (LAN_PORT_ID (lb_attr demo_lb)), en', s')" by auto
  from lb_step.new [OF this, of "{#}"] have st: "lb_step map_kv (\<lambda>_. 1) 0 (demo_lb, {#}) (s', {#en'#})" by simp
  have init: "\<forall>k p. kv_lookup map_kv k (ST demo_lb) = Some p \<longrightarrow> service_ok (services demo_lb p) \<and> flowStats (services demo_lb p) = replicate MAX_RIP_PER_VIP 0"
    using demo_lb_facts(1) by (simp add: demo_lb_def lb_service_def)
  have "0 < MAX_RIP_PER_VIP" by (simp add: flow_consts)
  from lb_active_counts_exact [OF init r_into_rtranclp [of "lb_step map_kv (\<lambda>_. 1) 0", OF st] demo_lb_facts(3) this] st show ?thesis by (intro exI [of _ s'] exI [of _ "{#en'#}"]) simp
qed

text \<open>What a core that reports success has in its table and its memory.\<close>

lemma add_services_lookup:
  assumes laws: "kv_laws ops" and "add_services ops q sers t m = (True, t', m')" and "distinct (map sv_key sers)"
  shows "(\<forall>i < length sers. kv_lookup ops (sv_key (sers ! i)) t' = Some (q + i)) \<and>
     (\<forall>k. k \<notin> sv_key ` set sers \<longrightarrow> kv_map ops t' k = kv_map ops t k) \<and> m' = m"
  using assms(2,3)
proof (induction sers arbitrary: q t)
  case (Cons ser sers)
  obtain ret t1 where a: "kv_add ops (sv_key ser) q t = (ret, t1)" by force
  then have r: "\<not> ret < 0" "add_services ops (q + 1) sers t1 m = (True, t', m')" using Cons.prems(1) by (auto split: if_splits)
  note IH = Cons.IH [OF r(2)] and m = kv_addD [OF laws a]
  have "kv_map ops t' (sv_key ser) = Some q" using IH m r(1) Cons.prems(2) by auto
  moreover have "kv_lookup ops (sv_key ((ser # sers) ! Suc i)) t' = Some (q + Suc i)" if "i < length sers" for i
    using IH that Cons.prems(2) by simp
  ultimately have "kv_lookup ops (sv_key ((ser # sers) ! i)) t' = Some (q + i)" if "i < length (ser # sers)" for i
    using that by (cases i) (auto simp: kv_map_def)
  then show ?case using IH m r(1) Cons.prems(2) by auto
qed simp

lemma load_params_results:
  assumes laws: "kv_laws ops" and run: "load_params_to_st ops tab base sers mem = Some (ok, tab', mem')" and dist: "distinct (map sv_key sers)"
  shows "(\<forall>p. p < base \<or> base + length sers \<le> p \<longrightarrow> mem' p = mem p) \<and>
     (ok \<longrightarrow> (\<exists>t. tab' = Some t \<and> (\<forall>i < length sers. kv_lookup ops (sv_key (sers ! i)) t = Some (base + i) \<and> mem' (base + i) = sers ! i)))"
proof (cases tab)
  case (Some t)
  have mem: "m' = m" if "add_services ops q xs t m = (r, t', m')" for q xs t m r t' m'
    using that by (induction ops q xs t m rule: add_services.induct) (auto split: prod.splits if_splits)
  obtain t1 where t: "tab' = Some t1"
    and a: "add_services ops base sers t (\<lambda>p. if base \<le> p \<and> p < base + length sers then sers ! (p - base) else mem p) = (ok, t1, mem')"
    using run Some by (auto simp: load_params_to_st_def Let_def split: prod.splits if_splits)
  have m: "mem' = (\<lambda>p. if base \<le> p \<and> p < base + length sers then sers ! (p - base) else mem p)" using mem [OF a] .
  show ?thesis
  proof (cases ok)
    case True
    then show ?thesis using add_services_lookup [OF laws _ dist, of base t] a m t by auto
  qed (simp add: m)
qed (use run in \<open>simp add: load_params_to_st_def\<close>)

definition loaded :: "(service_key, 'h) kv_ops \<Rightarrow> (nat \<Rightarrow> nat) \<Rightarrow> SERVICE list \<Rightarrow> (nat \<Rightarrow> 'h option) \<times> (nat \<Rightarrow> SERVICE) \<Rightarrow> nat \<Rightarrow> bool" where
  "loaded ops base sers st cid \<longleftrightarrow>
     (\<exists>t. fst st cid = Some t \<and> (\<forall>i < length sers. kv_lookup ops (sv_key (sers ! i)) t = Some (base cid + i) \<and> snd st (base cid + i) = sers ! i))"

lemma load_cores_results:
  assumes laws: "kv_laws ops" and dist: "distinct (map sv_key sers)"
    and apart: "\<forall>c\<in>CS. \<forall>c'\<in>CS. c \<noteq> c' \<longrightarrow> base c + length sers \<le> base c' \<or> base c' + length sers \<le> base c"
    and "load_cores ops created base sers cids (n, st) = Some (n', st')" and "distinct cids" and "set cids \<subseteq> CS"
  shows "n' \<le> n + length cids \<and> (n' = n + length cids \<longrightarrow> (\<forall>c \<in> set cids. loaded ops base sers st' c)) \<and>
     (\<forall>c \<in> CS - set cids. loaded ops base sers st c \<longrightarrow> loaded ops base sers st' c)"
  using assms(4-)
proof (induction cids arbitrary: n st)
  case (Cons c cids)
  obtain tabs mem where st: "st = (tabs, mem)" by fastforce
  obtain ok t mem1 where l: "load_params_to_st ops (created c) (base c) sers mem = Some (ok, t, mem1)"
    and rest: "load_cores ops created base sers cids (if ok then n + 1 else n, tabs(c := t), mem1) = Some (n', st')"
    using Cons.prems(1) st by (auto split: option.splits)
  note R = load_params_results [OF laws l dist]
  let ?st1 = "(tabs(c := t), mem1)"
  have IH: "n' \<le> (if ok then n + 1 else n) + length cids \<and> (n' = (if ok then n + 1 else n) + length cids \<longrightarrow> (\<forall>c \<in> set cids. loaded ops base sers st' c)) \<and>
     (\<forall>c \<in> CS - set cids. loaded ops base sers ?st1 c \<longrightarrow> loaded ops base sers st' c)"
    using Cons.IH [OF rest] Cons.prems(2,3) by simp
  have keep: "loaded ops base sers ?st1 d" if "loaded ops base sers st d" "d \<in> CS" "d \<noteq> c" for d
  proof -
    have "base d + length sers \<le> base c \<or> base c + length sers \<le> base d" using apart that(2,3) Cons.prems(3) by auto
    then have "mem1 (base d + i) = mem (base d + i)" if "i < length sers" for i using R that by auto
    then show ?thesis using that by (auto simp: loaded_def st)
  qed
  have "loaded ops base sers ?st1 c" if ok using R that by (auto simp: loaded_def)
  then show ?case using IH keep Cons.prems(2,3) by (cases ok) auto
qed auto

text \<open>
  C24: When \<open>LB_load_params\<close> succeeds, every core has every configured service: the workers and the main
  core, each of them finds the key of every service in its own table, and it leads to a copy of the service in
  the core's own memory.
\<close>

theorem lb_services_loaded:
  assumes laws: "kv_laws ops" and run: "LB_load_params P ops created base at s st = Some (1, st', s')"
    and cores: "distinct (pa_workers P @ [pa_self P])"
    and apart: "\<forall>c\<in>set (pa_workers P @ [pa_self P]). \<forall>c'\<in>set (pa_workers P @ [pa_self P]). c \<noteq> c' \<longrightarrow> base c + 3 \<le> base c' \<or> base c' + 3 \<le> base c"
    and cid: "cid \<in> set (pa_workers P @ [pa_self P])" and ser: "ser \<in> set lb_services"
  shows "\<exists>t p. fst st' cid = Some t \<and> kv_lookup ops (sv_key ser) t = Some p \<and> snd st' p = ser \<and> base cid \<le> p \<and> p < base cid + 3"
proof -
  have len: "length lb_services = 3" by (simp add: lb_services_def)
  have dist: "distinct (map sv_key lb_services)" by (simp add: lb_services_def lb_service_def bswap16_def)
  obtain n where l: "load_cores ops created base lb_services (pa_workers P @ [pa_self P]) (0, st) = Some (n, st')" and n: "n = lcore_count P"
    using run by (auto simp: LB_load_params_def Let_def split: option.splits if_splits bool.splits)
  from load_cores_results [OF laws dist _ l cores subset_refl, unfolded len, OF apart] n
  have "\<forall>c\<in>set (pa_workers P @ [pa_self P]). loaded ops base lb_services st' c" by (simp add: lcore_count_def)
  then have "loaded ops base lb_services st' cid" using cid by blast
  moreover obtain i where "i < length lb_services" "ser = lb_services ! i" using ser by (metis in_set_conv_nth)
  ultimately show ?thesis using len by (auto simp: loaded_def)
qed

text \<open>Hardware that accepts every entry.\<close>

definition accepting :: "'d doca_ops \<Rightarrow> bool" where
  "accepting ops \<longleftrightarrow> (\<forall>q p m a f d. fst (pipe_add_entry ops q p m a f d) \<noteq> 0) \<and> (\<forall>p q n d. fst (entries_process ops p q n d) = n)"

lemma add_entry_accepted:
  assumes "accepting ops" and "pipes pipe = Some fp"
  shows "\<exists>h d'. flowQoS_add_entry ops pipes pipe e q 1 (es, d) = Some (1, es(e := stamped fp pipe h (es e)), d')"
proof -
  obtain h d1 where h: "pipe_add_entry ops q (p_doca_pipe fp) (hw_match fp (es e)) (hw_meta fp e (es e)) DOCA_FLOW_NO_WAIT d = (h, d1)" by force
  obtain r d2 where r: "entries_process ops (p_src_doca_port fp) q 1 d1 = (r, d2)" by force
  have "h \<noteq> 0" "r = 1" using assms(1) h r by (metis accepting_def fst_conv)+
  then show ?thesis using h r by (auto simp: add_entry_now [where pipes = pipes, OF assms(2)])
qed

lemma add_downstream_succeeds:
  assumes acc: "accepting ops" and "\<forall>(ser, j) \<in> set sjs. pipes (downstream_pipe at ser) \<noteq> None \<and> printable pipes (downstream_pipe at ser)"
  shows "\<exists>d'. add_downstream ops pipes at mac sjs d = Some (True, d')"
  using assms(2)
proof (induction sjs arbitrary: d)
  case (Cons sj sjs)
  obtain ser j where sj: "sj = (ser, j)" by fastforce
  let ?p = "downstream_pipe at ser"
  obtain fp where fp: "pipes ?p = Some fp" and pr: "printable pipes ?p" using Cons.prems sj by auto
  from add_entry_accepted [where pipes = pipes, OF acc fp] obtain h d1
    where "flowQoS_add_entry ops pipes ?p 1 0 1 (\<lambda>_. downstream_entry at mac ser j, d) =
      Some (1, (\<lambda>_. downstream_entry at mac ser j)(1 := stamped fp ?p h (downstream_entry at mac ser j)), d1)" by blast
  moreover obtain out where "Option.bind (dumpFlowQoSEntry pipes (stamped fp ?p h (downstream_entry at mac ser j))) printFlowQoSEntry = Some out"
    using printable_prints [of pipes "stamped fp ?p h (downstream_entry at mac ser j)"] pr by (auto simp: stamped_def)
  moreover obtain d' where "add_downstream ops pipes at mac sjs d1 = Some (True, d')" using Cons.IH [of d1] Cons.prems by auto
  ultimately show ?case by (auto simp: sj simp del: bind_assoc)
qed simp

definition demo_params :: "(unit, unit, nat, unit) app_params" where
  "demo_params = \<lparr>pa_clobber = id, pa_hz = 0, pa_tsc = 0, pa_self = 0, pa_workers = [1], pa_pool = None, pa_ct = (\<lambda>_. None), pa_ctx_mem = (\<lambda>_. True), pa_tim_mem = (\<lambda>_. True),
     pa_mem = (\<lambda>_. zero_timer),
     pa_doca = demo_doca, pa_ports = id, pa_addr = id,
     pa_router = \<lparr>rte_lpm_create = (\<lambda>_. None), rte_lpm_lookup = (\<lambda>_ _. None), rte_lpm_add = (\<lambda>_ _ _ l. (0, l)), rte_lpm_delete = (\<lambda>_ _ l. (0, l)),
       arp_malloc = (\<lambda>_. False), shift_out = (\<lambda>_. 1)\<rparr>, pa_dev = (\<lambda>_. (0, 0, []))\<rparr>"

definition demo_downstream :: LB_ATTR where
  "demo_downstream = lb_attr_init\<lparr>TCP_DownStreamPIPE := 5, UDP_DownStreamPIPE := 5\<rparr>"

definition demo_setup :: "(unit, unit, nat, unit, unit) app_state" where
  "demo_setup = \<lparr>ap_ct = \<lparr>su_attr = attr_init, su_tables = (\<lambda>_. \<lparr>ct_pool = None, ct_table = None, offloadedNum = 0\<rparr>), su_qos = Map.empty, su_GAP = 0,
       su_timers = Map.empty, su_tasks = processors_init, su_cmds = cmd_init\<rparr>, ap_pipes = [5 \<mapsto> demo_pipe], ap_doca = 0,
     ap_router = \<lparr>arp_tables = (\<lambda>_. arp_table_init), localPortInfo = (\<lambda>_. port_info_init), routingTable = routing_table_init\<rparr>,
     ap_ops = \<lparr>hash_add = (\<lambda>_ _ h. (0, h)), hash_lookup = (\<lambda>_ _. None), hash_del = (\<lambda>_ h. (0, h)), pool_get = (\<lambda>p. (None, p)), pool_put = (\<lambda>_ p. p),
       newConn_handler = None, agingConn_handler = None\<rparr>\<rparr>"

lemma demo_load:
  "\<exists>st' s'. LB_load_params demo_params map_kv (\<lambda>_. Some Map.empty) (\<lambda>cid. 10 + 10 * cid) demo_downstream demo_setup (\<lambda>_. None, \<lambda>_. lb_service 0 0)
     = Some (1, st', s')"
proof -
  let ?router = "ap_router demo_setup" and ?pipes = "[5 \<mapsto> demo_pipe]"
  have "0 < NB_PORTS" by (simp add: flow_consts)
  have ports: "[0..<NB_PORTS] = [0, 1]" by (simp add: flow_consts upt_rec)
  obtain r where r: "router_calls (pa_router demo_params) (lb_router_calls 0) ?router = Some r"
    by (simp add: lb_router_calls_def demo_setup_def flowQoS_router_ifconfig_def ports port_info_init_def flowQoS_router_put_arp_def arp_table_init_def store_arp_def)
  obtain n st' where l: "load_cores map_kv (\<lambda>_. Some Map.empty) (\<lambda>cid. 10 + 10 * cid) lb_services [1, 0] (0, \<lambda>_. None, \<lambda>_. lb_service 0 0) = Some (2, st')"
    by (simp add: lb_services_def load_params_to_st_def Let_def map_kv_def)
  have p5: "downstream_pipe demo_downstream ser = 5" for ser by (simp add: downstream_pipe_def demo_downstream_def)
  have "accepting demo_doca" by (simp add: accepting_def demo_doca_def)
  moreover have "printable ?pipes 5"
    by (simp add: printable_def entry_fwd_names_def fwd_name_def demo_pipe_def short_name_def NUL_def flow_consts)
  ultimately have "\<exists>d. add_downstream demo_doca ?pipes demo_downstream (flowQoS_router_getPortMac 0 r) (all_servers lb_services) 0 = Some (True, d)"
    using add_downstream_succeeds [of demo_doca "all_servers lb_services" ?pipes demo_downstream] p5 by auto
  then obtain d where "add_downstream demo_doca ?pipes demo_downstream (flowQoS_router_getPortMac 0 r) (all_servers lb_services) 0 = Some (True, d)" by blast
  moreover obtain cs where "registerLBCmd cmd_init = Some cs"
    using register_once_ok [OF cmd_ok_init, of "[''cmd_ipvsadm_obj'']" "''LB''"] by (auto simp: registerLBCmd_def flow_consts cmd_init_def)
  ultimately show ?thesis using r l
    by (simp add: LB_load_params_def demo_downstream_def lb_attr_init_def demo_params_def demo_setup_def lcore_count_def)
qed

lemma lb_services_loaded_witness:
  "\<exists>st' s' t p. LB_load_params demo_params map_kv (\<lambda>_. Some Map.empty) (\<lambda>cid. 10 + 10 * cid) demo_downstream demo_setup (\<lambda>_. None, \<lambda>_. lb_service 0 0)
     = Some (1, st', s') \<and> fst st' 1 = Some t \<and> t (sv_key (lb_service 17 5001)) = Some p \<and> snd st' p = lb_service 17 5001"
proof -
  obtain st' s' where run: "LB_load_params demo_params map_kv (\<lambda>_. Some Map.empty) (\<lambda>cid. 10 + 10 * cid) demo_downstream demo_setup (\<lambda>_. None, \<lambda>_. lb_service 0 0)
     = Some (1, st', s')" using demo_load by blast
  have cores: "distinct (pa_workers demo_params @ [pa_self demo_params])" "set (pa_workers demo_params @ [pa_self demo_params]) = {0, 1}"
    by (auto simp: demo_params_def)
  have apart: "\<forall>c\<in>set (pa_workers demo_params @ [pa_self demo_params]). \<forall>c'\<in>set (pa_workers demo_params @ [pa_self demo_params]).
      c \<noteq> c' \<longrightarrow> 10 + 10 * c + 3 \<le> 10 + 10 * c' \<or> 10 + 10 * c' + 3 \<le> 10 + 10 * c"
    unfolding cores(2) by auto
  have mem: "1 \<in> set (pa_workers demo_params @ [pa_self demo_params])" "lb_service 17 5001 \<in> set lb_services"
    by (simp_all only: cores(2) lb_services_def) simp_all
  have "\<exists>t p. fst st' 1 = Some t \<and> kv_lookup map_kv (sv_key (lb_service 17 5001)) t = Some p \<and> snd st' p = lb_service 17 5001 \<and> 20 \<le> p \<and> p < 23"
    using lb_services_loaded [OF map_kv_laws run cores(1) apart mem] by simp
  then obtain t p where "fst st' 1 = Some t" "kv_lookup map_kv (sv_key (lb_service 17 5001)) t = Some p" "snd st' p = lb_service 17 5001" by blast
  moreover have "t k = kv_lookup map_kv k t" for k by (simp add: map_kv_def)
  ultimately show ?thesis using run by metis
qed

end
