(* ===== verification/Message.thy ===== *)
theory Message
  imports Worker
begin

text \<open>
  Messages between the main core and the workers (\<open>src/src/flowQoS_message.c\<close>): a pool of 112 buffers of
  1024 bytes, two rings per worker, unicast and multicast, and the execution of a function on every worker.
  The pool and the rings of DPDK are parameters (\<open>msg_ops\<close>). The buffers are a store from addresses to
  bytes. While the main core waits, the other cores run: what they do in one wait of 10 ms is the parameter
  \<open>delay\<close>. \<^term>\<open>None\<close> is undefined behaviour: a null ring or pool, a core without a socket, or a copy past
  the end of a buffer.
\<close>

section \<open>State\<close>

definition MAX_RING_COUNT :: nat where [flow_consts]: "MAX_RING_COUNT = 8"
definition MESSAGE_MAX_SIZE :: nat where [flow_consts]: "MESSAGE_MAX_SIZE = 1024"
definition MAX_SOCKS :: nat where [flow_consts]: "MAX_SOCKS = 8"

record ('p, 'r) msg_ops =
  mp_get :: "'p \<Rightarrow> nat option \<times> 'p"
  mp_put :: "nat \<Rightarrow> 'p \<Rightarrow> 'p"
  mp_create :: "nat \<Rightarrow> nat \<Rightarrow> 'p option"
  rg_enqueue :: "nat \<Rightarrow> 'r \<Rightarrow> int \<times> 'r"
  rg_dequeue :: "'r \<Rightarrow> nat option \<times> 'r"
  rg_create :: "string \<Rightarrow> nat \<Rightarrow> 'r option"

record FlowQoS_syn_task =
  task_cb :: u64
  task_args :: u64

record 'r flowQoS_core_socket =
  master_to_slave_ring :: "'r option"
  slave_to_master_ring :: "'r option"

record ('p, 'r, 'w) msg_state =
  FlowQoS_MESSAGE_POOL :: "'p option"
  msg_mem :: "nat \<Rightarrow> u8 list"
  socks :: "nat \<Rightarrow> 'r flowQoS_core_socket"
  msg_world :: 'w

text \<open>The ring that \<open>is_request\<close> selects.\<close>

definition sock_ring :: "nat \<Rightarrow> bool \<Rightarrow> ('p, 'r, 'w) msg_state \<Rightarrow> 'r option" where
  "sock_ring core is_request s =
     (if core < MAX_SOCKS then (if is_request then master_to_slave_ring (socks s core) else slave_to_master_ring (socks s core)) else None)"

definition set_ring :: "nat \<Rightarrow> bool \<Rightarrow> 'r option \<Rightarrow> ('p, 'r, 'w) msg_state \<Rightarrow> ('p, 'r, 'w) msg_state" where
  "set_ring core is_request r s =
     s\<lparr>socks := (socks s)(core := (if is_request then (socks s core)\<lparr>master_to_slave_ring := r\<rparr> else (socks s core)\<lparr>slave_to_master_ring := r\<rparr>))\<rparr>"

section \<open>Unicast\<close>

definition flowQoS_make_msg ::
  "('p, 'r) msg_ops \<Rightarrow> u8 list \<Rightarrow> nat \<Rightarrow> ('p, 'r, 'w) msg_state \<Rightarrow> (nat option \<times> ('p, 'r, 'w) msg_state) option" where
  "flowQoS_make_msg ops msg len s =
     (if MESSAGE_MAX_SIZE < len then Some (None, s)
      else case FlowQoS_MESSAGE_POOL s of None \<Rightarrow> None
      | Some p \<Rightarrow>
        (case mp_get ops p of
           (None, p') \<Rightarrow> Some (None, s\<lparr>FlowQoS_MESSAGE_POOL := Some p'\<rparr>)
         | (Some res, p') \<Rightarrow>
             if length msg < len then None
             else Some (Some res, s\<lparr>FlowQoS_MESSAGE_POOL := Some p',
                          msg_mem := (msg_mem s)(res := take len msg @ drop len (msg_mem s res))\<rparr>)))"

definition flowQoS_free_msg :: "('p, 'r) msg_ops \<Rightarrow> nat \<Rightarrow> ('p, 'r, 'w) msg_state \<Rightarrow> ('p, 'r, 'w) msg_state" where
  "flowQoS_free_msg ops msg s = s\<lparr>FlowQoS_MESSAGE_POOL := map_option (mp_put ops msg) (FlowQoS_MESSAGE_POOL s)\<rparr>"

definition flowQoS_send_msg ::
  "('p, 'r) msg_ops \<Rightarrow> u8 list \<Rightarrow> nat \<Rightarrow> nat \<Rightarrow> bool \<Rightarrow> ('p, 'r, 'w) msg_state \<Rightarrow> (int \<times> ('p, 'r, 'w) msg_state) option" where
  "flowQoS_send_msg ops msg0 len target_core is_request s =
     (case flowQoS_make_msg ops msg0 len s of None \<Rightarrow> None
      | Some (None, s1) \<Rightarrow> Some (0, s1)
      | Some (Some msg, s1) \<Rightarrow>
          (case sock_ring target_core is_request s1 of None \<Rightarrow> None
           | Some r \<Rightarrow>
               (case rg_enqueue ops msg r of (ret, r') \<Rightarrow>
                  let s2 = set_ring target_core is_request (Some r') s1 in
                  if ret \<noteq> 0 then Some (0, flowQoS_free_msg ops msg s2) else Some (1, s2))))"

text \<open>A copy of \<open>n\<close> bytes into a buffer at offset \<open>off\<close>.\<close>

definition copy_at :: "nat \<Rightarrow> u8 list \<Rightarrow> u8 list \<Rightarrow> u8 list option" where
  "copy_at off bs mbuf = (if off + length bs \<le> length mbuf then Some (take off mbuf @ bs @ drop (off + length bs) mbuf) else None)"

text \<open>\<open>flowQoS_recv_msg\<close> into a buffer at an offset; a null buffer is \<open>None\<close>.\<close>

definition flowQoS_recv_msg ::
  "('p, 'r) msg_ops \<Rightarrow> nat \<Rightarrow> u8 list option \<Rightarrow> nat \<Rightarrow> nat \<Rightarrow> bool \<Rightarrow> ('p, 'r, 'w) msg_state
     \<Rightarrow> (int \<times> u8 list option \<times> ('p, 'r, 'w) msg_state) option" where
  "flowQoS_recv_msg ops off msg_buf len target_core is_request s =
     (case msg_buf of None \<Rightarrow> Some (0, None, s)
      | Some mbuf \<Rightarrow>
        (case sock_ring target_core is_request s of None \<Rightarrow> None
         | Some r \<Rightarrow>
           (case rg_dequeue ops r of
              (None, r') \<Rightarrow> Some (0, Some mbuf, set_ring target_core is_request (Some r') s)
            | (Some msg0, r') \<Rightarrow>
                (case copy_at off (take (if MESSAGE_MAX_SIZE < len then MESSAGE_MAX_SIZE else len) (msg_mem s msg0)) mbuf of
                   None \<Rightarrow> None
                 | Some mbuf' \<Rightarrow> Some (1, Some mbuf', flowQoS_free_msg ops msg0 (set_ring target_core is_request (Some r') s))))))"

section \<open>Multicast\<close>

fun send_all ::
  "('p, 'r) msg_ops \<Rightarrow> u8 list \<Rightarrow> nat \<Rightarrow> nat list \<Rightarrow> int \<Rightarrow> ('p, 'r, 'w) msg_state \<Rightarrow> (int \<times> ('p, 'r, 'w) msg_state) option" where
  "send_all ops msg len [] res s = Some (res, s)"
| "send_all ops msg len (lcore_id # ids) res s =
     (case flowQoS_send_msg ops msg len lcore_id True s of None \<Rightarrow> None
      | Some (ret, s') \<Rightarrow> send_all ops msg len ids (res + ret) s')"

definition flowQoS_message_multicast_send ::
  "('p, 'r) msg_ops \<Rightarrow> nat \<Rightarrow> nat list \<Rightarrow> nat \<Rightarrow> u8 list \<Rightarrow> nat \<Rightarrow> ('p, 'r, 'w) msg_state \<Rightarrow> (int \<times> ('p, 'r, 'w) msg_state) option" where
  "flowQoS_message_multicast_send ops main workers cid msg len s =
     (if cid = main then send_all ops msg len workers 0 s else flowQoS_send_msg ops msg len cid False s)"

text \<open>The polling of one worker, at most \<open>k\<close> times; the code starts with 300.\<close>

fun recv_wait ::
  "('p, 'r) msg_ops \<Rightarrow> (('p, 'r, 'w) msg_state \<Rightarrow> ('p, 'r, 'w) msg_state option) \<Rightarrow> nat \<Rightarrow> nat \<Rightarrow> nat \<Rightarrow> nat \<Rightarrow> u8 list option
     \<Rightarrow> ('p, 'r, 'w) msg_state \<Rightarrow> (int \<times> u8 list option \<times> ('p, 'r, 'w) msg_state) option" where
  "recv_wait ops delay 0 off msg_len lcore_id mbuf s = Some (0, mbuf, s)"
| "recv_wait ops delay (Suc k) off msg_len lcore_id mbuf s =
     (case flowQoS_recv_msg ops off mbuf msg_len lcore_id False s of None \<Rightarrow> None
      | Some (ret, mbuf', s') \<Rightarrow>
          if ret \<noteq> 0 then Some (1, mbuf', s')
          else (case delay s' of None \<Rightarrow> None | Some s'' \<Rightarrow> recv_wait ops delay k off msg_len lcore_id mbuf' s''))"

fun recv_all ::
  "('p, 'r) msg_ops \<Rightarrow> (('p, 'r, 'w) msg_state \<Rightarrow> ('p, 'r, 'w) msg_state option) \<Rightarrow> nat list \<Rightarrow> nat \<Rightarrow> nat \<Rightarrow> int \<Rightarrow> u8 list option
     \<Rightarrow> ('p, 'r, 'w) msg_state \<Rightarrow> (int \<times> u8 list option \<times> ('p, 'r, 'w) msg_state) option" where
  "recv_all ops delay [] off msg_len res mbuf s = Some (res, mbuf, s)"
| "recv_all ops delay (lcore_id # ids) off msg_len res mbuf s =
     (case recv_wait ops delay 300 off msg_len lcore_id mbuf s of None \<Rightarrow> None
      | Some (got, mbuf', s') \<Rightarrow> recv_all ops delay ids (off + msg_len) msg_len (res + got) mbuf' s')"

definition flowQoS_message_multicast_recv ::
  "('p, 'r) msg_ops \<Rightarrow> (('p, 'r, 'w) msg_state \<Rightarrow> ('p, 'r, 'w) msg_state option) \<Rightarrow> nat \<Rightarrow> nat list \<Rightarrow> nat \<Rightarrow> u8 list option \<Rightarrow> nat
     \<Rightarrow> ('p, 'r, 'w) msg_state \<Rightarrow> (int \<times> u8 list option \<times> ('p, 'r, 'w) msg_state) option" where
  "flowQoS_message_multicast_recv ops delay main workers cid msg_arr msg_len s =
     (if cid = main then recv_all ops delay workers 0 msg_len 0 msg_arr s
      else flowQoS_recv_msg ops 0 msg_arr msg_len cid True s)"

section \<open>Running a function on every worker\<close>

text \<open>The bytes of a task and of a reply, on a little-endian machine.\<close>

definition le64 :: "u64 \<Rightarrow> u8 list" where
  "le64 x = map (\<lambda>i. ucast (drop_bit (8 * i) x)) [0..<8]"

definition of_le64 :: "u8 list \<Rightarrow> u64" where
  "of_le64 bs = fold (\<lambda>i acc. acc OR push_bit (8 * i) (ucast (bs ! i))) [0..<8] 0"

definition task_bytes :: "FlowQoS_syn_task \<Rightarrow> u8 list" where
  "task_bytes t = le64 (task_cb t) @ le64 (task_args t)"

definition bytes_task :: "u8 list \<Rightarrow> FlowQoS_syn_task" where
  "bytes_task bs = \<lparr>task_cb = of_le64 (take 8 bs), task_args = of_le64 (drop 8 bs)\<rparr>"

definition reply_bytes :: "u8 list" where "reply_bytes = [1, 0, 0, 0]"

text \<open>\<open>run cb args cid\<close> is the effect of calling \<open>cb(args)\<close> on core \<open>cid\<close>; the task is received into 16 uninitialised bytes.\<close>

definition flowQoS_message_multiThread_do_slave ::
  "('p, 'r) msg_ops \<Rightarrow> (u64 \<Rightarrow> u64 \<Rightarrow> nat \<Rightarrow> 'w \<Rightarrow> 'w) \<Rightarrow> (('p, 'r, 'w) msg_state \<Rightarrow> ('p, 'r, 'w) msg_state option) \<Rightarrow> u8 list \<Rightarrow> nat \<Rightarrow> nat list \<Rightarrow> nat
     \<Rightarrow> ('p, 'r, 'w) msg_state \<Rightarrow> (int \<times> ('p, 'r, 'w) msg_state) option" where
  "flowQoS_message_multiThread_do_slave ops run delay junk main workers cid s =
     (case flowQoS_message_multicast_recv ops delay main workers cid (Some (take 16 junk)) 16 s of
        Some (ret, Some bs, s1) \<Rightarrow>
          if ret \<noteq> 0
          then let task = bytes_task bs; s2 = s1\<lparr>msg_world := run (task_cb task) (task_args task) cid (msg_world s1)\<rparr> in
               map_option (\<lambda>(_, s3). (1, s3)) (flowQoS_message_multicast_send ops main workers cid reply_bytes 4 s2)
          else Some (0, s1)
      | _ \<Rightarrow> None)"

text \<open>The replies are received into \<open>int res\<close>, four bytes.\<close>

definition flowQoS_message_multiThread_do ::
  "('p, 'r) msg_ops \<Rightarrow> (('p, 'r, 'w) msg_state \<Rightarrow> ('p, 'r, 'w) msg_state option) \<Rightarrow> nat \<Rightarrow> nat list \<Rightarrow> nat \<Rightarrow> u64 \<Rightarrow> u64
     \<Rightarrow> ('p, 'r, 'w) msg_state \<Rightarrow> (int \<times> ('p, 'r, 'w) msg_state) option" where
  "flowQoS_message_multiThread_do ops delay main workers cid cb args s =
     (case flowQoS_message_multicast_send ops main workers cid (task_bytes \<lparr>task_cb = cb, task_args = args\<rparr>) 16 s of None \<Rightarrow> None
      | Some (_, s1) \<Rightarrow>
        (case flowQoS_message_multicast_recv ops delay main workers cid (Some [0, 0, 0, 0]) 4 s1 of None \<Rightarrow> None
         | Some (ret, _, s2) \<Rightarrow> Some (if ret = int (length workers) then 1 else 0, s2)))"

section \<open>Set-up and self test\<close>

definition c_string :: "string \<Rightarrow> u8 list" where
  "c_string str = map of_char str @ [0]"

text \<open>The worker of the self test: it polls at most \<open>k\<close> times, 100 in the code, and answers.\<close>

fun slave ::
  "('p, 'r) msg_ops \<Rightarrow> (('p, 'r, 'w) msg_state \<Rightarrow> ('p, 'r, 'w) msg_state option) \<Rightarrow> nat \<Rightarrow> nat \<Rightarrow> nat list \<Rightarrow> nat \<Rightarrow> u8 list
     \<Rightarrow> ('p, 'r, 'w) msg_state \<Rightarrow> ('p, 'r, 'w) msg_state option" where
  "slave ops delay 0 main workers cid mbuf s = Some s"
| "slave ops delay (Suc k) main workers cid mbuf s =
     (case flowQoS_message_multicast_recv ops delay main workers cid (Some mbuf) 100 s of
        Some (ret, Some mbuf', s1) \<Rightarrow>
          if ret = 0 then Option.bind (delay s1) (slave ops delay k main workers cid mbuf')
          else (case copy_at 0 (c_string (''Slave '' @ dec cid @ '' recv sucesss'')) mbuf' of None \<Rightarrow> None
                | Some text \<Rightarrow> map_option snd (flowQoS_message_multicast_send ops main workers cid text 100 s1))
      | _ \<Rightarrow> None)"

text \<open>
  \<open>flowQoS_message_test\<close>: the workers run \<open>slave\<close> beside the main core, as far as \<open>delay\<close> says, and
  \<open>finish\<close> is what they still do until \<open>rte_eal_mp_wait_lcore\<close> returns. \<open>junk\<close> is the uninitialised \<open>buf\<close>.
\<close>

definition flowQoS_message_test ::
  "('p, 'r) msg_ops \<Rightarrow> (('p, 'r, 'w) msg_state \<Rightarrow> ('p, 'r, 'w) msg_state option) \<Rightarrow> (('p, 'r, 'w) msg_state \<Rightarrow> ('p, 'r, 'w) msg_state option) \<Rightarrow> nat
     \<Rightarrow> nat list \<Rightarrow> u8 list \<Rightarrow> ('p, 'r, 'w) msg_state \<Rightarrow> ((int \<times> int \<times> u8 list) \<times> ('p, 'r, 'w) msg_state) option" where
  "flowQoS_message_test ops delay finish main workers junk s =
     Option.bind (copy_at 0 (c_string ''Hello,I am master core'') (take 800 junk)) (\<lambda>mbuf.
     Option.bind (flowQoS_message_multicast_send ops main workers main mbuf 100 s) (\<lambda>(sent, s1).
     Option.bind (flowQoS_message_multicast_recv ops delay main workers main (Some mbuf) 100 s1) (\<lambda>(got, mbuf', s2).
     map_option (\<lambda>s3. ((sent, got, the mbuf'), s3)) (finish s2))))"

fun init_socks ::
  "('p, 'r) msg_ops \<Rightarrow> nat list \<Rightarrow> ('p, 'r, 'w) msg_state \<Rightarrow> (bool \<times> ('p, 'r, 'w) msg_state) option" where
  "init_socks ops [] s = Some (True, s)"
| "init_socks ops (lcore_id # ids) s =
     (if lcore_id < MAX_SOCKS then
        let rx = rg_create ops (''Core'' @ dec lcore_id @ ''-RX'') MAX_RING_COUNT;
            tx = rg_create ops (''Core'' @ dec lcore_id @ ''-TX'') MAX_RING_COUNT;
            s' = s\<lparr>socks := (socks s)(lcore_id := \<lparr>master_to_slave_ring = tx, slave_to_master_ring = rx\<rparr>)\<rparr>
        in if rx = None \<or> tx = None then Some (False, s') else init_socks ops ids s'
      else None)"

definition flowQoS_message_init ::
  "('p, 'r) msg_ops \<Rightarrow> (('p, 'r, 'w) msg_state \<Rightarrow> ('p, 'r, 'w) msg_state option) \<Rightarrow> (('p, 'r, 'w) msg_state \<Rightarrow> ('p, 'r, 'w) msg_state option) \<Rightarrow> nat
     \<Rightarrow> nat list \<Rightarrow> u8 list \<Rightarrow> ('p, 'r, 'w) msg_state \<times> ('pp, string) processors \<Rightarrow> (int \<times> ('p, 'r, 'w) msg_state \<times> ('pp, string) processors) option" where
  "flowQoS_message_init ops delay finish main workers junk st =
     (case st of (s, reg) \<Rightarrow>
        if FlowQoS_MESSAGE_POOL s = None then
          Option.bind (init_socks ops workers s) (\<lambda>(ok, s1).
          if \<not> ok then Some (0, s1, reg)
          else case mp_create ops ((8 - 1) * 2 * MAX_RING_COUNT) MESSAGE_MAX_SIZE of
                 None \<Rightarrow> Some (0, s1, reg)
               | Some pool \<Rightarrow>
                   Option.bind (flowQoS_message_test ops delay finish main workers junk (s1\<lparr>FlowQoS_MESSAGE_POOL := Some pool\<rparr>)) (\<lambda>(_, s2).
                   map_option (\<lambda>(_, reg'). (1, s2, reg'))
                     (register_general_processor ''flowQoS_message_multiThread_do_slave'' ''Message'' reg)))
        else Some (0, s, reg))"

end
