(* ===== verification/Message_Props.thy ===== *)
theory Message_Props
  imports Message "HOL-Library.Sublist"
begin

text \<open>
  Properties of the messages: each ring with the buffers it points to is a first-in first-out channel, no
  buffer is lost or shared, and running a function on the workers works with one worker and overruns the
  reply with more.
\<close>

section \<open>Channels\<close>

text \<open>What is relied on of \<open>rte_mempool\<close> and \<open>rte_ring\<close>; an allocation and an enqueue may fail at any time.\<close>

definition msg_laws :: "('p, 'r) msg_ops \<Rightarrow> ('p \<Rightarrow> nat set) \<Rightarrow> ('r \<Rightarrow> nat list) \<Rightarrow> bool" where
  "msg_laws ops fr q \<longleftrightarrow>
     (\<forall>p. case mp_get ops p of (None, p') \<Rightarrow> fr p' = fr p | (Some a, p') \<Rightarrow> a \<in> fr p \<and> fr p' = fr p - {a}) \<and>
     (\<forall>a p. fr (mp_put ops a p) = insert a (fr p)) \<and>
     (\<forall>a r. case rg_enqueue ops a r of (ret, r') \<Rightarrow> q r' = (if ret = 0 then q r @ [a] else q r)) \<and>
     (\<forall>r. case rg_dequeue ops r of (None, r') \<Rightarrow> q r = [] \<and> q r' = [] | (Some a, r') \<Rightarrow> q r = a # q r')"

lemma mp_getD:
  assumes "msg_laws ops fr q" and "mp_get ops p = (x, p')"
  shows "(x = None \<and> fr p' = fr p) \<or> (\<exists>a. x = Some a \<and> a \<in> fr p \<and> fr p' = fr p - {a})"
  using assms(1) assms(2) by (cases x) (auto simp: msg_laws_def dest!: spec [of _ p])

lemma mp_putD: "msg_laws ops fr q \<Longrightarrow> fr (mp_put ops a p) = insert a (fr p)"
  by (simp add: msg_laws_def)

lemma rg_enqueueD: "msg_laws ops fr q \<Longrightarrow> rg_enqueue ops a r = (ret, r') \<Longrightarrow> q r' = (if ret = 0 then q r @ [a] else q r)"
  unfolding msg_laws_def by (metis (mono_tags, lifting) case_prodD case_prodI)

lemma rg_dequeueD:
  assumes "msg_laws ops fr q" and "rg_dequeue ops r = (x, r')"
  shows "(x = None \<and> q r = [] \<and> q r' = []) \<or> (\<exists>a. x = Some a \<and> q r = a # q r')"
  using assms(1) assms(2) by (cases x) (auto simp: msg_laws_def dest!: spec [of _ r])

type_synonym channel = "nat \<times> bool"

definition pending :: "('r \<Rightarrow> nat list) \<Rightarrow> ('p, 'r, 'w) msg_state \<Rightarrow> channel \<Rightarrow> nat list" where
  "pending q s ch = (case sock_ring (fst ch) (snd ch) s of None \<Rightarrow> [] | Some r \<Rightarrow> q r)"

text \<open>The contents of the channels.\<close>

definition msgs :: "('r \<Rightarrow> nat list) \<Rightarrow> ('p, 'r, 'w) msg_state \<Rightarrow> channel \<Rightarrow> u8 list list" where
  "msgs q s ch = map (msg_mem s) (pending q s ch)"

definition free_bufs :: "('p \<Rightarrow> nat set) \<Rightarrow> ('p, 'r, 'w) msg_state \<Rightarrow> nat set" where
  "free_bufs fr s = (case FlowQoS_MESSAGE_POOL s of None \<Rightarrow> {} | Some p \<Rightarrow> fr p)"

definition all_bufs :: "('p \<Rightarrow> nat set) \<Rightarrow> ('r \<Rightarrow> nat list) \<Rightarrow> ('p, 'r, 'w) msg_state \<Rightarrow> nat set" where
  "all_bufs fr q s = free_bufs fr s \<union> (\<Union>ch. set (pending q s ch))"

text \<open>A buffer is free or in one channel; the cores \<open>W\<close> have sockets.\<close>

definition msg_ok :: "('p \<Rightarrow> nat set) \<Rightarrow> ('r \<Rightarrow> nat list) \<Rightarrow> nat set \<Rightarrow> ('p, 'r, 'w) msg_state \<Rightarrow> bool" where
  "msg_ok fr q W s \<longleftrightarrow>
     FlowQoS_MESSAGE_POOL s \<noteq> None \<and> (\<forall>c\<in>W. \<forall>d. sock_ring c d s \<noteq> None) \<and>
     (\<forall>ch. distinct (pending q s ch) \<and> set (pending q s ch) \<inter> free_bufs fr s = {}) \<and>
     (\<forall>ch ch'. ch \<noteq> ch' \<longrightarrow> set (pending q s ch) \<inter> set (pending q s ch') = {}) \<and>
     (\<forall>a. length (msg_mem s a) = MESSAGE_MAX_SIZE)"

lemma sock_ring_set:
  "sock_ring c d (set_ring core dir r s) = (if c = core \<and> d = dir \<and> core < MAX_SOCKS then r else sock_ring c d s)"
  by (auto simp: sock_ring_def set_ring_def)

lemma set_ring_fields [simp]:
  "FlowQoS_MESSAGE_POOL (set_ring core dir r s) = FlowQoS_MESSAGE_POOL s" "msg_mem (set_ring core dir r s) = msg_mem s"
  "msg_world (set_ring core dir r s) = msg_world s"
  by (simp_all add: set_ring_def)

lemma sock_ring_less: "sock_ring core dir s = Some r \<Longrightarrow> core < MAX_SOCKS"
  by (simp add: sock_ring_def split: if_splits)

lemma sock_ring_cong: "socks s = socks s' \<Longrightarrow> sock_ring c d s = sock_ring c d s'"
  by (simp add: sock_ring_def)

lemma sock_ring_updates [simp]:
  "sock_ring c d (s\<lparr>FlowQoS_MESSAGE_POOL := p\<rparr>) = sock_ring c d s" "sock_ring c d (s\<lparr>msg_mem := m\<rparr>) = sock_ring c d s"
  "sock_ring c d (s\<lparr>msg_world := w\<rparr>) = sock_ring c d s" "sock_ring c d (flowQoS_free_msg ops a s) = sock_ring c d s"
  by (simp_all add: sock_ring_def flowQoS_free_msg_def)

lemma pending_set:
  "core < MAX_SOCKS \<Longrightarrow> pending q (set_ring core dir (Some r) s) = (pending q s)((core, dir) := q r)"
  by (auto simp: pending_def sock_ring_set fun_eq_iff)

lemma pending_cong: "socks s = socks s' \<Longrightarrow> pending q s = pending q s'"
  by (simp add: pending_def sock_ring_def fun_eq_iff)

lemma msg_ok_fields:
  assumes "msg_ok fr q W s"
  shows "\<exists>p. FlowQoS_MESSAGE_POOL s = Some p" "c \<in> W \<Longrightarrow> \<exists>r. sock_ring c d s = Some r" "length (msg_mem s a) = MESSAGE_MAX_SIZE"
    "a \<in> free_bufs fr s \<Longrightarrow> a \<notin> set (pending q s ch)"
  using assms by (auto simp: msg_ok_def simp del: split_paired_All)

section \<open>Sending and receiving\<close>

lemma free_msg_fields [simp]:
  "socks (flowQoS_free_msg ops a s) = socks s" "msg_mem (flowQoS_free_msg ops a s) = msg_mem s"
  "msg_world (flowQoS_free_msg ops a s) = msg_world s"
  by (simp_all add: flowQoS_free_msg_def)

text \<open>Moving a buffer from the pool into a channel and back.\<close>

lemma msg_ok_take:
  assumes ok: "msg_ok fr q W s" and a: "a \<in> free_bufs fr s"
    and s': "free_bufs fr s' = free_bufs fr s - {a}" "pending q s' = (pending q s)(ch := pending q s ch @ [a])"
      "msg_mem s' = (msg_mem s)(a := m)" "length m = MESSAGE_MAX_SIZE" "FlowQoS_MESSAGE_POOL s' \<noteq> None"
      "\<And>c d. sock_ring c d s \<noteq> None \<Longrightarrow> sock_ring c d s' \<noteq> None"
  shows "msg_ok fr q W s' \<and> msgs q s' = (msgs q s)(ch := msgs q s ch @ [m]) \<and> all_bufs fr q s' = all_bufs fr q s"
proof -
  have n: "a \<notin> set (pending q s c)" for c by (rule msg_ok_fields(4) [OF ok a])
  have "map (msg_mem s') (pending q s c) = map (msg_mem s) (pending q s c)" for c using n [of c] by (simp add: s')
  then have "msgs q s' = (msgs q s)(ch := msgs q s ch @ [m])" by (auto simp: msgs_def s'(2) fun_eq_iff) (simp add: s')
  moreover have "msg_ok fr q W s'" using ok n s' by (auto simp: msg_ok_def simp del: split_paired_All)
  moreover have "all_bufs fr q s' = all_bufs fr q s" using a by (auto simp: all_bufs_def s' split: if_splits)
  ultimately show ?thesis by blast
qed

lemma msg_ok_give:
  assumes ok: "msg_ok fr q W s" and a: "pending q s ch = a # rest"
    and s': "free_bufs fr s' = insert a (free_bufs fr s)" "pending q s' = (pending q s)(ch := rest)" "msg_mem s' = msg_mem s"
      "FlowQoS_MESSAGE_POOL s' \<noteq> None" "\<And>c d. sock_ring c d s \<noteq> None \<Longrightarrow> sock_ring c d s' \<noteq> None"
  shows "msg_ok fr q W s' \<and> msgs q s' = (msgs q s)(ch := map (msg_mem s) rest) \<and> all_bufs fr q s' = all_bufs fr q s"
proof -
  have dist: "distinct (pending q s c)" "set (pending q s c) \<inter> free_bufs fr s = {}" for c using ok unfolding msg_ok_def by blast+
  have disj: "set (pending q s c) \<inter> set (pending q s c') = {}" if "c \<noteq> c'" for c c' using ok that unfolding msg_ok_def by blast
  have n: "a \<notin> set rest" using dist(1) [of ch] a by simp
  have pc: "set (pending q s' c) \<subseteq> set (pending q s c)" "a \<notin> set (pending q s' c)" for c
    using disj [of c ch] a n by (auto simp: s')
  have "msg_ok fr q W s'" unfolding msg_ok_def
  proof (intro conjI allI impI)
    fix c c' :: channel
    show "distinct (pending q s' c)" using dist(1) [of c] dist(1) [of ch] a by (simp add: s')
    show "set (pending q s' c) \<inter> free_bufs fr s' = {}" using pc [of c] dist(2) [of c] by (auto simp: s'(1))
    show "set (pending q s' c) \<inter> set (pending q s' c') = {}" if "c \<noteq> c'" using disj [OF that] pc(1) [of c] pc(1) [of c'] by blast
  qed (use ok s' in \<open>auto simp: msg_ok_def simp del: split_paired_All\<close>)
  moreover have "all_bufs fr q s' = all_bufs fr q s"
  proof -
    have P: "set (pending q s c) = set (pending q s' c) \<union> (if c = ch then {a} else {})" for c by (simp add: s'(2) a)
    have "(\<Union>c. if c = ch then {a} else {}) = {a}" by (rule set_eqI) (simp del: split_paired_Ex add: if_distrib)
    then have "(\<Union>c. set (pending q s c)) = (\<Union>c. set (pending q s' c)) \<union> {a}" unfolding P by (simp only: UN_Un_distrib)
    then show ?thesis by (simp add: all_bufs_def s'(1) Un_assoc)
  qed
  moreover have "msgs q s' = (msgs q s)(ch := map (msg_mem s) rest)" by (auto simp: msgs_def s' fun_eq_iff)
  ultimately show ?thesis by blast
qed

lemma send_results:
  assumes laws: "msg_laws ops fr q" and ok: "msg_ok fr q W s" and core: "core \<in> W" and len: "len \<le> length msg"
  shows "\<exists>r s'. flowQoS_send_msg ops msg len core dir s = Some (r, s') \<and> msg_ok fr q W s' \<and> msg_world s' = msg_world s \<and> all_bufs fr q s' = all_bufs fr q s \<and>
     ((r = 0 \<and> msgs q s' = msgs q s) \<or>
      (r = 1 \<and> (\<exists>m. prefix (take len msg) m \<and> msgs q s' = (msgs q s)((core, dir) := msgs q s (core, dir) @ [m]))))"
proof (cases "MESSAGE_MAX_SIZE < len")
  case False
  obtain p where p: "FlowQoS_MESSAGE_POOL s = Some p" using msg_ok_fields(1) [OF ok] by blast
  have fp: "free_bufs fr s = fr p" by (simp add: free_bufs_def p)
  obtain x p' where g: "mp_get ops p = (x, p')" by fastforce
  show ?thesis
  proof (cases x)
    case None
    let ?s = "s\<lparr>FlowQoS_MESSAGE_POOL := Some p'\<rparr>"
    have f: "free_bufs fr ?s = free_bufs fr s" "pending q ?s = pending q s"
      using mp_getD [OF laws g] None by (auto simp: free_bufs_def p intro: pending_cong)
    have "msg_ok fr q W ?s" using ok by (simp add: msg_ok_def f)
    then show ?thesis using False p g None f by (auto simp: flowQoS_send_msg_def flowQoS_make_msg_def msgs_def all_bufs_def fun_eq_iff)
  next
    case (Some a)
    have a: "a \<in> fr p" "fr p' = fr p - {a}" using mp_getD [OF laws g] Some by auto
    let ?m = "take len msg @ drop len (msg_mem s a)"
    let ?s = "s\<lparr>FlowQoS_MESSAGE_POOL := Some p', msg_mem := (msg_mem s)(a := ?m)\<rparr>"
    have lm: "length ?m = MESSAGE_MAX_SIZE" using len False msg_ok_fields(3) [OF ok, of a] by simp
    obtain r where r: "sock_ring core dir s = Some r" using msg_ok_fields(2) [OF ok core] by blast
    then have r1: "sock_ring core dir ?s = Some r" by simp
    note less = sock_ring_less [OF r]
    obtain ret r' where e: "rg_enqueue ops a r = (ret, r')" by fastforce
    have qr: "q r = pending q s (core, dir)" by (simp add: pending_def r)
    let ?s2 = "set_ring core dir (Some r') ?s"
    have keep: "sock_ring c d ?s2 \<noteq> None" if "sock_ring c d s \<noteq> None" for c d
      using that by (simp add: sock_ring_set)
    have pend: "pending q ?s2 = (pending q s)((core, dir) := q r')"
      using pending_set [OF less, of q dir r' ?s] pending_cong [of ?s s q] by simp
    have run: "flowQoS_send_msg ops msg len core dir s = Some (if ret \<noteq> 0 then (0, flowQoS_free_msg ops a ?s2) else (1, ?s2))"
      using False p g Some len r1 e by (simp add: flowQoS_send_msg_def flowQoS_make_msg_def Let_def)
    show ?thesis
    proof (cases "ret = 0")
      case True
      have "msg_ok fr q W ?s2 \<and> msgs q ?s2 = (msgs q s)((core, dir) := msgs q s (core, dir) @ [?m]) \<and> all_bufs fr q ?s2 = all_bufs fr q s"
        by (rule msg_ok_take [OF ok _ _ _ _ lm])
          (use a pend rg_enqueueD [OF laws e] True qr keep in \<open>simp_all add: free_bufs_def p\<close>)
      then show ?thesis using run True by (auto simp: prefix_def)
    next
      case nz: False
      let ?s3 = "flowQoS_free_msg ops a ?s2"
      have pend3: "pending q ?s3 = pending q s" using pend rg_enqueueD [OF laws e] nz qr pending_cong [of ?s3 ?s2 q] by simp
      have f3: "free_bufs fr ?s3 = free_bufs fr s" using a mp_putD [OF laws] by (auto simp: free_bufs_def p flowQoS_free_msg_def)
      have n: "a \<notin> set (pending q s c)" for c using msg_ok_fields(4) [OF ok] a(1) fp by blast
      have "map (msg_mem ?s3) (pending q s c) = map (msg_mem s) (pending q s c)" for c using n [of c] by simp
      then have "msgs q ?s3 = msgs q s" by (simp add: msgs_def pend3 fun_eq_iff)
      moreover have "msg_ok fr q W ?s3" using ok keep lm unfolding msg_ok_def pend3 f3
        by (auto simp: flowQoS_free_msg_def simp del: split_paired_All)
      ultimately show ?thesis using run nz f3 pend3 by (simp add: all_bufs_def)
    qed
  qed
qed (use ok in \<open>simp add: flowQoS_send_msg_def flowQoS_make_msg_def\<close>)

text \<open>The bytes that a receiver of \<open>len\<close> bytes gets.\<close>

definition clip :: "nat \<Rightarrow> nat" where
  "clip len = min len MESSAGE_MAX_SIZE"

lemma recv_results:
  assumes laws: "msg_laws ops fr q" and ok: "msg_ok fr q W s" and core: "core \<in> W"
  shows "\<exists>s'. msg_ok fr q W s' \<and> msg_world s' = msg_world s \<and> all_bufs fr q s' = all_bufs fr q s \<and>
     ((msgs q s (core, dir) = [] \<and> flowQoS_recv_msg ops off (Some b) len core dir s = Some (0, Some b, s') \<and> msgs q s' = msgs q s) \<or>
      (\<exists>m ms. msgs q s (core, dir) = m # ms \<and> length m = MESSAGE_MAX_SIZE \<and> msgs q s' = (msgs q s)((core, dir) := ms) \<and> free_bufs fr s' \<noteq> {} \<and>
         flowQoS_recv_msg ops off (Some b) len core dir s =
           (if off + clip len \<le> length b then Some (1, Some (take off b @ take (clip len) m @ drop (off + clip len) b), s') else None)))"
proof -
  obtain r where r: "sock_ring core dir s = Some r" using msg_ok_fields(2) [OF ok core] by blast
  note less = sock_ring_less [OF r]
  obtain p where p: "FlowQoS_MESSAGE_POOL s = Some p" using msg_ok_fields(1) [OF ok] by blast
  obtain x r' where d: "rg_dequeue ops r = (x, r')" by fastforce
  let ?s1 = "set_ring core dir (Some r') s"
  have qr: "q r = pending q s (core, dir)" by (simp add: pending_def r)
  have keep: "sock_ring c e ?s1 \<noteq> None" if "sock_ring c e s \<noteq> None" for c e using that by (simp add: sock_ring_set)
  have pend: "pending q ?s1 = (pending q s)((core, dir) := q r')" by (rule pending_set [OF less])
  show ?thesis
  proof (cases x)
    case None
    have e: "pending q s (core, dir) = []" "q r' = []" using rg_dequeueD [OF laws d] None qr by auto
    then have same: "pending q ?s1 = pending q s" using pend by auto
    have "msg_ok fr q W ?s1" using ok keep by (simp add: msg_ok_def same free_bufs_def)
    moreover have "msgs q ?s1 = msgs q s" "all_bufs fr q ?s1 = all_bufs fr q s" by (simp_all add: msgs_def all_bufs_def same free_bufs_def fun_eq_iff)
    moreover have "msgs q s (core, dir) = []" by (simp add: msgs_def e)
    ultimately show ?thesis using r d None by (intro exI [of _ ?s1]) (simp add: flowQoS_recv_msg_def)
  next
    case (Some a)
    have e: "pending q s (core, dir) = a # q r'" using rg_dequeueD [OF laws d] Some qr by auto
    let ?s2 = "flowQoS_free_msg ops a ?s1"
    have "msg_ok fr q W ?s2 \<and> msgs q ?s2 = (msgs q s)((core, dir) := map (msg_mem s) (q r')) \<and> all_bufs fr q ?s2 = all_bufs fr q s"
    proof (rule msg_ok_give [OF ok e])
      show "free_bufs fr ?s2 = insert a (free_bufs fr s)" using mp_putD [OF laws] by (simp add: free_bufs_def p flowQoS_free_msg_def)
      show "pending q ?s2 = (pending q s)((core, dir) := q r')" using pend pending_cong [of ?s2 ?s1 q] by simp
      show "sock_ring c f ?s2 \<noteq> None" if "sock_ring c f s \<noteq> None" for c f using keep [OF that] by simp
    qed (simp_all add: flowQoS_free_msg_def p)
    moreover have "free_bufs fr ?s2 \<noteq> {}" using mp_putD [OF laws] by (simp add: free_bufs_def p flowQoS_free_msg_def)
    moreover have "(if MESSAGE_MAX_SIZE < len then MESSAGE_MAX_SIZE else len) = clip len" by (simp add: clip_def)
    moreover have "length (take (clip len) (msg_mem s a)) = clip len" using msg_ok_fields(3) [OF ok] by (simp add: clip_def)
    ultimately show ?thesis using r d Some e msg_ok_fields(3) [OF ok, of a]
      by (intro exI [of _ ?s2]) (simp add: flowQoS_recv_msg_def copy_at_def msgs_def)
  qed
qed

section \<open>First in, first out\<close>

datatype msg_event = Sent nat bool "u8 list" | Got nat bool "u8 list"

fun sent_on :: "channel \<Rightarrow> msg_event list \<Rightarrow> u8 list list" where
  "sent_on ch [] = []"
| "sent_on ch (Sent c d bs # es) = (if (c, d) = ch then bs # sent_on ch es else sent_on ch es)"
| "sent_on ch (Got c d bs # es) = sent_on ch es"

fun got_on :: "channel \<Rightarrow> msg_event list \<Rightarrow> u8 list list" where
  "got_on ch [] = []"
| "got_on ch (Got c d bs # es) = (if (c, d) = ch then bs # got_on ch es else got_on ch es)"
| "got_on ch (Sent c d bs # es) = got_on ch es"

lemma sent_on_append [simp]: "sent_on ch (es @ fs) = sent_on ch es @ sent_on ch fs"
  by (induction ch es rule: sent_on.induct) auto

lemma got_on_append [simp]: "got_on ch (es @ fs) = got_on ch es @ got_on ch fs"
  by (induction ch es rule: got_on.induct) auto

text \<open>
  Runs: the cores send, receive and compute in any order. A message of \<open>len\<close> bytes of \<open>msg\<close> is sent, \<open>len\<close> bytes
  are received at the start of a buffer \<open>b\<close> that has room for them.
\<close>

inductive msg_run :: "('p, 'r) msg_ops \<Rightarrow> nat set \<Rightarrow> ('p, 'r, 'w) msg_state \<Rightarrow> msg_event list \<Rightarrow> ('p, 'r, 'w) msg_state \<Rightarrow> bool"
  for ops W s0 where
  start: "msg_run ops W s0 [] s0"
| send: "msg_run ops W s0 es s \<Longrightarrow> core \<in> W \<Longrightarrow> len \<le> length msg \<Longrightarrow> flowQoS_send_msg ops msg len core dir s = Some (r, s') \<Longrightarrow>
     msg_run ops W s0 (es @ (if r = 1 then [Sent core dir (take len msg)] else [])) s'"
| recv: "msg_run ops W s0 es s \<Longrightarrow> core \<in> W \<Longrightarrow> clip len \<le> length b \<Longrightarrow> flowQoS_recv_msg ops 0 (Some b) len core dir s = Some (r, Some b', s') \<Longrightarrow>
     msg_run ops W s0 (es @ (if r = 1 then [Got core dir (take (clip len) b')] else [])) s'"
| compute: "msg_run ops W s0 es s \<Longrightarrow> msg_run ops W s0 es (s\<lparr>msg_world := w\<rparr>)"

definition fifo :: "('r \<Rightarrow> nat list) \<Rightarrow> msg_event list \<Rightarrow> ('p, 'r, 'w) msg_state \<Rightarrow> channel \<Rightarrow> bool" where
  "fifo q es s ch \<longleftrightarrow> (\<exists>delivered. list_all2 prefix (sent_on ch es) (delivered @ msgs q s ch) \<and> list_all2 prefix (got_on ch es) delivered)"

lemma fifo_send:
  assumes "fifo q es s ch" and "prefix bs m" and "msgs q s' = (msgs q s)((c, d) := msgs q s (c, d) @ [m])"
  shows "fifo q (es @ [Sent c d bs]) s' ch"
proof -
  obtain g where g: "list_all2 prefix (sent_on ch es) (g @ msgs q s ch)" "list_all2 prefix (got_on ch es) g" using assms(1) by (auto simp: fifo_def)
  have "list_all2 prefix (sent_on ch es @ [bs]) ((g @ msgs q s ch) @ [m])" using g(1) assms(2) by (intro list_all2_appendI) simp_all
  then show ?thesis using g assms(3) unfolding fifo_def by (intro exI [of _ g]) auto
qed

lemma fifo_recv:
  assumes "fifo q es s ch" and "msgs q s (c, d) = m # ms" and "prefix bs m" and "msgs q s' = (msgs q s)((c, d) := ms)"
  shows "fifo q (es @ [Got c d bs]) s' ch"
proof -
  obtain g where g: "list_all2 prefix (sent_on ch es) (g @ msgs q s ch)" "list_all2 prefix (got_on ch es) g" using assms(1) by (auto simp: fifo_def)
  have "list_all2 prefix (got_on ch es @ [bs]) (g @ [m])" using g(2) assms(3) by (intro list_all2_appendI) simp_all
  then show ?thesis using g assms(2,4) unfolding fifo_def
    by (intro exI [of _ "if (c, d) = ch then g @ [m] else g"]) auto
qed

lemma fifo_same: "msgs q s' = msgs q s \<Longrightarrow> fifo q es s ch \<Longrightarrow> fifo q es s' ch"
  by (simp add: fifo_def)

lemma world_fields [simp]:
  "pending q (s\<lparr>msg_world := w\<rparr>) = pending q s" "msgs q (s\<lparr>msg_world := w\<rparr>) = msgs q s" "free_bufs fr (s\<lparr>msg_world := w\<rparr>) = free_bufs fr s"
  "all_bufs fr q (s\<lparr>msg_world := w\<rparr>) = all_bufs fr q s" "msg_ok fr q W (s\<lparr>msg_world := w\<rparr>) = msg_ok fr q W s"
  by (simp_all add: msgs_def fun_eq_iff all_bufs_def free_bufs_def msg_ok_def pending_def)

lemma msg_run_fifo:
  assumes laws: "msg_laws ops fr q" and ok: "msg_ok fr q W s0" and "msgs q s0 = (\<lambda>_. [])" and "msg_run ops W s0 es s"
  shows "msg_ok fr q W s \<and> all_bufs fr q s = all_bufs fr q s0 \<and> (\<forall>ch. fifo q es s ch)"
  using assms(4)
proof (induction rule: msg_run.induct)
  case start
  then show ?case using ok assms(3) by (simp add: fifo_def)
next
  case (send es s core len msg dir r s')
  then have IH: "msg_ok fr q W s" "all_bufs fr q s = all_bufs fr q s0" "\<And>ch. fifo q es s ch" by auto
  from send_results [OF laws IH(1) send(2,3), of dir] send(4) consider
      (no) "r = 0" "msgs q s' = msgs q s" "msg_ok fr q W s'" "all_bufs fr q s' = all_bufs fr q s"
    | (yes) m where "r = 1" "prefix (take len msg) m" "msgs q s' = (msgs q s)((core, dir) := msgs q s (core, dir) @ [m])" "msg_ok fr q W s'"
        "all_bufs fr q s' = all_bufs fr q s" by auto
  then show ?case
  proof cases
    case no
    then show ?thesis using fifo_same [OF no(2) IH(3)] IH(2) by simp
  next
    case yes
    then show ?thesis using fifo_send [OF IH(3) yes(2,3)] IH(2) by simp
  qed
next
  case (recv es s core len b dir r b' s')
  then have IH: "msg_ok fr q W s" "all_bufs fr q s = all_bufs fr q s0" "\<And>ch. fifo q es s ch" by auto
  from recv_results [OF laws IH(1) recv(2), of dir 0 b len] recv(3,4) consider
      (no) "r = 0" "msgs q s' = msgs q s" "msg_ok fr q W s'" "all_bufs fr q s' = all_bufs fr q s"
    | (yes) m ms where "r = 1" "msgs q s (core, dir) = m # ms" "length m = MESSAGE_MAX_SIZE" "msgs q s' = (msgs q s)((core, dir) := ms)" "msg_ok fr q W s'"
        "all_bufs fr q s' = all_bufs fr q s" "b' = take (clip len) m @ drop (clip len) b" by auto
  then show ?case
  proof cases
    case no
    then show ?thesis using fifo_same [OF no(2) IH(3)] IH(2) by simp
  next
    case yes
    have "take (clip len) b' = take (clip len) m" using yes(3,7) by (simp add: clip_def)
    then have "prefix (take (clip len) b') m" by (simp add: take_is_prefix)
    then show ?thesis using fifo_recv [OF IH(3) yes(2) _ yes(4)] yes(1,5,6) IH(2) by simp
  qed
next
  case (compute es s w)
  then show ?case by (simp add: fifo_def)
qed

section \<open>Running a function on the workers\<close>

text \<open>A pool that refuses only when it is empty and rings that accept at least one message.\<close>

definition msg_prompt :: "('p, 'r) msg_ops \<Rightarrow> ('p \<Rightarrow> nat set) \<Rightarrow> ('r \<Rightarrow> nat list) \<Rightarrow> bool" where
  "msg_prompt ops fr q \<longleftrightarrow> (\<forall>p. fst (mp_get ops p) = None \<longrightarrow> fr p = {}) \<and> (\<forall>a r. q r = [] \<longrightarrow> fst (rg_enqueue ops a r) = 0)"

lemma send_prompt:
  assumes laws: "msg_laws ops fr q" and prompt: "msg_prompt ops fr q" and ok: "msg_ok fr q W s" and core: "core \<in> W"
    and len: "len \<le> length msg" "len \<le> MESSAGE_MAX_SIZE" and free: "free_bufs fr s \<noteq> {}" and empty: "msgs q s (core, dir) = []"
  shows "\<exists>s' a m. flowQoS_send_msg ops msg len core dir s = Some (1, s') \<and> msg_ok fr q W s' \<and> msg_world s' = msg_world s \<and>
     prefix (take len msg) m \<and> msgs q s' = (msgs q s)((core, dir) := [m]) \<and> free_bufs fr s' = free_bufs fr s - {a}"
proof -
  obtain p where p: "FlowQoS_MESSAGE_POOL s = Some p" using msg_ok_fields(1) [OF ok] by blast
  obtain x p' where g: "mp_get ops p = (x, p')" by fastforce
  have "x \<noteq> None" using prompt free g by (auto simp: msg_prompt_def free_bufs_def p dest!: spec [of _ p])
  then obtain a where a: "x = Some a" "fr p' = fr p - {a}" using mp_getD [OF laws g] by auto
  obtain r where r: "sock_ring core dir s = Some r" using msg_ok_fields(2) [OF ok core] by blast
  obtain ret r' where e: "rg_enqueue ops a r = (ret, r')" by fastforce
  have "q r = []" using empty by (simp add: msgs_def pending_def r)
  then have "ret = 0" using prompt e unfolding msg_prompt_def by (metis fst_conv)
  then have run: "\<exists>s'. flowQoS_send_msg ops msg len core dir s = Some (1, s') \<and> FlowQoS_MESSAGE_POOL s' = Some p'"
    using p g a(1) r e len by (auto simp: flowQoS_send_msg_def flowQoS_make_msg_def Let_def)
  then obtain s' where s': "flowQoS_send_msg ops msg len core dir s = Some (1, s')" "free_bufs fr s' = free_bufs fr s - {a}"
    using a(2) by (auto simp: free_bufs_def p)
  then show ?thesis using send_results [OF laws ok core len(1), of dir] empty by auto
qed

lemma send_all_prompt:
  assumes laws: "msg_laws ops fr q" and prompt: "msg_prompt ops fr q" and len: "len \<le> length msg" "len \<le> MESSAGE_MAX_SIZE"
    and "msg_ok fr q W s" and "distinct ids" and "set ids \<subseteq> W" and "\<forall>c\<in>set ids. msgs q s (c, True) = []"
    and "finite (free_bufs fr s)" and "length ids \<le> card (free_bufs fr s)"
  shows "\<exists>s' ms. send_all ops msg len ids res s = Some (res + int (length ids), s') \<and> msg_ok fr q W s' \<and> msg_world s' = msg_world s \<and>
     (\<forall>c. prefix (take len msg) (ms c)) \<and> msgs q s' = (\<lambda>(c, d). if c \<in> set ids \<and> d then [ms c] else msgs q s (c, d))"
  using assms(5-)
proof (induction ids arbitrary: s res)
  case Nil
  show ?case using Nil by (auto intro!: exI [of _ "\<lambda>_. take len msg"])
next
  case (Cons c ids)
  have free: "free_bufs fr s \<noteq> {}" using Cons.prems(6) by auto
  have cW: "c \<in> W" "msgs q s (c, True) = []" using Cons.prems(3,4) by simp_all
  from send_prompt [OF laws prompt Cons.prems(1) cW(1) len free cW(2)] obtain s1 a m where
    s1: "flowQoS_send_msg ops msg len c True s = Some (1, s1)" "msg_ok fr q W s1" "msg_world s1 = msg_world s" "prefix (take len msg) m"
      "msgs q s1 = (msgs q s)((c, True) := [m])" "free_bufs fr s1 = free_bufs fr s - {a}" by blast
  have card: "finite (free_bufs fr s1)" "length ids \<le> card (free_bufs fr s1)"
    using Cons.prems(5,6) by (simp_all add: s1(6) card_Diff_singleton_if) (intro impI, linarith)
  have "\<forall>c'\<in>set ids. msgs q s1 (c', True) = []" using Cons.prems(2,4) s1(5) by auto
  note emp = this
  have ids: "distinct ids" "set ids \<subseteq> W" using Cons.prems(2,3) by simp_all
  from Cons.IH [OF s1(2) ids emp card, of "res + 1"] obtain s2 ms where
    s2: "send_all ops msg len ids (res + 1) s1 = Some (res + 1 + int (length ids), s2)" "msg_ok fr q W s2" "msg_world s2 = msg_world s1"
      "\<forall>c. prefix (take len msg) (ms c)" "msgs q s2 = (\<lambda>(c, d). if c \<in> set ids \<and> d then [ms c] else msgs q s1 (c, d))"
    by blast
  have "msgs q s2 = (\<lambda>(x, d). if x \<in> set (c # ids) \<and> d then [(ms(c := m)) x] else msgs q s (x, d))"
    using s2(5) s1(5) Cons.prems(2) by (auto simp: fun_eq_iff)
  then show ?case using s1 s2 by (intro exI [of _ s2] exI [of _ "ms(c := m)"]) auto
qed

lemma le64_prefix: "fold (\<lambda>i acc. acc OR push_bit (8 * i) (ucast (ucast (drop_bit (8 * i) x) :: u8))) [0..<n] 0 = take_bit (8 * n) (x :: u64)"
proof (induction n)
  case (Suc n)
  have "take_bit (8 * n) x OR push_bit (8 * n) (ucast (ucast (drop_bit (8 * n) x) :: u8)) = take_bit (8 * Suc n) x"
    by (rule bit_word_eqI) (auto simp: bit_simps)
  then show ?case using Suc by simp
qed simp

lemma of_le64_le64: "of_le64 (le64 x) = x"
proof -
  have "of_le64 (le64 x) = fold (\<lambda>i acc. acc OR push_bit (8 * i) (ucast (ucast (drop_bit (8 * i) x) :: u8))) [0..<8] 0"
    unfolding of_le64_def by (rule fold_cong) (auto simp: le64_def)
  then show ?thesis unfolding le64_prefix by (simp add: take_bit_word_eq_self)
qed

lemma length_le64 [simp]: "length (le64 x) = 8"
  by (simp add: le64_def)

lemma task_roundtrip: "bytes_task (take 16 (task_bytes t @ junk)) = t"
  by (simp add: bytes_task_def task_bytes_def of_le64_le64)

lemma slave_runs_task:
  assumes laws: "msg_laws ops fr q" and prompt: "msg_prompt ops fr q" and ok: "msg_ok fr q W s" and c: "c \<in> W" "c \<noteq> main"
    and junk: "16 \<le> length junk" and task: "msgs q s (c, True) = [m]" "prefix (task_bytes t) m" and idle: "msgs q s (c, False) = []"
  shows "\<exists>s' m'. flowQoS_message_multiThread_do_slave ops run delay junk main workers c s = Some (1, s') \<and> msg_ok fr q W s' \<and>
     msg_world s' = run (task_cb t) (task_args t) c (msg_world s) \<and> prefix reply_bytes m' \<and> msgs q s' = (msgs q s)((c, True) := [], (c, False) := [m'])"
proof -
  have "clip 16 = 16" by (simp add: clip_def flow_consts)
  with recv_results [OF laws ok c(1), of True 0 "take 16 junk" 16] task(1) junk obtain s1 where
    s1: "msg_ok fr q W s1" "msg_world s1 = msg_world s" "msgs q s1 = (msgs q s)((c, True) := [])" "free_bufs fr s1 \<noteq> {}"
      "flowQoS_recv_msg ops 0 (Some (take 16 junk)) 16 c True s = Some (1, Some (take 16 m), s1)" by auto
  obtain m0 where m0: "m = task_bytes t @ m0" using task(2) by (auto simp: prefix_def)
  have t: "bytes_task (take 16 m) = t" unfolding m0 by (rule task_roundtrip)
  let ?s2 = "s1\<lparr>msg_world := run (task_cb t) (task_args t) c (msg_world s1)\<rparr>"
  have "msg_ok fr q W ?s2" "free_bufs fr ?s2 \<noteq> {}" "msgs q ?s2 (c, False) = []" using s1 idle by simp_all
  moreover have "4 \<le> length reply_bytes" "4 \<le> MESSAGE_MAX_SIZE" by (simp_all add: reply_bytes_def flow_consts)
  ultimately obtain s3 m' where s3: "flowQoS_send_msg ops reply_bytes 4 c False ?s2 = Some (1, s3)" "msg_ok fr q W s3" "msg_world s3 = msg_world ?s2"
    "prefix (take 4 reply_bytes) m'" "msgs q s3 = (msgs q ?s2)((c, False) := [m'])"
    using send_prompt [OF laws prompt _ c(1), of ?s2 4 reply_bytes False] by blast
  show ?thesis using s1 s3 c(2) t
    by (intro exI [of _ s3] exI [of _ m'])
      (simp add: flowQoS_message_multiThread_do_slave_def flowQoS_message_multicast_recv_def flowQoS_message_multicast_send_def Let_def reply_bytes_def)
qed

text \<open>One round of the workers, each polling its ring once; the main core waits for such rounds.\<close>

fun slaves_round ::
  "('p, 'r) msg_ops \<Rightarrow> (u64 \<Rightarrow> u64 \<Rightarrow> nat \<Rightarrow> 'w \<Rightarrow> 'w) \<Rightarrow> u8 list \<Rightarrow> nat \<Rightarrow> nat list \<Rightarrow> nat list \<Rightarrow> ('p, 'r, 'w) msg_state \<Rightarrow> ('p, 'r, 'w) msg_state option" where
  "slaves_round ops run junk main workers [] s = Some s"
| "slaves_round ops run junk main workers (c # cs) s =
     (case flowQoS_message_multiThread_do_slave ops run Some junk main workers c s of None \<Rightarrow> None
      | Some (_, s') \<Rightarrow> slaves_round ops run junk main workers cs s')"

lemma slaves_round_runs:
  assumes laws: "msg_laws ops fr q" and prompt: "msg_prompt ops fr q" and junk: "16 \<le> length junk"
    and "msg_ok fr q W s" and "distinct ids" and "set ids \<subseteq> W" and "main \<notin> set ids"
    and "\<forall>c\<in>set ids. (\<exists>m. msgs q s (c, True) = [m] \<and> prefix (task_bytes t) m) \<and> msgs q s (c, False) = []"
  shows "\<exists>s' rs. slaves_round ops run junk main workers ids s = Some s' \<and> msg_ok fr q W s' \<and>
     msg_world s' = fold (run (task_cb t) (task_args t)) ids (msg_world s) \<and>
     (\<forall>c. prefix reply_bytes (rs c)) \<and> msgs q s' = (\<lambda>(c, d). if c \<in> set ids then (if d then [] else [rs c]) else msgs q s (c, d))"
  using assms(4-)
proof (induction ids arbitrary: s)
  case Nil
  show ?case using Nil(1) by (auto intro!: exI [of _ "\<lambda>_. reply_bytes"])
next
  case (Cons c ids)
  obtain m where m: "msgs q s (c, True) = [m]" "prefix (task_bytes t) m" "msgs q s (c, False) = []" using Cons.prems(5) by auto
  have c: "c \<in> W" "c \<noteq> main" using Cons.prems(3,4) by auto
  from slave_runs_task [OF laws prompt Cons.prems(1) c junk m] obtain s1 m' where
    s1: "flowQoS_message_multiThread_do_slave ops run Some junk main workers c s = Some (1, s1)" "msg_ok fr q W s1"
      "msg_world s1 = run (task_cb t) (task_args t) c (msg_world s)" "prefix reply_bytes m'" "msgs q s1 = (msgs q s)((c, True) := [], (c, False) := [m'])"
    by blast
  have ids: "distinct ids" "set ids \<subseteq> W" "main \<notin> set ids" "c \<notin> set ids" using Cons.prems(2-4) by simp_all
  have "\<forall>c\<in>set ids. (\<exists>m. msgs q s1 (c, True) = [m] \<and> prefix (task_bytes t) m) \<and> msgs q s1 (c, False) = []"
  proof
    fix x assume x: "x \<in> set ids"
    then have "x \<noteq> c" using ids(4) by blast
    then show "(\<exists>m. msgs q s1 (x, True) = [m] \<and> prefix (task_bytes t) m) \<and> msgs q s1 (x, False) = []" using Cons.prems(5) x by (simp add: s1(5))
  qed
  from Cons.IH [OF s1(2) ids(1-3) this] obtain s2 rs where
    s2: "slaves_round ops run junk main workers ids s1 = Some s2" "msg_ok fr q W s2" "msg_world s2 = fold (run (task_cb t) (task_args t)) ids (msg_world s1)"
      "\<forall>c. prefix reply_bytes (rs c)" "msgs q s2 = (\<lambda>(c, d). if c \<in> set ids then (if d then [] else [rs c]) else msgs q s1 (c, d))" by blast
  have "msgs q s2 = (\<lambda>(x, d). if x \<in> set (c # ids) then (if d then [] else [(rs(c := m')) x]) else msgs q s (x, d))"
    using s2(5) s1(5) ids(4) by (auto simp: fun_eq_iff)
  then show ?case using s1 s2 by (intro exI [of _ s2] exI [of _ "rs(c := m')"]) simp
qed

section \<open>Properties\<close>

text \<open>
  C7: The rings with their buffers are first-in first-out channels. In every run of cores that send and
  receive messages in any order, what has been received on a channel, and then what it still holds, are the
  messages sent on it, in the order of sending: nothing is lost, duplicated, reordered or seen on another
  channel, and what a receiver got agrees with what was sent as far as both lengths reach. No buffer is
  ever lost: a buffer is free or waits in exactly one channel.
\<close>

theorem message_channels_fifo:
  assumes laws: "msg_laws ops fr q" and ok: "msg_ok fr q W s0" and empty: "msgs q s0 = (\<lambda>_. [])" and run: "msg_run ops W s0 es s"
  shows "(\<exists>delivered. list_all2 prefix (sent_on ch es) (delivered @ msgs q s ch) \<and> list_all2 prefix (got_on ch es) delivered) \<and>
     free_bufs fr s \<union> (\<Union>ch. set (pending q s ch)) = free_bufs fr s0 \<union> (\<Union>ch. set (pending q s0 ch)) \<and>
     (\<forall>ch. distinct (pending q s ch) \<and> set (pending q s ch) \<inter> free_bufs fr s = {}) \<and>
     (\<forall>ch ch'. ch \<noteq> ch' \<longrightarrow> set (pending q s ch) \<inter> set (pending q s ch') = {})"
proof -
  have R: "msg_ok fr q W s" "all_bufs fr q s = all_bufs fr q s0" "fifo q es s ch" using msg_run_fifo [OF laws ok empty run] by blast+
  show ?thesis using R(1) R(2) R(3) unfolding fifo_def all_bufs_def msg_ok_def by blast
qed

text \<open>A pool of four buffers and rings of seven places.\<close>

definition demo_msg_ops :: "(nat list, nat list) msg_ops" where
  "demo_msg_ops = \<lparr>mp_get = (\<lambda>p. case p of [] \<Rightarrow> (None, []) | a # p \<Rightarrow> (Some a, removeAll a p)), mp_put = (\<lambda>a p. a # p),
     mp_create = (\<lambda>n size. Some [0..<n]), rg_enqueue = (\<lambda>a r. if length r < 7 then (0, r @ [a]) else (-1, r)),
     rg_dequeue = (\<lambda>r. case r of [] \<Rightarrow> (None, []) | a # r \<Rightarrow> (Some a, r)), rg_create = (\<lambda>name n. Some [])\<rparr>"

definition demo_msg :: "(nat list, nat list, nat list) msg_state" where
  "demo_msg = \<lparr>FlowQoS_MESSAGE_POOL = Some [0, 1, 2, 3], msg_mem = (\<lambda>_. replicate 1024 0),
     socks = (\<lambda>_. \<lparr>master_to_slave_ring = Some [], slave_to_master_ring = Some []\<rparr>), msg_world = []\<rparr>"

lemma demo_msg_laws: "msg_laws demo_msg_ops set id" "msg_prompt demo_msg_ops set id"
  by (auto simp: msg_laws_def msg_prompt_def demo_msg_ops_def split: list.splits)

lemma demo_msg_ok: "msg_ok set id {1, 2} demo_msg" "msgs id demo_msg = (\<lambda>_. [])"
  by (auto simp: msg_ok_def demo_msg_def pending_def sock_ring_def flow_consts msgs_def fun_eq_iff)

lemma message_channels_fifo_witness:
  "\<exists>r s. flowQoS_send_msg demo_msg_ops [1, 2, 3] 3 1 True demo_msg = Some (r, s) \<and> msgs id s (2, True) = [] \<and>
     (r = 1 \<longrightarrow> (\<exists>m. msgs id s (1, True) = [m] \<and> prefix [1, 2, 3] m))"
proof -
  obtain r s where run: "flowQoS_send_msg demo_msg_ops [1, 2, 3] 3 1 True demo_msg = Some (r, s)"
    using send_results [OF demo_msg_laws(1) demo_msg_ok(1), of 1 3 "[1, 2, 3]" True] by auto
  have "msg_run demo_msg_ops {1, 2} demo_msg ([] @ (if r = 1 then [Sent 1 True (take 3 [1, 2, 3])] else [])) s"
    by (rule msg_run.send [OF msg_run.start _ _ run]) simp_all
  note F = message_channels_fifo [OF demo_msg_laws(1) demo_msg_ok this]
  from F [of "(2, True)"] have "msgs id s (2, True) = []" by (auto split: if_splits)
  moreover from F [of "(1, True)"] have "\<exists>m. msgs id s (1, True) = [m] \<and> prefix [1, 2, 3] m" if "r = 1"
    using that by (auto simp: list_all2_Cons1)
  ultimately show ?thesis using run by blast
qed

text \<open>
  C28: \<open>flowQoS_message_multiThread_do\<close>, from empty channels and with enough free buffers, while the workers poll
  their rings. With one worker it returns 1 after the function has run exactly once, on that worker and
  with its arguments, and the channels are empty again. With two or more workers it has undefined
  behaviour: the replies after the first are written behind the four bytes of \<open>res\<close>.
\<close>

theorem multiThread_do_results:
  assumes laws: "msg_laws ops fr q" "msg_prompt ops fr q" and ok: "msg_ok fr q (set workers) s" and empty: "msgs q s = (\<lambda>_. [])"
    and workers: "distinct workers" "main \<notin> set workers" and free: "finite (free_bufs fr s)" "length workers \<le> card (free_bufs fr s)"
    and junk: "16 \<le> length junk"
  shows "(\<forall>w. workers = [w] \<longrightarrow> (\<exists>s'. flowQoS_message_multiThread_do ops (slaves_round ops run junk main workers workers) main workers main cb args s = Some (1, s') \<and>
            msg_world s' = run cb args w (msg_world s) \<and> msgs q s' = (\<lambda>_. []))) \<and>
         (2 \<le> length workers \<longrightarrow> flowQoS_message_multiThread_do ops (slaves_round ops run junk main workers workers) main workers main cb args s = None)"
proof (cases workers)
  case (Cons w ws)
  let ?t = "\<lparr>task_cb = cb, task_args = args\<rparr>" and ?delay = "slaves_round ops run junk main workers workers" and ?W = "set workers"
  have len: "16 \<le> length (task_bytes ?t)" "16 \<le> MESSAGE_MAX_SIZE" "take 16 (task_bytes ?t) = task_bytes ?t" by (simp_all add: task_bytes_def flow_consts)
  have c4: "clip 4 = 4" by (simp add: clip_def flow_consts)
  have "\<forall>c\<in>?W. msgs q s (c, True) = []" by (simp add: empty)
  from send_all_prompt [OF laws len(1,2) ok workers(1) subset_refl this free, of 0] obtain s1 ms where
    s1: "send_all ops (task_bytes ?t) 16 workers 0 s = Some (int (length workers), s1)" "msg_ok fr q ?W s1" "msg_world s1 = msg_world s"
      "\<forall>c. prefix (task_bytes ?t) (ms c)" "msgs q s1 = (\<lambda>(c, d). if c \<in> ?W \<and> d then [ms c] else msgs q s (c, d))" unfolding len(3) add_0 by blast
  have s1': "msgs q s1 = (\<lambda>(c, d). if c \<in> ?W \<and> d then [ms c] else [])" using s1(5) by (auto simp: empty fun_eq_iff)
  have w: "w \<in> ?W" "msgs q s1 (w, False) = []" by (simp_all add: Cons s1')
  from recv_results [OF laws(1) s1(2) w(1), of False 0 "[0, 0, 0, 0]" 4] w(2) obtain s2 where
    s2: "msg_ok fr q ?W s2" "msg_world s2 = msg_world s1" "flowQoS_recv_msg ops 0 (Some [0, 0, 0, 0]) 4 w False s1 = Some (0, Some [0, 0, 0, 0], s2)" "msgs q s2 = msgs q s1"
    by auto
  have "\<forall>c\<in>?W. (\<exists>m. msgs q s2 (c, True) = [m] \<and> prefix (task_bytes ?t) m) \<and> msgs q s2 (c, False) = []" using s1(4) by (simp add: s2(4) s1')
  from slaves_round_runs [OF laws junk s2(1) workers(1) subset_refl workers(2) this, of run workers] obtain s3 rs where
    s3: "?delay s2 = Some s3" "msg_ok fr q ?W s3" "msg_world s3 = fold (run cb args) workers (msg_world s2)"
      "msgs q s3 = (\<lambda>(c, d). if c \<in> ?W then (if d then [] else [rs c]) else msgs q s2 (c, d))" by auto
  have "msgs q s3 (w, False) = [rs w]" by (simp add: s3(4) w(1))
  with recv_results [OF laws(1) s3(2) w(1), of False 0 "[0, 0, 0, 0]" 4] obtain s4 where
    s4: "msg_ok fr q ?W s4" "msg_world s4 = msg_world s3" "msgs q s4 = (msgs q s3)((w, False) := [])"
      "flowQoS_recv_msg ops 0 (Some [0, 0, 0, 0]) 4 w False s3 = Some (1, Some (take 4 (rs w)), s4)" "length (rs w) = MESSAGE_MAX_SIZE" by (auto simp: c4)
  define b where "b = take 4 (rs w)"
  have lb: "length b = 4" using s4(5) by (simp add: b_def flow_consts)
  have wait: "recv_wait ops ?delay 300 0 4 w (Some [0, 0, 0, 0]) s1 = Some (1, Some b, s4)"
    using s2(3) s3(1) s4(4) by (simp add: eval_nat_numeral b_def)
  have run: "flowQoS_message_multiThread_do ops ?delay main workers main cb args s =
      (case recv_all ops ?delay ws 4 4 1 (Some b) s4 of None \<Rightarrow> None
       | Some (ret, _, s2) \<Rightarrow> Some (if ret = int (length workers) then 1 else 0, s2))"
    using s1(1) wait unfolding flowQoS_message_multiThread_do_def flowQoS_message_multicast_send_def flowQoS_message_multicast_recv_def
    by (simp add: Cons)
  show ?thesis
  proof (cases ws)
    case Nil
    then have "msgs q s4 = (\<lambda>_. [])" by (auto simp: s4(3) s3(4) s2(4) s1' Cons fun_eq_iff)
    then show ?thesis using run Nil Cons s4(2) s3(3) s2(2) s1(3) by simp
  next
    case (Cons w2 ws')
    have w2: "w2 \<in> ?W" "w2 \<noteq> w" using workers(1) \<open>workers = w # ws\<close> Cons by auto
    have "msgs q s4 (w2, False) = [rs w2]" using w2 by (simp add: s4(3) s3(4))
    from recv_results [OF laws(1) s4(1) w2(1), of False 4 b 4] this have "flowQoS_recv_msg ops 4 (Some b) 4 w2 False s4 = None" by (auto simp: c4 lb)
    then have "recv_wait ops ?delay 300 4 4 w2 (Some b) s4 = None" by (simp add: eval_nat_numeral)
    then show ?thesis using run Cons \<open>workers = w # ws\<close> by simp
  qed
qed simp

lemma multiThread_do_results_witness:
  "\<exists>s'. flowQoS_message_multiThread_do demo_msg_ops (slaves_round demo_msg_ops (\<lambda>cb args c w. (c + unat args) # w) (replicate 16 0) 0 [1] [1]) 0 [1] 0 7 40 demo_msg
      = Some (1, s') \<and> msg_world s' = [41]"
proof -
  have ok: "msg_ok set id (set [1]) demo_msg" using demo_msg_ok(1) by (simp add: msg_ok_def)
  have h: "distinct [1 :: nat]" "(0 :: nat) \<notin> set [1]" "finite (free_bufs set demo_msg)" "length [1 :: nat] \<le> card (free_bufs set demo_msg)"
    "16 \<le> length (replicate 16 (0 :: u8))" by (simp_all add: free_bufs_def demo_msg_def)
  show ?thesis using multiThread_do_results [OF demo_msg_laws ok demo_msg_ok(2) h, of "\<lambda>cb args c w. (c + unat args) # w" 7 40]
    by (auto simp: demo_msg_def)
qed

end
