(* ===== verification/Firewall.thy ===== *)
theory Firewall
  imports Pipe_Entry
begin

text \<open>
  The firewall (\<open>src/apps/flowQoS_firewall.c\<close>): a list of dropping rules, each with its entry in one of the
  four drop pipes, and the commands that add, show and delete rules.
\<close>

section \<open>Data\<close>

definition PORT_TO_HOST :: nat where [flow_consts]: "PORT_TO_HOST = 1"
definition PORT_TO_NET :: nat where [flow_consts]: "PORT_TO_NET = 0"

text \<open>
  \<open>MAX_RULES\<close> is \<open>1 << 10\<close> without parentheses, so that \<open>MAX_RULES * 2\<close> is \<open>1 << (10 * 2)\<close>.
\<close>

definition MAX_RULES_times_2 :: int where [flow_consts]: "MAX_RULES_times_2 = 2 ^ (10 * 2)"

datatype traffic_direction = INPUT | OUTPUT

record firewall_rule =
  rl_direction :: traffic_direction
  rl_proto :: u8
  rl_sip :: u32
  rl_sport :: u16
  rl_entry :: FlowQoS_ENTRY

record flowQoS_firewall_attr =
  tcp_drop_pipe :: "nat \<Rightarrow> nat"
  udp_drop_pipe :: "nat \<Rightarrow> nat"
  hairpin_pipe :: "nat \<Rightarrow> nat"
  fw_bucket :: "firewall_rule list"

definition fw_attr_init :: flowQoS_firewall_attr where
  "fw_attr_init = \<lparr>tcp_drop_pipe = (\<lambda>_. 0), udp_drop_pipe = (\<lambda>_. 0), hairpin_pipe = (\<lambda>_. 0), fw_bucket = []\<rparr>"

section \<open>Rules\<close>

definition drop_pipe :: "flowQoS_firewall_attr \<Rightarrow> traffic_direction \<Rightarrow> u8 \<Rightarrow> nat" where
  "drop_pipe at direction proto =
     (if direction = INPUT
      then (if proto = 6 then tcp_drop_pipe at PORT_TO_HOST else udp_drop_pipe at PORT_TO_HOST)
      else (if proto = 6 then tcp_drop_pipe at PORT_TO_NET else udp_drop_pipe at PORT_TO_NET))"

text \<open>\<open>allocated\<close> tells whether \<open>malloc\<close> returned memory for the rule; its entry is at address 1.\<close>

definition flowQoS_firewall_add_rule ::
  "'d doca_ops \<Rightarrow> (nat \<rightharpoonup> FlowQoS_PIPE) \<Rightarrow> bool \<Rightarrow> traffic_direction \<Rightarrow> u8 \<Rightarrow> u32 \<Rightarrow> u16 \<Rightarrow> flowQoS_firewall_attr \<times> 'd
     \<Rightarrow> (int \<times> flowQoS_firewall_attr \<times> 'd) option" where
  "flowQoS_firewall_add_rule ops pipes allocated direction proto sip sport st =
     (case st of (at, d) \<Rightarrow>
        if \<not> allocated then Some (0, at, d)
        else
          let en = zero_entry\<lparr>e_match := zero_match\<lparr>m_src_ip := sip, m_src_port := sport\<rparr>\<rparr> in
          case flowQoS_add_entry ops pipes (drop_pipe at direction proto) 1 0 1 (\<lambda>_. en, d) of None \<Rightarrow> None
          | Some (ret, es, d') \<Rightarrow>
              if ret \<noteq> 0
              then map_option
                     (\<lambda>_. (ret, at\<lparr>fw_bucket := \<lparr>rl_direction = direction, rl_proto = proto, rl_sip = sip, rl_sport = sport, rl_entry = es 1\<rparr> # fw_bucket at\<rparr>, d'))
                     (Option.bind (dumpFlowQoSEntry pipes (es 1)) printFlowQoSEntry)
              else Some (ret, at, d'))"

text \<open>The line of a rule: its index, direction and protocol, and the items of its source address and port.\<close>

definition rule_line :: "(nat \<rightharpoonup> FlowQoS_PIPE) \<Rightarrow> int \<Rightarrow> firewall_rule \<Rightarrow> (int \<times> string \<times> string \<times> string \<times> string) option" where
  "rule_line pipes idx r =
     map_option (\<lambda>info. (idx, if rl_direction r = INPUT then ''INPUT'' else ''OUTPUT'', if rl_proto r = 6 then ''TCP'' else ''UDP'',
                         get_item 0 (ei_match info), get_item 3 (ei_match info)))
       (dumpFlowQoSEntry pipes (rl_entry r))"

fun rule_lines :: "(nat \<rightharpoonup> FlowQoS_PIPE) \<Rightarrow> int \<Rightarrow> firewall_rule list \<Rightarrow> (int \<times> string \<times> string \<times> string \<times> string) list option" where
  "rule_lines pipes idx [] = Some []"
| "rule_lines pipes idx (r # rs) =
     (case rule_line pipes idx r of None \<Rightarrow> None | Some l \<Rightarrow> map_option ((#) l) (rule_lines pipes (idx + 1) rs))"

definition flowQoS_firewall_print_rules :: "(nat \<rightharpoonup> FlowQoS_PIPE) \<Rightarrow> flowQoS_firewall_attr \<Rightarrow> (int \<times> string \<times> string \<times> string \<times> string) list option" where
  "flowQoS_firewall_print_rules pipes at = rule_lines pipes 0 (fw_bucket at)"

fun del_at :: "'d doca_ops \<Rightarrow> (nat \<rightharpoonup> FlowQoS_PIPE) \<Rightarrow> int \<Rightarrow> int \<Rightarrow> firewall_rule list \<Rightarrow> 'd \<Rightarrow> (firewall_rule list \<times> 'd) option" where
  "del_at ops pipes idx rule_id [] d = Some ([], d)"
| "del_at ops pipes idx rule_id (r # rs) d =
     (if idx = rule_id
      then case rule_line pipes idx r of None \<Rightarrow> None
           | Some _ \<Rightarrow> (case pipe_rm_entry ops 0 (e_entry (rl_entry r)) d of (ret, d') \<Rightarrow> Some (if ret < 0 then r # rs else rs, d'))
      else map_option (\<lambda>(rs', d'). (r # rs', d')) (del_at ops pipes (idx + 1) rule_id rs d))"

definition flowQoS_firewall_del_rule ::
  "'d doca_ops \<Rightarrow> (nat \<rightharpoonup> FlowQoS_PIPE) \<Rightarrow> int \<Rightarrow> flowQoS_firewall_attr \<times> 'd \<Rightarrow> (flowQoS_firewall_attr \<times> 'd) option" where
  "flowQoS_firewall_del_rule ops pipes rule_id st =
     (case st of (at, d) \<Rightarrow> map_option (\<lambda>(rs, d'). (at\<lparr>fw_bucket := rs\<rparr>, d')) (del_at ops pipes 0 rule_id (fw_bucket at) d))"

section \<open>Commands\<close>

text \<open>The arguments as the command line parses them; an address is \<open>None\<close> when it is not an IPv4 address.\<close>

definition add_cmd_parsed ::
  "'d doca_ops \<Rightarrow> (nat \<rightharpoonup> FlowQoS_PIPE) \<Rightarrow> bool \<Rightarrow> string \<Rightarrow> string \<Rightarrow> u32 option \<Rightarrow> u16 \<Rightarrow> flowQoS_firewall_attr \<times> 'd
     \<Rightarrow> (flowQoS_firewall_attr \<times> 'd) option" where
  "add_cmd_parsed ops pipes allocated direction proto sip sport st =
     (case sip of None \<Rightarrow> Some st
      | Some a \<Rightarrow>
          map_option snd (flowQoS_firewall_add_rule ops pipes allocated (if direction = ''INPUT'' then INPUT else OUTPUT)
            (if proto = ''TCP'' then 6 else 17) a (bswap16 sport) st))"

definition del_cmd_parsed ::
  "'d doca_ops \<Rightarrow> (nat \<rightharpoonup> FlowQoS_PIPE) \<Rightarrow> u16 \<Rightarrow> flowQoS_firewall_attr \<times> 'd \<Rightarrow> (flowQoS_firewall_attr \<times> 'd) option" where
  "del_cmd_parsed ops pipes idx st = flowQoS_firewall_del_rule ops pipes (uint idx) st"

definition print_cmd_parsed ::
  "(nat \<rightharpoonup> FlowQoS_PIPE) \<Rightarrow> flowQoS_firewall_attr \<times> 'd \<Rightarrow> (flowQoS_firewall_attr \<times> 'd) option" where
  "print_cmd_parsed pipes st = map_option (\<lambda>_. st) (flowQoS_firewall_print_rules pipes (fst st))"

section \<open>Set-up\<close>

text \<open>
  The part of \<open>main\<close> before the command line: for each port the three pipes and the entry of the hairpin
  pipe, whose result is not looked at. \<open>addr\<close> gives the memory of the pipes; the first component tells whether
  the command line is reached.
\<close>

fun fw_pipes ::
  "'d doca_ops \<Rightarrow> (nat \<Rightarrow> nat) \<Rightarrow> nat \<Rightarrow> (nat \<Rightarrow> nat) \<Rightarrow> nat list \<Rightarrow> flowQoS_firewall_attr \<Rightarrow> (nat \<rightharpoonup> FlowQoS_PIPE) \<times> cmd_state \<times> 'd
     \<Rightarrow> (bool \<times> flowQoS_firewall_attr \<times> (nat \<rightharpoonup> FlowQoS_PIPE) \<times> cmd_state \<times> 'd) option" where
  "fw_pipes ops ports lcores addr [] at st = Some (True, at, st)"
| "fw_pipes ops ports lcores addr (i # is) at st =
     Option.bind (flowQoS_build_pipe ops ports lcores (addr (3 * i)) i ''hairpin_pipe'' 0 0 PORT DROP (\<not> IS_ROOT) 2 st) (\<lambda>(hp, st1).
     let at1 = at\<lparr>hairpin_pipe := (hairpin_pipe at)(i := hp)\<rparr> in
     if hp = 0 then Some (False, at1, st1)
     else
       Option.bind (flowQoS_build_pipe ops ports lcores (addr (3 * i + 1)) i ''tcp_drop_pipe'' (SIP OR TCP OR SPORT) 0 DROP (of_nat hp) IS_ROOT MAX_RULES_times_2 st1) (\<lambda>(tp, st2).
       let at2 = at1\<lparr>tcp_drop_pipe := (tcp_drop_pipe at1)(i := tp)\<rparr> in
       if tp = 0 then Some (False, at2, st2)
       else
         Option.bind (flowQoS_build_pipe ops ports lcores (addr (3 * i + 2)) i ''udp_drop_pipe'' (SIP OR UDP OR SPORT) 0 DROP (of_nat hp) IS_ROOT MAX_RULES_times_2 st2) (\<lambda>(up, st3).
         let at3 = at2\<lparr>udp_drop_pipe := (udp_drop_pipe at2)(i := up)\<rparr> in
         if up = 0 then Some (False, at3, st3)
         else case st3 of (pipes, cs, d) \<Rightarrow>
           Option.bind (flowQoS_add_entry ops pipes hp 1 0 1 (\<lambda>_. zero_entry, d)) (\<lambda>(_, _, d').
           fw_pipes ops ports lcores addr is at3 (pipes, cs, d')))))"

definition fw_main ::
  "'d doca_ops \<Rightarrow> (nat \<Rightarrow> nat) \<Rightarrow> nat \<Rightarrow> (nat \<Rightarrow> nat) \<Rightarrow> (nat \<rightharpoonup> FlowQoS_PIPE) \<times> cmd_state \<times> 'd
     \<Rightarrow> (bool \<times> flowQoS_firewall_attr \<times> (nat \<rightharpoonup> FlowQoS_PIPE) \<times> cmd_state \<times> 'd) option" where
  "fw_main ops ports lcores addr st =
     Option.bind (fw_pipes ops ports lcores addr [0, 1] fw_attr_init st) (\<lambda>(ok, at, pipes, cs, d).
     if \<not> ok then Some (False, at, pipes, cs, d)
     else
       Option.bind (flowQoS_registCmd ''add_cmd_obj'' cs) (\<lambda>(_, cs1).
       Option.bind (flowQoS_registCmd ''print_cmd_obj'' cs1) (\<lambda>(_, cs2).
       map_option (\<lambda>(_, cs3). (True, at\<lparr>fw_bucket := []\<rparr>, pipes, cs3, d)) (flowQoS_registCmd ''del_cmd_obj'' cs2))))"

end
