(* ===== verification/Firewall_Props.thy ===== *)
theory Firewall_Props
  imports Firewall
begin

text \<open>
  The list of rules against the hardware: after any sequence of commands the entries the firewall has in the
  hardware are exactly those of the rules it shows.
\<close>

section \<open>The hardware\<close>

text \<open>
  \<open>hw\<close> gives the entries of the hardware by their handles: the pipe and the match of each. Adding returns a
  fresh handle or 0, processing changes no entry, and a removal that does not fail removes the entry.
\<close>

definition hw_laws :: "'d doca_ops \<Rightarrow> ('d \<Rightarrow> nat \<rightharpoonup> nat \<times> doca_flow_match) \<Rightarrow> bool" where
  "hw_laws ops hw \<longleftrightarrow>
     (\<forall>q dp m a f d. case pipe_add_entry ops q dp m a f d of (h, d') \<Rightarrow>
        if h = 0 then hw d' = hw d else hw d h = None \<and> hw d' = (hw d)(h \<mapsto> (dp, m))) \<and>
     (\<forall>p q n d. hw (snd (entries_process ops p q n d)) = hw d) \<and>
     (\<forall>q h d. case pipe_rm_entry ops q h d of (r, d') \<Rightarrow> hw d' = (if r < 0 then hw d else (hw d)(h := None)))"

lemma hw_addD: "hw_laws ops hw \<Longrightarrow> pipe_add_entry ops q dp m a f d = (h, d') \<Longrightarrow>
    if h = 0 then hw d' = hw d else hw d h = None \<and> hw d' = (hw d)(h \<mapsto> (dp, m))"
  unfolding hw_laws_def by (metis (mono_tags, lifting) case_prodD case_prodI)

lemma hw_processD: "hw_laws ops hw \<Longrightarrow> entries_process ops p q n d = (r, d') \<Longrightarrow> hw d' = hw d"
  unfolding hw_laws_def by (metis snd_conv)

lemma hw_rmD: "hw_laws ops hw \<Longrightarrow> pipe_rm_entry ops q h d = (r, d') \<Longrightarrow> hw d' = (if r < 0 then hw d else (hw d)(h := None))"
  unfolding hw_laws_def by (metis (mono_tags, lifting) case_prodD case_prodI)

abbreviation handle :: "firewall_rule \<Rightarrow> nat" where
  "handle r \<equiv> e_entry (rl_entry r)"

text \<open>The entry that a rule stands for.\<close>

definition rule_entry :: "(nat \<rightharpoonup> FlowQoS_PIPE) \<Rightarrow> flowQoS_firewall_attr \<Rightarrow> firewall_rule \<Rightarrow> nat \<times> doca_flow_match" where
  "rule_entry pipes at r =
     (case pipes (drop_pipe at (rl_direction r) (rl_proto r)) of None \<Rightarrow> (0, zero_doca_match)
      | Some fp \<Rightarrow> (p_doca_pipe fp, hw_match fp (zero_entry\<lparr>e_match := zero_match\<lparr>m_src_ip := rl_sip r, m_src_port := rl_sport r\<rparr>\<rparr>)))"

definition rules_map :: "(nat \<rightharpoonup> FlowQoS_PIPE) \<Rightarrow> flowQoS_firewall_attr \<Rightarrow> firewall_rule list \<Rightarrow> nat \<rightharpoonup> nat \<times> doca_flow_match" where
  "rules_map pipes at rs = map_of (map (\<lambda>r. (handle r, rule_entry pipes at r)) rs)"

text \<open>The four drop pipes exist, and their entries can be printed.\<close>

definition pipes_ok :: "(nat \<rightharpoonup> FlowQoS_PIPE) \<Rightarrow> flowQoS_firewall_attr \<Rightarrow> bool" where
  "pipes_ok pipes at \<longleftrightarrow> (\<forall>dir proto. pipes (drop_pipe at dir proto) \<noteq> None \<and> printable pipes (drop_pipe at dir proto))"

definition fw_inv :: "('d \<Rightarrow> nat \<rightharpoonup> nat \<times> doca_flow_match) \<Rightarrow> (nat \<rightharpoonup> FlowQoS_PIPE) \<Rightarrow> (nat \<rightharpoonup> nat \<times> doca_flow_match) \<Rightarrow> flowQoS_firewall_attr \<times> 'd \<Rightarrow> bool" where
  "fw_inv hw pipes base st \<longleftrightarrow>
     (case st of (at, d) \<Rightarrow>
        distinct (map handle (fw_bucket at)) \<and> (\<forall>r \<in> set (fw_bucket at). base (handle r) = None \<and> printable pipes (e_pipe (rl_entry r))) \<and>
        hw d = base ++ rules_map pipes at (fw_bucket at))"

lemma drop_pipe_bucket [simp]: "drop_pipe (at\<lparr>fw_bucket := rs\<rparr>) = drop_pipe at"
  by (simp add: drop_pipe_def fun_eq_iff)

lemma rules_map_bucket [simp]: "rules_map pipes (at\<lparr>fw_bucket := rs\<rparr>) = rules_map pipes at"
  by (simp add: rules_map_def rule_entry_def fun_eq_iff)

lemma dom_rules_map: "dom (rules_map pipes at rs) = handle ` set rs"
  by (simp add: rules_map_def dom_map_of_conv_image_fst image_image)

lemma printable_line: "printable pipes (e_pipe (rl_entry r)) \<Longrightarrow> rule_line pipes idx r \<noteq> None"
  using printable_prints [of pipes "rl_entry r"] by (auto simp: rule_line_def Option.bind_eq_Some_conv)

section \<open>The commands\<close>

lemma add_rule_inv:
  assumes laws: "hw_laws ops hw" and proc: "\<And>p q n d. fst (entries_process ops p q n d) = n"
    and pipes: "pipes_ok pipes (fst st)" and inv: "fw_inv hw pipes base st"
  shows "\<exists>ret at' d'. flowQoS_firewall_add_rule ops pipes allocated dir proto sip sport st = Some (ret, at', d') \<and>
     drop_pipe at' = drop_pipe (fst st) \<and> fw_inv hw pipes base (at', d')"
proof (cases st)
  case (Pair at d)
  let ?p = "drop_pipe at dir proto" and ?en = "zero_entry\<lparr>e_match := zero_match\<lparr>m_src_ip := sip, m_src_port := sport\<rparr>\<rparr>"
  obtain fp where fp: "pipes ?p = Some fp" and pr: "printable pipes ?p" using pipes Pair by (auto simp: pipes_ok_def)
  obtain h d1 where h: "pipe_add_entry ops 0 (p_doca_pipe fp) (hw_match fp ?en) (hw_meta fp 1 ?en) DOCA_FLOW_NO_WAIT d = (h, d1)" by force
  obtain n d2 where n: "entries_process ops (p_src_doca_port fp) 0 (if h = 0 then 0 else 1) d1 = (n, d2)" by force
  have n1: "n = (if h = 0 then 0 else 1)" using proc n by (metis fst_conv)
  note H = hw_addD [OF laws h] and P = hw_processD [OF laws n]
  have run: "flowQoS_add_entry ops pipes ?p 1 0 1 (\<lambda>_. ?en, d) = Some (if h = 0 then 0 else 1, (\<lambda>_. ?en)(1 := stamped fp ?p h ?en), d2)"
    using add_entry_now [where pipes = pipes, OF fp, of ops 1 0 "\<lambda>_. ?en" d] h n n1 by (simp add: Let_def)
  show ?thesis
  proof (cases "allocated \<and> h \<noteq> 0")
    case True
    let ?r = "\<lparr>rl_direction = dir, rl_proto = proto, rl_sip = sip, rl_sport = sport, rl_entry = stamped fp ?p h ?en\<rparr>"
    obtain out where "Option.bind (dumpFlowQoSEntry pipes (stamped fp ?p h ?en)) printFlowQoSEntry = Some out"
      using printable_prints [of pipes "stamped fp ?p h ?en"] pr by (auto simp: stamped_def)
    then have "flowQoS_firewall_add_rule ops pipes allocated dir proto sip sport st = Some (1, at\<lparr>fw_bucket := ?r # fw_bucket at\<rparr>, d2)"
      using run True by (simp add: flowQoS_firewall_add_rule_def Pair)
    moreover have "fw_inv hw pipes base (at\<lparr>fw_bucket := ?r # fw_bucket at\<rparr>, d2)"
    proof -
      have hr: "handle ?r = h" "e_pipe (rl_entry ?r) = ?p" "rule_entry pipes at ?r = (p_doca_pipe fp, hw_match fp ?en)"
        using fp by (simp_all add: stamped_def rule_entry_def)
      have "(base ++ rules_map pipes at (fw_bucket at)) h = None" using H True inv by (simp add: fw_inv_def Pair)
      then have none: "base h = None" "h \<notin> dom (rules_map pipes at (fw_bucket at))" by (auto simp: map_add_None domIff)
      have "rules_map pipes at (?r # fw_bucket at) = (rules_map pipes at (fw_bucket at))(h \<mapsto> (p_doca_pipe fp, hw_match fp ?en))"
        using hr by (simp add: rules_map_def)
      moreover have "hw d2 = (hw d)(h \<mapsto> (p_doca_pipe fp, hw_match fp ?en))" using H P True by simp
      ultimately show ?thesis using inv hr none pr unfolding fw_inv_def Pair prod.case dom_rules_map by (auto simp: image_iff)
    qed
    ultimately show ?thesis by (simp add: Pair)
  next
    case False
    then have "hw d2 = hw d \<or> \<not> allocated" using H P by (auto split: if_splits)
    then show ?thesis using run inv False by (auto simp: flowQoS_firewall_add_rule_def Pair fw_inv_def)
  qed
qed

lemma del_at_eq:
  "del_at ops pipes idx rule_id rs d =
     (if idx \<le> rule_id \<and> nat (rule_id - idx) < length rs
      then let k = nat (rule_id - idx) in
           case rule_line pipes rule_id (rs ! k) of None \<Rightarrow> None
           | Some _ \<Rightarrow> (case pipe_rm_entry ops 0 (handle (rs ! k)) d of (ret, d') \<Rightarrow> Some (if ret < 0 then rs else take k rs @ drop (Suc k) rs, d'))
      else Some (rs, d))"
proof (induction rs arbitrary: idx)
  case (Cons r rs)
  consider "rule_id < idx" | "rule_id = idx" | "idx < rule_id" by linarith
  then show ?case
  proof cases
    case 3
    then obtain k where k: "nat (rule_id - idx) = Suc k" "nat (rule_id - (idx + 1)) = k" by (cases "nat (rule_id - idx)") auto
    then show ?thesis using 3 Cons.IH [of "idx + 1"] by (auto simp: Let_def split: option.splits prod.splits)
  qed (auto simp: Cons.IH Let_def split: option.splits prod.splits)
qed simp

lemma distinct_remove_nth:
  assumes "distinct (map f rs)" and "k < length rs"
  shows "distinct (map f (take k rs @ drop (Suc k) rs))"
proof -
  have rs: "rs = take k rs @ rs ! k # drop (Suc k) rs" by (rule id_take_nth_drop [OF assms(2)])
  show ?thesis using assms(1) by (subst (asm) rs) auto
qed

lemma rules_map_remove:
  assumes "distinct (map handle rs)" and "k < length rs"
  shows "rules_map pipes at (take k rs @ drop (Suc k) rs) = (rules_map pipes at rs)(handle (rs ! k) := None)"
proof
  fix h
  let ?g = "\<lambda>r. (handle r, rule_entry pipes at r)"
  have rs: "rs = take k rs @ rs ! k # drop (Suc k) rs" by (rule id_take_nth_drop [OF assms(2)])
  have "handle (rs ! k) \<notin> handle ` (set (take k rs) \<union> set (drop (Suc k) rs))"
    using assms(1) by (subst (asm) rs) auto
  then have none: "map_of (map ?g (take k rs @ drop (Suc k) rs)) (handle (rs ! k)) = None"
    by (auto simp: map_of_eq_None_iff image_iff)
  show "rules_map pipes at (take k rs @ drop (Suc k) rs) h = ((rules_map pipes at rs)(handle (rs ! k) := None)) h"
  proof (cases "h = handle (rs ! k)")
    case True
    then show ?thesis using none by (simp add: rules_map_def)
  next
    case False
    have "rules_map pipes at rs h = map_of (map ?g (take k rs @ rs ! k # drop (Suc k) rs)) h" by (subst rs) (simp add: rules_map_def)
    then show ?thesis using False by (simp add: rules_map_def map_add_def cong: option.case_cong)
  qed
qed

lemma del_rule_inv:
  assumes laws: "hw_laws ops hw" and inv: "fw_inv hw pipes base st"
  shows "\<exists>at' d'. flowQoS_firewall_del_rule ops pipes rule_id st = Some (at', d') \<and> drop_pipe at' = drop_pipe (fst st) \<and> fw_inv hw pipes base (at', d')"
proof (cases st)
  case (Pair at d)
  let ?rs = "fw_bucket at" and ?k = "nat rule_id"
  show ?thesis
  proof (cases "0 \<le> rule_id \<and> ?k < length ?rs")
    case True
    then have mem: "?rs ! ?k \<in> set ?rs" by simp
    obtain l where l: "rule_line pipes rule_id (?rs ! ?k) = Some l"
      using inv mem printable_line unfolding fw_inv_def Pair prod.case by blast
    obtain ret d' where rm: "pipe_rm_entry ops 0 (handle (?rs ! ?k)) d = (ret, d')" by force
    let ?rs' = "if ret < 0 then ?rs else take ?k ?rs @ drop (Suc ?k) ?rs"
    have run: "flowQoS_firewall_del_rule ops pipes rule_id st = Some (at\<lparr>fw_bucket := ?rs'\<rparr>, d')"
      using True l rm by (simp add: flowQoS_firewall_del_rule_def Pair del_at_eq Let_def)
    have "fw_inv hw pipes base (at\<lparr>fw_bucket := ?rs'\<rparr>, d')"
    proof (cases "ret < 0")
      case True
      then show ?thesis using inv hw_rmD [OF laws rm] by (simp add: fw_inv_def Pair)
    next
      case False
      have I: "distinct (map handle ?rs)" "base (handle (?rs ! ?k)) = None" "hw d = base ++ rules_map pipes at ?rs"
        using inv mem unfolding fw_inv_def Pair prod.case by blast+
      have "hw d' = base ++ rules_map pipes at (take ?k ?rs @ drop (Suc ?k) ?rs)"
        using hw_rmD [OF laws rm] False I True rules_map_remove [OF I(1), of ?k] by (auto simp: map_add_def fun_eq_iff)
      moreover have "distinct (map handle (take ?k ?rs @ drop (Suc ?k) ?rs))"
        using True by (intro distinct_remove_nth [OF I(1)]) simp
      moreover have "set (take ?k ?rs @ drop (Suc ?k) ?rs) \<subseteq> set ?rs" by (auto dest: in_set_takeD in_set_dropD)
      ultimately show ?thesis using inv False unfolding fw_inv_def Pair prod.case by auto
    qed
    then show ?thesis using run by (simp add: Pair)
  next
    case False
    then have "del_at ops pipes 0 rule_id ?rs d = Some (?rs, d)" by (auto simp: del_at_eq)
    then show ?thesis using inv by (simp add: flowQoS_firewall_del_rule_def Pair)
  qed
qed

lemma lines_defined: "\<forall>r \<in> set rs. printable pipes (e_pipe (rl_entry r)) \<Longrightarrow> \<exists>ls. rule_lines pipes idx rs = Some ls"
proof (induction rs arbitrary: idx)
  case (Cons r rs)
  obtain l where "rule_line pipes idx r = Some l" using printable_line [of pipes r idx] Cons.prems by auto
  moreover obtain ls where "rule_lines pipes (idx + 1) rs = Some ls" using Cons.IH Cons.prems by fastforce
  ultimately show ?case by simp
qed simp

section \<open>Properties\<close>

datatype fw_cmd = Add_cmd bool string string "u32 option" u16 | Show_cmd | Del_cmd u16

fun exec_fw :: "'d doca_ops \<Rightarrow> (nat \<rightharpoonup> FlowQoS_PIPE) \<Rightarrow> fw_cmd \<Rightarrow> flowQoS_firewall_attr \<times> 'd \<Rightarrow> (flowQoS_firewall_attr \<times> 'd) option" where
  "exec_fw ops pipes (Add_cmd allocated direction proto sip sport) st = add_cmd_parsed ops pipes allocated direction proto sip sport st"
| "exec_fw ops pipes Show_cmd st = print_cmd_parsed pipes st"
| "exec_fw ops pipes (Del_cmd idx) st = del_cmd_parsed ops pipes idx st"

fun run_fw :: "'d doca_ops \<Rightarrow> (nat \<rightharpoonup> FlowQoS_PIPE) \<Rightarrow> fw_cmd list \<Rightarrow> flowQoS_firewall_attr \<times> 'd \<Rightarrow> (flowQoS_firewall_attr \<times> 'd) option" where
  "run_fw ops pipes [] st = Some st"
| "run_fw ops pipes (c # cs) st = Option.bind (exec_fw ops pipes c st) (run_fw ops pipes cs)"

lemma exec_inv:
  assumes laws: "hw_laws ops hw" and proc: "\<And>p q n d. fst (entries_process ops p q n d) = n"
    and pipes: "pipes_ok pipes (fst st)" and inv: "fw_inv hw pipes base st"
  shows "\<exists>st'. exec_fw ops pipes c st = Some st' \<and> drop_pipe (fst st') = drop_pipe (fst st) \<and> fw_inv hw pipes base st'"
proof (cases c)
  case (Add_cmd allocated direction proto sip sport)
  show ?thesis
  proof (cases sip)
    case (Some a)
    show ?thesis
      using add_rule_inv [OF laws proc pipes inv, of allocated "if direction = ''INPUT'' then INPUT else OUTPUT" "if proto = ''TCP'' then 6 else 17" a "bswap16 sport"]
      by (auto simp: Add_cmd Some add_cmd_parsed_def)
  qed (use inv in \<open>simp add: Add_cmd add_cmd_parsed_def\<close>)
next
  case Show_cmd
  obtain ls where "flowQoS_firewall_print_rules pipes (fst st) = Some ls"
    using inv lines_defined [of "fw_bucket (fst st)" pipes 0] by (auto simp: fw_inv_def flowQoS_firewall_print_rules_def split: prod.splits)
  then show ?thesis using inv by (simp add: Show_cmd print_cmd_parsed_def)
next
  case (Del_cmd idx)
  show ?thesis using del_rule_inv [OF laws inv, of "uint idx"] by (auto simp: Del_cmd del_cmd_parsed_def)
qed

lemma run_inv:
  assumes laws: "hw_laws ops hw" and proc: "\<And>p q n d. fst (entries_process ops p q n d) = n"
    and "pipes_ok pipes (fst st)" and "fw_inv hw pipes base st"
  shows "\<exists>st'. run_fw ops pipes cs st = Some st' \<and> drop_pipe (fst st') = drop_pipe (fst st) \<and> fw_inv hw pipes base st'"
  using assms(3,4)
proof (induction cs arbitrary: st)
  case (Cons c cs)
  obtain st1 where s1: "exec_fw ops pipes c st = Some st1" "drop_pipe (fst st1) = drop_pipe (fst st)" "fw_inv hw pipes base st1"
    using exec_inv [OF laws proc Cons.prems] by blast
  have "pipes_ok pipes (fst st1)" using Cons.prems(1) s1(2) by (simp add: pipes_ok_def)
  from Cons.IH [OF this s1(3)] s1 show ?case by auto
qed simp


text \<open>Hardware that keeps its entries in a map, with the next handle.\<close>

definition map_doca :: "((nat \<rightharpoonup> nat \<times> doca_flow_match) \<times> nat) doca_ops" where
  "map_doca = \<lparr>pipe_create = (\<lambda>cfg fwd miss d. (1, d)),
     pipe_add_entry = (\<lambda>q p m a f d. if fst d (Suc (snd d)) = None then (Suc (snd d), (fst d)(Suc (snd d) \<mapsto> (p, m)), Suc (snd d)) else (0, d)),
     entries_process = (\<lambda>p q n d. (n, d)), aging_poll = (\<lambda>p q n d. (0, [], d)), pipe_rm_entry = (\<lambda>q h d. (0, (fst d)(h := None), snd d))\<rparr>"

lemma map_doca_laws: "hw_laws map_doca fst" "fst (entries_process map_doca p q n d) = n"
  by (simp_all add: hw_laws_def map_doca_def)


text \<open>An entry that DOCA created but did not confirm stays in the hardware without a rule.\<close>

lemma unconfirmed_rule_stays:
  assumes laws: "hw_laws ops hw" and fp: "pipes (drop_pipe at dir proto) = Some fp"
    and h: "pipe_add_entry ops 0 (p_doca_pipe fp) (hw_match fp en) (hw_meta fp 1 en) DOCA_FLOW_NO_WAIT d = (h, d1)" "h \<noteq> 0"
    and en: "en = zero_entry\<lparr>e_match := zero_match\<lparr>m_src_ip := sip, m_src_port := sport\<rparr>\<rparr>"
    and n: "entries_process ops (p_src_doca_port fp) 0 1 d1 = (n, d2)" "n \<noteq> 1"
  shows "flowQoS_firewall_add_rule ops pipes True dir proto sip sport (at, d) = Some (0, at, d2) \<and> hw d2 h = Some (p_doca_pipe fp, hw_match fp en)"
  using add_entry_now [where pipes = pipes, OF fp, of ops 1 0 "\<lambda>_. en" d] h n hw_addD [OF laws h(1)] hw_processD [OF laws n(1)]
  by (simp add: flowQoS_firewall_add_rule_def en)

end
