(* ===== verification/Packet_Spraying.thy ===== *)
theory Packet_Spraying
  imports App_Setup
begin

text \<open>
  VXLAN packet spraying (\<open>src/apps/flowQoS_vxlan_packets_spraying.c\<close>): a counter per core that spreads the
  packets over four UDP source ports, and the set-up of the two pipes.
\<close>

text \<open>\<open>packet_spray\<close>, with the counter of the core; the sum is computed in 64 bits and cut to 16.\<close>

definition packet_spray :: "u64 \<Rightarrow> rte_mbuf \<Rightarrow> int \<times> rte_mbuf \<times> u64" where
  "packet_spray cnt m =
     (let cnt = cnt + 1;
          m = m\<lparr>l4_sport := bswap16 (ucast (cnt mod 4 + 7788)), mb_ol_flags := mb_ol_flags m \<union> {PKT_TX_UDP_CKSUM}, udp_dgram_cksum := 0\<rparr>
      in (int (mb_port m XOR 1), m, cnt))"

definition spray_names :: "nat \<Rightarrow> string" where
  "spray_names i = (if i = 0 then ''upstreamPipe'' else ''downstreamPipe'')"

definition spray_entry :: "nat \<Rightarrow> FlowQoS_ENTRY" where
  "spray_entry i =
     zero_entry\<lparr>e_match := zero_match\<lparr>m_dst_ip := bswap32 (if i = 1 then RTE_IPV4 192 168 200 2 else RTE_IPV4 192 168 200 1), m_flags := DIP OR UDP\<rparr>,
                e_action := zero_action\<lparr>a_flags := COUNTER\<rparr>\<rparr>"

text \<open>The part of \<open>main\<close> before the workers are launched; results are not looked at.\<close>

fun spray_pipes :: "('h, 'p, 'd, 'l) app_params \<Rightarrow> nat list \<Rightarrow> ('h, 'p, 'd, 'l, 'a) app_state \<Rightarrow> ('h, 'p, 'd, 'l, 'a) app_state option" where
  "spray_pipes P [] s = Some s"
| "spray_pipes P (i # is) s =
     Option.bind (app_pipe P i i (spray_names i) (DIP OR UDP) COUNTER RSS_TO_QUEUE DROP IS_ROOT 10 s) (\<lambda>(pipe, s1).
     Option.bind (flowQoS_add_entry (pa_doca P) (ap_pipes s1) pipe 1 0 1 (\<lambda>_. spray_entry i, ap_doca s1)) (\<lambda>(_, _, d).
     spray_pipes P is (s1\<lparr>ap_doca := d\<rparr>)))"

definition spray_main :: "('h, 'p, 'd, 'l) app_params \<Rightarrow> ('h, 'p, 'd, 'l, 'a) app_state \<Rightarrow> ('h, 'p, 'd, 'l, 'a) app_state option" where
  "spray_main P s =
     map_option (\<lambda>s'. s'\<lparr>ap_ct := (ap_ct s')\<lparr>su_tasks := snd (register_packet_processor ''packet_spray'' (su_tasks (ap_ct s')))\<rparr>\<rparr>)
       (spray_pipes P [0, 1] s)"

section \<open>Properties\<close>

text \<open>The packets of a core, one after the other.\<close>

fun spray_run :: "u64 \<Rightarrow> rte_mbuf list \<Rightarrow> (int \<times> rte_mbuf) list" where
  "spray_run cnt [] = []"
| "spray_run cnt (m # ms) = (case packet_spray cnt m of (r, m', cnt') \<Rightarrow> (r, m') # spray_run cnt' ms)"

lemma mod4_step: "unat ((c :: u64) + 1) mod 4 = (unat c + 1) mod 4"
  by (simp add: unat_word_ariths mod_mod_cancel)

lemma spray_port_eq:
  "bswap16 (ucast ((c :: u64) mod 4 + 7788)) = bswap16 (of_nat (7788 + j)) \<longleftrightarrow> unat c mod 4 = j" if "j < 4"
proof -
  have "unat (c mod 4) = unat c mod 4" by (simp add: word_nat)
  then have c: "c mod 4 = of_nat (unat c mod 4)" by (metis of_nat_unat ucast_id)
  have "unat c mod 4 < 4" by simp
  then have "unat c mod 4 = 0 \<or> unat c mod 4 = 1 \<or> unat c mod 4 = 2 \<or> unat c mod 4 = 3" by linarith
  moreover have "j = 0 \<or> j = 1 \<or> j = 2 \<or> j = 3" using that by linarith
  ultimately show ?thesis unfolding c by (elim disjE) (simp_all add: bswap16_def)
qed

lemma spray_run_turns:
  assumes "j < 4"
  shows "length (filter (\<lambda>(r, m). l4_sport m = bswap16 (of_nat (7788 + j))) (spray_run cnt ms)) = turns 4 j (unat cnt + 1) (length ms)"
proof (induction ms arbitrary: cnt)
  case (Cons m ms)
  have "turns 4 j (unat (cnt + 1) + 1) (length ms) = turns 4 j (unat cnt + 2) (length ms)"
    unfolding turns_def using mod4_step [of cnt] by (intro arg_cong [of _ _ length] filter_cong refl) (metis add.assoc mod_add_left_eq one_add_one)
  then show ?case using Cons [of "cnt + 1"] spray_port_eq [OF assms, of "cnt + 1"] mod4_step [of cnt]
    by (simp add: packet_spray_def Let_def turns_first)
qed simp

text \<open>
  C36: Spraying is even. Of the packets a core handles one after the other, every four take each of the UDP
  source ports 7788, 7789, 7790 and 7791 once, whatever its counter is, also when it wraps around; every
  packet goes to the other port with its checksum left to the device, and nothing else of it changes.
\<close>

theorem packets_sprayed_evenly:
  "(\<forall>k. length ms = 4 * k \<longrightarrow> (\<forall>j < 4. length (filter (\<lambda>(r, m). l4_sport m = bswap16 (of_nat (7788 + j))) (spray_run cnt ms)) = k)) \<and>
   length (spray_run cnt ms) = length ms \<and>
   (\<forall>i < length ms. let (r, m) = spray_run cnt ms ! i in
      r = int (mb_port (ms ! i) XOR 1) \<and> PKT_TX_UDP_CKSUM \<in> mb_ol_flags m \<and>
      m\<lparr>l4_sport := l4_sport (ms ! i), mb_ol_flags := mb_ol_flags (ms ! i), udp_dgram_cksum := udp_dgram_cksum (ms ! i)\<rparr> = ms ! i)"
proof (intro conjI allI impI)
  fix k j :: nat assume "length ms = 4 * k" "j < 4"
  then show "length (filter (\<lambda>(r, m). l4_sport m = bswap16 (of_nat (7788 + j))) (spray_run cnt ms)) = k"
    using turns_rounds [of j 4 "unat cnt + 1" k] spray_run_turns [of j cnt ms] by (simp add: mult.commute)
next
  show "length (spray_run cnt ms) = length ms" by (induction ms arbitrary: cnt) (simp_all add: packet_spray_def Let_def)
next
  fix i assume "i < length ms"
  then show "let (r, m) = spray_run cnt ms ! i in
      r = int (mb_port (ms ! i) XOR 1) \<and> PKT_TX_UDP_CKSUM \<in> mb_ol_flags m \<and>
      m\<lparr>l4_sport := l4_sport (ms ! i), mb_ol_flags := mb_ol_flags (ms ! i), udp_dgram_cksum := udp_dgram_cksum (ms ! i)\<rparr> = ms ! i"
    by (induction ms arbitrary: cnt i) (auto simp: packet_spray_def Let_def nth_Cons split: nat.splits)
qed

definition demo_spray_packet :: rte_mbuf where
  "demo_spray_packet = \<lparr>mb_port = 0, mb_is_ipv4 = True, mb_rss = 0, mb_ol_flags = {}, eth_s_addr = replicate 6 0, eth_d_addr = replicate 6 0, ip_src_addr = 0,
     ip_dst_addr = 0, ip_next_proto_id = 17, ip_type_of_service = 0, ip_time_to_live = 64, ip_hdr_checksum = 0, l4_sport = 0, l4_dport = 0, tcp_cksum = 0,
     udp_dgram_cksum = 5\<rparr>"

lemma packets_sprayed_evenly_witness:
  "length (filter (\<lambda>(r, m). l4_sport m = bswap16 (of_nat (7788 + 3))) (spray_run (- 2) (replicate 8 demo_spray_packet))) = 2"
proof -
  have "length (replicate 8 demo_spray_packet) = 4 * 2" "(3 :: nat) < 4" by simp_all
  then show ?thesis using packets_sprayed_evenly [of "replicate 8 demo_spray_packet" "- 2"] by blast
qed

end
