(* ===== verification/Adaptive_Routing.thy ===== *)
theory Adaptive_Routing
  imports App_Setup Conntrack_Inv
begin

text \<open>
  Adaptive routing (\<open>src/apps/flowQoS_adaptive_routing.c\<close>): for a new VXLAN flow four probe packets are sent
  over the candidate paths, and the path of the first one to come back is taken.
\<close>

section \<open>Probes\<close>

definition HOST_PORT :: nat where [flow_consts]: "HOST_PORT = 0"
definition DST_PORT :: nat where [flow_consts]: "DST_PORT = 1"
definition PROBE_PATH_AMOUNT :: nat where [flow_consts]: "PROBE_PATH_AMOUNT = 4"

text \<open>The fields that are written into a probe packet.\<close>

record probe =
  pb_s_addr :: "u8 list"
  pb_d_addr :: "u8 list"
  pb_ether_type :: u16
  pb_version_ihl :: u8
  pb_type_of_service :: u8
  pb_total_length :: u16
  pb_packet_id :: u16
  pb_fragment_offset :: u16
  pb_time_to_live :: u8
  pb_next_proto_id :: u8
  pb_src_addr :: u32
  pb_dst_addr :: u32
  pb_hdr_checksum :: u16
  pb_src_port :: u16
  pb_dst_port :: u16
  pb_dgram_cksum :: u16
  pb_dgram_len :: u16
  pb_timeStamp :: u64
  pb_FlowID :: u64
  pb_l2_len :: nat
  pb_l3_len :: nat
  pb_ol_flags :: "tx_flag set"

text \<open>A received packet: its mbuf and the headers that are looked at.\<close>

record received =
  rc_mbuf :: nat
  rc_is_ipv4 :: bool
  rc_next_proto_id :: u8
  rc_src_port :: u16
  rc_dst_port :: u16
  rc_FlowID :: u64

text \<open>
  What happens during one search: the mbufs of \<open>rte_pktmbuf_alloc_bulk\<close> (\<open>None\<close> when it fails), the clock at
  each probe, how many packets the device takes, and the bursts that arrive within the 10 ms of waiting.
\<close>

record search =
  se_mbufs :: "nat list option"
  se_clock :: "nat \<Rightarrow> u64"
  se_taken :: nat
  se_bursts :: "received list list"

record ar_state =
  flowID :: u64
  ar_searches :: "search list"
  ar_freed :: "nat list"
  ar_sent :: "(nat \<times> probe) list"

definition probe_packet :: "u64 \<Rightarrow> u64 \<Rightarrow> u16 \<Rightarrow> nat \<Rightarrow> probe" where
  "probe_packet clk fid src_port p =
     \<lparr>pb_s_addr = mac1, pb_d_addr = mac2, pb_ether_type = bswap16 0x0800, pb_version_ihl = 0x45, pb_type_of_service = 0x20,
      pb_total_length = bswap16 (20 + 8 + 16), pb_packet_id = 0, pb_fragment_offset = 0, pb_time_to_live = 64, pb_next_proto_id = 17,
      pb_src_addr = bswap32 (RTE_IPV4 192 168 200 2), pb_dst_addr = bswap32 (RTE_IPV4 192 168 200 1), pb_hdr_checksum = 0,
      pb_src_port = bswap16 (bswap16 src_port + of_nat p), pb_dst_port = bswap16 4789, pb_dgram_cksum = 0, pb_dgram_len = bswap16 16,
      pb_timeStamp = clk, pb_FlowID = fid, pb_l2_len = 14, pb_l3_len = 20, pb_ol_flags = {PKT_TX_IPV4, PKT_TX_IP_CKSUM, PKT_TX_UDP_CKSUM}\<rparr>"

section \<open>The search\<close>

definition is_reply :: "u64 \<Rightarrow> received \<Rightarrow> bool" where
  "is_reply fid m \<longleftrightarrow> rc_is_ipv4 m \<and> rc_next_proto_id m = 17 \<and> rc_dst_port m = bswap16 4788 \<and> rc_FlowID m = fid"

text \<open>The packets of a burst, with the mbufs that are freed; the function returns from inside the loop.\<close>

fun scan_burst :: "u64 \<Rightarrow> received list \<Rightarrow> u16 option \<times> nat list" where
  "scan_burst fid [] = (None, [])"
| "scan_burst fid (m # ms) =
     (if is_reply fid m then (Some (rc_src_port m), [rc_mbuf m])
      else case scan_burst fid ms of (res, gone) \<Rightarrow> (res, rc_mbuf m # gone))"

fun scan_bursts :: "u64 \<Rightarrow> received list list \<Rightarrow> u16 \<times> nat list" where
  "scan_bursts fid [] = (0, [])"
| "scan_bursts fid (b # bs) =
     (case scan_burst fid b of
        (Some res, gone) \<Rightarrow> (res, gone)
      | (None, gone) \<Rightarrow> (case scan_bursts fid bs of (res, gone2) \<Rightarrow> (res, gone @ gone2)))"

text \<open>A state without further searches stands for a device that gives and takes nothing.\<close>

definition adaptive_routing :: "FlowQoS_ENTRY \<Rightarrow> ar_state \<Rightarrow> u16 \<times> ar_state" where
  "adaptive_routing newEntry s =
     (let se = (case ar_searches s of [] \<Rightarrow> \<lparr>se_mbufs = None, se_clock = (\<lambda>_. 0), se_taken = 0, se_bursts = []\<rparr> | x # _ \<Rightarrow> x);
          mbufs = (case se_mbufs se of None \<Rightarrow> [] | Some bs \<Rightarrow> take PROBE_PATH_AMOUNT bs);
          fid = flowID s + 1;
          probes = map (\<lambda>p. (mbufs ! p, probe_packet (se_clock se p) fid (m_src_port (e_match newEntry)) p)) [0..<length mbufs];
          nb_tx = se_taken se;
          (res, scanned) = scan_bursts fid (se_bursts se)
      in (res, s\<lparr>flowID := fid, ar_searches := tl (ar_searches s), ar_sent := ar_sent s @ take nb_tx probes,
                 ar_freed := ar_freed s @ drop nb_tx mbufs @ scanned\<rparr>))"

definition ar_newConn_handler :: "(nat \<Rightarrow> nat) \<Rightarrow> FlowQoS_ENTRY \<Rightarrow> ar_state \<Rightarrow> int \<times> FlowQoS_ENTRY \<times> ar_state" where
  "ar_newConn_handler pipe_port en s =
     (if pipe_port (e_pipe en) = HOST_PORT \<and> m_dst_port (e_match en) = bswap16 4789
      then let en1 = en\<lparr>e_expireTime := 60\<rparr> in
           case adaptive_routing en1 s of (bestPath, s1) \<Rightarrow>
             if bestPath \<noteq> 0
             then (int (pipe_port (e_pipe en) XOR 1), en1\<lparr>e_action := (e_action en1)\<lparr>a_src_port := bestPath\<rparr>\<rparr>, s1)
             else (IGNORE_PACKETS, en1, s1)
      else (IGNORE_PACKETS, en, s))"

section \<open>Set-up\<close>

definition ar_entry :: FlowQoS_ENTRY where
  "ar_entry = zero_entry\<lparr>e_match := zero_match\<lparr>m_dst_ip := bswap32 (RTE_IPV4 192 168 200 1), m_dst_port := bswap16 4788\<rparr>\<rparr>"

text \<open>An entry that is printed when it was added.\<close>

definition add_and_print ::
  "('h, 'p, 'd, 'l) app_params \<Rightarrow> nat \<Rightarrow> FlowQoS_ENTRY \<Rightarrow> ('h, 'p, 'd, 'l, 'a) app_state \<Rightarrow> (bool \<times> ('h, 'p, 'd, 'l, 'a) app_state) option" where
  "add_and_print P pipe en s =
     Option.bind (flowQoS_add_entry (pa_doca P) (ap_pipes s) pipe 1 0 1 (\<lambda>_. en, ap_doca s)) (\<lambda>(ret, es, d).
     let s' = s\<lparr>ap_doca := d\<rparr> in
     if ret \<noteq> 0 then map_option (\<lambda>_. (True, s')) (Option.bind (dumpFlowQoSEntry (ap_pipes s) (es 1)) printFlowQoSEntry)
     else Some (False, s'))"

text \<open>
  \<open>main\<close> up to the launch of the workers, for two cores: the result tells whether they are launched.
  \<open>pool_found\<close> is whether the pool of packets exists; the pipes are at \<open>pa_addr 6\<close> and \<open>7\<close>.
\<close>

definition ar_main ::
  "('h, 'p, 'd, 'l) app_params \<Rightarrow> bool \<Rightarrow> (FlowQoS_ENTRY \<Rightarrow> 'a \<Rightarrow> int \<times> FlowQoS_ENTRY \<times> 'a) \<Rightarrow> ('h, 'p, 'd, 'l, 'a) app_state
     \<Rightarrow> (bool \<times> ('h, 'p, 'd, 'l, 'a) app_state) option" where
  "ar_main P pool_found new s =
     Option.bind (app_init_env P 1024 0 0 0 s) (\<lambda>(r, s1).
     if r \<le> 0 then Some (False, s1)
     else
       Option.bind (app_init_port P HOST_PORT 1024 (SPORT OR AGING) s1) (\<lambda>(r1, s2).
       if r1 < 0 then Some (False, s2)
       else
         Option.bind (app_pipe P 6 DST_PORT ''FWD-PIPE'' 0 COUNTER PORT DROP (\<not> IS_ROOT) 10000 s2) (\<lambda>(offload_pipe, s3).
         if offload_pipe = 0 then Some (False, s3)
         else
           Option.bind (add_and_print P offload_pipe zero_entry s3) (\<lambda>(ok, s4).
           if \<not> ok then Some (False, s4)
           else
             Option.bind (app_pipe P 7 DST_PORT ''PROBE-PIPE'' (DIP OR UDP OR DPORT) COUNTER RSS_TO_QUEUE (of_nat offload_pipe) IS_ROOT 10000 s4) (\<lambda>(pipe, s5).
             if pipe = 0 then Some (False, s5)
             else
               map_option (\<lambda>(ok, s6).
                 if \<not> ok then (False, s6)
                 else (pool_found, s6\<lparr>ap_ops := snd (flowQoS_regist_newConn_handler (Some new) (ap_ops s6))\<rparr>))
                 (add_and_print P pipe ar_entry s5))))))"

text \<open>With another number of cores the program only forwards between the ports (\<open>ECMP\<close>).\<close>

fun ecmp_main ::
  "('h, 'p, 'd, 'l) app_params \<Rightarrow> nat list \<Rightarrow> ('h, 'p, 'd, 'l, 'a) app_state \<Rightarrow> (bool \<times> ('h, 'p, 'd, 'l, 'a) app_state) option" where
  "ecmp_main P [] s = Some (True, s)"
| "ecmp_main P (port # ports) s =
     Option.bind (app_pipe P port port (if port = 0 then ''fwd0'' else ''fwd1'') 0 0 PORT DROP IS_ROOT 100 s) (\<lambda>(pipe, s1).
     if pipe = 0 then Some (False, s1)
     else Option.bind (add_and_print P pipe zero_entry s1) (\<lambda>(_, s2). ecmp_main P ports s2))"

section \<open>Properties\<close>

interpretation ar_app: conn_app "ar_newConn_handler pipe_port" for pipe_port
proof unfold_locales
  fix en a port en' a'
  assume "ar_newConn_handler pipe_port en a = (port, en', a')" and "0 \<le> port"
  then have k: "e_match en' = e_match en \<and> e_pipe en' = e_pipe en \<and> a_flags (e_action en') = a_flags (e_action en) \<and> e_expireTime en' = 60"
    by (auto simp: ar_newConn_handler_def Let_def flow_consts split: if_splits prod.splits)
  then show "e_match en' = e_match en \<and> e_pipe en' = e_pipe en \<and> a_flags (e_action en') = a_flags (e_action en)" by simp
  from k show "e_expireTime en' * 1000 \<le> TIMER_MAX_TIMEOUT" by (simp add: flow_consts)
qed

lemma scan_burst_none: "(\<forall>m \<in> set b. \<not> is_reply fid m) \<Longrightarrow> scan_burst fid b = (None, map rc_mbuf b)"
  by (induction b) simp_all

lemma scan_burst_first:
  "(\<forall>m \<in> set pre. \<not> is_reply fid m) \<Longrightarrow> is_reply fid m \<Longrightarrow> scan_burst fid (pre @ m # post) = (Some (rc_src_port m), map rc_mbuf (pre @ [m]))"
  by (induction pre) simp_all

lemma scan_bursts_none: "(\<forall>m \<in> set (concat bs). \<not> is_reply fid m) \<Longrightarrow> scan_bursts fid bs = (0, map rc_mbuf (concat bs))"
  by (induction bs) (simp_all add: scan_burst_none)

lemma scan_bursts_first:
  "(\<forall>m \<in> set (concat bs). \<not> is_reply fid m) \<Longrightarrow> (\<forall>m \<in> set pre. \<not> is_reply fid m) \<Longrightarrow> is_reply fid m \<Longrightarrow>
     scan_bursts fid (bs @ (pre @ m # post) # rest) = (rc_src_port m, map rc_mbuf (concat bs @ pre @ [m]))"
  by (induction bs) (simp_all add: scan_burst_none scan_burst_first)

text \<open>
  A reply to the search with the number \<open>fid\<close>, as it lies in memory: IPv4, protocol 17, the destination port 4788
  (\<open>0x12B4\<close>) in network byte order, and the number of the search.
\<close>

definition own_reply :: "u64 \<Rightarrow> received \<Rightarrow> bool" where
  "own_reply fid m \<longleftrightarrow> rc_is_ipv4 m \<and> rc_next_proto_id m = 17 \<and> rc_dst_port m = 0xB412 \<and> rc_FlowID m = fid"

lemma probe_port: "bswap16 4788 = 0xB412"
  by (simp add: bswap16_def)

text \<open>
  C31: A new VXLAN flow from the host takes the path of the first probe of its own search that comes back, and
  is then sent to the network with the source port of that probe. Without a reply in time it is ignored.
  A reply to the search is a UDP packet over IPv4 to port 4788 that carries the number of the search.
  Every search has a new flow number, its probes carry the source port of the flow increased by 0 to 3,
  and replies to earlier searches are passed over. Every packet that was received up to the reply is
  freed, but the packets of the same burst behind the reply are not: their buffers are lost.
\<close>

theorem adaptive_routing_first_reply:
  assumes host: "pipe_port (e_pipe en) = HOST_PORT" "m_dst_port (e_match en) = bswap16 4789" and se: "ar_searches s = se # later"
    and run: "ar_newConn_handler pipe_port en s = (r, en', s')"
  shows "flowID s' = flowID s + 1 \<and> e_expireTime en' = 60 \<and>
     (\<forall>x \<in> set (ar_sent s'). x \<in> set (ar_sent s) \<or>
        (pb_FlowID (snd x) = flowID s + 1 \<and> (\<exists>p < 4. pb_src_port (snd x) = bswap16 (bswap16 (m_src_port (e_match en)) + of_nat p)))) \<and>
     ((\<forall>m \<in> set (concat (se_bursts se)). \<not> own_reply (flowID s + 1) m) \<longrightarrow>
        r = IGNORE_PACKETS \<and> set (map rc_mbuf (concat (se_bursts se))) \<subseteq> set (ar_freed s')) \<and>
     (\<forall>bs pre m post rest. se_bursts se = bs @ (pre @ m # post) # rest \<and> own_reply (flowID s + 1) m \<and>
          (\<forall>m' \<in> set (concat bs @ pre). \<not> own_reply (flowID s + 1) m') \<longrightarrow>
        (if rc_src_port m \<noteq> 0 then r = int DST_PORT \<and> a_src_port (e_action en') = rc_src_port m else r = IGNORE_PACKETS) \<and>
        (\<exists>unsent. ar_freed s' = ar_freed s @ unsent @ map rc_mbuf (concat bs @ pre @ [m]) \<and>
           set unsent \<subseteq> (case se_mbufs se of None \<Rightarrow> {} | Some mbufs \<Rightarrow> set mbufs)))"
proof -
  have own: "own_reply = is_reply" by (simp add: fun_eq_iff own_reply_def is_reply_def probe_port)
  define fid where "fid = flowID s + 1"
  define mbufs where "mbufs = (case se_mbufs se of None \<Rightarrow> [] | Some bs \<Rightarrow> take PROBE_PATH_AMOUNT bs)"
  define probes where "probes = map (\<lambda>p. (mbufs ! p, probe_packet (se_clock se p) fid (m_src_port (e_match en)) p)) [0..<length mbufs]"
  obtain res scanned where sc: "scan_bursts fid (se_bursts se) = (res, scanned)" by fastforce
  have s': "s' = s\<lparr>flowID := fid, ar_searches := later, ar_sent := ar_sent s @ take (se_taken se) probes,
      ar_freed := ar_freed s @ drop (se_taken se) mbufs @ scanned\<rparr>"
    and en': "e_expireTime en' = 60" and r: "r = (if res \<noteq> 0 then int DST_PORT else IGNORE_PACKETS)" "res \<noteq> 0 \<Longrightarrow> a_src_port (e_action en') = res"
    using run sc by (auto simp: ar_newConn_handler_def adaptive_routing_def host se Let_def fid_def mbufs_def probes_def flow_consts split: if_splits)
  have "length mbufs \<le> 4" by (simp add: mbufs_def flow_consts split: option.splits)
  then have p: "pb_FlowID (snd x) = fid \<and> (\<exists>p < 4. pb_src_port (snd x) = bswap16 (bswap16 (m_src_port (e_match en)) + of_nat p))" if "x \<in> set probes" for x
  proof -
    from that obtain i where "i < length mbufs" "x = (mbufs ! i, probe_packet (se_clock se i) fid (m_src_port (e_match en)) i)" by (auto simp: probes_def)
    moreover from this(1) \<open>length mbufs \<le> 4\<close> have "i < 4" by simp
    ultimately show ?thesis by (auto simp: probe_packet_def)
  qed
  have sub: "set (drop (se_taken se) mbufs) \<subseteq> (case se_mbufs se of None \<Rightarrow> {} | Some mbufs \<Rightarrow> set mbufs)"
    by (auto simp: mbufs_def dest: in_set_takeD in_set_dropD split: option.splits)
  show ?thesis unfolding fid_def [symmetric] own
  proof (intro conjI allI impI ballI)
    show "x \<in> set (ar_sent s) \<or> pb_FlowID (snd x) = fid \<and> (\<exists>p < 4. pb_src_port (snd x) = bswap16 (bswap16 (m_src_port (e_match en)) + of_nat p))"
      if "x \<in> set (ar_sent s')" for x using that p [of x] in_set_takeD [of x "se_taken se" probes] by (auto simp: s')
  next
    assume "\<forall>m \<in> set (concat (se_bursts se)). \<not> is_reply fid m"
    from scan_bursts_none [OF this] sc have "res = 0" "scanned = map rc_mbuf (concat (se_bursts se))" by simp_all
    then show "r = IGNORE_PACKETS" "set (map rc_mbuf (concat (se_bursts se))) \<subseteq> set (ar_freed s')" using r s' by auto
  next
    fix bs pre m post rest
    assume a: "se_bursts se = bs @ (pre @ m # post) # rest \<and> is_reply fid m \<and> (\<forall>m' \<in> set (concat bs @ pre). \<not> is_reply fid m')"
    with scan_bursts_first [of bs fid pre m post rest] sc have e: "res = rc_src_port m" "scanned = map rc_mbuf (concat bs @ pre @ [m])" by simp_all
    then show "if rc_src_port m \<noteq> 0 then r = int DST_PORT \<and> a_src_port (e_action en') = rc_src_port m else r = IGNORE_PACKETS" using r by simp
    show "\<exists>unsent. ar_freed s' = ar_freed s @ unsent @ map rc_mbuf (concat bs @ pre @ [m]) \<and>
           set unsent \<subseteq> (case se_mbufs se of None \<Rightarrow> {} | Some mbufs \<Rightarrow> set mbufs)" using sub e by (auto simp: s')
  qed (use s' en' in simp_all)
qed

definition demo_reply :: "nat \<Rightarrow> u64 \<Rightarrow> u16 \<Rightarrow> received" where
  "demo_reply b fid port = \<lparr>rc_mbuf = b, rc_is_ipv4 = True, rc_next_proto_id = 17, rc_src_port = port, rc_dst_port = bswap16 4788, rc_FlowID = fid\<rparr>"

definition demo_search :: ar_state where
  "demo_search = \<lparr>flowID = 6, ar_searches = [\<lparr>se_mbufs = Some [0, 1, 2, 3], se_clock = of_nat, se_taken = 4,
     se_bursts = [[demo_reply 4 6 100], [demo_reply 5 7 102, demo_reply 6 7 101]]\<rparr>], ar_freed = [], ar_sent = []\<rparr>"

lemma adaptive_routing_first_reply_witness:
  "\<exists>r en' s'. ar_newConn_handler (\<lambda>_. HOST_PORT) (zero_entry\<lparr>e_match := zero_match\<lparr>m_dst_port := bswap16 4789\<rparr>\<rparr>) demo_search = (r, en', s') \<and>
     r = 1 \<and> a_src_port (e_action en') = 102 \<and> 6 \<notin> set (ar_freed s')"
proof -
  let ?en = "zero_entry\<lparr>e_match := zero_match\<lparr>m_dst_port := bswap16 4789\<rparr>\<rparr>"
  let ?se = "\<lparr>se_mbufs = Some [0, 1, 2, 3], se_clock = of_nat, se_taken = 4, se_bursts = [[demo_reply 4 6 100], [demo_reply 5 7 102, demo_reply 6 7 101]]\<rparr>"
  obtain r en' s' where run: "ar_newConn_handler (\<lambda>_. HOST_PORT) ?en demo_search = (r, en', s')" by (metis prod_cases3)
  have h: "m_dst_port (e_match ?en) = bswap16 4789" "ar_searches demo_search = ?se # []" by (simp_all add: demo_search_def)
  have "se_bursts ?se = [[demo_reply 4 6 100]] @ ([] @ demo_reply 5 7 102 # [demo_reply 6 7 101]) # [] \<and> own_reply (flowID demo_search + 1) (demo_reply 5 7 102) \<and>
      (\<forall>m' \<in> set (concat [[demo_reply 4 6 100]] @ []). \<not> own_reply (flowID demo_search + 1) m')"
    by (simp add: demo_search_def own_reply_def demo_reply_def probe_port)
  with adaptive_routing_first_reply [OF refl h run] have
    R: "if rc_src_port (demo_reply 5 7 102) \<noteq> 0 then r = int DST_PORT \<and> a_src_port (e_action en') = rc_src_port (demo_reply 5 7 102) else r = IGNORE_PACKETS"
    and F: "\<exists>unsent. ar_freed s' = ar_freed demo_search @ unsent @ map rc_mbuf (concat [[demo_reply 4 6 100]] @ [] @ [demo_reply 5 7 102]) \<and>
           set unsent \<subseteq> (case se_mbufs ?se of None \<Rightarrow> {} | Some mbufs \<Rightarrow> set mbufs)" by blast+
  have "r = 1 \<and> a_src_port (e_action en') = 102" using R by (simp add: demo_reply_def flow_consts)
  moreover have "6 \<notin> set (ar_freed s')" using F by (auto simp: demo_search_def demo_reply_def)
  ultimately show ?thesis using run by blast
qed

end
