(* ===== verification/Dpdk_Device.thy ===== *)
theory Dpdk_Device
  imports Prelude
begin

text \<open>
  The calls of DPDK and DOCA that \<open>src/src/flowQoS_env.c\<close> and the files \<open>dpdk_utils.c\<close> and \<open>offload_rules.c\<close>
  under \<open>src/src/common/src\<close> make, and their configuration. The libraries are a parameter that answers each
  call from the calls made before; the state of the program records every call with its answer, newest first.
\<close>

section \<open>Configuration\<close>

text \<open>The constants of \<open>offload_rules.h\<close>, \<open>dpdk_utils.h\<close> and of DPDK.\<close>

definition SFT_PORTS_NUM :: nat where [flow_consts]: "SFT_PORTS_NUM = 2"
definition SET_STATE_PRIORITY :: nat where "SET_STATE_PRIORITY = 0"
definition SFT_TO_RSS_PRIORITY :: nat where "SFT_TO_RSS_PRIORITY = 1"
definition JUMP_TO_SFT_PRIORITY :: nat where "JUMP_TO_SFT_PRIORITY = 0"
definition HAIRPIN_NON_L4_PRIORITY :: nat where "HAIRPIN_NON_L4_PRIORITY = 3"
definition HAIRPIN_MATCHED_FLOW :: nat where "HAIRPIN_MATCHED_FLOW = 1"
definition DROP_FLOW :: nat where "DROP_FLOW = 2"
definition GROUP_POST_SFT :: nat where "GROUP_POST_SFT = 1001"
definition INITIAL_GROUP :: nat where "INITIAL_GROUP = 0"
definition RX_RING_SIZE :: nat where "RX_RING_SIZE = 1024"
definition TX_RING_SIZE :: nat where "TX_RING_SIZE = 1024"
definition NUM_MBUFS :: int where "NUM_MBUFS = 8 * 1024"
definition MBUF_CACHE_SIZE :: nat where "MBUF_CACHE_SIZE = 250"
definition RSS_KEY_LEN :: nat where "RSS_KEY_LEN = 40"
definition RTE_MAX_ETHPORTS :: nat where [flow_consts]: "RTE_MAX_ETHPORTS = 32"

record application_port_config =
  nb_ports :: int
  nb_queues :: int
  nb_hairpin_q :: int
  rss_support :: bool
  lpbk_support :: bool
  isolated_mode :: bool

record application_sft_config =
  sft_enable :: bool
  enable_ct :: bool
  enable_frag :: bool
  enable_state_hairpin :: bool
  enable_state_drop :: bool

record application_dpdk_config =
  port_config :: application_port_config
  sft_config :: application_sft_config
  reserve_main_thread :: bool

section \<open>Calls\<close>

record rte_flow_action_rss =
  rss_queue_num :: nat
  rss_queue :: "nat list"
  rss_types :: u64
  rss_key_len :: nat
  rss_level :: nat

datatype rte_flow_item =
    ITEM_ETH | ITEM_IPV4 | ITEM_IPV6 | ITEM_UDP | ITEM_TCP | ITEM_END
  | ITEM_SFT bool nat
  | ITEM_IPV4_FRAGMENT u16 u16 u16
  | ITEM_IPV6_FRAGMENT

datatype rte_flow_action =
    ACTION_COUNT | ACTION_DROP | ACTION_END
  | ACTION_SFT nat
  | ACTION_JUMP nat
  | ACTION_RSS rte_flow_action_rss

record rte_flow_rule =
  fr_ingress :: bool
  fr_priority :: nat
  fr_group :: nat
  fr_pattern :: "rte_flow_item list"
  fr_actions :: "rte_flow_action list"

record rte_eth_conf =
  ec_lpbk_mode :: bool
  ec_max_rx_pkt_len :: nat
  ec_rss_key :: "u8 list"
  ec_rss_hf :: "string list"
  ec_mq_rss :: bool
  ec_tx_cksum :: bool

record rte_sft_conf =
  sc_nb_queues :: nat
  sc_nb_max_entries :: nat
  sc_tcp_ct_enable :: bool
  sc_ipfrag_enable :: bool
  sc_reorder_enable :: bool
  sc_default_aging :: nat
  sc_nb_max_ipfrag :: nat
  sc_app_data_len :: nat

record rte_eth_hairpin_conf =
  hc_peer_count :: nat
  hc_manual_bind :: bool
  hc_tx_explicit :: bool
  hc_peer_port :: nat
  hc_peer_queue :: nat

text \<open>A call that creates something answers with its address, 0 being the null pointer.\<close>

datatype lib_call =
    Pool_create string u32 nat nat
  | Metadata_register
  | Dev_info_get nat
  | Dev_configure nat nat nat rte_eth_conf
  | Promiscuous_enable nat
  | Rx_queue_setup nat nat nat nat
  | Tx_queue_setup nat nat nat
  | Tx_hairpin_setup nat nat nat rte_eth_hairpin_conf
  | Rx_hairpin_setup nat nat nat rte_eth_hairpin_conf
  | Flow_isolate nat bool
  | Dev_start nat
  | Dev_stop nat
  | Dev_close nat
  | Hairpin_get_peer_ports nat bool
  | Hairpin_bind nat nat
  | Hairpin_unbind nat nat
  | Flow_validate nat rte_flow_rule
  | Flow_create nat rte_flow_rule
  | Flow_query nat nat
  | Sft_init rte_sft_conf
  | Sft_fini
  | Rss_hash_conf_get nat
  | Eal_init
  | Eal_cleanup
  | Argp_init
  | Argp_start
  | Argp_destroy
  | Doca_flow_init nat string nat
  | Doca_flow_destroy
  | Port_start nat string
  | Port_pair nat nat
  | Port_destroy nat

type_synonym calls = "(lib_call \<times> int) list"

record library =
  answer :: "calls \<Rightarrow> lib_call \<Rightarrow> int"
  is_valid_port :: "calls \<Rightarrow> nat \<Rightarrow> bool"
  peer_ports :: "calls \<Rightarrow> nat \<Rightarrow> bool \<Rightarrow> nat list"
  hit_count :: "calls \<Rightarrow> nat \<Rightarrow> nat \<Rightarrow> u64"
  tx_ipv4_cksum :: "nat \<Rightarrow> bool"
  port_rss_hf :: "nat \<Rightarrow> u64"
  eth_dev_count :: int
  rte_lcore_count :: int

definition do_call :: "library \<Rightarrow> lib_call \<Rightarrow> calls \<Rightarrow> int \<times> calls" where
  "do_call L c tr = (let r = answer L tr c in (r, (c, r) # tr))"

text \<open>A call whose negative result is an error of the driver.\<close>

definition try_call :: "library \<Rightarrow> lib_call \<Rightarrow> calls \<Rightarrow> doca_error \<times> calls" where
  "try_call L c tr = (case do_call L c tr of (r, tr') \<Rightarrow> (if r < 0 then DOCA_ERROR_DRIVER else DOCA_SUCCESS, tr'))"

text \<open>A sequence of steps, and a loop over a list, that are left at the first error.\<close>

definition and_then :: "doca_error \<times> 's \<Rightarrow> ('s \<Rightarrow> doca_error \<times> 's) \<Rightarrow> doca_error \<times> 's" where
  "and_then r f = (case r of (DOCA_SUCCESS, s) \<Rightarrow> f s | (e, s) \<Rightarrow> (e, s))"

fun try_all :: "('x \<Rightarrow> 's \<Rightarrow> doca_error \<times> 's) \<Rightarrow> 'x list \<Rightarrow> 's \<Rightarrow> doca_error \<times> 's" where
  "try_all f [] s = (DOCA_SUCCESS, s)"
| "try_all f (x # xs) s = and_then (f x s) (try_all f xs)"

section \<open>What the calls leave behind\<close>

text \<open>The ports that were started and not closed since.\<close>

fun open_ports :: "calls \<Rightarrow> nat set" where
  "open_ports [] = {}"
| "open_ports ((Dev_start p, r) # tr) = (if r < 0 then open_ports tr else insert p (open_ports tr))"
| "open_ports ((Dev_close p, r) # tr) = open_ports tr - {p}"
| "open_ports (_ # tr) = open_ports tr"

lemma and_then_cases:
  "(\<And>s'. r = (DOCA_SUCCESS, s') \<Longrightarrow> P (f s')) \<Longrightarrow> (\<And>e s'. r = (e, s') \<Longrightarrow> e \<noteq> DOCA_SUCCESS \<Longrightarrow> P (e, s')) \<Longrightarrow> P (and_then r f)"
  by (cases r; cases "fst r") (auto simp: and_then_def)

lemma and_then_success [simp]: "and_then (DOCA_SUCCESS, s) f = f s"
  and and_then_failure: "e \<noteq> DOCA_SUCCESS \<Longrightarrow> and_then (e, s) f = (e, s)"
  by (auto simp: and_then_def split: doca_error.splits)

text \<open>A step that keeps a property of the state keeps it in a loop, whatever its result.\<close>

lemma and_then_keeps: "I (snd r) \<Longrightarrow> (\<And>s. I s \<Longrightarrow> I (snd (f s))) \<Longrightarrow> I (snd (and_then r f))"
  by (rule and_then_cases) auto

lemma try_all_keeps: "(\<And>x s. I s \<Longrightarrow> I (snd (f x s))) \<Longrightarrow> I s \<Longrightarrow> I (snd (try_all f xs s))"
proof (induction xs arbitrary: s)
  case (Cons x xs)
  then show ?case by (auto intro: and_then_keeps)
qed simp

end
