(* ===== verification/Offload_Rules.thy ===== *)
theory Offload_Rules
  imports Dpdk_Device
begin

text \<open>
  The rules of the flow table (\<open>src/src/common/src/offload_rules.c\<close>): which rules every port gets, and the
  totals of their counters. The program builds this file and reaches it when stateful flow tables are enabled.
\<close>

section \<open>Rules\<close>

text \<open>The handles of the rules, by their place in the arrays.\<close>

record application_rules =
  set_jump_to_sft_action :: "nat \<Rightarrow> nat"
  query_hairpin :: "nat \<Rightarrow> nat"
  rss_non_state :: "nat \<Rightarrow> nat"
  hairpin_non_l4 :: "nat \<Rightarrow> nat"
  forward_fragments :: "nat \<Rightarrow> nat"

record dpdk_state =
  dp_calls :: calls
  app_rules :: application_rules

definition lift_call :: "(calls \<Rightarrow> 'r \<times> calls) \<Rightarrow> dpdk_state \<Rightarrow> 'r \<times> dpdk_state" where
  "lift_call f s = (case f (dp_calls s) of (r, tr) \<Rightarrow> (r, s\<lparr>dp_calls := tr\<rparr>))"

text \<open>
  A rule is validated and created; the caller's handle, set by \<open>upd\<close>, is written only when validation succeeds.
\<close>

definition create_rule ::
  "library \<Rightarrow> nat \<Rightarrow> rte_flow_rule \<Rightarrow> (nat \<Rightarrow> application_rules \<Rightarrow> application_rules) \<Rightarrow> dpdk_state \<Rightarrow> doca_error \<times> dpdk_state" where
  "create_rule L port_id rule upd s =
     (case lift_call (do_call L (Flow_validate port_id rule)) s of (ret, s1) \<Rightarrow>
        if ret \<noteq> 0 then (DOCA_ERROR_DRIVER, s1)
        else case lift_call (do_call L (Flow_create port_id rule)) s1 of (h, s2) \<Rightarrow>
          (if nat h \<noteq> 0 then DOCA_SUCCESS else DOCA_ERROR_DRIVER, s2\<lparr>app_rules := upd (nat h) (app_rules s2)\<rparr>))"

definition rule_post_sft :: "rte_flow_action_rss \<Rightarrow> nat \<Rightarrow> rte_flow_rule" where
  "rule_post_sft action_rss sft_state =
     \<lparr>fr_ingress = True, fr_priority = SET_STATE_PRIORITY, fr_group = GROUP_POST_SFT, fr_pattern = [ITEM_SFT True sft_state, ITEM_END],
      fr_actions = [ACTION_COUNT, if sft_state = DROP_FLOW then ACTION_DROP else ACTION_RSS action_rss, ACTION_END]\<rparr>"

definition rule_forward_to_sft :: "rte_flow_item list \<Rightarrow> rte_flow_rule" where
  "rule_forward_to_sft pattern =
     \<lparr>fr_ingress = True, fr_priority = JUMP_TO_SFT_PRIORITY, fr_group = INITIAL_GROUP, fr_pattern = pattern,
      fr_actions = [ACTION_COUNT, ACTION_SFT 0xcafe, ACTION_JUMP GROUP_POST_SFT, ACTION_END]\<rparr>"

definition rule_forward_l4 :: "rte_flow_item \<Rightarrow> rte_flow_item \<Rightarrow> rte_flow_rule" where
  "rule_forward_l4 l3_protocol l4_protocol = rule_forward_to_sft [ITEM_ETH, l3_protocol, l4_protocol, ITEM_END]"

definition rule_forward_fragments :: "rte_flow_item \<Rightarrow> rte_flow_rule" where
  "rule_forward_fragments l3_protocol =
     rule_forward_to_sft
       [ITEM_ETH, if l3_protocol = ITEM_IPV4 then ITEM_IPV4_FRAGMENT (bswap16 1) (bswap16 0x3fff) (bswap16 0x3fff) else ITEM_IPV6_FRAGMENT, ITEM_END]"

definition rule_action_rss :: "rte_flow_action_rss \<Rightarrow> nat \<Rightarrow> nat \<Rightarrow> rte_flow_rule" where
  "rule_action_rss action_rss prio grp =
     \<lparr>fr_ingress = True, fr_priority = prio, fr_group = grp, fr_pattern = [ITEM_ETH, ITEM_END],
      fr_actions = [ACTION_COUNT, ACTION_RSS action_rss, ACTION_END]\<rparr>"

definition rule_hairpin_non_l4 :: "rte_flow_action_rss \<Rightarrow> rte_flow_rule" where
  "rule_hairpin_non_l4 action_rss = rule_action_rss action_rss HAIRPIN_NON_L4_PRIORITY INITIAL_GROUP"

definition rule_rss_post_sft :: "rte_flow_action_rss \<Rightarrow> rte_flow_rule" where
  "rule_rss_post_sft action_rss = rule_action_rss action_rss SFT_TO_RSS_PRIORITY GROUP_POST_SFT"

text \<open>The rules of a port with the places of their handles, in the order in which they are created.\<close>

definition port_rules ::
  "application_sft_config \<Rightarrow> rte_flow_action_rss \<Rightarrow> rte_flow_action_rss \<Rightarrow> nat
     \<Rightarrow> (rte_flow_rule \<times> (nat \<Rightarrow> application_rules \<Rightarrow> application_rules)) list" where
  "port_rules cfg rss hairpin p =
     [(rule_forward_l4 ITEM_IPV4 ITEM_UDP, \<lambda>h r. r\<lparr>set_jump_to_sft_action := (set_jump_to_sft_action r)(p := h)\<rparr>),
      (rule_forward_l4 ITEM_IPV4 ITEM_TCP, \<lambda>h r. r\<lparr>set_jump_to_sft_action := (set_jump_to_sft_action r)(p + 2 := h)\<rparr>),
      (rule_forward_l4 ITEM_IPV6 ITEM_UDP, \<lambda>h r. r\<lparr>set_jump_to_sft_action := (set_jump_to_sft_action r)(p + 4 := h)\<rparr>),
      (rule_forward_l4 ITEM_IPV6 ITEM_TCP, \<lambda>h r. r\<lparr>set_jump_to_sft_action := (set_jump_to_sft_action r)(p + 6 := h)\<rparr>),
      (rule_rss_post_sft rss, \<lambda>h r. r\<lparr>rss_non_state := (rss_non_state r)(p := h)\<rparr>),
      (rule_hairpin_non_l4 hairpin, \<lambda>h r. r\<lparr>hairpin_non_l4 := (hairpin_non_l4 r)(p := h)\<rparr>)] @
     (if enable_state_hairpin cfg
      then [(rule_post_sft hairpin HAIRPIN_MATCHED_FLOW, \<lambda>h r. r\<lparr>query_hairpin := (query_hairpin r)(p := h)\<rparr>)] else []) @
     (if enable_state_drop cfg
      then [(rule_post_sft hairpin DROP_FLOW, \<lambda>h r. r\<lparr>query_hairpin := (query_hairpin r)(p + 2 := h)\<rparr>)] else []) @
     (if enable_frag cfg
      then [(rule_forward_fragments ITEM_IPV4, \<lambda>h r. r\<lparr>forward_fragments := (forward_fragments r)(p := h)\<rparr>),
            (rule_forward_fragments ITEM_IPV6, \<lambda>h r. r\<lparr>forward_fragments := (forward_fragments r)(p + 2 := h)\<rparr>)] else [])"

definition create_rules_sft_offload ::
  "library \<Rightarrow> application_dpdk_config \<Rightarrow> rte_flow_action_rss \<Rightarrow> rte_flow_action_rss \<Rightarrow> dpdk_state \<Rightarrow> doca_error \<times> dpdk_state" where
  "create_rules_sft_offload L cfg rss hairpin s =
     (let nb = unat (of_int (nb_ports (port_config cfg)) :: u8) in
      if SFT_PORTS_NUM < nb then (DOCA_ERROR_INVALID_VALUE, s)
      else try_all (\<lambda>p. try_all (\<lambda>(rule, upd). create_rule L p rule upd) (port_rules (sft_config cfg) rss hairpin p)) [0..<nb] s)"

section \<open>Counters\<close>

record totals =
  total_ingress :: u64
  total_rss :: u64
  total_dropped :: u64
  total_egress :: u64
  total_ingress_non_l4 :: u64
  total_fragments :: u64

text \<open>
  A loop of queries. \<open>count\<close> is the variable the library fills in; it keeps the value of the query before
  when a query fails. \<open>good\<close> and \<open>bad\<close> add to the totals.
\<close>

fun query_flows ::
  "library \<Rightarrow> (nat \<Rightarrow> nat) \<Rightarrow> (nat \<Rightarrow> nat) \<Rightarrow> (nat \<Rightarrow> u64 \<Rightarrow> totals \<Rightarrow> totals) \<Rightarrow> (u64 \<Rightarrow> totals \<Rightarrow> totals) \<Rightarrow> nat list
     \<Rightarrow> u64 \<times> totals \<times> calls \<Rightarrow> u64 \<times> totals \<times> calls" where
  "query_flows L port_of handle good bad [] st = st"
| "query_flows L port_of handle good bad (i # is) (count, t, tr) =
     (case do_call L (Flow_query (port_of i) (handle i)) tr of (r, tr') \<Rightarrow>
        query_flows L port_of handle good bad is
          (if r \<noteq> 0 then (count, bad count t, tr')
           else let hits = hit_count L tr (port_of i) (handle i) in (hits, good i hits t, tr')))"

definition print_offload_rules_counter :: "library \<Rightarrow> application_rules \<Rightarrow> calls \<Rightarrow> totals \<times> calls" where
  "print_offload_rules_counter L r tr =
     (let parity = (\<lambda>i. i mod 2);
          ingress = (\<lambda>c t. t\<lparr>total_ingress := total_ingress t + c\<rparr>);
          st = (0, \<lparr>total_ingress = 0, total_rss = 0, total_dropped = 0, total_egress = 0, total_ingress_non_l4 = 0, total_fragments = 0\<rparr>, tr);
          st = query_flows L parity (set_jump_to_sft_action r) (\<lambda>i. ingress) (\<lambda>c t. t) [0..<4] st;
          st = query_flows L parity (set_jump_to_sft_action r) (\<lambda>i. ingress) ingress [4..<8] st;
          st = query_flows L (\<lambda>i. i) (hairpin_non_l4 r)
                 (\<lambda>i c t. t\<lparr>total_ingress := total_ingress t + c, total_ingress_non_l4 := total_ingress_non_l4 t + c\<rparr>) (\<lambda>c t. t) [0..<2] st;
          st = query_flows L parity (query_hairpin r)
                 (\<lambda>i c t. if i < 2 then t\<lparr>total_egress := total_egress t + c\<rparr> else t\<lparr>total_dropped := total_dropped t + c\<rparr>) (\<lambda>c t. t) [0..<4] st;
          st = query_flows L (\<lambda>i. i) (rss_non_state r) (\<lambda>i c t. t\<lparr>total_rss := total_rss t + c\<rparr>) (\<lambda>c t. t) [0..<2] st;
          st = (if forward_fragments r 0 \<noteq> 0
                then query_flows L parity (forward_fragments r)
                       (\<lambda>i c t. t\<lparr>total_fragments := total_fragments t + c, total_ingress := total_ingress t + c\<rparr>) (\<lambda>c t. t) [0..<4] st
                else st)
      in (fst (snd st), snd (snd st)))"

end
