(* ===== verification/Dpdk.thy ===== *)
theory Dpdk
  imports Offload_Rules
begin

text \<open>
  Ports and queues (\<open>src/src/common/src/dpdk_utils.c\<close>): configuring and starting the Ethernet ports, binding
  their hairpin queues, and giving everything back. \<open>GPU_SUPPORT\<close> is not defined.
\<close>

abbreviation io :: "library \<Rightarrow> lib_call \<Rightarrow> dpdk_state \<Rightarrow> int \<times> dpdk_state" where
  "io L c \<equiv> lift_call (do_call L c)"

abbreviation try_io :: "library \<Rightarrow> lib_call \<Rightarrow> dpdk_state \<Rightarrow> doca_error \<times> dpdk_state" where
  "try_io L c \<equiv> lift_call (try_call L c)"

abbreviation valid_now :: "library \<Rightarrow> dpdk_state \<Rightarrow> nat \<Rightarrow> bool" where
  "valid_now L s p \<equiv> is_valid_port L (dp_calls s) p"

section \<open>Hairpin queues\<close>

text \<open>The peers of a port, then a call for each of them; \<open>dir\<close> is 1 for the receiving peers.\<close>

definition for_peers ::
  "library \<Rightarrow> nat \<Rightarrow> bool \<Rightarrow> (nat \<Rightarrow> lib_call) \<Rightarrow> dpdk_state \<Rightarrow> doca_error \<times> dpdk_state" where
  "for_peers L port_id dir c s =
     (case io L (Hairpin_get_peer_ports port_id dir) s of (len, s1) \<Rightarrow>
        if len < 0 then (DOCA_ERROR_DRIVER, s1)
        else try_all (\<lambda>peer. try_io L (c peer)) (take (nat len) (peer_ports L (dp_calls s) port_id dir)) s1)"

definition bind_hairpin_queues :: "library \<Rightarrow> nat \<Rightarrow> dpdk_state \<Rightarrow> doca_error \<times> dpdk_state" where
  "bind_hairpin_queues L port_id s =
     and_then (for_peers L port_id True (\<lambda>peer. Hairpin_bind port_id peer) s)
       (for_peers L port_id False (\<lambda>peer. Hairpin_bind peer port_id))"

definition unbind_hairpin_queues :: "library \<Rightarrow> nat \<Rightarrow> dpdk_state \<Rightarrow> doca_error \<times> dpdk_state" where
  "unbind_hairpin_queues L port_id s =
     and_then (for_peers L port_id True (\<lambda>peer. Hairpin_unbind port_id peer) s)
       (for_peers L port_id False (\<lambda>peer. Hairpin_unbind peer port_id))"

definition setup_hairpin_queues :: "library \<Rightarrow> nat \<Rightarrow> nat \<Rightarrow> nat list \<Rightarrow> dpdk_state \<Rightarrow> doca_error \<times> dpdk_state" where
  "setup_hairpin_queues L port_id peer_port_id queues s =
     try_all (\<lambda>q s.
         let conf = \<lparr>hc_peer_count = 1, hc_manual_bind = True, hc_tx_explicit = True, hc_peer_port = peer_port_id, hc_peer_queue = q\<rparr>
         in and_then (try_io L (Tx_hairpin_setup port_id q 2048 conf) s) (try_io L (Rx_hairpin_setup port_id q 2048 conf)))
       queues s"

text \<open>Failures are only logged.\<close>

fun disable_loop :: "library \<Rightarrow> nat list \<Rightarrow> dpdk_state \<Rightarrow> dpdk_state" where
  "disable_loop L [] s = s"
| "disable_loop L (p # ps) s =
     disable_loop L ps (if \<not> valid_now L s p then s else snd (unbind_hairpin_queues L p s))"

definition disable_hairpin_queues :: "library \<Rightarrow> nat \<Rightarrow> dpdk_state \<Rightarrow> dpdk_state" where
  "disable_hairpin_queues L n = disable_loop L [0..<n]"

text \<open>The loop over all device numbers, with the count \<open>n\<close> of the valid ones.\<close>

fun enable_loop :: "library \<Rightarrow> nat \<Rightarrow> nat list \<Rightarrow> nat \<Rightarrow> dpdk_state \<Rightarrow> doca_error \<times> dpdk_state" where
  "enable_loop L nb [] n s = (DOCA_SUCCESS, s)"
| "enable_loop L nb (p # ps) n s =
     (if \<not> valid_now L s p then enable_loop L nb ps n s
      else case bind_hairpin_queues L p s of
        (DOCA_SUCCESS, s1) \<Rightarrow> (if nb \<le> n + 1 then (DOCA_SUCCESS, s1) else enable_loop L nb ps (n + 1) s1)
      | (e, s1) \<Rightarrow> (e, disable_hairpin_queues L p s1))"

definition enable_hairpin_queues :: "library \<Rightarrow> nat \<Rightarrow> dpdk_state \<Rightarrow> doca_error \<times> dpdk_state" where
  "enable_hairpin_queues L nb = enable_loop L nb [0..<RTE_MAX_ETHPORTS] 0"

section \<open>Stateful flow tables\<close>

definition action_rss_of :: "nat list \<Rightarrow> u64 \<Rightarrow> rte_flow_action_rss" where
  "action_rss_of queues hf = \<lparr>rss_queue_num = length queues, rss_queue = queues, rss_types = hf, rss_key_len = RSS_KEY_LEN, rss_level = 0\<rparr>"

text \<open>\<open>ip_hf\<close> is the mask \<open>ETH_RSS_IP\<close> of DPDK.\<close>

definition dpdk_sft_init :: "library \<Rightarrow> u64 \<Rightarrow> application_dpdk_config \<Rightarrow> dpdk_state \<Rightarrow> doca_error \<times> dpdk_state" where
  "dpdk_sft_init L ip_hf cfg s =
     (let nb_queues = unat (of_int (nb_queues (port_config cfg)) :: u8);
          nb_hairpin_q = unat (of_int (nb_hairpin_q (port_config cfg)) :: u8);
          conf = \<lparr>sc_nb_queues = nb_queues, sc_nb_max_entries = 2 ^ 20, sc_tcp_ct_enable = enable_ct (sft_config cfg), sc_ipfrag_enable = enable_frag (sft_config cfg),
                  sc_reorder_enable = True, sc_default_aging = 60, sc_nb_max_ipfrag = 4096, sc_app_data_len = 1\<rparr>
      in case io L (Sft_init conf) s of (ret, s1) \<Rightarrow>
         if ret < 0 then (DOCA_ERROR_DRIVER, s1)
         else case io L (Rss_hash_conf_get 0) s1 of (ret, s2) \<Rightarrow>
           if ret < 0 then (DOCA_ERROR_DRIVER, snd (io L Sft_fini s2))
           else
             let hf = (if enable_frag (sft_config cfg) then ip_hf else port_rss_hf L 0)
             in create_rules_sft_offload L cfg (action_rss_of [0..<nb_queues] hf) (action_rss_of (map (\<lambda>i. nb_queues + i) [0..<nb_hairpin_q]) hf) s2)"

section \<open>Ports\<close>

definition allocate_mempool :: "library \<Rightarrow> u32 \<Rightarrow> dpdk_state \<Rightarrow> (doca_error \<times> nat) \<times> dpdk_state" where
  "allocate_mempool L total_nb_mbufs s =
     (case io L (Pool_create ''MBUF_POOL'' total_nb_mbufs MBUF_CACHE_SIZE 0) s of (pool, s1) \<Rightarrow>
        ((if nat pool = 0 then DOCA_ERROR_DRIVER else DOCA_SUCCESS, nat pool), s1))"

definition symmetric_hash_key :: "u8 list" where
  "symmetric_hash_key = concat (replicate 20 [0x6D, 0x5A])"

definition port_conf_of :: "library \<Rightarrow> application_port_config \<Rightarrow> nat \<Rightarrow> rte_eth_conf" where
  "port_conf_of L cfg port =
     \<lparr>ec_lpbk_mode = lpbk_support cfg, ec_max_rx_pkt_len = 1518, ec_rss_key = symmetric_hash_key, ec_rss_hf = [''IP'', ''UDP'', ''TCP''],
      ec_mq_rss = (rss_support cfg \<and> nb_queues cfg > 1), ec_tx_cksum = tx_ipv4_cksum L port\<rparr>"

definition port_init :: "library \<Rightarrow> nat \<Rightarrow> nat \<Rightarrow> application_dpdk_config \<Rightarrow> dpdk_state \<Rightarrow> doca_error \<times> dpdk_state" where
  "port_init L mbuf_pool port cfg s =
     (let pc = port_config cfg;
          hairpins = unat (of_int (nb_hairpin_q pc) :: u16);
          rings = unat (of_int (nb_queues pc) :: u16);
          queues = unat (of_int (nb_queues pc + int hairpins) :: u16);
          rss_queue_list = map (\<lambda>i. unat (of_int (nb_queues pc + int i) :: u16)) [0..<hairpins]
      in and_then (try_io L (Dev_info_get port) s) (\<lambda>s.
         and_then (try_io L (Dev_configure port queues queues (port_conf_of L pc port)) s) (\<lambda>s.
         and_then (try_io L (Promiscuous_enable port) s) (\<lambda>s.
         and_then (try_all (\<lambda>q. try_io L (Rx_queue_setup port q RX_RING_SIZE mbuf_pool)) [0..<rings] s) (\<lambda>s.
         and_then (try_all (\<lambda>q. try_io L (Tx_queue_setup port q TX_RING_SIZE)) [0..<rings] s) (\<lambda>s.
         and_then (if hairpins \<noteq> 0
                   then setup_hairpin_queues L port (if valid_now L s (port XOR 1) then port XOR 1 else port) rss_queue_list s
                   else (DOCA_SUCCESS, s)) (\<lambda>s.
         and_then (try_io L (Flow_isolate port (isolated_mode pc)) s)
                  (try_io L (Dev_start port))))))))) "

text \<open>The results of stopping and closing are only logged.\<close>

fun ports_fini_loop :: "library \<Rightarrow> int \<Rightarrow> nat list \<Rightarrow> int \<Rightarrow> dpdk_state \<Rightarrow> dpdk_state" where
  "ports_fini_loop L nb [] n s = s"
| "ports_fini_loop L nb (p # ps) n s =
     (if \<not> valid_now L s p then ports_fini_loop L nb ps n s
      else
        let s1 = snd (io L (Dev_close p) (snd (io L (Dev_stop p) s)))
        in if nb \<le> n + 1 then s1 else ports_fini_loop L nb ps (n + 1) s1)"

definition dpdk_ports_fini :: "library \<Rightarrow> application_dpdk_config \<Rightarrow> nat \<Rightarrow> dpdk_state \<Rightarrow> dpdk_state" where
  "dpdk_ports_fini L cfg n = ports_fini_loop L (nb_ports (port_config cfg)) [0..<n] 0"

fun ports_init_loop :: "library \<Rightarrow> application_dpdk_config \<Rightarrow> nat \<Rightarrow> nat list \<Rightarrow> nat \<Rightarrow> dpdk_state \<Rightarrow> doca_error \<times> dpdk_state" where
  "ports_init_loop L cfg pool [] n s = (DOCA_SUCCESS, s)"
| "ports_init_loop L cfg pool (p # ps) n s =
     (if \<not> valid_now L s p then ports_init_loop L cfg pool ps n s
      else case port_init L pool p cfg s of
        (DOCA_SUCCESS, s1) \<Rightarrow>
          (if unat (of_int (nb_ports (port_config cfg)) :: u16) \<le> n + 1 then (DOCA_SUCCESS, s1) else ports_init_loop L cfg pool ps (n + 1) s1)
      | (e, s1) \<Rightarrow> (e, dpdk_ports_fini L cfg p s1))"

definition dpdk_ports_init :: "library \<Rightarrow> application_dpdk_config \<Rightarrow> dpdk_state \<Rightarrow> doca_error \<times> dpdk_state" where
  "dpdk_ports_init L cfg s =
     (let pc = port_config cfg;
          nb = unat (of_int (nb_ports pc) :: u16)
      in case allocate_mempool L (of_int (nb_queues pc * int nb * NUM_MBUFS)) s of ((res, pool), s1) \<Rightarrow>
         and_then (res, s1) (\<lambda>s1. and_then (try_io L Metadata_register s1) (ports_init_loop L cfg pool [0..<RTE_MAX_ETHPORTS] 0)))"

text \<open>The steps with the labels they jump to on an error, then the whole function.\<close>

definition bring_up :: "library \<Rightarrow> u64 \<Rightarrow> application_dpdk_config \<Rightarrow> dpdk_state \<Rightarrow> doca_error \<times> dpdk_state" where
  "bring_up L ip_hf cfg s =
     (case dpdk_ports_init L cfg s of
        (DOCA_SUCCESS, s1) \<Rightarrow>
          (case (if nb_hairpin_q (port_config cfg) > 0
                 then enable_hairpin_queues L (unat (of_int (nb_ports (port_config cfg)) :: u8)) s1 else (DOCA_SUCCESS, s1)) of
             (DOCA_SUCCESS, s2) \<Rightarrow>
               (case (if sft_enable (sft_config cfg) then dpdk_sft_init L ip_hf cfg s2 else (DOCA_SUCCESS, s2)) of
                  (DOCA_SUCCESS, s3) \<Rightarrow> (DOCA_SUCCESS, s3)
                | (e, s3) \<Rightarrow> (e, dpdk_ports_fini L cfg RTE_MAX_ETHPORTS (disable_hairpin_queues L RTE_MAX_ETHPORTS s3)))
           | (e, s2) \<Rightarrow> (e, dpdk_ports_fini L cfg RTE_MAX_ETHPORTS s2))
      | (e, s1) \<Rightarrow> (e, s1))"

definition dpdk_queues_and_ports_init ::
  "library \<Rightarrow> u64 \<Rightarrow> application_dpdk_config \<Rightarrow> dpdk_state \<Rightarrow> doca_error \<times> application_dpdk_config \<times> dpdk_state" where
  "dpdk_queues_and_ports_init L ip_hf cfg s =
     (let pc = port_config cfg in
      if nb_ports pc > 0 \<and> eth_dev_count L < nb_ports pc then (DOCA_ERROR_DRIVER, cfg, s)
      else if nb_queues pc > 0 \<and> rte_lcore_count L < nb_queues pc then (DOCA_ERROR_DRIVER, cfg, s)
      else
        let cfg1 = cfg\<lparr>port_config := pc\<lparr>nb_queues := rte_lcore_count L - (if reserve_main_thread cfg then 1 else 0)\<rparr>\<rparr>
        in case bring_up L ip_hf cfg1 s of (e, s1) \<Rightarrow> (e, cfg1, s1))"

definition dpdk_queues_and_ports_fini :: "library \<Rightarrow> application_dpdk_config \<Rightarrow> dpdk_state \<Rightarrow> dpdk_state" where
  "dpdk_queues_and_ports_fini L cfg s =
     dpdk_ports_fini L cfg RTE_MAX_ETHPORTS (disable_hairpin_queues L RTE_MAX_ETHPORTS
       (if sft_enable (sft_config cfg)
        then snd (io L Sft_fini (snd (lift_call (print_offload_rules_counter L (app_rules s)) s)))
        else s))"

definition dpdk_init :: "library \<Rightarrow> dpdk_state \<Rightarrow> doca_error \<times> dpdk_state" where
  "dpdk_init L = try_io L Eal_init"

definition dpdk_fini :: "library \<Rightarrow> dpdk_state \<Rightarrow> dpdk_state" where
  "dpdk_fini L s = snd (io L Eal_cleanup s)"

end
