(* ===== verification/Env.thy ===== *)
theory Env
  imports Dpdk Message
begin

text \<open>
  The start and the end of every application (\<open>src/src/flowQoS_env.c\<close>): arguments, DPDK ports, DOCA-Flow with
  its two ports, and the rings of messages.
\<close>

definition EXIT_FAILURE :: int where "EXIT_FAILURE = 1"

definition dpdk_config_init :: application_dpdk_config where
  "dpdk_config_init =
     \<lparr>port_config = \<lparr>nb_ports = 2, nb_queues = 1, nb_hairpin_q = 1, rss_support = False, lpbk_support = False, isolated_mode = False\<rparr>,
      sft_config = \<lparr>sft_enable = False, enable_ct = False, enable_frag = False, enable_state_hairpin = False, enable_state_drop = False\<rparr>,
      reserve_main_thread = False\<rparr>"

text \<open>\<open>ports\<close> holds the two pointers, 0 when null; \<open>ev_msg\<close> is the state of the messages and of the registered tasks.\<close>

record 'm env_state =
  ports :: "nat \<Rightarrow> nat"
  dpdk_config :: application_dpdk_config
  ev_dpdk :: dpdk_state
  ev_msg :: 'm

abbreviation ev_calls :: "'m env_state \<Rightarrow> calls" where
  "ev_calls s \<equiv> dp_calls (ev_dpdk s)"

definition env_call :: "library \<Rightarrow> lib_call \<Rightarrow> 'm env_state \<Rightarrow> int \<times> 'm env_state" where
  "env_call L c s = (case io L c (ev_dpdk s) of (r, d) \<Rightarrow> (r, s\<lparr>ev_dpdk := d\<rparr>))"

section \<open>DOCA-Flow and its ports\<close>

definition init_doca_flow :: "library \<Rightarrow> nat \<Rightarrow> string \<Rightarrow> nat \<Rightarrow> 'm env_state \<Rightarrow> int \<times> 'm env_state" where
  "init_doca_flow L queues mode_args nb_counters = env_call L (Doca_flow_init queues mode_args nb_counters)"

text \<open>The device argument is the number of the port in decimal.\<close>

definition create_doca_flow_port :: "library \<Rightarrow> nat \<Rightarrow> 'm env_state \<Rightarrow> nat \<times> 'm env_state" where
  "create_doca_flow_port L port_id s = (case env_call L (Port_start port_id (dec port_id)) s of (r, s') \<Rightarrow> (nat r, s'))"

fun destroy_loop :: "library \<Rightarrow> nat list \<Rightarrow> 'm env_state \<Rightarrow> 'm env_state" where
  "destroy_loop L [] s = s"
| "destroy_loop L (p # ps) s = destroy_loop L ps (if ports s p \<noteq> 0 then snd (env_call L (Port_destroy (ports s p)) s) else s)"

definition destroy_doca_flow_ports :: "library \<Rightarrow> nat \<Rightarrow> 'm env_state \<Rightarrow> 'm env_state" where
  "destroy_doca_flow_ports L nb = destroy_loop L [0..<nb]"

fun init_ports_loop :: "library \<Rightarrow> bool \<Rightarrow> nat list \<Rightarrow> 'm env_state \<Rightarrow> int \<times> 'm env_state" where
  "init_ports_loop L is_hairpin [] s = (0, s)"
| "init_ports_loop L is_hairpin (p # ps) s =
     (case create_doca_flow_port L p s of (h, s1) \<Rightarrow>
        let s2 = s1\<lparr>ports := (ports s1)(p := h)\<rparr> in
        if h = 0 then (-1, destroy_doca_flow_ports L (p + 1) s2)
        else if \<not> is_hairpin \<or> even p then init_ports_loop L is_hairpin ps s2
        else case env_call L (Port_pair (ports s2 p) (ports s2 (p XOR 1))) s2 of (ret, s3) \<Rightarrow>
          (if ret < 0 then (-1, destroy_doca_flow_ports L (p + 1) s3) else init_ports_loop L is_hairpin ps s3))"

definition init_doca_flow_ports :: "library \<Rightarrow> nat \<Rightarrow> bool \<Rightarrow> 'm env_state \<Rightarrow> int \<times> 'm env_state" where
  "init_doca_flow_ports L nb is_hairpin = init_ports_loop L is_hairpin [0..<nb]"

section \<open>The environment\<close>

text \<open>
  \<open>msg_init\<close> is \<open>flowQoS_message_init\<close> with the parameters of its own. The library of the arguments calls
  \<open>dpdk_init\<close> while it starts; its result is part of the answer to \<^const>\<open>Argp_start\<close>.
\<close>

definition flowQoS_env_init ::
  "library \<Rightarrow> u64 \<Rightarrow> ('m \<Rightarrow> (int \<times> 'm) option) \<Rightarrow> 'm env_state \<Rightarrow> (int \<times> 'm env_state) option" where
  "flowQoS_env_init L ip_hf msg_init s =
     (case env_call L Argp_init s of (r, s) \<Rightarrow>
      if r \<noteq> 0 then Some (EXIT_FAILURE, s)
      else case env_call L Argp_start s of (r, s) \<Rightarrow>
      if r \<noteq> 0 then Some (EXIT_FAILURE, snd (env_call L Argp_destroy s))
      else case dpdk_queues_and_ports_init L ip_hf (dpdk_config s) (ev_dpdk s) of (res, cfg, d) \<Rightarrow>
      let s = s\<lparr>dpdk_config := cfg, ev_dpdk := d\<rparr> in
      if res \<noteq> DOCA_SUCCESS then Some (EXIT_FAILURE, snd (env_call L Argp_destroy (s\<lparr>ev_dpdk := dpdk_fini L (ev_dpdk s)\<rparr>)))
      else case init_doca_flow L (nat (nb_queues (port_config (dpdk_config s)))) ''vnf'' 80 s of (r, s) \<Rightarrow>
      if r < 0 then Some (EXIT_FAILURE, s)
      else case init_doca_flow_ports L NB_PORTS True s of (r, s) \<Rightarrow>
      if r \<noteq> 0 then Some (EXIT_FAILURE, snd (env_call L Doca_flow_destroy s))
      else map_option (\<lambda>(r, ms). (if r = 0 then EXIT_FAILURE else 0, s\<lparr>ev_msg := ms\<rparr>)) (msg_init (ev_msg s)))"

definition flowQoS_env_destroy :: "library \<Rightarrow> 'm env_state \<Rightarrow> 'm env_state" where
  "flowQoS_env_destroy L s =
     (let s = snd (env_call L Doca_flow_destroy (destroy_doca_flow_ports L NB_PORTS s));
          s = s\<lparr>ev_dpdk := dpdk_fini L (dpdk_queues_and_ports_fini L (dpdk_config s) (ev_dpdk s))\<rparr>
      in snd (env_call L Argp_destroy s))"

end
