(* ===== verification/Dpdk_Props.thy ===== *)
theory Dpdk_Props
  imports Dpdk
begin

text \<open>
  Which Ethernet ports are open after \<open>dpdk_queues_and_ports_init\<close>, on success and on every failure, and after
  \<open>dpdk_queues_and_ports_fini\<close>.
\<close>

section \<open>What the steps keep\<close>

text \<open>All calls but those that open or close an Ethernet port or a DOCA-Flow port.\<close>

fun quiet :: "lib_call \<Rightarrow> bool" where
  "quiet (Dev_start p) = False"
| "quiet (Dev_close p) = False"
| "quiet (Port_start p a) = False"
| "quiet (Port_destroy h) = False"
| "quiet c = True"

locale quiet_steps =
  fixes L :: library and I :: "dpdk_state \<Rightarrow> bool"
  assumes io_step: "quiet c \<Longrightarrow> I s \<Longrightarrow> I (snd (io L c s))"
    and rules_step: "I s \<Longrightarrow> I (s\<lparr>app_rules := r\<rparr>)"
begin

lemmas keeps = try_all_keeps [where I = I] and_then_keeps [where I = I]

lemma try_step: "quiet c \<Longrightarrow> I s \<Longrightarrow> I (snd (try_io L c s))"
  using io_step [of c s] by (simp add: lift_call_def try_call_def do_call_def Let_def)

lemma io_eq: "io L c s = (r, s') \<Longrightarrow> quiet c \<Longrightarrow> I s \<Longrightarrow> I s'"
  using io_step [of c s] by simp

lemma for_peers_step: "(\<And>q. quiet (c q)) \<Longrightarrow> I s \<Longrightarrow> I (snd (for_peers L p d c s))"
  unfolding for_peers_def by (auto split: prod.splits intro!: keeps try_step dest!: io_eq)

lemma hairpin_step:
  "I s \<Longrightarrow> I (snd (bind_hairpin_queues L p s))"
  "I s \<Longrightarrow> I (snd (unbind_hairpin_queues L p s))"
  unfolding bind_hairpin_queues_def unbind_hairpin_queues_def by (auto intro!: keeps for_peers_step)

lemma setup_hairpin_step: "I s \<Longrightarrow> I (snd (setup_hairpin_queues L p q qs s))"
  unfolding setup_hairpin_queues_def Let_def by (auto intro!: keeps try_step)

lemma disable_step: "I s \<Longrightarrow> I (disable_hairpin_queues L n s)"
proof -
  have "I s \<Longrightarrow> I (disable_loop L ps s)" for ps
    by (induction ps arbitrary: s) (auto intro: hairpin_step)
  then show "I s \<Longrightarrow> I (disable_hairpin_queues L n s)" by (simp add: disable_hairpin_queues_def)
qed

lemma enable_step: "I s \<Longrightarrow> I (snd (enable_hairpin_queues L nb s))"
proof -
  have "I s \<Longrightarrow> I (snd (enable_loop L nb ps n s))" for ps n
  proof (induction ps arbitrary: n s)
    case (Cons p ps)
    obtain e s1 where b: "bind_hairpin_queues L p s = (e, s1)" by fastforce
    with hairpin_step(1) [OF Cons.prems, of p] have "I s1" by simp
    then show ?case using Cons b by (cases e) (simp_all add: disable_step)
  qed simp
  then show "I s \<Longrightarrow> I (snd (enable_hairpin_queues L nb s))" by (simp add: enable_hairpin_queues_def)
qed

lemma create_rule_step: "I s \<Longrightarrow> I (snd (create_rule L p rule upd s))"
  unfolding create_rule_def by (auto split: prod.splits dest!: io_eq) (simp add: rules_step)+

lemma create_rules_step: "I s \<Longrightarrow> I (snd (create_rules_sft_offload L cfg rss hp s))"
  unfolding create_rules_sft_offload_def Let_def by (auto split: prod.splits intro!: keeps create_rule_step)

lemma sft_init_step:
  assumes "I s"
  shows "I (snd (dpdk_sft_init L hf cfg s))"
proof -
  define conf where "conf = \<lparr>sc_nb_queues = unat (of_int (nb_queues (port_config cfg)) :: u8), sc_nb_max_entries = 2 ^ 20, sc_tcp_ct_enable = enable_ct (sft_config cfg),
     sc_ipfrag_enable = enable_frag (sft_config cfg), sc_reorder_enable = True, sc_default_aging = 60, sc_nb_max_ipfrag = 4096, sc_app_data_len = 1\<rparr>"
  obtain r s1 r2 s2 where io: "io L (Sft_init conf) s = (r, s1)" "io L (Rss_hash_conf_get 0) s1 = (r2, s2)" by (metis surj_pair)
  have s1: "I s1" using io_eq [OF io(1) _ assms] by simp
  have s2: "I s2" using io_eq [OF io(2) _ s1] by simp
  show ?thesis unfolding dpdk_sft_init_def Let_def conf_def [symmetric] io(1)
    using s1 io(2) create_rules_step [OF s2] io_step [OF _ s2, of Sft_fini] by simp
qed

lemma print_step:
  assumes "I s"
  shows "I (snd (lift_call (print_offload_rules_counter L r) s))"
proof -
  have query: "I (s\<lparr>dp_calls := snd (snd st)\<rparr>) \<Longrightarrow> I (s\<lparr>dp_calls := snd (snd (query_flows L po h good bad is st))\<rparr>)" for po h good bad "is" st
  proof (induction "is" arbitrary: st)
    case (Cons i "is")
    obtain c t tr where st: "st = (c, t, tr)" by (metis prod_cases3)
    have "I (s\<lparr>dp_calls := snd (do_call L (Flow_query (po i) (h i)) tr)\<rparr>)"
      using io_step [of "Flow_query (po i) (h i)" "s\<lparr>dp_calls := tr\<rparr>"] Cons.prems by (simp add: st lift_call_def split_beta)
    with Cons.IH show ?case by (simp add: st split_beta Let_def)
  qed simp
  show ?thesis unfolding lift_call_def print_offload_rules_counter_def Let_def
    by (simp add: split_beta del: upt_rec_numeral) (intro conjI impI query; simp add: assms)
qed

end

text \<open>A property that opening and closing an Ethernet port keep as well.\<close>

locale port_steps = quiet_steps +
  assumes start_step: "I s \<Longrightarrow> I (snd (io L (Dev_start p) s))"
    and close_step: "I s \<Longrightarrow> I (snd (io L (Dev_close p) s))"
begin

lemma try_start_step: "I s \<Longrightarrow> I (snd (try_io L (Dev_start p) s))"
  using start_step [of s p] by (simp add: lift_call_def try_call_def do_call_def Let_def)

lemma port_init_step: "I s \<Longrightarrow> I (snd (port_init L pool p cfg s))"
  unfolding port_init_def Let_def by (auto intro!: keeps try_step try_start_step setup_hairpin_step)

lemma ports_fini_step: "I s \<Longrightarrow> I (dpdk_ports_fini L cfg n s)"
proof -
  have "I s \<Longrightarrow> I (ports_fini_loop L nb ps k s)" for nb ps k
  proof (induction ps arbitrary: k s)
    case (Cons p ps)
    have "I (snd (io L (Dev_close p) (snd (io L (Dev_stop p) s))))" by (rule close_step, rule io_step) (simp_all add: Cons.prems)
    then show ?case using Cons by (simp add: Let_def)
  qed simp
  then show "I s \<Longrightarrow> I (dpdk_ports_fini L cfg n s)" by (simp add: dpdk_ports_fini_def)
qed

lemma ports_init_loop_step: "I s \<Longrightarrow> I (snd (ports_init_loop L cfg pool ps n s))"
proof (induction ps arbitrary: n s)
  case (Cons p ps)
  obtain e s1 where i: "port_init L pool p cfg s = (e, s1)" by fastforce
  with port_init_step [OF Cons.prems, of pool p cfg] have "I s1" by simp
  then show ?case using Cons i by (cases e) (simp_all add: ports_fini_step)
qed simp

lemma ports_init_step: "I s \<Longrightarrow> I (snd (dpdk_ports_init L cfg s))"
  unfolding dpdk_ports_init_def Let_def allocate_mempool_def
  by (auto split: prod.splits intro!: keeps try_step ports_init_loop_step dest: io_eq)

lemma bring_up_step:
  assumes "I s"
  shows "I (snd (bring_up L hf cfg s))"
proof -
  obtain e1 s1 where ports: "dpdk_ports_init L cfg s = (e1, s1)" by fastforce
  have s1: "I s1" using ports_init_step [OF assms, of cfg] ports by simp
  obtain e2 s2 where hp: "(if nb_hairpin_q (port_config cfg) > 0 then enable_hairpin_queues L (unat (of_int (nb_ports (port_config cfg)) :: u8)) s1
      else (DOCA_SUCCESS, s1)) = (e2, s2)" by fastforce
  then have s2: "I s2" using s1 enable_step [OF s1, of "unat (of_int (nb_ports (port_config cfg)) :: u8)"] by (auto split: if_splits)
  obtain e3 s3 where sf: "(if sft_enable (sft_config cfg) then dpdk_sft_init L hf cfg s2 else (DOCA_SUCCESS, s2)) = (e3, s3)" by fastforce
  then have s3: "I s3" using s2 sft_init_step [OF s2, of hf cfg] by (auto split: if_splits)
  show ?thesis using s1 ports_fini_step [OF s2] ports_fini_step [OF disable_step [OF s3]] s3
    by (cases e1; cases e2; cases e3) (simp_all add: bring_up_def ports hp sf)
qed

lemma queues_init_step: "I s \<Longrightarrow> dpdk_queues_and_ports_init L hf cfg s = (e, cfg', s') \<Longrightarrow> I s'"
  unfolding dpdk_queues_and_ports_init_def Let_def by (auto split: if_splits prod.splits) (metis bring_up_step snd_conv)+

lemma queues_fini_step: "I s \<Longrightarrow> I (dpdk_queues_and_ports_fini L cfg s)"
  unfolding dpdk_queues_and_ports_fini_def by (auto intro!: ports_fini_step disable_step io_step print_step)

end

section \<open>Open ports\<close>

text \<open>Documented behaviour: a port stays a valid one until it is closed.\<close>

definition stable_ports :: "library \<Rightarrow> bool" where
  "stable_ports L \<longleftrightarrow> (\<forall>tr c r p. c \<noteq> Dev_close p \<longrightarrow> is_valid_port L ((c, r) # tr) p = is_valid_port L tr p)"

definition seen :: "library \<Rightarrow> nat set \<Rightarrow> (nat \<Rightarrow> bool) \<Rightarrow> dpdk_state \<Rightarrow> bool" where
  "seen L Op V s \<longleftrightarrow> stable_ports L \<and> open_ports (dp_calls s) = Op \<and> is_valid_port L (dp_calls s) = V"

lemma quiet_open: "quiet c \<Longrightarrow> open_ports ((c, r) # tr) = open_ports tr"
  by (cases c) simp_all

lemma quiet_valid: "stable_ports L \<Longrightarrow> quiet c \<Longrightarrow> is_valid_port L ((c, r) # tr) = is_valid_port L tr"
  unfolding stable_ports_def by (rule ext) (metis quiet.simps(2))

interpretation seen: quiet_steps L "seen L Op V" for L Op V
  by unfold_locales (simp_all add: seen_def lift_call_def do_call_def Let_def quiet_open quiet_valid)

text \<open>Only the last step of \<open>port_init\<close> opens the port.\<close>

lemma dev_start_seen:
  assumes "seen L Op V s" and "try_io L (Dev_start p) s = (e, s')"
  shows "seen L (if e = DOCA_SUCCESS then insert p Op else Op) V s'"
  using assms by (auto simp: lift_call_def try_call_def do_call_def seen_def Let_def stable_ports_def fun_eq_iff split: if_splits)

lemma and_then_seen:
  assumes "seen L Op V (snd r)"
    and "\<And>s1. seen L Op V s1 \<Longrightarrow> f s1 = (e, s') \<Longrightarrow> seen L (if e = DOCA_SUCCESS then A else Op) V s'"
    and "and_then r f = (e, s')"
  shows "seen L (if e = DOCA_SUCCESS then A else Op) V s'"
  using assms by (cases r; cases "fst r") (auto simp: and_then_def)

lemma port_init_seen:
  assumes "seen L Op V s" and "port_init L pool p cfg s = (e, s')"
  shows "seen L (if e = DOCA_SUCCESS then insert p Op else Op) V s'"
  using assms(2) unfolding port_init_def Let_def
  by (elim and_then_seen [rotated -1]) (erule (1) dev_start_seen | (auto intro!: assms(1) seen.try_step seen.keeps seen.setup_hairpin_step)[1])+

text \<open>A loop over ports closes the first valid ones, at least one of them.\<close>

lemma ports_fini_seen:
  shows "distinct ps \<Longrightarrow> seen L Op V s \<Longrightarrow> (\<forall>p \<in> set ps. V' p = V p) \<Longrightarrow>
     open_ports (dp_calls (ports_fini_loop L nb ps n s)) = Op - set (take (nat (max 1 (nb - n))) (filter V' ps))"
proof (induction ps arbitrary: n s Op V)
  case (Cons p ps)
  have valid: "valid_now L s p = V p" "V' p = V p" using Cons.prems by (simp_all add: seen_def)
  define s1 where "s1 = snd (io L (Dev_close p) (snd (io L (Dev_stop p) s)))"
  define V1 where "V1 = is_valid_port L (dp_calls s1)"
  have seen1: "seen L (Op - {p}) V1 s1" and V1: "\<And>q. q \<noteq> p \<Longrightarrow> V1 q = V q"
    using Cons.prems(2) by (auto simp: V1_def s1_def seen_def lift_call_def do_call_def Let_def stable_ports_def)
  have eq: "\<forall>q \<in> set ps. V' q = V1 q"
  proof
    fix q assume "q \<in> set ps"
    then show "V' q = V1 q" using Cons.prems V1 [of q] by auto
  qed
  show ?case
  proof (cases "V p")
    case True
    have IH: "open_ports (dp_calls (ports_fini_loop L nb ps (n + 1) s1)) = (Op - {p}) - set (take (nat (max 1 (nb - (n + 1)))) (filter V' ps))"
      using Cons.IH [OF _ seen1 eq] Cons.prems(1) by simp
    show ?thesis
    proof (cases "nb \<le> n + 1")
      case last: True
      then have "nat (max 1 (nb - n)) = 1" by simp
      then show ?thesis using True last seen1 valid by (simp add: s1_def [symmetric] seen_def)
    next
      case False
      then have "nat (max 1 (nb - n)) = Suc (nat (max 1 (nb - (n + 1))))" by simp
      then show ?thesis using True False IH valid by (auto simp: s1_def [symmetric] Let_def)
    qed
  next
    case False
    then show ?thesis using valid Cons.IH [OF _ Cons.prems(2), of n] Cons.prems by simp
  qed
qed (simp add: seen_def)

lemma upt_prefix: "[0..<m] = pre @ p # ps \<Longrightarrow> pre = [0..<p]"
proof -
  assume a: "[0..<m] = pre @ p # ps"
  then have "p = [0..<m] ! length pre" "length pre < m" by (simp, metis add_Suc_right length_append length_Cons length_upt less_add_Suc1 minus_nat.diff_0)
  then have "p = length pre" by simp
  moreover have "pre = take (length pre) [0..<m]" using a by simp
  ultimately show "pre = [0..<p]" using \<open>length pre < m\<close> by (metis add_0 take_upt less_imp_le)
qed

lemma ports_init_loop_seen:
  assumes N: "unat (of_int (nb_ports (port_config cfg)) :: u16) = N" "nat (nb_ports (port_config cfg)) = N"
  shows "[0..<RTE_MAX_ETHPORTS] = pre @ ps \<Longrightarrow> n = length (filter V pre) \<Longrightarrow> n < max 1 N \<Longrightarrow> seen L (set (filter V pre)) V s \<Longrightarrow>
     ports_init_loop L cfg pool ps n s = (e, s') \<Longrightarrow>
       if e = DOCA_SUCCESS then seen L (set (take (max 1 N) (filter V [0..<RTE_MAX_ETHPORTS]))) V s' else open_ports (dp_calls s') = {}"
proof (induction ps arbitrary: pre n s)
  case Nil
  then have "filter V [0..<RTE_MAX_ETHPORTS] = filter V pre" "length (filter V pre) \<le> max 1 N" by simp_all
  then show ?case using Nil by simp
next
  case (Cons p ps)
  have valid: "valid_now L s p = V p" using Cons.prems(4) by (simp add: seen_def)
  have pre: "pre = [0..<p]" by (rule upt_prefix [OF Cons.prems(1)])
  obtain e1 s1 where init: "port_init L pool p cfg s = (e1, s1)" by fastforce
  have seen1: "seen L (if e1 = DOCA_SUCCESS then insert p (set (filter V pre)) else set (filter V pre)) V s1"
    by (rule port_init_seen [OF Cons.prems(4) init])
  show ?case
  proof (cases "V p")
    case False
    then have "ports_init_loop L cfg pool ps n s = (e, s')" using Cons.prems valid by simp
    from Cons.IH [OF _ _ _ _ this, of "pre @ [p]"] False Cons.prems show ?thesis by simp
  next
    case True
    show ?thesis
    proof (cases "e1 = DOCA_SUCCESS")
      case ok: True
      have seen2: "seen L (set (filter V (pre @ [p]))) V s1" using seen1 ok True by simp
      show ?thesis
      proof (cases "N \<le> n + 1")
        case True
        then have "max 1 N = Suc (length (filter V pre))" using Cons.prems by auto
        then have "take (max 1 N) (filter V [0..<RTE_MAX_ETHPORTS]) = filter V (pre @ [p])" using Cons.prems(1) \<open>V p\<close> by simp
        moreover have "e = DOCA_SUCCESS \<and> s' = s1" using Cons.prems(5) valid \<open>V p\<close> init ok N True by simp
        ultimately show ?thesis using seen2 by simp
      next
        case False
        then have "ports_init_loop L cfg pool ps (n + 1) s1 = (e, s')" using Cons.prems(5) valid \<open>V p\<close> init ok N by simp
        from Cons.IH [OF _ _ _ seen2 this] False Cons.prems \<open>V p\<close> show ?thesis by simp
      qed
    next
      case False
      then have r: "e \<noteq> DOCA_SUCCESS" "s' = dpdk_ports_fini L cfg p s1"
        using Cons.prems(5) valid True init by (cases e1; simp)+
      have "length (filter V pre) \<le> nat (max 1 (nb_ports (port_config cfg) - 0))" using Cons.prems(2,3) N(2) by linarith
      then have "open_ports (dp_calls s') = {}"
        using ports_fini_seen [of "[0..<p]" L "set (filter V pre)" V s1 V "nb_ports (port_config cfg)" 0] seen1 False pre
        by (simp add: r dpdk_ports_fini_def)
      then show ?thesis using r by simp
    qed
  qed
qed

lemma ports_all_or_none:
  assumes "stable_ports L" and "0 \<le> nb_ports (port_config cfg)" "nb_ports (port_config cfg) < 2 ^ 16" and "open_ports (dp_calls s) = {}"
    and "dpdk_ports_init L cfg s = (e, s')"
  shows "if e = DOCA_SUCCESS
     then seen L (set (take (max 1 (nat (nb_ports (port_config cfg)))) (filter (valid_now L s) [0..<RTE_MAX_ETHPORTS]))) (valid_now L s) s'
     else open_ports (dp_calls s') = {}"
proof -
  define nb where "nb = unat (of_int (nb_ports (port_config cfg)) :: u16)"
  have nb: "nb = nat (nb_ports (port_config cfg))" unfolding nb_def using assms(2,3) by (simp add: unsigned_of_int take_bit_int_eq_self)
  have s: "seen L {} (valid_now L s) s" using assms by (simp add: seen_def)
  obtain res pool s1 where pool: "allocate_mempool L (of_int (nb_queues (port_config cfg) * int nb * NUM_MBUFS)) s = ((res, pool), s1)"
    by (metis surj_pair)
  then have s1: "seen L {} (valid_now L s) s1"
    using seen.io_step [OF _ s, of "Pool_create ''MBUF_POOL'' (of_int (nb_queues (port_config cfg) * int nb * NUM_MBUFS)) MBUF_CACHE_SIZE 0"]
    by (auto simp: allocate_mempool_def split: prod.splits)
  obtain r s2 where reg: "try_io L Metadata_register s1 = (r, s2)" by fastforce
  have s2: "seen L {} (valid_now L s) s2" using seen.try_step [OF _ s1, of Metadata_register] reg by simp
  have run: "and_then (res, s1) (\<lambda>s1. and_then (try_io L Metadata_register s1) (ports_init_loop L cfg pool [0..<RTE_MAX_ETHPORTS] 0)) = (e, s')"
    using assms(5) pool by (simp add: dpdk_ports_init_def Let_def nb_def)
  show ?thesis
  proof (cases "res = DOCA_SUCCESS \<and> r = DOCA_SUCCESS")
    case True
    then have "ports_init_loop L cfg pool [0..<RTE_MAX_ETHPORTS] 0 s2 = (e, s')" using run reg by simp
    from ports_init_loop_seen [OF nb_def [symmetric] nb [symmetric], of "[]", OF _ _ _ _ this, of "valid_now L s"] s2 show ?thesis unfolding nb by auto
  next
    case False
    then have "e \<noteq> DOCA_SUCCESS \<and> (s' = s1 \<or> s' = s2)" using run reg by (cases res; cases r) (auto simp: and_then_failure)
    then show ?thesis using s1 s2 by (auto simp: seen_def)
  qed
qed

lemma ports_fini_closes:
  assumes "seen L (set (take (max 1 (nat nb)) (filter V [0..<RTE_MAX_ETHPORTS]))) V s" and "nb_ports (port_config cfg) = nb"
  shows "open_ports (dp_calls (dpdk_ports_fini L cfg RTE_MAX_ETHPORTS s)) = {}"
proof -
  have "nat (max 1 (nb - 0)) = max 1 (nat nb)" by simp
  then show ?thesis using ports_fini_seen [OF _ assms(1), of "[0..<RTE_MAX_ETHPORTS]" V nb 0] assms(2) by (simp add: dpdk_ports_fini_def)
qed

lemma bring_up_all_or_none:
  assumes "stable_ports L" and "0 \<le> nb_ports (port_config cfg)" "nb_ports (port_config cfg) < 2 ^ 16" and "open_ports (dp_calls s) = {}"
    and run: "bring_up L ip_hf cfg s = (e, s')"
  shows "if e = DOCA_SUCCESS
     then seen L (set (take (max 1 (nat (nb_ports (port_config cfg)))) (filter (valid_now L s) [0..<RTE_MAX_ETHPORTS]))) (valid_now L s) s'
     else open_ports (dp_calls s') = {}"
proof -
  define Op where "Op = set (take (max 1 (nat (nb_ports (port_config cfg)))) (filter (valid_now L s) [0..<RTE_MAX_ETHPORTS]))"
  note closes = ports_fini_closes [where V = "valid_now L s" and cfg = cfg and nb = "nb_ports (port_config cfg)", folded Op_def, OF _ refl]
  obtain e1 s1 where ports: "dpdk_ports_init L cfg s = (e1, s1)" by fastforce
  have p: "if e1 = DOCA_SUCCESS then seen L Op (valid_now L s) s1 else open_ports (dp_calls s1) = {}"
    using ports_all_or_none [OF assms(1-4) ports] unfolding Op_def .
  obtain e2 s2 where hp: "(if nb_hairpin_q (port_config cfg) > 0 then enable_hairpin_queues L (unat (of_int (nb_ports (port_config cfg)) :: u8)) s1
      else (DOCA_SUCCESS, s1)) = (e2, s2)" by fastforce
  obtain e3 s3 where sf: "(if sft_enable (sft_config cfg) then dpdk_sft_init L ip_hf cfg s2 else (DOCA_SUCCESS, s2)) = (e3, s3)" by fastforce
  show ?thesis unfolding Op_def [symmetric]
  proof (cases "e1 = DOCA_SUCCESS")
    case True
    then have s1: "seen L Op (valid_now L s) s1" using p by simp
    have s2: "seen L Op (valid_now L s) s2"
      using hp s1 seen.enable_step [OF s1, of "unat (of_int (nb_ports (port_config cfg)) :: u8)"] by (auto split: if_splits)
    have s3: "seen L Op (valid_now L s) s3" using sf s2 seen.sft_init_step [OF s2, of ip_hf cfg] by (auto split: if_splits)
    show "if e = DOCA_SUCCESS then seen L Op (valid_now L s) s' else open_ports (dp_calls s') = {}"
      using run closes [OF s2] closes [OF seen.disable_step [OF s3]] s3 True
      by (cases e2; cases e3) (auto simp: bring_up_def ports hp sf)
  next
    case False
    then show "if e = DOCA_SUCCESS then seen L Op (valid_now L s) s' else open_ports (dp_calls s') = {}"
      using run p by (cases e1) (auto simp: bring_up_def ports)
  qed
qed

lemma queues_fini_closes:
  assumes "seen L Op V s" and "Op = {} \<or> Op = set (take (max 1 (nat (nb_ports (port_config cfg)))) (filter V [0..<RTE_MAX_ETHPORTS]))"
  shows "open_ports (dp_calls (dpdk_queues_and_ports_fini L cfg s)) = {}"
proof -
  define s1 where "s1 = disable_hairpin_queues L RTE_MAX_ETHPORTS
     (if sft_enable (sft_config cfg) then snd (io L Sft_fini (snd (lift_call (print_offload_rules_counter L (app_rules s)) s))) else s)"
  have s1: "seen L Op V s1" unfolding s1_def
    by (rule seen.disable_step) (use assms(1) seen.io_step [OF _ seen.print_step [OF assms(1)], of Sft_fini] in simp)
  have run: "dpdk_queues_and_ports_fini L cfg s = dpdk_ports_fini L cfg RTE_MAX_ETHPORTS s1" by (simp add: dpdk_queues_and_ports_fini_def s1_def)
  from assms(2) show ?thesis
  proof
    assume "Op = {}"
    then show ?thesis using ports_fini_seen [OF _ s1, of "[0..<RTE_MAX_ETHPORTS]" V] by (simp add: run dpdk_ports_fini_def)
  qed (use s1 ports_fini_closes [where V = V and nb = "nb_ports (port_config cfg)", OF _ refl] in \<open>simp add: run\<close>)
qed

lemma queues_init_seen:
  assumes "stable_ports L" and "0 \<le> nb_ports (port_config cfg)" "nb_ports (port_config cfg) < 2 ^ 16" and "open_ports (dp_calls s) = {}"
    and run: "dpdk_queues_and_ports_init L ip_hf cfg s = (res, cfg', s')"
  shows "nb_ports (port_config cfg') = nb_ports (port_config cfg) \<and>
     (if res = DOCA_SUCCESS
      then seen L (set (take (max 1 (nat (nb_ports (port_config cfg)))) (filter (valid_now L s) [0..<RTE_MAX_ETHPORTS]))) (valid_now L s) s'
      else open_ports (dp_calls s') = {})"
proof (cases "nb_ports (port_config cfg) > 0 \<and> eth_dev_count L < nb_ports (port_config cfg) \<or>
    nb_queues (port_config cfg) > 0 \<and> rte_lcore_count L < nb_queues (port_config cfg)")
  case True
  then have "res = DOCA_ERROR_DRIVER \<and> cfg' = cfg \<and> s' = s" using run unfolding dpdk_queues_and_ports_init_def Let_def by (metis prod.inject)
  then show ?thesis using assms(4) by simp
next
  case False
  define cfg1 where "cfg1 = cfg\<lparr>port_config := (port_config cfg)\<lparr>nb_queues := rte_lcore_count L - (if reserve_main_thread cfg then 1 else 0)\<rparr>\<rparr>"
  have up: "bring_up L ip_hf cfg1 s = (res, s')" "cfg' = cfg1"
    using run False unfolding dpdk_queues_and_ports_init_def Let_def cfg1_def [symmetric] by (auto split: prod.splits)
  have nb: "nb_ports (port_config cfg1) = nb_ports (port_config cfg)" by (simp add: cfg1_def)
  from bring_up_all_or_none [OF assms(1) _ _ assms(4) up(1), unfolded nb, OF assms(2,3)] show ?thesis using nb up(2) by simp
qed

text \<open>
  C19: All ports or none. When \<open>dpdk_queues_and_ports_init\<close> succeeds, exactly the first \<open>nb_ports\<close> valid
  ports are open, and \<open>dpdk_queues_and_ports_fini\<close> closes them all; when it fails, whatever the step that
  failed, no port is left open. With \<open>nb_ports\<close> 0, which is documented to mean any number of ports, only the
  first valid port is opened.
\<close>

theorem ports_open_or_none:
  assumes "stable_ports L" and "0 \<le> nb_ports (port_config cfg)" "nb_ports (port_config cfg) < 2 ^ 16" and "open_ports (dp_calls s) = {}"
    and run: "dpdk_queues_and_ports_init L ip_hf cfg s = (res, cfg', s')"
  shows "if res = DOCA_SUCCESS
     then open_ports (dp_calls s') = set (take (max 1 (nat (nb_ports (port_config cfg)))) (filter (valid_now L s) [0..<RTE_MAX_ETHPORTS])) \<and>
          open_ports (dp_calls (dpdk_queues_and_ports_fini L cfg' s')) = {}
     else open_ports (dp_calls s') = {}"
  using queues_init_seen [OF assms] queues_fini_closes [of L _ "valid_now L s" s' cfg'] by (auto simp: seen_def)

text \<open>Two ports, the second of which cannot be started when \<open>bad\<close> holds.\<close>

definition demo_library :: "bool \<Rightarrow> library" where
  "demo_library bad =
     \<lparr>answer = (\<lambda>tr c. case c of Pool_create a b k d \<Rightarrow> 1 | Dev_start p \<Rightarrow> (if bad \<and> p = 1 then -1 else 0) | Port_start p a \<Rightarrow> int (length tr) + 1 | _ \<Rightarrow> 0),
      is_valid_port = (\<lambda>tr p. p < 2 \<and> Dev_close p \<notin> fst ` set tr), peer_ports = (\<lambda>tr p d. []), hit_count = (\<lambda>tr p h. 0), tx_ipv4_cksum = (\<lambda>p. True),
      port_rss_hf = (\<lambda>p. 0), eth_dev_count = 2, rte_lcore_count = 2\<rparr>"

definition demo_dpdk_config :: application_dpdk_config where
  "demo_dpdk_config =
     \<lparr>port_config = \<lparr>nb_ports = 2, nb_queues = 1, nb_hairpin_q = 1, rss_support = False, lpbk_support = False, isolated_mode = False\<rparr>,
      sft_config = \<lparr>sft_enable = False, enable_ct = False, enable_frag = False, enable_state_hairpin = False, enable_state_drop = False\<rparr>,
      reserve_main_thread = False\<rparr>"

definition demo_dpdk :: dpdk_state where
  "demo_dpdk = \<lparr>dp_calls = [], app_rules = \<lparr>set_jump_to_sft_action = (\<lambda>_. 0), query_hairpin = (\<lambda>_. 0), rss_non_state = (\<lambda>_. 0), hairpin_non_l4 = (\<lambda>_. 0), forward_fragments = (\<lambda>_. 0)\<rparr>\<rparr>"

lemma demo_stable: "stable_ports (demo_library bad)"
  by (auto simp: stable_ports_def demo_library_def)

lemma demo_dpdk_runs:
  "fst (dpdk_queues_and_ports_init (demo_library False) 0 demo_dpdk_config demo_dpdk) = DOCA_SUCCESS"
  "fst (dpdk_queues_and_ports_init (demo_library True) 0 demo_dpdk_config demo_dpdk) = DOCA_ERROR_DRIVER"
  by (simp_all add: dpdk_queues_and_ports_init_def bring_up_def dpdk_ports_init_def allocate_mempool_def port_init_def setup_hairpin_queues_def enable_hairpin_queues_def
     bind_hairpin_queues_def for_peers_def dpdk_ports_fini_def and_then_def lift_call_def try_call_def do_call_def demo_library_def demo_dpdk_config_def demo_dpdk_def
     flow_consts Let_def upt_rec split: if_splits)

lemma ports_open_or_none_witness:
  "open_ports (dp_calls (snd (snd (dpdk_queues_and_ports_init (demo_library False) 0 demo_dpdk_config demo_dpdk)))) = {0, 1} \<and>
   open_ports (dp_calls (snd (snd (dpdk_queues_and_ports_init (demo_library True) 0 demo_dpdk_config demo_dpdk)))) = {}"
proof -
  have cfg: "0 \<le> nb_ports (port_config demo_dpdk_config)" "nb_ports (port_config demo_dpdk_config) < 2 ^ 16" "nb_ports (port_config demo_dpdk_config) = 2"
    by (simp_all add: demo_dpdk_config_def)
  have s: "open_ports (dp_calls demo_dpdk) = {}" by (simp add: demo_dpdk_def)
  have two: "set (take (max 1 (nat (nb_ports (port_config demo_dpdk_config)))) (filter (valid_now (demo_library False) demo_dpdk) [0..<RTE_MAX_ETHPORTS])) = {0, 1}"
    by (simp add: cfg(3) demo_library_def demo_dpdk_def flow_consts upt_rec)
  obtain cfg1 s1 cfg2 s2 where run:
      "dpdk_queues_and_ports_init (demo_library False) 0 demo_dpdk_config demo_dpdk = (DOCA_SUCCESS, cfg1, s1)"
      "dpdk_queues_and_ports_init (demo_library True) 0 demo_dpdk_config demo_dpdk = (DOCA_ERROR_DRIVER, cfg2, s2)"
    using demo_dpdk_runs by (metis prod.collapse)
  show ?thesis
    using ports_open_or_none [OF demo_stable cfg(1,2) s run(1)] ports_open_or_none [OF demo_stable cfg(1,2) s run(2)] two run by simp
qed

end
