(* ===== verification/Env_Props.thy ===== *)
theory Env_Props
  imports Env Dpdk_Props
begin

text \<open>
  The ports of DOCA-Flow between the start and the end of an application: which ones are live after every
  outcome of \<open>flowQoS_env_init\<close>, and which ones \<open>flowQoS_env_destroy\<close> destroys a second time.
\<close>

section \<open>Live ports\<close>

text \<open>The ports that were started and not destroyed since, and the destructions of ports that were not live.\<close>

fun live_ports :: "calls \<Rightarrow> nat set" where
  "live_ports [] = {}"
| "live_ports ((Port_start p a, r) # tr) = (if nat r = 0 then live_ports tr else insert (nat r) (live_ports tr))"
| "live_ports ((Port_destroy h, r) # tr) = live_ports tr - {h}"
| "live_ports (_ # tr) = live_ports tr"

fun dead_destroys :: "calls \<Rightarrow> nat list" where
  "dead_destroys [] = []"
| "dead_destroys ((Port_destroy h, r) # tr) = (if h \<in> live_ports tr then dead_destroys tr else h # dead_destroys tr)"
| "dead_destroys (_ # tr) = dead_destroys tr"

text \<open>Documented behaviour: a started port is not one of those that are still live.\<close>

definition fresh_handles :: "library \<Rightarrow> bool" where
  "fresh_handles L \<longleftrightarrow> (\<forall>tr p a. nat (answer L tr (Port_start p a)) \<notin> live_ports tr)"

definition doca_seen :: "nat set \<Rightarrow> nat list \<Rightarrow> dpdk_state \<Rightarrow> bool" where
  "doca_seen Lv D s \<longleftrightarrow> live_ports (dp_calls s) = Lv \<and> dead_destroys (dp_calls s) = D"

lemma quiet_doca: "quiet c \<Longrightarrow> live_ports ((c, r) # tr) = live_ports tr \<and> dead_destroys ((c, r) # tr) = dead_destroys tr"
  by (cases c) simp_all

interpretation doca: port_steps L "doca_seen Lv D" for L Lv D
  by unfold_locales (simp_all add: doca_seen_def lift_call_def do_call_def Let_def quiet_doca)

text \<open>Both views of a state of the environment.\<close>

definition env_seen :: "library \<Rightarrow> nat set \<Rightarrow> (nat \<Rightarrow> bool) \<Rightarrow> nat set \<Rightarrow> nat list \<Rightarrow> 'm env_state \<Rightarrow> bool" where
  "env_seen L Op V Lv D s \<longleftrightarrow> seen L Op V (ev_dpdk s) \<and> doca_seen Lv D (ev_dpdk s)"

lemma env_call_fields [simp]:
  "ports (snd (env_call L c s)) = ports s" "dpdk_config (snd (env_call L c s)) = dpdk_config s" "ev_msg (snd (env_call L c s)) = ev_msg s"
  by (simp_all add: env_call_def split: prod.splits)

lemma env_seen_ports [simp]: "env_seen L Op V Lv D (s\<lparr>ports := P\<rparr>) = env_seen L Op V Lv D s"
  by (simp add: env_seen_def)

lemma env_quiet: "quiet c \<Longrightarrow> env_seen L Op V Lv D s \<Longrightarrow> env_seen L Op V Lv D (snd (env_call L c s))"
  using seen.io_step [of c L Op V "ev_dpdk s"] doca.io_step [of c Lv D "ev_dpdk s" L]
  by (cases "io L c (ev_dpdk s)") (simp add: env_call_def env_seen_def)

lemma seen_other_call:
  assumes "seen L Op V s" and "\<forall>p. c \<noteq> Dev_close p" and "open_ports ((c, r) # dp_calls s) = open_ports (dp_calls s)"
  shows "seen L Op V (s\<lparr>dp_calls := (c, r) # dp_calls s\<rparr>)"
proof -
  have "is_valid_port L ((c, r) # dp_calls s) = is_valid_port L (dp_calls s)"
    using assms(1,2) unfolding seen_def stable_ports_def by (intro ext) blast
  then show ?thesis using assms by (simp add: seen_def)
qed

lemma env_call_eq: "env_call L c s = (answer L (ev_calls s) c, s\<lparr>ev_dpdk := (ev_dpdk s)\<lparr>dp_calls := (c, answer L (ev_calls s) c) # ev_calls s\<rparr>\<rparr>)"
  by (simp add: env_call_def lift_call_def do_call_def Let_def)

lemma env_port_start:
  assumes L: "fresh_handles L" and s: "env_seen L Op V Lv D s" and run: "create_doca_flow_port L p s = (h, s')"
  shows "env_seen L Op V (if h = 0 then Lv else insert h Lv) D s' \<and> h \<notin> Lv \<and> ports s' = ports s \<and> dpdk_config s' = dpdk_config s"
proof -
  define c where "c = Port_start p (dec p)"
  have h: "h = nat (answer L (ev_calls s) c)"
    and s': "s' = s\<lparr>ev_dpdk := (ev_dpdk s)\<lparr>dp_calls := (c, answer L (ev_calls s) c) # ev_calls s\<rparr>\<rparr>"
    using run by (simp_all add: create_doca_flow_port_def env_call_eq c_def)
  have "seen L Op V (ev_dpdk s')" using seen_other_call [of L Op V "ev_dpdk s" c] s by (simp add: s' env_seen_def c_def)
  moreover have "doca_seen (if h = 0 then Lv else insert h Lv) D (ev_dpdk s')" using s by (simp add: s' env_seen_def doca_seen_def c_def h)
  moreover have "nat (answer L (ev_calls s) c) \<notin> live_ports (ev_calls s)" using L unfolding fresh_handles_def c_def by blast
  then have "h \<notin> Lv" using s h by (simp add: env_seen_def doca_seen_def)
  ultimately show ?thesis by (simp add: env_seen_def s')
qed

lemma env_port_destroy:
  assumes "env_seen L Op V Lv D s"
  shows "env_seen L Op V (Lv - {h}) (if h \<in> Lv then D else h # D) (snd (env_call L (Port_destroy h) s))"
  using assms seen_other_call [of L Op V "ev_dpdk s" "Port_destroy h"] by (simp add: env_call_eq env_seen_def doca_seen_def)

section \<open>Starting and destroying\<close>

lemma destroy_loop_fields [simp]:
  "ports (destroy_loop L ps s) = ports s" "dpdk_config (destroy_loop L ps s) = dpdk_config s"
  by (induction ps arbitrary: s) simp_all

lemma destroy_two:
  assumes s: "env_seen L Op V Lv [] s" and "0 \<notin> Lv"
  shows "env_seen L Op V (Lv - {ports s 0, ports s 1})
     ((if ports s 1 \<noteq> 0 \<and> ports s 1 \<notin> Lv - {ports s 0} then [ports s 1] else []) @ (if ports s 0 \<noteq> 0 \<and> ports s 0 \<notin> Lv then [ports s 0] else []))
     (destroy_doca_flow_ports L NB_PORTS s)"
proof -
  define h0 h1 where h: "h0 = ports s 0" "h1 = ports s 1"
  define s1 where "s1 = (if h0 \<noteq> 0 then snd (env_call L (Port_destroy h0) s) else s)"
  have run: "destroy_doca_flow_ports L NB_PORTS s = (if h1 \<noteq> 0 then snd (env_call L (Port_destroy h1) s1) else s1)"
    by (simp add: destroy_doca_flow_ports_def flow_consts upt_rec h s1_def)
  define D where "D = (if h0 \<noteq> 0 \<and> h0 \<notin> Lv then [h0] else [])"
  have s1: "env_seen L Op V (Lv - {h0}) D s1"
    using env_port_destroy [OF s, of h0] s assms(2) by (cases "h0 = 0"; cases "h0 \<in> Lv") (simp_all add: s1_def D_def)
  have "Lv - {h0} - {h1} = Lv - {h0, h1}" "h1 = 0 \<Longrightarrow> Lv - {h0, h1} = Lv - {h0}" using assms(2) by auto
  with s1 env_port_destroy [OF s1, of h1] show ?thesis unfolding run h [symmetric] D_def [symmetric]
    by (cases "h1 = 0"; cases "h1 \<in> Lv - {h0}") (simp_all only: if_True if_False append.simps simp_thms not_True_eq_False)
qed

lemma destroy_ports_fields [simp]:
  "ports (destroy_doca_flow_ports L n s) = ports s" "dpdk_config (destroy_doca_flow_ports L n s) = dpdk_config s"
  by (simp_all add: destroy_doca_flow_ports_def)

lemma init_loop_step:
  "create_doca_flow_port L p s = (h, s1) \<Longrightarrow> s2 = s1\<lparr>ports := (ports s1)(p := h)\<rparr> \<Longrightarrow>
     init_ports_loop L True (p # ps) s =
       (if h = 0 then (-1, destroy_doca_flow_ports L (p + 1) s2)
        else if even p then init_ports_loop L True ps s2
        else case env_call L (Port_pair (ports s2 p) (ports s2 (p XOR 1))) s2 of (ret, s3) \<Rightarrow>
          (if ret < 0 then (-1, destroy_doca_flow_ports L (p + 1) s3) else init_ports_loop L True ps s3))"
  by (simp add: Let_def)

lemma init_two_ports:
  assumes L: "fresh_handles L" and s: "env_seen L Op V {} [] s" and null: "ports s = (\<lambda>_. 0)"
    and run: "init_doca_flow_ports L NB_PORTS True s = (r, s')"
  shows "dpdk_config s' = dpdk_config s \<and>
     (if r = 0 then ports s' 0 \<noteq> 0 \<and> ports s' 1 \<noteq> 0 \<and> ports s' 0 \<noteq> ports s' 1 \<and> env_seen L Op V {ports s' 0, ports s' 1} [] s'
      else env_seen L Op V {} [] s' \<and> (ports s' 0 = ports s' 1 \<longrightarrow> ports s' 0 = 0))"
proof -
  obtain h0 s1 where start0: "create_doca_flow_port L 0 s = (h0, s1)" by fastforce
  define s2 where "s2 = s1\<lparr>ports := (ports s1)(0 := h0)\<rparr>"
  note p0 = env_port_start [OF L s start0]
  have run0: "(if h0 = 0 then (-1, destroy_doca_flow_ports L 1 s2) else init_ports_loop L True [1] s2) = (r, s')"
    using run init_loop_step [OF start0 s2_def, of "[1]"] by (simp add: init_doca_flow_ports_def flow_consts upt_rec del: init_ports_loop.simps)
  have f2: "ports s2 = (\<lambda>_. 0)(0 := h0)" "dpdk_config s2 = dpdk_config s" using p0 null by (simp_all add: s2_def)
  show ?thesis
  proof (cases "h0 = 0")
    case True
    then have "s' = s2" "r = -1" using run0 f2 by (simp_all add: destroy_doca_flow_ports_def upt_rec)
    then show ?thesis using True p0 f2 by (simp add: s2_def)
  next
    case False
    then have e2: "env_seen L Op V {h0} [] s2" using p0 by (simp add: s2_def)
    obtain h1 s3 where start1: "create_doca_flow_port L 1 s2 = (h1, s3)" by fastforce
    define s4 where "s4 = s3\<lparr>ports := (ports s3)(1 := h1)\<rparr>"
    note p1 = env_port_start [OF L e2 start1]
    obtain q s5 where pair: "env_call L (Port_pair (ports s4 1) (ports s4 0)) s4 = (q, s5)" by fastforce
    have run1: "(if h1 = 0 then (-1, destroy_doca_flow_ports L 2 s4) else if q < 0 then (-1, destroy_doca_flow_ports L 2 s5) else (0, s5)) = (r, s')"
      using run0 False init_loop_step [OF start1 s4_def, of "[]"] pair by (simp add: numeral_2_eq_2 split: if_splits)
    have f4: "ports s4 = (\<lambda>_. 0)(0 := h0, 1 := h1)" "dpdk_config s4 = dpdk_config s" using p1 f2 by (simp_all add: s4_def)
    have s5: "s5 = snd (env_call L (Port_pair (ports s4 1) (ports s4 0)) s4)" using pair by simp
    have f5: "ports s5 = ports s4" "dpdk_config s5 = dpdk_config s" unfolding s5 by (simp_all only: env_call_fields f4(2))
    have e4: "env_seen L Op V (if h1 = 0 then {h0} else {h1, h0}) [] s4" "h1 \<noteq> h0" using p1 by (auto simp: s4_def split: if_splits)
    have e5: "env_seen L Op V (if h1 = 0 then {h0} else {h1, h0}) [] s5"
      using env_quiet [OF _ e4(1), of "Port_pair (ports s4 1) (ports s4 0)"] pair by simp
    have d4: "h1 = 0 \<Longrightarrow> env_seen L Op V {} [] (destroy_doca_flow_ports L 2 s4)"
      and d5: "h1 \<noteq> 0 \<Longrightarrow> env_seen L Op V {} [] (destroy_doca_flow_ports L 2 s5)"
      using destroy_two [OF e4(1)] destroy_two [OF e5] f4 f5 False e4(2) by (auto simp: flow_consts)
    show ?thesis using run1 d4 d5 e5 f4 f5 e4(2) False by (auto simp: insert_commute split: if_splits)
  qed
qed

lemma env_dpdk:
  assumes "stable_ports L" and s: "env_seen L {} V {} [] s" and nb: "nb_ports (port_config (dpdk_config s)) = 2"
    and run: "dpdk_queues_and_ports_init L ip_hf (dpdk_config s) (ev_dpdk s) = (res, cfg, d)"
  shows "nb_ports (port_config cfg) = 2 \<and> (\<exists>Op V1. env_seen L Op V1 {} [] (s\<lparr>dpdk_config := cfg, ev_dpdk := d\<rparr>) \<and>
     (if res = DOCA_SUCCESS then Op = set (take 2 (filter V [0..<RTE_MAX_ETHPORTS])) \<and> V1 = V else Op = {}))"
proof -
  have o: "open_ports (ev_calls s) = {}" "valid_now L (ev_dpdk s) = V" "doca_seen {} [] (ev_dpdk s)" using s by (simp_all add: env_seen_def seen_def)
  have two: "max 1 (nat (2 :: int)) = 2" by simp
  have "nb_ports (port_config cfg) = 2 \<and>
     (if res = DOCA_SUCCESS then seen L (set (take 2 (filter V [0..<RTE_MAX_ETHPORTS]))) V d else open_ports (dp_calls d) = {})"
    using queues_init_seen [OF assms(1) _ _ o(1) run, unfolded nb o(2) two] by simp
  moreover have "doca_seen {} [] d" by (rule doca.queues_init_step [OF o(3) run])
  ultimately show ?thesis using assms(1) by (auto simp: env_seen_def seen_def)
qed

definition settled :: "library \<Rightarrow> nat set \<Rightarrow> int \<Rightarrow> 'm env_state \<Rightarrow> bool" where
  "settled L two r s \<longleftrightarrow> (\<exists>Op V Lv. env_seen L Op V Lv [] s \<and> nb_ports (port_config (dpdk_config s)) = 2 \<and> 0 \<notin> Lv \<and> Lv \<subseteq> {ports s 0, ports s 1} \<and>
     (Op = {} \<or> Op = set (take 2 (filter V [0..<RTE_MAX_ETHPORTS]))) \<and> (ports s 0 = ports s 1 \<longrightarrow> ports s 0 = 0) \<and>
     (r = 0 \<longrightarrow> Op = two \<and> Lv = {ports s 0, ports s 1} \<and> ports s 0 \<noteq> ports s 1))"

lemma env_init_settled:
  assumes L: "stable_ports L" "fresh_handles L" and start: "ev_calls s = []" "ports s = (\<lambda>_. 0)" "dpdk_config s = dpdk_config_init"
    and run: "flowQoS_env_init L ip_hf msg_init s = Some (r, s')"
  shows "settled L (set (take 2 (filter (is_valid_port L []) [0..<RTE_MAX_ETHPORTS]))) r s'"
proof -
  define V where "V = is_valid_port L []"
  define two where "two = set (take 2 (filter V [0..<RTE_MAX_ETHPORTS]))"
  have nb: "nb_ports (port_config dpdk_config_init) = 2" by (simp add: dpdk_config_init_def)
  have s: "env_seen L {} V {} [] s" using L start by (simp add: env_seen_def seen_def doca_seen_def V_def)
  obtain r1 s1 r2 s2 where a: "env_call L Argp_init s = (r1, s1)" "env_call L Argp_start s1 = (r2, s2)" by (metis surj_pair)
  have s1: "env_seen L {} V {} [] s1" "ports s1 = (\<lambda>_. 0)" "dpdk_config s1 = dpdk_config_init"
    using env_quiet [OF _ s, of Argp_init] env_call_fields [of L Argp_init s] start by (simp_all add: a)
  have s2: "env_seen L {} V {} [] s2" "ports s2 = (\<lambda>_. 0)" "dpdk_config s2 = dpdk_config_init"
    using env_quiet [OF _ s1(1), of Argp_start] env_call_fields [of L Argp_start s1] s1 by (simp_all add: a)
  obtain res cfg d where dp: "dpdk_queues_and_ports_init L ip_hf (dpdk_config s2) (ev_dpdk s2) = (res, cfg, d)" by (metis prod_cases3)
  define s3 where "s3 = s2\<lparr>dpdk_config := cfg, ev_dpdk := d\<rparr>"
  obtain Op V1 where s3: "env_seen L Op V1 {} [] s3" "if res = DOCA_SUCCESS then Op = two \<and> V1 = V else Op = {}"
      "nb_ports (port_config cfg) = 2" "ports s3 = (\<lambda>_. 0)" "dpdk_config s3 = cfg"
    using env_dpdk [OF L(1) s2(1) _ dp] nb s2 by (auto simp: s3_def two_def)
  obtain r4 s4 where i4: "init_doca_flow L (nat (nb_queues (port_config (dpdk_config s3)))) ''vnf'' 80 s3 = (r4, s4)" by fastforce
  define c4 where "c4 = Doca_flow_init (nat (nb_queues (port_config (dpdk_config s3)))) ''vnf'' 80"
  have s4_eq: "s4 = snd (env_call L c4 s3)" using i4 by (simp add: init_doca_flow_def c4_def)
  have s4: "env_seen L Op V1 {} [] s4" "ports s4 = (\<lambda>_. 0)" "dpdk_config s4 = cfg"
    unfolding s4_eq using env_quiet [OF _ s3(1), of c4] s3 by (simp_all add: c4_def)
  obtain r5 s5 where i5: "init_doca_flow_ports L NB_PORTS True s4 = (r5, s5)" by fastforce
  note s5 = init_two_ports [OF L(2) s4(1,2) i5]
  have early: "settled L two r t" if "env_seen L Op' W {} [] t" "Op' = {} \<or> Op' = set (take 2 (filter W [0..<RTE_MAX_ETHPORTS]))"
      "ports t 0 = ports t 1 \<longrightarrow> ports t 0 = 0" "nb_ports (port_config (dpdk_config t)) = 2" "r = EXIT_FAILURE" for t Op' W
    unfolding settled_def by (rule exI [of _ Op'], rule exI [of _ W], rule exI [of _ "{}"]) (use that in \<open>simp add: EXIT_FAILURE_def\<close>)
  show ?thesis unfolding V_def [symmetric] two_def [symmetric]
  proof (cases "r1 \<noteq> 0 \<or> r2 \<noteq> 0")
    case True
    have x: "r = EXIT_FAILURE \<Longrightarrow> settled L two r s1" "r = EXIT_FAILURE \<Longrightarrow> settled L two r (snd (env_call L Argp_destroy s2))"
      using early [OF s1(1)] early [OF env_quiet [OF _ s2(1), of Argp_destroy]] s1 s2 nb by simp_all
    show "settled L two r s'" using run x True by (cases "r1 = 0") (auto simp: flowQoS_env_init_def a)
  next
    case args: False
    show "settled L two r s'"
    proof (cases "res = DOCA_SUCCESS")
      case False
      define d1 where "d1 = s3\<lparr>ev_dpdk := dpdk_fini L (ev_dpdk s3)\<rparr>"
      have "env_seen L {} V1 {} [] d1" using s3(1,2) False seen.io_step [of Eal_cleanup L Op V1 "ev_dpdk s3"] doca.io_step [of Eal_cleanup "{}" "[]" "ev_dpdk s3" L]
        by (simp add: d1_def dpdk_fini_def env_seen_def)
      from early [OF env_quiet [OF _ this, of Argp_destroy]] show ?thesis using run a args dp False s3 by (simp add: flowQoS_env_init_def s3_def d1_def)
    next
      case True
      then have ok: "Op = two" "V1 = V" using s3(2) by simp_all
      have Op: "Op = {} \<or> Op = set (take 2 (filter V1 [0..<RTE_MAX_ETHPORTS]))" by (simp add: ok two_def)
      have run4: "(if r4 < 0 then Some (EXIT_FAILURE, s4) else if r5 \<noteq> 0 then Some (EXIT_FAILURE, snd (env_call L Doca_flow_destroy s5))
          else map_option (\<lambda>(r, ms). (if r = 0 then EXIT_FAILURE else 0, s5\<lparr>ev_msg := ms\<rparr>)) (msg_init (ev_msg s5))) = Some (r, s')"
        using run a args dp True i4 [unfolded s3(5)] i5 by (cases "r4 < 0") (simp_all add: flowQoS_env_init_def s3_def [symmetric] s3(5))
      show ?thesis
      proof (cases "r4 < 0 \<or> r5 \<noteq> 0")
        case True
        then show ?thesis
        proof (cases "r4 < 0")
          case True
          then show ?thesis using run4 early [OF s4(1) Op] s4 s3(3) by simp
        next
          case False
          then have "r5 \<noteq> 0" using \<open>r4 < 0 \<or> r5 \<noteq> 0\<close> by simp
          then have e5: "env_seen L Op V1 {} [] s5" "ports s5 0 = ports s5 1 \<longrightarrow> ports s5 0 = 0" "dpdk_config s5 = cfg" using s5 s4(3) by simp_all
          have r: "r = EXIT_FAILURE" and s': "s' = snd (env_call L Doca_flow_destroy s5)" using run4 False \<open>r5 \<noteq> 0\<close> by simp_all
          show ?thesis unfolding s' by (rule early [OF env_quiet [OF _ e5(1)] Op]) (use r e5(2,3) s3(3) in simp_all)
        qed
      next
        case False
        then obtain ms where s': "s' = s5\<lparr>ev_msg := ms\<rparr>" using run4 by auto
        have "env_seen L Op V1 {ports s' 0, ports s' 1} [] s'" "ports s' 0 \<noteq> 0" "ports s' 1 \<noteq> 0" "ports s' 0 \<noteq> ports s' 1"
            "nb_ports (port_config (dpdk_config s')) = 2"
          using s5 False s4(3) s3(3) by (simp_all add: s' env_seen_def)
        then show ?thesis unfolding settled_def
          by - (rule exI [of _ Op], rule exI [of _ V1], rule exI [of _ "{ports s' 0, ports s' 1}"], use Op in \<open>simp add: ok\<close>)
      qed
    qed
  qed
qed

text \<open>
  C20: Start and end of an application. When \<open>flowQoS_env_init\<close> succeeds, the first two valid Ethernet ports
  are open and the two ports of DOCA-Flow are live and different. Whatever its result, after
  \<open>flowQoS_env_destroy\<close> no Ethernet port is open and no DOCA-Flow port is live; but every port that the
  initialisation had already destroyed on its way out is destroyed once more, because its pointer is kept.
\<close>

theorem env_destroy_after_init:
  assumes L: "stable_ports L" "fresh_handles L" and start: "ev_calls s = []" "ports s = (\<lambda>_. 0)" "dpdk_config s = dpdk_config_init"
    and run: "flowQoS_env_init L ip_hf msg_init s = Some (r, s')"
  shows "(r = 0 \<longrightarrow> open_ports (ev_calls s') = set (take 2 (filter (is_valid_port L []) [0..<RTE_MAX_ETHPORTS])) \<and>
            live_ports (ev_calls s') = {ports s' 0, ports s' 1} \<and> ports s' 0 \<noteq> ports s' 1) \<and>
     dead_destroys (ev_calls s') = [] \<and>
     (let s'' = flowQoS_env_destroy L s' in
        open_ports (ev_calls s'') = {} \<and> live_ports (ev_calls s'') = {} \<and>
        rev (dead_destroys (ev_calls s'')) = filter (\<lambda>h. h \<noteq> 0 \<and> h \<notin> live_ports (ev_calls s')) [ports s' 0, ports s' 1])"
proof -
  define two where "two = set (take 2 (filter (is_valid_port L []) [0..<RTE_MAX_ETHPORTS]))"
  obtain Op V Lv where e: "env_seen L Op V Lv [] s'" "nb_ports (port_config (dpdk_config s')) = 2" "0 \<notin> Lv" "Lv \<subseteq> {ports s' 0, ports s' 1}"
      "Op = {} \<or> Op = set (take 2 (filter V [0..<RTE_MAX_ETHPORTS]))" "ports s' 0 = ports s' 1 \<longrightarrow> ports s' 0 = 0"
      "r = 0 \<longrightarrow> Op = two \<and> Lv = {ports s' 0, ports s' 1} \<and> ports s' 0 \<noteq> ports s' 1"
    using env_init_settled [OF assms] unfolding two_def settled_def by metis
  define D where "D = (if ports s' 1 \<noteq> 0 \<and> ports s' 1 \<notin> Lv then [ports s' 1] else []) @ (if ports s' 0 \<noteq> 0 \<and> ports s' 0 \<notin> Lv then [ports s' 0] else [])"
  have D: "rev D = filter (\<lambda>h. h \<noteq> 0 \<and> h \<notin> Lv) [ports s' 0, ports s' 1]" by (simp add: D_def)
  define t where "t = snd (env_call L Doca_flow_destroy (destroy_doca_flow_ports L NB_PORTS s'))"
  have "env_seen L Op V {} D (destroy_doca_flow_ports L NB_PORTS s')"
  proof -
    have "Lv - {ports s' 0, ports s' 1} = {}" using e(4) by auto
    moreover have "(if ports s' 1 \<noteq> 0 \<and> ports s' 1 \<notin> Lv - {ports s' 0} then [ports s' 1] else []) = (if ports s' 1 \<noteq> 0 \<and> ports s' 1 \<notin> Lv then [ports s' 1] else [])"
      using e(6) by auto
    ultimately show ?thesis using destroy_two [OF e(1,3)] by (simp only: D_def)
  qed
  then have t: "env_seen L Op V {} D t" unfolding t_def by (rule env_quiet [rotated]) simp
  have cfg: "nb_ports (port_config (dpdk_config t)) = 2" using e(2) by (simp add: t_def)
  define d where "d = dpdk_queues_and_ports_fini L (dpdk_config t) (ev_dpdk t)"
  have two: "max 1 (nat (2 :: int)) = 2" by simp
  have d: "open_ports (dp_calls d) = {}" "doca_seen {} D d"
    using queues_fini_closes [of L Op V "ev_dpdk t" "dpdk_config t", unfolded cfg two] t e(5) doca.queues_fini_step [of "{}" D "ev_dpdk t" L] by (simp_all add: env_seen_def d_def)
  have "env_seen L {} (valid_now L d) {} D (t\<lparr>ev_dpdk := d\<rparr>)" using d L(1) by (simp add: env_seen_def seen_def)
  then have "env_seen L {} (valid_now L d) {} D (t\<lparr>ev_dpdk := dpdk_fini L d\<rparr>)"
    using seen.io_step [of Eal_cleanup L "{}" "valid_now L d" d] doca.io_step [of Eal_cleanup "{}" D d L] by (simp add: env_seen_def dpdk_fini_def)
  from env_quiet [OF _ this, of Argp_destroy] have "env_seen L {} (valid_now L d) {} D (flowQoS_env_destroy L s')"
    by (simp add: flowQoS_env_destroy_def t_def [symmetric] d_def [symmetric] Let_def)
  moreover have "live_ports (ev_calls s') = Lv" "open_ports (ev_calls s') = Op" "dead_destroys (ev_calls s') = []"
    using e(1) by (simp_all add: env_seen_def seen_def doca_seen_def)
  ultimately show ?thesis using e(7) D by (simp add: env_seen_def seen_def doca_seen_def two_def Let_def)
qed

text \<open>The second port of DOCA-Flow cannot be started.\<close>

definition demo_env_library :: library where
  "demo_env_library = (demo_library False)\<lparr>answer := (\<lambda>tr c. case c of
     Port_start p a \<Rightarrow> (if p = 0 then int (sum_list (map (nat \<circ> snd) tr)) + 1 else 0) | _ \<Rightarrow> answer (demo_library False) tr c)\<rparr>"

definition demo_app_env :: "unit env_state" where
  "demo_app_env = \<lparr>ports = (\<lambda>_. 0), dpdk_config = dpdk_config_init, ev_dpdk = demo_dpdk, ev_msg = ()\<rparr>"

lemma live_ports_bound: "h \<in> live_ports tr \<Longrightarrow> h \<le> sum_list (map (nat \<circ> snd) tr)"
  by (induction tr rule: live_ports.induct) (auto split: if_splits)

lemma demo_env_laws: "stable_ports demo_env_library" "fresh_handles demo_env_library"
proof -
  show "stable_ports demo_env_library" using demo_stable [of False] by (simp add: stable_ports_def demo_env_library_def)
  have "0 \<notin> live_ports tr" for tr by (induction tr rule: live_ports.induct) (auto split: if_splits)
  moreover have "nat (int n + 1) \<notin> live_ports tr" if "n = sum_list (map (nat \<circ> snd) tr)" for n tr
    using live_ports_bound [of "nat (int n + 1)" tr] that by auto
  ultimately show "fresh_handles demo_env_library" by (auto simp: fresh_handles_def demo_env_library_def)
qed

lemma demo_env_run:
  "\<exists>s'. flowQoS_env_init demo_env_library 0 (\<lambda>m. Some (1, m)) demo_app_env = Some (1, s') \<and> ports s' 0 \<noteq> 0 \<and> ports s' 1 = 0 \<and> live_ports (ev_calls s') = {}"
  by (simp add: flowQoS_env_init_def init_doca_flow_def init_doca_flow_ports_def create_doca_flow_port_def destroy_doca_flow_ports_def env_call_def EXIT_FAILURE_def
     dpdk_queues_and_ports_init_def bring_up_def dpdk_ports_init_def allocate_mempool_def port_init_def setup_hairpin_queues_def enable_hairpin_queues_def
     bind_hairpin_queues_def for_peers_def dpdk_ports_fini_def and_then_def lift_call_def try_call_def do_call_def demo_library_def demo_env_library_def dpdk_config_init_def
     demo_dpdk_def demo_app_env_def flow_consts Let_def upt_rec split: if_splits)

lemma env_destroy_after_init_witness:
  "\<exists>s' h. flowQoS_env_init demo_env_library 0 (\<lambda>m. Some (1, m)) demo_app_env = Some (1, s') \<and> h \<noteq> 0 \<and>
     dead_destroys (ev_calls (flowQoS_env_destroy demo_env_library s')) = [h]"
proof -
  obtain s' where run: "flowQoS_env_init demo_env_library 0 (\<lambda>m. Some (1, m)) demo_app_env = Some (1, s')"
    and p: "ports s' 0 \<noteq> 0" "ports s' 1 = 0" "live_ports (ev_calls s') = {}" using demo_env_run by blast
  have start: "ev_calls demo_app_env = []" "ports demo_app_env = (\<lambda>_. 0)" "dpdk_config demo_app_env = dpdk_config_init"
    by (simp_all add: demo_app_env_def demo_dpdk_def)
  have "rev (dead_destroys (ev_calls (flowQoS_env_destroy demo_env_library s'))) = [ports s' 0]"
    using env_destroy_after_init [OF demo_env_laws start run] p by (simp add: Let_def)
  then have "dead_destroys (ev_calls (flowQoS_env_destroy demo_env_library s')) = [ports s' 0]" by (simp add: rev_swap)
  with run p(1) show ?thesis by blast
qed

end
