(* ===== verification/C_String.thy ===== *)
theory C_String
  imports Prelude
begin

text \<open>
  The functions of the C library on text that the command line of \<open>src/src/common/src/flow_parser.c\<close> uses.
  A text is the list of characters before the terminating null. \<open>strtol\<close> and \<open>strtoull\<close> give their value
  with the number of characters that the end pointer is past the start; for a base that is not supported the
  value is 0 and no end pointer is stored.
\<close>

section \<open>Numbers\<close>

definition is_space :: "char \<Rightarrow> bool" where
  "is_space c \<longleftrightarrow> c \<in> {CHR 0x20, CHR 0x09, CHR 0x0A, CHR 0x0B, CHR 0x0C, CHR 0x0D}"

definition digit_value :: "char \<Rightarrow> nat" where
  "digit_value c =
     (let n = of_char c :: nat in
      if 48 \<le> n \<and> n \<le> 57 then n - 48 else if 65 \<le> n \<and> n \<le> 90 then n - 55
      else if 97 \<le> n \<and> n \<le> 122 then n - 87 else 36)"

definition is_digit :: "nat \<Rightarrow> char \<Rightarrow> bool" where
  "is_digit base c \<longleftrightarrow> digit_value c < base"

definition digits_value :: "nat \<Rightarrow> string \<Rightarrow> nat" where
  "digits_value base s = foldl (\<lambda>v c. v * base + digit_value c) 0 s"

text \<open>The optional sign: whether it is a minus, and its length.\<close>

definition number_sign :: "string \<Rightarrow> bool \<times> nat" where
  "number_sign s = (case s of [] \<Rightarrow> (False, 0)
     | c # _ \<Rightarrow> if c = CHR ''-'' then (True, 1) else if c = CHR ''+'' then (False, 1) else (False, 0))"

text \<open>The base that is meant by base 0 or 16, and the length of its prefix.\<close>

definition number_base :: "nat \<Rightarrow> string \<Rightarrow> nat \<times> nat" where
  "number_base base s =
     (if (base = 0 \<or> base = 16) \<and> 3 \<le> length s \<and> s ! 0 = CHR ''0'' \<and> (s ! 1 = CHR ''x'' \<or> s ! 1 = CHR ''X'')
         \<and> is_digit 16 (s ! 2) then (16, 2)
      else if base = 0 then (if s \<noteq> [] \<and> s ! 0 = CHR ''0'' then 8 else 10, 0)
      else (base, 0))"

text \<open>The sign and the magnitude of the number a text starts with, and the length of its text, 0 if there is none.\<close>

definition scan_number :: "nat \<Rightarrow> string \<Rightarrow> bool \<times> nat \<times> nat" where
  "scan_number base s =
     (let sp = length (takeWhile is_space s);
          (neg, k) = number_sign (drop sp s);
          (b, p) = number_base base (drop (sp + k) s);
          ds = takeWhile (is_digit b) (drop (sp + k + p) s)
      in if ds = [] then (False, 0, 0) else (neg, digits_value b ds, sp + k + p + length ds))"

definition base_supported :: "nat \<Rightarrow> bool" where
  "base_supported base \<longleftrightarrow> base = 0 \<or> 2 \<le> base \<and> base \<le> 36"

definition LONG_MAX :: int where "LONG_MAX = 2 ^ 63 - 1"
definition LONG_MIN :: int where "LONG_MIN = - (2 ^ 63)"
definition ULLONG_MAX :: int where "ULLONG_MAX = 2 ^ 64 - 1"

definition strtol :: "nat \<Rightarrow> string \<Rightarrow> int \<times> nat option" where
  "strtol base s =
     (if \<not> base_supported base then (0, None)
      else case scan_number base s of (neg, n, k) \<Rightarrow>
        (max LONG_MIN (min LONG_MAX (if neg then - int n else int n)), Some k))"

definition strtoull :: "nat \<Rightarrow> string \<Rightarrow> u64 \<times> nat option" where
  "strtoull base s =
     (if \<not> base_supported base then (0, None)
      else case scan_number base s of (neg, n, k) \<Rightarrow>
        (if ULLONG_MAX < int n then - 1 else if neg then - word_of_nat n else word_of_nat n, Some k))"

definition atoi :: "string \<Rightarrow> int" where
  "atoi s = c_int (fst (strtol 10 s))"

section \<open>Parts of texts\<close>

text \<open>\<open>strncmp(s, p, strlen(p)) == 0\<close>.\<close>

definition starts_with :: "string \<Rightarrow> string \<Rightarrow> bool" where
  "starts_with p s \<longleftrightarrow> take (length p) s = p"

text \<open>\<open>strchr(s, c)\<close>: the text that starts at the first \<open>c\<close>.\<close>

definition strchr :: "char \<Rightarrow> string \<Rightarrow> string option" where
  "strchr c s = (if c \<in> set s then Some (dropWhile (\<lambda>x. x \<noteq> c) s) else None)"

text \<open>
  The first call \<open>strtok(s, d)\<close> with one delimiter: the number of delimiters skipped and the token; there is
  none if the text has only delimiters.
\<close>

definition strtok :: "char \<Rightarrow> string \<Rightarrow> (nat \<times> string) option" where
  "strtok d s =
     (let k = length (takeWhile (\<lambda>x. x = d) s); t = takeWhile (\<lambda>x. x \<noteq> d) (drop k s)
      in if t = [] then None else Some (k, t))"

text \<open>The text that \<open>strlcpy\<close> leaves in a buffer of \<open>n\<close> characters.\<close>

definition strlcpy :: "nat \<Rightarrow> string \<Rightarrow> string" where
  "strlcpy n s = take (n - 1) s"

text \<open>
  A pointer into a text that is moved on: past the terminating null there is no text, and what is read there
  is not determined.
\<close>

definition advance :: "nat \<Rightarrow> string \<Rightarrow> string option" where
  "advance k s = (if k \<le> length s then Some (drop k s) else None)"

section \<open>Reading what was printed\<close>

lemma of_char_digit: "n < 10 \<Longrightarrow> of_char (digit n) = 48 + n"
  by (simp add: digit_def of_char_of take_bit_eq_mod)

lemma digit_value_digit [simp]: "n < 10 \<Longrightarrow> digit_value (digit n) = n"
  by (simp add: digit_value_def of_char_digit Let_def)

lemma digit_not_space: "n < 10 \<Longrightarrow> \<not> is_space (digit n)"
  using of_char_digit [of n] by (auto simp: is_space_def)

lemma digits_value_snoc: "digits_value b (s @ [c]) = digits_value b s * b + digit_value c"
  by (simp add: digits_value_def)

lemma digits_value_dec: "digits_value 10 (dec n) = n"
proof (induction n rule: dec.induct)
  case (1 n)
  show ?case
  proof (cases "n < 10")
    case True
    then show ?thesis by (simp add: dec.simps [of n] digits_value_def)
  next
    case False
    then show ?thesis using 1 by (simp add: dec.simps [of n] digits_value_snoc)
  qed
qed

lemma dec_digits: "c \<in> set (dec n) \<Longrightarrow> \<exists>d<10. c = digit d"
proof (induction n rule: dec.induct)
  case (1 n)
  show ?case
  proof (cases "n < 10")
    case True
    then show ?thesis using "1.prems" by (auto simp: dec.simps [of n])
  next
    case False
    then have "c \<in> set (dec (n div 10)) \<or> c = digit (n mod 10)"
      using "1.prems" by (auto simp: dec.simps [of n])
    then show ?thesis using "1.IH" [OF False] by (metis mod_less_divisor zero_less_numeral)
  qed
qed

lemma dec_not_Nil [simp]: "dec n \<noteq> []"
  by (subst dec.simps) simp

text \<open>A decimal number has no leading 0, except 0 itself.\<close>

lemma dec_hd: "n \<noteq> 0 \<Longrightarrow> \<exists>d<10. d \<noteq> 0 \<and> hd (dec n) = digit d"
proof (induction n rule: dec.induct)
  case (1 n)
  show ?case
  proof (cases "n < 10")
    case True
    then show ?thesis using "1.prems" by (auto simp: dec.simps [of n])
  next
    case False
    then show ?thesis using 1 by (simp add: dec.simps [of n])
  qed
qed

text \<open>What may follow a number: nothing, or a character that is neither a digit nor a letter.\<close>

definition stops :: "string \<Rightarrow> bool" where
  "stops r \<longleftrightarrow> r = [] \<or> digit_value (hd r) = 36"

lemma stops_simps [simp]: "stops []" "stops (CHR '','' # r)" "stops (CHR ''.'' # r)"
  by (simp_all add: stops_def digit_value_def)

lemma dec_Cons: obtains d ds where "d < 10" and "dec n = digit d # ds"
  by (metis dec_digits dec_not_Nil list.exhaust list.set_intros(1))

lemma takeWhile_digits: "stops r \<Longrightarrow> b \<le> 36 \<Longrightarrow> (\<And>c. c \<in> set s \<Longrightarrow> is_digit b c) \<Longrightarrow> takeWhile (is_digit b) (s @ r) = s"
  by (cases r) (auto simp: stops_def is_digit_def takeWhile_append2)

lemma sign_digit: "d < 10 \<Longrightarrow> number_sign (digit d # s) = (False, 0)"
  using of_char_digit [of d] by (auto simp: number_sign_def)

lemma scan_dec_10:
  assumes "stops r"
  shows "scan_number 10 (dec n @ r) = (False, n, length (dec n))"
proof -
  obtain d ds where d: "d < 10" "dec n = digit d # ds" by (rule dec_Cons)
  have "takeWhile (is_digit 10) (dec n @ r) = dec n"
    using assms by (rule takeWhile_digits) (auto simp: is_digit_def dest!: dec_digits)
  then show ?thesis
    using d digits_value_dec [of n] by (simp add: scan_number_def digit_not_space sign_digit number_base_def)
qed

lemma digit_zero: "digit 0 = CHR ''0''"
  by (simp add: digit_def char_of_def bit_iff_odd)

lemma digit_eq_zero: "d < 10 \<Longrightarrow> digit d = CHR ''0'' \<longleftrightarrow> d = 0"
  using digit_zero digit_value_digit [of d] digit_value_digit [of 0] by (metis zero_less_numeral)

lemma stops_no_x: "stops (c # r) \<Longrightarrow> c \<noteq> CHR ''x'' \<and> c \<noteq> CHR ''X''"
  by (auto simp: stops_def digit_value_def)

lemma scan_zero:
  assumes "stops r"
  shows "scan_number 0 (CHR ''0'' # r) = (False, 0, 1)"
proof -
  have sp: "\<not> is_space CHR ''0''" by (simp add: is_space_def)
  have sign: "number_sign (CHR ''0'' # r) = (False, 0)" by (simp add: number_sign_def)
  have no_x: "\<not> (3 \<le> length (CHR ''0'' # r) \<and> ((CHR ''0'' # r) ! 1 = CHR ''x'' \<or> (CHR ''0'' # r) ! 1 = CHR ''X''))"
    using assms by (cases r) (auto dest: stops_no_x)
  then have base: "number_base 0 (CHR ''0'' # r) = (8, 0)" by (auto simp: number_base_def)
  have "is_digit 8 CHR ''0''" by (simp add: is_digit_def digit_value_def)
  then have "takeWhile (is_digit 8) ([CHR ''0''] @ r) = [CHR ''0'']"
    using assms by (intro takeWhile_digits) auto
  then show ?thesis
    using sp sign base by (simp add: scan_number_def digits_value_def digit_value_def)
qed

lemma scan_dec_0:
  assumes "stops r"
  shows "scan_number 0 (dec n @ r) = (False, n, length (dec n))"
proof (cases "n = 0")
  case True
  then show ?thesis using scan_zero [OF assms] by (simp add: dec.simps [of 0] digit_zero)
next
  case False
  obtain d ds where d: "d < 10" "dec n = digit d # ds" by (rule dec_Cons)
  have "d \<noteq> 0" using dec_hd [OF False] d by (metis digit_value_digit list.sel(1))
  then have "number_base 0 (dec n @ r) = number_base 10 (dec n @ r)" using d by (simp add: number_base_def digit_eq_zero)
  then have "scan_number 0 (dec n @ r) = scan_number 10 (dec n @ r)"
    using d by (simp only: scan_number_def append_Cons takeWhile.simps digit_not_space if_False list.size drop_0
      sign_digit Let_def prod.case add_0)
  then show ?thesis using scan_dec_10 [OF assms] by simp
qed

lemma strtol_dec:
  assumes "stops r" and "int n \<le> LONG_MAX"
  shows "strtol 0 (dec n @ r) = (int n, Some (length (dec n)))"
  using assms by (simp add: strtol_def base_supported_def scan_dec_0 LONG_MIN_def LONG_MAX_def)

lemma strtoull_dec:
  assumes "stops r" and "int n \<le> ULLONG_MAX"
  shows "strtoull 0 (dec n @ r) = (word_of_nat n, Some (length (dec n)))"
  using assms by (simp add: strtoull_def base_supported_def scan_dec_0)

lemma atoi_dec:
  assumes "stops r" and "n < 2 ^ 31"
  shows "atoi (dec n @ r) = int n"
  using assms by (simp add: atoi_def strtol_def base_supported_def scan_dec_10 LONG_MIN_def LONG_MAX_def)

lemma dec_no_char: "digit_value c = 36 \<Longrightarrow> c \<notin> set (dec n)"
  by (auto dest!: dec_digits)

section \<open>Tokens\<close>

lemma strtok_token:
  assumes "t \<noteq> []" and "d \<notin> set t" and "r = [] \<or> hd r = d"
  shows "strtok d (t @ r) = Some (0, t)"
proof -
  have "takeWhile (\<lambda>x. x = d) (t @ r) = []" using assms(1,2) by (cases t) auto
  moreover have "takeWhile (\<lambda>x. x \<noteq> d) t = t" using assms(2) by (auto simp: takeWhile_eq_all_conv)
  then have "takeWhile (\<lambda>x. x \<noteq> d) (t @ r) = t" using assms(3) by (cases r) (auto simp: takeWhile_append takeWhile_eq_all_conv)
  ultimately show ?thesis using assms(1) by (simp add: strtok_def)
qed

lemma strtok_length: "strtok d s = Some (k, t) \<Longrightarrow> k + length t \<le> length s"
proof -
  assume "strtok d s = Some (k, t)"
  then have "k = length (takeWhile (\<lambda>x. x = d) s)" and "t = takeWhile (\<lambda>x. x \<noteq> d) (drop k s)"
    by (auto simp: strtok_def Let_def split: if_splits)
  then show ?thesis
    using length_takeWhile_le [of "\<lambda>x. x \<noteq> d" "drop k s"] length_takeWhile_le [of "\<lambda>x. x = d" s] by simp
qed

lemma starts_with_append [simp]: "starts_with p (p @ s)"
  by (simp add: starts_with_def)

lemma starts_with_length: "starts_with p s \<Longrightarrow> length p \<le> length s"
  by (metis length_take min.cobounded1 starts_with_def)

lemma scan_number_length: "scan_number b s = (neg, n, k) \<Longrightarrow> k \<le> length s"
proof -
  assume scan: "scan_number b s = (neg, n, k)"
  define sp where "sp = length (takeWhile is_space s)"
  obtain neg' j where j: "number_sign (drop sp s) = (neg', j)" by fastforce
  obtain b' p where p: "number_base b (drop (sp + j) s) = (b', p)" by fastforce
  have "length (takeWhile (is_digit b') (drop (sp + j + p) s)) \<le> length s - (sp + j + p)"
    using length_takeWhile_le [of "is_digit b'" "drop (sp + j + p) s"] by simp
  moreover have "takeWhile (is_digit b') (drop (sp + j + p) s) \<noteq> [] \<Longrightarrow> sp + j + p < length s"
    by (metis drop_all leI takeWhile.simps(1))
  ultimately show ?thesis
    using scan by (auto simp: scan_number_def sp_def [symmetric] j p Let_def split: if_splits)
qed

lemma strtol_end: "base_supported b \<Longrightarrow> \<exists>k. snd (strtol b s) = Some k \<and> k \<le> length s"
  using scan_number_length [of b s] by (cases "scan_number b s") (auto simp: strtol_def)

lemma strtoull_end: "base_supported b \<Longrightarrow> \<exists>k. snd (strtoull b s) = Some k \<and> k \<le> length s"
  using scan_number_length [of b s] by (cases "scan_number b s") (auto simp: strtoull_def)

lemma base_supported_0 [simp]: "base_supported 0"
  by (simp add: base_supported_def)

end
