(* ===== verification/Flow_Data.thy ===== *)
theory Flow_Data
  imports C_String
begin

text \<open>
  The structures of DOCA-Flow that the command line fills (\<open>src/src/common/src/flow_parser.c\<close>): the parsers
  of single values, the tables of the fields of a match, of actions, of a monitor and of a forward, and the
  loop over the text of a structure. DOCA's own headers are not part of the repository: its enumerations are
  datatypes of the constants the code names, with one more constructor for the value 0 that \<open>memset\<close> leaves,
  and its structures have the fields the code uses. A parser takes the old value of its output and returns the
  new one; \<^term>\<open>None\<close> stands for undefined behaviour.
\<close>

section \<open>Structures\<close>

definition MAX_CMDLINE_INPUT_LEN :: nat where [flow_consts]: "MAX_CMDLINE_INPUT_LEN = 512"
definition MAC_ADDR_LEN :: nat where [flow_consts]: "MAC_ADDR_LEN = 6"
definition IP_ADDR_LEN :: nat where [flow_consts]: "IP_ADDR_LEN = 4"
definition MAX_FIELD_INPUT_LEN :: nat where [flow_consts]: "MAX_FIELD_INPUT_LEN = 128"
definition HEXADECIMAL_BASE :: nat where [flow_consts]: "HEXADECIMAL_BASE = 1"
definition UINT32_CHANGEABLE_FIELD :: string where "UINT32_CHANGEABLE_FIELD = ''0xffffffff''"

datatype doca_proto = PROTO_UNSET | DOCA_PROTO_TCP | DOCA_PROTO_UDP | DOCA_PROTO_GRE
datatype doca_ip_type = IP_TYPE_UNSET | DOCA_FLOW_IP4_ADDR | DOCA_FLOW_IP6_ADDR
datatype doca_tun_type = DOCA_FLOW_TUN_NONE | DOCA_FLOW_TUN_VXLAN | DOCA_FLOW_TUN_GTPU | DOCA_FLOW_TUN_GRE
datatype doca_fwd_type =
  DOCA_FLOW_FWD_NONE | DOCA_FLOW_FWD_RSS | DOCA_FLOW_FWD_PORT | DOCA_FLOW_FWD_PIPE | DOCA_FLOW_FWD_DROP
datatype doca_pipe_type = DOCA_FLOW_PIPE_BASIC | DOCA_FLOW_PIPE_CONTROL
datatype doca_tcp_flag =
    TCP_FLAG_UNSET | TCP_FLAG_FIN | TCP_FLAG_SYN | TCP_FLAG_RST | TCP_FLAG_PSH | TCP_FLAG_ACK | TCP_FLAG_URG
  | TCP_FLAG_ECE | TCP_FLAG_CWR

text \<open>
  The address is a union: \<open>ipv4_addr\<close> is the first of the four words of \<open>ipv6_addr\<close>. The numbers of a tunnel
  are a union as well, of which the member stored last is kept.
\<close>

record doca_ip_addr =
  addr_type :: doca_ip_type
  addr_words :: "u32 list"

datatype tun_number = Tun_unset | Vxlan_tun_id u32 | Gre_key u32 | Gtp_teid u32

record doca_tun =
  tun_type :: doca_tun_type
  tun_number :: tun_number

text \<open>The fields of a match that exist for the outer and for the inner headers.\<close>

record match_headers =
  src_mac :: "u8 list"
  dst_mac :: "u8 list"
  eth_type :: u16
  vlan_tci :: u16
  src_ip :: doca_ip_addr
  dst_ip :: doca_ip_addr
  l4_type :: doca_proto
  tcp_flags :: doca_tcp_flag
  src_port :: u16
  dst_port :: u16

record doca_match =
  match_flags :: u32
  port_meta :: u32
  out_hdr :: match_headers
  match_tun :: doca_tun
  in_hdr :: match_headers

record doca_encap =
  encap_src_mac :: "u8 list"
  encap_dst_mac :: "u8 list"
  encap_src_ip :: doca_ip_addr
  encap_dst_ip :: doca_ip_addr
  encap_tun :: doca_tun

record doca_actions =
  decap :: bool
  mod_src_mac :: "u8 list"
  mod_dst_mac :: "u8 list"
  mod_src_ip :: doca_ip_addr
  mod_dst_ip :: doca_ip_addr
  mod_src_port :: u16
  mod_dst_port :: u16
  action_ttl :: u8
  has_encap :: bool
  encap :: doca_encap

record doca_monitor =
  mon_flags :: u8
  mon_cir :: u64
  mon_cbs :: u64
  mon_aging :: u32

text \<open>The queues of a forward are the number of an allocated block, \<^term>\<open>None\<close> being null.\<close>

record doca_fwd =
  fwd_type :: doca_fwd_type
  fwd_rss_flags :: u32
  fwd_rss_queues :: "nat option"
  fwd_num_of_queues :: int
  fwd_port_id :: u16

text \<open>What \<open>memset\<close> to 0 leaves.\<close>

definition zero_mac :: "u8 list" where "zero_mac = replicate MAC_ADDR_LEN 0"
definition zero_ip :: doca_ip_addr where "zero_ip = \<lparr>addr_type = IP_TYPE_UNSET, addr_words = replicate IP_ADDR_LEN 0\<rparr>"
definition zero_tun :: doca_tun where "zero_tun = \<lparr>tun_type = DOCA_FLOW_TUN_NONE, tun_number = Tun_unset\<rparr>"

definition zero_headers :: match_headers where
  "zero_headers = \<lparr>src_mac = zero_mac, dst_mac = zero_mac, eth_type = 0, vlan_tci = 0, src_ip = zero_ip,
     dst_ip = zero_ip, l4_type = PROTO_UNSET, tcp_flags = TCP_FLAG_UNSET, src_port = 0, dst_port = 0\<rparr>"

definition zero_match :: doca_match where
  "zero_match = \<lparr>match_flags = 0, port_meta = 0, out_hdr = zero_headers, match_tun = zero_tun, in_hdr = zero_headers\<rparr>"

definition zero_actions :: doca_actions where
  "zero_actions = \<lparr>decap = False, mod_src_mac = zero_mac, mod_dst_mac = zero_mac, mod_src_ip = zero_ip,
     mod_dst_ip = zero_ip, mod_src_port = 0, mod_dst_port = 0, action_ttl = 0, has_encap = False,
     encap = \<lparr>encap_src_mac = zero_mac, encap_dst_mac = zero_mac, encap_src_ip = zero_ip,
              encap_dst_ip = zero_ip, encap_tun = zero_tun\<rparr>\<rparr>"

definition zero_monitor :: doca_monitor where
  "zero_monitor = \<lparr>mon_flags = 0, mon_cir = 0, mon_cbs = 0, mon_aging = 0\<rparr>"

definition zero_fwd :: doca_fwd where
  "zero_fwd = \<lparr>fwd_type = DOCA_FLOW_FWD_NONE, fwd_rss_flags = 0, fwd_rss_queues = None, fwd_num_of_queues = 0,
     fwd_port_id = 0\<rparr>"

section \<open>Memory\<close>

text \<open>
  The blocks of \<open>malloc\<close> and \<open>strndup\<close>, numbered as they are allocated, and the pointer \<open>rss_queues\<close>. Whether
  an allocation succeeds, from its number and its size, is a parameter.
\<close>

datatype block = Queues "u16 list" | Name string

record parser_heap =
  blocks :: "nat \<Rightarrow> block option"
  next_block :: nat
  rss_queues :: "nat option"

definition allocate :: "(nat \<Rightarrow> int \<Rightarrow> bool) \<Rightarrow> int \<Rightarrow> block \<Rightarrow> parser_heap \<Rightarrow> nat option \<times> parser_heap" where
  "allocate malloc sz b h =
     (if malloc (next_block h) sz
      then (Some (next_block h), h\<lparr>blocks := (blocks h)(next_block h \<mapsto> b), next_block := next_block h + 1\<rparr>)
      else (None, h\<lparr>next_block := next_block h + 1\<rparr>))"

text \<open>\<open>free\<close> of a pointer: nothing for null, undefined for a block that is not allocated.\<close>

fun release :: "nat option \<Rightarrow> parser_heap \<Rightarrow> parser_heap option" where
  "release None h = Some h"
| "release (Some b) h = (if blocks h b = None then None else Some (h\<lparr>blocks := (blocks h)(b := None)\<rparr>))"

end
