(* ===== verification/Flow_Parser.thy ===== *)
theory Flow_Parser
  imports Flow_Data
begin

text \<open>
  The parsers of \<open>src/src/common/src/flow_parser.c\<close>: of single values, of the fields of each structure, and
  the loop over the text \<open>name=value,name=value\<close> of a structure. Each takes the old value of its output and
  returns the new one with the result; \<^term>\<open>None\<close> stands for undefined behaviour.
\<close>

section \<open>Values\<close>

text \<open>An address in network byte order; the sums and shifts of \<open>BE_IPV4_ADDR\<close> are taken on 32 bits.\<close>

definition BE_IPV4_ADDR :: "int \<Rightarrow> int \<Rightarrow> int \<Rightarrow> int \<Rightarrow> u32" where
  "BE_IPV4_ADDR a b c d =
     bswap32 (push_bit 24 (word_of_int a) + push_bit 16 (word_of_int b) + push_bit 8 (word_of_int c) + word_of_int d)"

text \<open>The numbers before \<open>n\<close> dots and after the last of them.\<close>

fun ipv4_numbers :: "nat \<Rightarrow> string \<Rightarrow> int list option" where
  "ipv4_numbers 0 str_ip = Some [atoi str_ip]"
| "ipv4_numbers (Suc n) str_ip =
     (case strchr CHR ''.'' str_ip of None \<Rightarrow> None
      | Some ptr \<Rightarrow> map_option (\<lambda>ips. atoi str_ip # ips) (ipv4_numbers n (tl ptr)))"

definition parse_ipv4_str :: "string \<Rightarrow> u32 \<Rightarrow> doca_error \<times> u32" where
  "parse_ipv4_str str_ip ipv4_addr =
     (if str_ip = UINT32_CHANGEABLE_FIELD then (DOCA_SUCCESS, - 1)
      else case ipv4_numbers 3 str_ip of
        None \<Rightarrow> (DOCA_ERROR_INVALID_VALUE, ipv4_addr)
      | Some ips \<Rightarrow> (DOCA_SUCCESS, BE_IPV4_ADDR (ips ! 0) (ips ! 1) (ips ! 2) (ips ! 3)))"

definition parse_protocol_string :: "string \<Rightarrow> doca_proto \<Rightarrow> doca_error \<times> doca_proto" where
  "parse_protocol_string protocol_str protocol =
     (if protocol_str = ''tcp'' then (DOCA_SUCCESS, DOCA_PROTO_TCP)
      else if protocol_str = ''udp'' then (DOCA_SUCCESS, DOCA_PROTO_UDP)
      else if protocol_str = ''gre'' then (DOCA_SUCCESS, DOCA_PROTO_GRE)
      else (DOCA_ERROR_INVALID_VALUE, protocol))"

definition parse_pipe_id_input :: "string \<Rightarrow> u64 \<Rightarrow> doca_error \<times> u64" where
  "parse_pipe_id_input pipe_id_str pipe_id =
     (if \<not> starts_with ''pipe_id='' pipe_id_str then (DOCA_ERROR_INVALID_VALUE, pipe_id)
      else (DOCA_SUCCESS, fst (strtoull 0 (drop 8 pipe_id_str))))"

definition parse_port_id_input :: "string \<Rightarrow> int \<Rightarrow> doca_error \<times> int" where
  "parse_port_id_input port_id_str port_id =
     (if \<not> starts_with ''port_id='' port_id_str then (DOCA_ERROR_INVALID_VALUE, port_id)
      else (DOCA_SUCCESS, c_int (fst (strtol 0 (drop 8 port_id_str)))))"

definition parse_tun_type_string :: "string \<Rightarrow> doca_tun_type \<Rightarrow> doca_error \<times> doca_tun_type" where
  "parse_tun_type_string tun_type_str t =
     (if tun_type_str = ''vxlan'' then (DOCA_SUCCESS, DOCA_FLOW_TUN_VXLAN)
      else if tun_type_str = ''gtpu'' then (DOCA_SUCCESS, DOCA_FLOW_TUN_GTPU)
      else if tun_type_str = ''gre'' then (DOCA_SUCCESS, DOCA_FLOW_TUN_GRE)
      else (DOCA_ERROR_INVALID_VALUE, t))"

definition parse_fwd_type :: "string \<Rightarrow> doca_fwd_type \<Rightarrow> doca_error \<times> doca_fwd_type" where
  "parse_fwd_type fwd_str t =
     (if fwd_str = ''rss'' then (DOCA_SUCCESS, DOCA_FLOW_FWD_RSS)
      else if fwd_str = ''port'' then (DOCA_SUCCESS, DOCA_FLOW_FWD_PORT)
      else if fwd_str = ''pipe'' then (DOCA_SUCCESS, DOCA_FLOW_FWD_PIPE)
      else if fwd_str = ''drop'' then (DOCA_SUCCESS, DOCA_FLOW_FWD_DROP)
      else (DOCA_ERROR_INVALID_VALUE, t))"

definition parse_pipe_type :: "string \<Rightarrow> doca_pipe_type \<Rightarrow> doca_error \<times> doca_pipe_type" where
  "parse_pipe_type pipe_type t =
     (if pipe_type = ''basic'' then (DOCA_SUCCESS, DOCA_FLOW_PIPE_BASIC)
      else if pipe_type = ''control'' then (DOCA_SUCCESS, DOCA_FLOW_PIPE_CONTROL)
      else (DOCA_ERROR_INVALID_VALUE, t))"

definition parse_ip_type :: "string \<Rightarrow> doca_ip_type \<Rightarrow> doca_error \<times> doca_ip_type" where
  "parse_ip_type ip_type_str t =
     (if ip_type_str = ''ipv4'' then (DOCA_SUCCESS, DOCA_FLOW_IP4_ADDR)
      else if ip_type_str = ''ipv6'' then (DOCA_SUCCESS, DOCA_FLOW_IP6_ADDR)
      else (DOCA_ERROR_INVALID_VALUE, t))"

definition parse_tcp_flag_string :: "string \<Rightarrow> doca_tcp_flag \<Rightarrow> doca_error \<times> doca_tcp_flag" where
  "parse_tcp_flag_string tcp_flag_str tcp_flag =
     (if tcp_flag_str = ''FIN'' then (DOCA_SUCCESS, TCP_FLAG_FIN)
      else if tcp_flag_str = ''SYN'' then (DOCA_SUCCESS, TCP_FLAG_SYN)
      else if tcp_flag_str = ''RST'' then (DOCA_SUCCESS, TCP_FLAG_RST)
      else if tcp_flag_str = ''PSH'' then (DOCA_SUCCESS, TCP_FLAG_PSH)
      else if tcp_flag_str = ''ACK'' then (DOCA_SUCCESS, TCP_FLAG_ACK)
      else if tcp_flag_str = ''URG'' then (DOCA_SUCCESS, TCP_FLAG_URG)
      else if tcp_flag_str = ''ECE'' then (DOCA_SUCCESS, TCP_FLAG_ECE)
      else if tcp_flag_str = ''CWR'' then (DOCA_SUCCESS, TCP_FLAG_CWR)
      else (DOCA_ERROR_INVALID_VALUE, tcp_flag))"

definition hex_number :: "string \<Rightarrow> int" where
  "hex_number s = fst (strtol HEXADECIMAL_BASE s)"

text \<open>The loop of \<open>parse_mac_address\<close> from byte \<open>i\<close> on; what was stored before an error stays.\<close>

function mac_bytes :: "nat \<Rightarrow> string \<Rightarrow> u8 list \<Rightarrow> doca_error \<times> u8 list" where
  "mac_bytes i mac_addr_str mac_addr =
     (let mac_addr = mac_addr[i := word_of_int (hex_number mac_addr_str)] in
      if i < MAC_ADDR_LEN - 1
      then (case strchr CHR '':'' mac_addr_str of
              None \<Rightarrow> (DOCA_ERROR_INVALID_VALUE, mac_addr)
            | Some ptr \<Rightarrow> mac_bytes (i + 1) (tl ptr) mac_addr)
      else (DOCA_SUCCESS, mac_addr))"
  by pat_completeness auto
termination by (relation "measure (\<lambda>(i, _). MAC_ADDR_LEN - i)") auto

declare mac_bytes.simps [simp del]

definition parse_mac_address :: "string \<Rightarrow> u8 list \<Rightarrow> doca_error \<times> u8 list" where
  "parse_mac_address mac_addr_str mac_addr = mac_bytes 0 mac_addr_str mac_addr"

text \<open>
  The loops of \<open>parse_ipv6_str\<close> for \<open>n\<close> numbers: \<open>ptr\<close> is the end pointer, \<^term>\<open>None\<close> while nothing has
  been stored in it, and \<open>str_ip\<close> the text it is moved on to, \<^term>\<open>None\<close> past the end of the text.
\<close>

fun ipv6_numbers :: "nat \<Rightarrow> string option \<Rightarrow> string option \<Rightarrow> int list option" where
  "ipv6_numbers 0 ptr str_ip = Some []"
| "ipv6_numbers (Suc n) ptr None = None"
| "ipv6_numbers (Suc n) ptr (Some str_ip) =
     (case strtol HEXADECIMAL_BASE str_ip of (v, e) \<Rightarrow>
        (case (case e of Some k \<Rightarrow> Some (drop k str_ip) | None \<Rightarrow> ptr) of
           None \<Rightarrow> None
         | Some p \<Rightarrow> map_option (\<lambda>ips. v # ips) (ipv6_numbers n (advance 1 p) (advance 1 p))))"

definition parse_ipv6_str :: "string \<Rightarrow> (doca_error \<times> u32 list) option" where
  "parse_ipv6_str str_ip =
     map_option (\<lambda>ips. (DOCA_SUCCESS, map (\<lambda>i. bswap32 (push_bit 16 (word_of_int (ips ! (2 * i))) +
         word_of_int (ips ! (2 * i + 1)))) [0..<IP_ADDR_LEN]))
       (ipv6_numbers (2 * IP_ADDR_LEN) None (Some str_ip))"

text \<open>
  The loop of \<open>parse_rss_queues\<close>: the numbers at every second character; what is read past the end of the
  text is not determined. With fewer than one queue the last store is before the block.
\<close>

fun queue_numbers :: "nat \<Rightarrow> string \<Rightarrow> u16 list option" where
  "queue_numbers 0 s = Some [word_of_int (fst (strtol 0 s))]"
| "queue_numbers (Suc n) s =
     (case advance 2 s of None \<Rightarrow> None
      | Some s' \<Rightarrow> map_option (\<lambda>qs. word_of_int (fst (strtol 0 s)) # qs) (queue_numbers n s'))"

definition parse_rss_queues ::
  "(nat \<Rightarrow> int \<Rightarrow> bool) \<Rightarrow> string \<Rightarrow> int \<Rightarrow> parser_heap \<Rightarrow> (doca_error \<times> parser_heap) option" where
  "parse_rss_queues malloc rss_queues_str num_of_queues h =
     (case release (rss_queues h) h of None \<Rightarrow> None
      | Some h1 \<Rightarrow>
          (case allocate malloc (2 * num_of_queues) (Queues []) h1 of (q, h2) \<Rightarrow>
             (case q of None \<Rightarrow> Some (DOCA_ERROR_NO_MEMORY, h2\<lparr>rss_queues := None\<rparr>)
              | Some b \<Rightarrow>
                  (if num_of_queues < 1 then None
                   else map_option (\<lambda>qs. (DOCA_SUCCESS, h2\<lparr>rss_queues := Some b, blocks := (blocks h2)(b \<mapsto> Queues qs)\<rparr>))
                          (queue_numbers (nat num_of_queues - 1) rss_queues_str)))))"

definition parse_bool_string :: "string \<Rightarrow> bool \<Rightarrow> doca_error \<times> bool" where
  "parse_bool_string bool_str bool_val =
     (if bool_str = ''true'' then (DOCA_SUCCESS, True)
      else if bool_str = ''false'' then (DOCA_SUCCESS, False)
      else (DOCA_ERROR_INVALID_VALUE, bool_val))"

section \<open>Fields\<close>

text \<open>A number is stored; a parser stores its output.\<close>

abbreviation stored :: "'s \<Rightarrow> (doca_error \<times> 's) option" where
  "stored s \<equiv> Some (DOCA_SUCCESS, s)"

abbreviation refused :: "'s \<Rightarrow> (doca_error \<times> 's) option" where
  "refused s \<equiv> Some (DOCA_ERROR_INVALID_VALUE, s)"

definition into :: "('a \<Rightarrow> 's) \<Rightarrow> doca_error \<times> 'a \<Rightarrow> (doca_error \<times> 's) option" where
  "into put r = Some (fst r, put (snd r))"

lemma into_simps [simp]: "into put (r, v) = Some (r, put v)"
  by (simp add: into_def)

abbreviation number :: "string \<Rightarrow> 'a::len word" where
  "number value \<equiv> word_of_int (fst (strtol 0 value))"

definition parse_monitor_field :: "string \<Rightarrow> string \<Rightarrow> doca_monitor \<Rightarrow> (doca_error \<times> doca_monitor) option" where
  "parse_monitor_field field_name value m =
     (if field_name = ''flags'' then stored (m\<lparr>mon_flags := number value\<rparr>)
      else if field_name = ''cir'' then stored (m\<lparr>mon_cir := fst (strtoull 0 value)\<rparr>)
      else if field_name = ''cbs'' then stored (m\<lparr>mon_cbs := fst (strtoull 0 value)\<rparr>)
      else if field_name = ''aging'' then stored (m\<lparr>mon_aging := number value\<rparr>)
      else refused m)"

text \<open>
  \<open>parse_fwd_field\<close> and \<open>parse_fwd_miss_field\<close> differ in the structure and in the identifier they store:
  here on a forward, the identifier of its next pipe and the memory.
\<close>

definition fwd_field ::
  "(nat \<Rightarrow> int \<Rightarrow> bool) \<Rightarrow> string \<Rightarrow> string \<Rightarrow> doca_fwd \<times> u64 \<times> parser_heap
     \<Rightarrow> (doca_error \<times> doca_fwd \<times> u64 \<times> parser_heap) option" where
  "fwd_field malloc field_name value s =
     (case s of (f, next_pipe_id, h) \<Rightarrow>
        if field_name = ''type''
        then into (\<lambda>t. (f\<lparr>fwd_type := t\<rparr>, next_pipe_id, h)) (parse_fwd_type value (fwd_type f))
        else if field_name = ''rss_flags'' then stored (f\<lparr>fwd_rss_flags := number value\<rparr>, next_pipe_id, h)
        else if field_name = ''rss_queues''
        then (case parse_rss_queues malloc value (fwd_num_of_queues f) h of None \<Rightarrow> None
              | Some (result, h1) \<Rightarrow>
                  if result \<noteq> DOCA_SUCCESS then Some (result, f, next_pipe_id, h1)
                  else stored (f\<lparr>fwd_rss_queues := rss_queues h1\<rparr>, next_pipe_id, h1))
        else if field_name = ''num_of_queues''
        then stored (f\<lparr>fwd_num_of_queues := c_int (fst (strtol 0 value))\<rparr>, next_pipe_id, h)
        else if field_name = ''port_id'' then stored (f\<lparr>fwd_port_id := number value\<rparr>, next_pipe_id, h)
        else if field_name = ''next_pipe_id'' then stored (f, fst (strtoull 0 value), h)
        else refused s)"

text \<open>The address fields, which need the type of the address before.\<close>

definition ip_addr_field :: "string \<Rightarrow> doca_ip_addr \<Rightarrow> (doca_error \<times> doca_ip_addr) option" where
  "ip_addr_field value a =
     (if addr_type a = DOCA_FLOW_IP4_ADDR
      then into (\<lambda>v. a\<lparr>addr_words := (addr_words a)[0 := v]\<rparr>) (parse_ipv4_str value (addr_words a ! 0))
      else if addr_type a = DOCA_FLOW_IP6_ADDR
      then map_option (\<lambda>(result, ws). (result, a\<lparr>addr_words := ws\<rparr>)) (parse_ipv6_str value)
      else refused a)"

definition ip_type_field :: "string \<Rightarrow> doca_ip_addr \<Rightarrow> doca_error \<times> doca_ip_addr" where
  "ip_type_field value a = map_prod id (\<lambda>t. a\<lparr>addr_type := t\<rparr>) (parse_ip_type value (addr_type a))"

definition tun_type_field :: "string \<Rightarrow> doca_tun \<Rightarrow> doca_error \<times> doca_tun" where
  "tun_type_field value t = map_prod id (\<lambda>ty. t\<lparr>tun_type := ty\<rparr>) (parse_tun_type_string value (tun_type t))"

definition into_opt :: "('a \<Rightarrow> 's) \<Rightarrow> (doca_error \<times> 'a) option \<Rightarrow> (doca_error \<times> 's) option" where
  "into_opt put r = map_option (map_prod id put) r"

definition parse_actions_field :: "string \<Rightarrow> string \<Rightarrow> doca_actions \<Rightarrow> (doca_error \<times> doca_actions) option" where
  "parse_actions_field field_name value a =
     (if field_name = ''decap'' then into (\<lambda>b. a\<lparr>decap := b\<rparr>) (parse_bool_string value (decap a))
      else if field_name = ''mod_src_mac'' then into (\<lambda>m. a\<lparr>mod_src_mac := m\<rparr>) (parse_mac_address value (mod_src_mac a))
      else if field_name = ''mod_dst_mac'' then into (\<lambda>m. a\<lparr>mod_dst_mac := m\<rparr>) (parse_mac_address value (mod_dst_mac a))
      else if field_name = ''mod_src_ip_type'' then into (\<lambda>i. a\<lparr>mod_src_ip := i\<rparr>) (ip_type_field value (mod_src_ip a))
      else if field_name = ''mod_src_ip_addr'' then into_opt (\<lambda>i. a\<lparr>mod_src_ip := i\<rparr>) (ip_addr_field value (mod_src_ip a))
      else if field_name = ''mod_dst_ip_type'' then into (\<lambda>i. a\<lparr>mod_dst_ip := i\<rparr>) (ip_type_field value (mod_dst_ip a))
      else if field_name = ''mod_dst_ip_addr'' then into_opt (\<lambda>i. a\<lparr>mod_dst_ip := i\<rparr>) (ip_addr_field value (mod_dst_ip a))
      else if field_name = ''mod_src_port'' then stored (a\<lparr>mod_src_port := number value\<rparr>)
      else if field_name = ''mod_dst_port'' then stored (a\<lparr>mod_dst_port := number value\<rparr>)
      else if field_name = ''ttl'' then stored (a\<lparr>action_ttl := number value\<rparr>)
      else if field_name = ''has_encap'' then into (\<lambda>b. a\<lparr>has_encap := b\<rparr>) (parse_bool_string value (has_encap a))
      else
        (let e = encap a; put = (\<lambda>e. a\<lparr>encap := e\<rparr>) in
         if field_name = ''encap_src_mac'' then into (\<lambda>m. put (e\<lparr>encap_src_mac := m\<rparr>)) (parse_mac_address value (encap_src_mac e))
         else if field_name = ''encap_dst_mac'' then into (\<lambda>m. put (e\<lparr>encap_dst_mac := m\<rparr>)) (parse_mac_address value (encap_dst_mac e))
         else if field_name = ''encap_src_ip_type'' then into (\<lambda>i. put (e\<lparr>encap_src_ip := i\<rparr>)) (ip_type_field value (encap_src_ip e))
         else if field_name = ''encap_src_ip_addr'' then into_opt (\<lambda>i. put (e\<lparr>encap_src_ip := i\<rparr>)) (ip_addr_field value (encap_src_ip e))
         else if field_name = ''encap_dst_ip_type'' then into (\<lambda>i. put (e\<lparr>encap_dst_ip := i\<rparr>)) (ip_type_field value (encap_dst_ip e))
         else if field_name = ''encap_dst_ip_addr'' then into_opt (\<lambda>i. put (e\<lparr>encap_dst_ip := i\<rparr>)) (ip_addr_field value (encap_dst_ip e))
         else if field_name = ''encap_tun_type'' then into (\<lambda>t. put (e\<lparr>encap_tun := t\<rparr>)) (tun_type_field value (encap_tun e))
         else
           (let put_tun = (\<lambda>n. put (e\<lparr>encap_tun := (encap_tun e)\<lparr>tun_number := n\<rparr>\<rparr>)) in
            if field_name = ''encap_vxlan_tun_id'' then stored (put_tun (Vxlan_tun_id (number value)))
            else if field_name = ''encap_gre_key'' then stored (put_tun (Gre_key (number value)))
            else if field_name = ''encap_gtp_teid'' then stored (put_tun (Gtp_teid (number value)))
            else refused a)))"

text \<open>
  The fields of the outer headers and those of the inner ones have the same names behind \<open>out_\<close> and \<open>in_\<close>, and
  the same code. \<^term>\<open>None\<close> of the outer option: it is none of these names.
\<close>

definition headers_field :: "string \<Rightarrow> string \<Rightarrow> match_headers \<Rightarrow> (doca_error \<times> match_headers) option option" where
  "headers_field name value h =
     (if name = ''src_mac'' then Some (into (\<lambda>m. h\<lparr>src_mac := m\<rparr>) (parse_mac_address value (src_mac h)))
      else if name = ''dst_mac'' then Some (into (\<lambda>m. h\<lparr>dst_mac := m\<rparr>) (parse_mac_address value (dst_mac h)))
      else if name = ''eth_type'' then Some (stored (h\<lparr>eth_type := word_of_int (hex_number value)\<rparr>))
      else if name = ''vlan_tci'' then Some (stored (h\<lparr>vlan_tci := number value\<rparr>))
      else if name = ''src_ip_type'' then Some (into (\<lambda>i. h\<lparr>src_ip := i\<rparr>) (ip_type_field value (src_ip h)))
      else if name = ''src_ip_addr'' then Some (into_opt (\<lambda>i. h\<lparr>src_ip := i\<rparr>) (ip_addr_field value (src_ip h)))
      else if name = ''dst_ip_type'' then Some (into (\<lambda>i. h\<lparr>dst_ip := i\<rparr>) (ip_type_field value (dst_ip h)))
      else if name = ''dst_ip_addr'' then Some (into_opt (\<lambda>i. h\<lparr>dst_ip := i\<rparr>) (ip_addr_field value (dst_ip h)))
      else if name = ''l4_type'' then Some (into (\<lambda>p. h\<lparr>l4_type := p\<rparr>) (parse_protocol_string value (l4_type h)))
      else if name = ''tcp_flags'' then Some (into (\<lambda>f. h\<lparr>tcp_flags := f\<rparr>) (parse_tcp_flag_string value (tcp_flags h)))
      else if name = ''src_port'' then Some (stored (h\<lparr>src_port := bswap16 (number value)\<rparr>))
      else if name = ''dst_port'' then Some (stored (h\<lparr>dst_port := bswap16 (number value)\<rparr>))
      else None)"

definition prefixed_field ::
  "string \<Rightarrow> string \<Rightarrow> string \<Rightarrow> match_headers \<Rightarrow> (doca_error \<times> match_headers) option option" where
  "prefixed_field p field_name value h =
     (if starts_with p field_name then headers_field (drop (length p) field_name) value h else None)"

definition parse_match_field :: "string \<Rightarrow> string \<Rightarrow> doca_match \<Rightarrow> (doca_error \<times> doca_match) option" where
  "parse_match_field field_name value m =
     (let t = match_tun m; put_tun = (\<lambda>n. m\<lparr>match_tun := t\<lparr>tun_number := n\<rparr>\<rparr>) in
      if field_name = ''flags'' then stored (m\<lparr>match_flags := word_of_int (hex_number value)\<rparr>)
      else if field_name = ''port_meta'' then stored (m\<lparr>port_meta := number value\<rparr>)
      else if field_name = ''tun_type'' then into (\<lambda>t. m\<lparr>match_tun := t\<rparr>) (tun_type_field value t)
      else if field_name = ''vxlan_tun_id'' then stored (put_tun (Vxlan_tun_id (number value)))
      else if field_name = ''gre_key'' then stored (put_tun (Gre_key (number value)))
      else if field_name = ''gtp_teid'' then stored (put_tun (Gtp_teid (number value)))
      else case prefixed_field ''out_'' field_name value (out_hdr m) of
        Some r \<Rightarrow> into_opt (\<lambda>h. m\<lparr>out_hdr := h\<rparr>) r
      | None \<Rightarrow>
          (case prefixed_field ''in_'' field_name value (in_hdr m) of
             Some r \<Rightarrow> into_opt (\<lambda>h. m\<lparr>in_hdr := h\<rparr>) r
           | None \<Rightarrow> refused m))"

section \<open>Structures\<close>

text \<open>
  \<open>parse_struct\<close>: the text is what is left of \<open>struct_str\<close>. Its pointer is moved on by the lengths of the
  name and of the value; \<open>strtok\<close> skips the delimiters before them.
\<close>

function parse_struct ::
  "string \<Rightarrow> (string \<Rightarrow> string \<Rightarrow> 's \<Rightarrow> (doca_error \<times> 's) option) \<Rightarrow> 's \<Rightarrow> (doca_error \<times> 's) option" where
  "parse_struct struct_str fill_struct st =
     (case strtok CHR ''='' (strlcpy MAX_CMDLINE_INPUT_LEN struct_str) of
        None \<Rightarrow> Some (DOCA_ERROR_INVALID_VALUE, st)
      | Some (_, tmp) \<Rightarrow>
          (let field_name = strlcpy MAX_FIELD_INPUT_LEN tmp in
           case advance (length field_name + 1) struct_str of
             None \<Rightarrow> None
           | Some struct_str1 \<Rightarrow>
               (case strtok CHR '','' (strlcpy MAX_CMDLINE_INPUT_LEN struct_str1) of
                  None \<Rightarrow> Some (DOCA_ERROR_INVALID_VALUE, st)
                | Some (_, tmp) \<Rightarrow>
                    (let value = strlcpy MAX_FIELD_INPUT_LEN tmp;
                         struct_str2 = drop (length value) struct_str1 in
                     case fill_struct field_name value st of
                       None \<Rightarrow> None
                     | Some (result, st1) \<Rightarrow>
                         if result \<noteq> DOCA_SUCCESS then Some (result, st1)
                         else if starts_with '','' struct_str2 then parse_struct (tl struct_str2) fill_struct st1
                         else Some (DOCA_SUCCESS, st1)))))"
  by pat_completeness auto
termination
  by (relation "measure (\<lambda>(struct_str, _). length struct_str)") (auto simp: advance_def split: if_splits)

declare parse_struct.simps [simp del]

end
