(* ===== verification/Flow_Params.thy ===== *)
theory Flow_Params
  imports Flow_Parser
begin

text \<open>
  The parameters \<open>name=value,name=value\<close> of the commands of \<open>src/src/common/src/flow_parser.c\<close>. The functions that
  read them copy what is left into a buffer on the stack and let \<open>strtol\<close> move their pointer, so that from the
  first number on it points into the buffer, which the next copy overwrites: the buffer and the pointer are
  therefore part of the state. Each function is a step for one parameter under the common loop
  \<open>do ... while (tmp_char == ',')\<close>.
\<close>

section \<open>The state of the command line\<close>

datatype doca_entry_flags = DOCA_FLOW_NO_WAIT | DOCA_FLOW_WAIT_FOR_BATCH

text \<open>What is handed to the function that creates a pipe; pointers are given as what they point to.\<close>

record pipe_cfg =
  cfg_match :: doca_match
  cfg_actions :: "doca_actions list"
  cfg_monitor :: "doca_monitor option"
  cfg_match_mask :: "doca_match option"
  cfg_name :: "nat option"
  cfg_is_root :: bool
  cfg_type :: doca_pipe_type

text \<open>The calls of the registered functions, with the function first, and of \<open>fopen\<close> and \<open>fclose\<close>.\<close>

datatype parser_event =
    Create_pipe nat pipe_cfg u16 "doca_fwd option" u64 "doca_fwd option" u64
  | Add_entry nat u16 u64 doca_match doca_actions "doca_monitor option" "doca_fwd option" u64 doca_entry_flags
  | Add_control_pipe_entry nat u16 u8 u64 doca_match "doca_match option" "doca_fwd option" u64
  | Destroy_pipe nat u64
  | Remove_entry nat u16 u64
  | Flush_pipes nat u16
  | Query_entry nat u64
  | Dump_pipes nat u16 nat
  | Opened nat string
  | Closed nat

record flow_parser =
  pipe_match :: doca_match
  entry_match :: doca_match
  match_mask :: doca_match
  actions :: doca_actions
  monitor :: doca_monitor
  fwd :: doca_fwd
  fwd_miss :: doca_fwd
  pipe_port_id :: u16
  fwd_next_pipe_id :: u64
  fwd_miss_next_pipe_id :: u64
  heap :: parser_heap
  create_pipe_func :: "nat option"
  add_entry_func :: "nat option"
  add_control_pipe_entry_func :: "nat option"
  destroy_pipe_func :: "nat option"
  remove_entry_func :: "nat option"
  port_pipes_flush_func :: "nat option"
  query_func :: "nat option"
  port_pipes_dump_func :: "nat option"
  next_file :: nat
  trace :: "parser_event list"

text \<open>What the C library decides: whether an allocation and whether the opening of a file succeeds.\<close>

record c_library =
  malloc_ok :: "nat \<Rightarrow> int \<Rightarrow> bool"
  fopen_ok :: "nat \<Rightarrow> string \<Rightarrow> bool"

definition emit :: "parser_event \<Rightarrow> flow_parser \<Rightarrow> flow_parser" where
  "emit e s = s\<lparr>trace := trace s @ [e]\<rparr>"

definition c_fopen :: "c_library \<Rightarrow> string \<Rightarrow> flow_parser \<Rightarrow> nat option \<times> flow_parser" where
  "c_fopen L name s =
     (let s1 = s\<lparr>next_file := next_file s + 1\<rparr> in
      if fopen_ok L (next_file s) name then (Some (next_file s), emit (Opened (next_file s) name) s1) else (None, s1))"

definition c_fclose :: "nat \<Rightarrow> flow_parser \<Rightarrow> flow_parser" where
  "c_fclose f s = emit (Closed f) s"

section \<open>The pointer and the buffer\<close>

text \<open>A pointer into the parameters of the command or into the buffer \<open>ptr\<close>, as far as that has been written.\<close>

datatype cptr = Arg nat | Buf nat

record params =
  arg :: string
  lbuf :: "char list"
  cur :: cptr

definition text_at :: "'a params_scheme \<Rightarrow> cptr \<Rightarrow> string option" where
  "text_at m p =
     (case p of
        Arg i \<Rightarrow> if i \<le> length (arg m) then Some (takeWhile (\<lambda>c. c \<noteq> NUL) (drop i (arg m))) else None
      | Buf i \<Rightarrow> if NUL \<in> set (drop i (lbuf m)) then Some (takeWhile (\<lambda>c. c \<noteq> NUL) (drop i (lbuf m))) else None)"

definition cur_text :: "'a params_scheme \<Rightarrow> string option" where
  "cur_text m = text_at m (cur m)"

definition skip :: "nat \<Rightarrow> 'a params_scheme \<Rightarrow> 'a params_scheme" where
  "skip n m = m\<lparr>cur := (case cur m of Arg i \<Rightarrow> Arg (i + n) | Buf i \<Rightarrow> Buf (i + n))\<rparr>"

text \<open>\<open>strlcpy(ptr, params, n)\<close>: copying forward, also when the source is in the buffer itself.\<close>

definition copy_text :: "nat \<Rightarrow> 'a params_scheme \<Rightarrow> (string \<times> 'a params_scheme) option" where
  "copy_text n m =
     (case cur_text m of None \<Rightarrow> None
      | Some s \<Rightarrow> (let t = strlcpy n s in Some (t, m\<lparr>lbuf := t @ NUL # drop (length t + 1) (lbuf m)\<rparr>)))"

text \<open>The pointer is moved over \<open>n\<close> characters and what follows is copied.\<close>

definition read_param :: "nat \<Rightarrow> nat \<Rightarrow> 'a params_scheme \<Rightarrow> (string \<times> 'a params_scheme) option" where
  "read_param k n m = copy_text n (skip k m)"

text \<open>\<open>strtok(ptr, d)\<close> ends the token in the buffer.\<close>

definition strtok_buffer :: "char \<Rightarrow> string \<Rightarrow> 'a params_scheme \<Rightarrow> (string \<times> 'a params_scheme) option" where
  "strtok_buffer d ptr m =
     (case strtok d ptr of None \<Rightarrow> None
      | Some (k, t) \<Rightarrow> Some (t, m\<lparr>lbuf := (lbuf m)[k + length t := NUL]\<rparr>))"

text \<open>\<open>strtol(ptr, &params, 0)\<close> moves the pointer into the buffer.\<close>

definition read_strtol :: "nat \<Rightarrow> 'a params_scheme \<Rightarrow> (int \<times> 'a params_scheme) option" where
  "read_strtol k m =
     (case read_param k MAX_CMDLINE_INPUT_LEN m of None \<Rightarrow> None
      | Some (ptr, m1) \<Rightarrow> Some (fst (strtol 0 ptr), m1\<lparr>cur := Buf (the (snd (strtol 0 ptr)))\<rparr>))"

definition read_strtoull :: "nat \<Rightarrow> 'a params_scheme \<Rightarrow> (u64 \<times> 'a params_scheme) option" where
  "read_strtoull k m =
     (case read_param k MAX_CMDLINE_INPUT_LEN m of None \<Rightarrow> None
      | Some (ptr, m1) \<Rightarrow> Some (fst (strtoull 0 ptr), m1\<lparr>cur := Buf (the (snd (strtoull 0 ptr)))\<rparr>))"

text \<open>\<open>parse_bool_params_input\<close>, with the value of \<open>take_action\<close> before and after.\<close>

definition parse_bool_params_input ::
  "nat \<Rightarrow> bool \<Rightarrow> 'a params_scheme \<Rightarrow> (doca_error \<times> bool \<times> 'a params_scheme) option" where
  "parse_bool_params_input k take_action m =
     (let m1 = skip k m in
      case cur_text m1 of None \<Rightarrow> None
      | Some s \<Rightarrow>
          (let value = c_int (fst (strtol 0 s)) in
           if snd (strtol 0 s) = Some 0 then Some (DOCA_ERROR_INVALID_VALUE, take_action, m1)
           else if value = 1 then Some (DOCA_SUCCESS, True, skip 1 m1)
           else if value \<noteq> 0 then Some (DOCA_ERROR_BAD_STATE, take_action, m1)
           else Some (DOCA_SUCCESS, take_action, skip 1 m1)))"

text \<open>
  The loop around a step for one parameter. The inner option is undefined behaviour of the step; a loop that
  did not end would be \<^term>\<open>None\<close>.
\<close>

partial_function (option) params_loop ::
  "('a params_scheme \<Rightarrow> (doca_error \<times> 'a params_scheme) option) \<Rightarrow> 'a params_scheme
     \<Rightarrow> (doca_error \<times> 'a params_scheme) option option" where
  [code]:
  "params_loop param m =
     (case param m of None \<Rightarrow> Some None
      | Some (result, m1) \<Rightarrow>
          if result \<noteq> DOCA_SUCCESS then Some (Some (result, m1))
          else case cur_text m1 of None \<Rightarrow> Some None
          | Some s \<Rightarrow>
              if starts_with '','' s then params_loop param (skip 1 m1)
              else Some (Some (DOCA_SUCCESS, skip 1 m1)))"

definition read_params ::
  "('a params_scheme \<Rightarrow> (doca_error \<times> 'a params_scheme) option) \<Rightarrow> 'a params_scheme
     \<Rightarrow> (doca_error \<times> 'a params_scheme) option" where
  "read_params param m = (case params_loop param m of None \<Rightarrow> None | Some r \<Rightarrow> r)"

section \<open>Creation of a pipe\<close>

record create_params = params +
  cp_cfg :: pipe_cfg
  cp_fwd_action :: bool
  cp_fwd_miss_action :: bool
  cp_has_port_id :: bool
  cp_state :: flow_parser

text \<open>The label \<open>error\<close>.\<close>

definition create_pipe_error :: "create_params \<Rightarrow> (doca_error \<times> create_params) option" where
  "create_pipe_error m =
     map_option (\<lambda>h. (DOCA_ERROR_INVALID_VALUE, m\<lparr>cp_state := (cp_state m)\<lparr>heap := h\<rparr>\<rparr>))
       (release (cfg_name (cp_cfg m)) (heap (cp_state m)))"

definition create_pipe_port_id :: "create_params \<Rightarrow> (doca_error \<times> create_params) option" where
  "create_pipe_port_id m =
     (case read_param 8 MAX_CMDLINE_INPUT_LEN m of None \<Rightarrow> None
      | Some (ptr, m1) \<Rightarrow>
          if snd (strtol 0 ptr) = Some 0 then Some (DOCA_ERROR_INVALID_VALUE, m1)
          else case strtok_buffer CHR '','' ptr m1 of None \<Rightarrow> None
          | Some (param_str_value, m2) \<Rightarrow>
              Some (DOCA_SUCCESS, (skip (length param_str_value) m2)
                \<lparr>cp_state := (cp_state m)\<lparr>pipe_port_id := word_of_int (c_int (fst (strtol 0 ptr)))\<rparr>, cp_has_port_id := True\<rparr>))"

definition create_pipe_name :: "c_library \<Rightarrow> create_params \<Rightarrow> (doca_error \<times> create_params) option" where
  "create_pipe_name L m =
     (if cfg_name (cp_cfg m) \<noteq> None then Some (DOCA_SUCCESS, m)
      else case read_param 5 MAX_CMDLINE_INPUT_LEN m of None \<Rightarrow> None
      | Some (ptr, m1) \<Rightarrow>
          (case strtok_buffer CHR '','' ptr m1 of None \<Rightarrow> None
           | Some (param_str_value, m2) \<Rightarrow>
               (let nm = take MAX_FIELD_INPUT_LEN param_str_value;
                    (b, h) = allocate (malloc_ok L) (int (length nm) + 1) (Name nm) (heap (cp_state m));
                    m3 = (skip (length param_str_value) m2)
                           \<lparr>cp_cfg := (cp_cfg m)\<lparr>cfg_name := b\<rparr>, cp_state := (cp_state m)\<lparr>heap := h\<rparr>\<rparr>
                in if b = None then create_pipe_error m3 else Some (DOCA_SUCCESS, m3))))"

text \<open>The parameters with the value 0 or 1.\<close>

definition create_pipe_bool ::
  "nat \<Rightarrow> bool \<Rightarrow> (bool \<Rightarrow> create_params \<Rightarrow> create_params) \<Rightarrow> create_params \<Rightarrow> (doca_error \<times> create_params) option" where
  "create_pipe_bool k take_action put m =
     (case parse_bool_params_input k take_action m of None \<Rightarrow> None
      | Some (result, b, m1) \<Rightarrow>
          if result \<noteq> DOCA_SUCCESS then create_pipe_error (put b m1) else Some (DOCA_SUCCESS, put b m1))"

definition create_pipe_type :: "create_params \<Rightarrow> (doca_error \<times> create_params) option" where
  "create_pipe_type m =
     (case read_param 5 MAX_FIELD_INPUT_LEN m of None \<Rightarrow> None
      | Some (ptr, m1) \<Rightarrow>
          (case strtok_buffer CHR '','' ptr m1 of None \<Rightarrow> None
           | Some (type_str, m2) \<Rightarrow>
               (case parse_pipe_type type_str (cfg_type (cp_cfg m)) of (result, t) \<Rightarrow>
                  if result \<noteq> DOCA_SUCCESS then create_pipe_error m2
                  else Some (DOCA_SUCCESS, skip (length type_str) (m2\<lparr>cp_cfg := (cp_cfg m)\<lparr>cfg_type := t\<rparr>\<rparr>)))))"

definition create_pipe_param :: "c_library \<Rightarrow> create_params \<Rightarrow> (doca_error \<times> create_params) option" where
  "create_pipe_param L m =
     (case cur_text m of None \<Rightarrow> None
      | Some s \<Rightarrow>
          if starts_with ''port_id='' s then create_pipe_port_id m
          else if starts_with ''name='' s then create_pipe_name L m
          else if starts_with ''root_enable='' s
          then create_pipe_bool 12 False (\<lambda>b m. if b then m\<lparr>cp_cfg := (cp_cfg m)\<lparr>cfg_is_root := True\<rparr>\<rparr> else m) m
          else if starts_with ''monitor='' s
          then create_pipe_bool 8 False
                 (\<lambda>b m. if b then m\<lparr>cp_cfg := (cp_cfg m)\<lparr>cfg_monitor := Some (monitor (cp_state m))\<rparr>\<rparr> else m) m
          else if starts_with ''match_mask='' s
          then create_pipe_bool 11 False
                 (\<lambda>b m. if b then m\<lparr>cp_cfg := (cp_cfg m)\<lparr>cfg_match_mask := Some (match_mask (cp_state m))\<rparr>\<rparr> else m) m
          else if starts_with ''fwd_miss='' s
          then create_pipe_bool 9 (cp_fwd_miss_action m) (\<lambda>b m. m\<lparr>cp_fwd_miss_action := b\<rparr>) m
          else if starts_with ''fwd='' s
          then create_pipe_bool 4 (cp_fwd_action m) (\<lambda>b m. m\<lparr>cp_fwd_action := b\<rparr>) m
          else if starts_with ''type='' s then create_pipe_type m
          else create_pipe_error m)"

definition parse_create_pipe_params ::
  "c_library \<Rightarrow> create_params \<Rightarrow> (doca_error \<times> create_params) option" where
  "parse_create_pipe_params L m =
     (case read_params (create_pipe_param L) m of None \<Rightarrow> None
      | Some (result, m1) \<Rightarrow>
          if result \<noteq> DOCA_SUCCESS then Some (result, m1)
          else if \<not> cp_has_port_id m1 then create_pipe_error m1
          else Some (DOCA_SUCCESS, m1))"

section \<open>Addition of an entry\<close>

record add_entry_params = params +
  ae_fwd_action :: bool
  ae_monitor_action :: bool
  ae_pipe_id :: u64
  ae_pipe_queue :: int
  ae_has_pipe_id :: bool
  ae_has_pipe_queue :: bool

text \<open>A parameter with the value 0 or 1 whose errors are all reported as an invalid value.\<close>

definition bool_param ::
  "nat \<Rightarrow> bool \<Rightarrow> (bool \<Rightarrow> 'a params_scheme \<Rightarrow> 'a params_scheme) \<Rightarrow> 'a params_scheme
     \<Rightarrow> (doca_error \<times> 'a params_scheme) option" where
  "bool_param k action put m =
     (case parse_bool_params_input k action m of None \<Rightarrow> None
      | Some (result, b, m1) \<Rightarrow>
          Some (if result \<noteq> DOCA_SUCCESS then DOCA_ERROR_INVALID_VALUE else DOCA_SUCCESS, put b m1))"

definition add_entry_param :: "add_entry_params \<Rightarrow> (doca_error \<times> add_entry_params) option" where
  "add_entry_param m =
     (case cur_text m of None \<Rightarrow> None
      | Some s \<Rightarrow>
          if starts_with ''pipe_id='' s
          then map_option (\<lambda>(v, m1). (DOCA_SUCCESS, m1\<lparr>ae_pipe_id := v, ae_has_pipe_id := True\<rparr>)) (read_strtoull 8 m)
          else if starts_with ''pipe_queue='' s
          then map_option (\<lambda>(v, m1). (DOCA_SUCCESS, m1\<lparr>ae_pipe_queue := c_int v, ae_has_pipe_queue := True\<rparr>)) (read_strtol 11 m)
          else if starts_with ''monitor='' s
          then bool_param 8 (ae_monitor_action m) (\<lambda>b m. m\<lparr>ae_monitor_action := b\<rparr>) m
          else if starts_with ''fwd='' s
          then bool_param 4 (ae_fwd_action m) (\<lambda>b m. m\<lparr>ae_fwd_action := b\<rparr>) m
          else Some (DOCA_ERROR_INVALID_VALUE, m))"

definition parse_add_entry_params :: "add_entry_params \<Rightarrow> (doca_error \<times> add_entry_params) option" where
  "parse_add_entry_params m =
     (case read_params add_entry_param m of None \<Rightarrow> None
      | Some (result, m1) \<Rightarrow>
          if result \<noteq> DOCA_SUCCESS then Some (result, m1)
          else if \<not> ae_has_pipe_id m1 then Some (DOCA_ERROR_MINUS_ONE, m1)
          else if \<not> ae_has_pipe_queue m1 then Some (DOCA_ERROR_INVALID_VALUE, m1)
          else Some (DOCA_SUCCESS, m1))"

record control_params = params +
  ce_fwd_action :: bool
  ce_match_mask_action :: bool
  ce_pipe_id :: u64
  ce_pipe_queue :: u16
  ce_priority :: u8
  ce_has_pipe_id :: bool
  ce_has_pipe_queue :: bool
  ce_has_priority :: bool

definition control_param :: "control_params \<Rightarrow> (doca_error \<times> control_params) option" where
  "control_param m =
     (case cur_text m of None \<Rightarrow> None
      | Some s \<Rightarrow>
          if starts_with ''pipe_id='' s
          then map_option (\<lambda>(v, m1). (DOCA_SUCCESS, m1\<lparr>ce_pipe_id := v, ce_has_pipe_id := True\<rparr>)) (read_strtoull 8 m)
          else if starts_with ''pipe_queue='' s
          then map_option (\<lambda>(v, m1). (DOCA_SUCCESS, m1\<lparr>ce_pipe_queue := word_of_int v, ce_has_pipe_queue := True\<rparr>)) (read_strtol 11 m)
          else if starts_with ''priority='' s
          then map_option (\<lambda>(v, m1). (DOCA_SUCCESS, m1\<lparr>ce_priority := word_of_int v, ce_has_priority := True\<rparr>)) (read_strtol 9 m)
          else if starts_with ''match_mask='' s
          then bool_param 11 (ce_match_mask_action m) (\<lambda>b m. m\<lparr>ce_match_mask_action := b\<rparr>) m
          else if starts_with ''fwd='' s
          then bool_param 4 (ce_fwd_action m) (\<lambda>b m. m\<lparr>ce_fwd_action := b\<rparr>) m
          else Some (DOCA_ERROR_INVALID_VALUE, m))"

definition parse_add_control_pipe_entry_params :: "control_params \<Rightarrow> (doca_error \<times> control_params) option" where
  "parse_add_control_pipe_entry_params m =
     (case read_params control_param m of None \<Rightarrow> None
      | Some (result, m1) \<Rightarrow>
          if result \<noteq> DOCA_SUCCESS then Some (result, m1)
          else if \<not> ce_has_pipe_id m1 then Some (DOCA_ERROR_INVALID_VALUE, m1)
          else if \<not> ce_has_pipe_queue m1 then Some (DOCA_ERROR_INVALID_VALUE, m1)
          else if \<not> ce_has_priority m1 then Some (DOCA_ERROR_INVALID_VALUE, m1)
          else Some (DOCA_SUCCESS, m1))"

section \<open>An entry\<close>

text \<open>
  Without a place for the queue (\<open>pipe_queue == NULL\<close>) the number is copied but not read, and the pointer stays
  before it.
\<close>

record entry_params = params +
  ep_pipe_queue :: "u16 option"
  ep_entry_id :: u64
  ep_has_pipe_queue :: bool
  ep_has_entry_id :: bool

definition entry_param :: "entry_params \<Rightarrow> (doca_error \<times> entry_params) option" where
  "entry_param m =
     (case cur_text m of None \<Rightarrow> None
      | Some s \<Rightarrow>
          if starts_with ''pipe_queue='' s
          then (if ep_pipe_queue m \<noteq> None
                then map_option (\<lambda>(v, m1). (DOCA_SUCCESS, m1\<lparr>ep_pipe_queue := Some (word_of_int v), ep_has_pipe_queue := True\<rparr>))
                       (read_strtol 11 m)
                else map_option (\<lambda>(_, m1). (DOCA_SUCCESS, m1\<lparr>ep_has_pipe_queue := True\<rparr>)) (read_param 11 MAX_CMDLINE_INPUT_LEN m))
          else if starts_with ''entry_id='' s
          then map_option (\<lambda>(v, m1). (DOCA_SUCCESS, m1\<lparr>ep_entry_id := v, ep_has_entry_id := True\<rparr>)) (read_strtoull 9 m)
          else Some (DOCA_ERROR_INVALID_VALUE, m))"

definition parse_entry_params :: "bool \<Rightarrow> entry_params \<Rightarrow> (doca_error \<times> entry_params) option" where
  "parse_entry_params pipe_queue_mandatory m =
     (case read_params entry_param m of None \<Rightarrow> None
      | Some (result, m1) \<Rightarrow>
          if result \<noteq> DOCA_SUCCESS then Some (result, m1)
          else if pipe_queue_mandatory \<and> \<not> ep_has_pipe_queue m1 then Some (DOCA_ERROR_INVALID_VALUE, m1)
          else if \<not> ep_has_entry_id m1 then Some (DOCA_ERROR_INVALID_VALUE, m1)
          else Some (DOCA_SUCCESS, m1))"

section \<open>Dump of the pipes\<close>

record dump_params = params +
  dp_port_id :: u16
  dp_file :: "nat option"
  dp_has_port_id :: bool
  dp_has_file :: bool
  dp_state :: flow_parser

definition dump_file :: "c_library \<Rightarrow> dump_params \<Rightarrow> (doca_error \<times> dump_params) option" where
  "dump_file L m =
     (if dp_has_file m
      then (case dp_file m of None \<Rightarrow> None
            | Some f \<Rightarrow> Some (DOCA_ERROR_INVALID_VALUE, m\<lparr>dp_state := c_fclose f (dp_state m)\<rparr>))
      else case read_param 5 MAX_CMDLINE_INPUT_LEN m of None \<Rightarrow> None
      | Some (ptr, m1) \<Rightarrow>
          (case strtok_buffer CHR '','' ptr m1 of None \<Rightarrow> None
           | Some (name, m2) \<Rightarrow>
               (case c_fopen L name (dp_state m) of (f, s) \<Rightarrow>
                  (let m3 = (skip (length name) m2)\<lparr>dp_file := f, dp_state := s\<rparr> in
                   if f = None then Some (DOCA_ERROR_INVALID_VALUE, m3)
                   else Some (DOCA_SUCCESS, m3\<lparr>dp_has_file := True\<rparr>)))))"

definition dump_param :: "c_library \<Rightarrow> dump_params \<Rightarrow> (doca_error \<times> dump_params) option" where
  "dump_param L m =
     (case cur_text m of None \<Rightarrow> None
      | Some s \<Rightarrow>
          if starts_with ''port_id='' s
          then map_option (\<lambda>(v, m1). (DOCA_SUCCESS, m1\<lparr>dp_port_id := word_of_int v, dp_has_port_id := True\<rparr>)) (read_strtol 8 m)
          else if starts_with ''file='' s then dump_file L m
          else Some (DOCA_ERROR_INVALID_VALUE, m))"

definition parse_dump_pipe_params :: "c_library \<Rightarrow> dump_params \<Rightarrow> (doca_error \<times> dump_params) option" where
  "parse_dump_pipe_params L m =
     (case read_params (dump_param L) m of None \<Rightarrow> None
      | Some (result, m1) \<Rightarrow>
          if result \<noteq> DOCA_SUCCESS then Some (result, m1)
          else if \<not> dp_has_port_id m1 then Some (DOCA_ERROR_INVALID_VALUE, m1)
          else if \<not> dp_has_file m1
          then (case c_fopen L ''port_info.txt'' (dp_state m1) of (f, s) \<Rightarrow>
                  Some (if f = None then DOCA_ERROR_IO_FAILED else DOCA_SUCCESS, m1\<lparr>dp_file := f, dp_state := s\<rparr>))
          else Some (DOCA_SUCCESS, m1))"

end
