(* ===== verification/Flow_Commands.thy ===== *)
theory Flow_Commands
  imports Flow_Params
begin

text \<open>
  The commands of \<open>src/src/common/src/flow_parser.c\<close>: their handlers, the table of the command line and the
  loop that reads commands. DPDK's command line, which recognises a line and hands the texts of its tokens to
  the handler, is a parameter: a line is given as the instruction of the table it was recognised as, with the
  texts of its tokens. \<^term>\<open>None\<close> stands for undefined behaviour.
\<close>

section \<open>Set-up\<close>

definition set_pipe_create :: "nat option \<Rightarrow> flow_parser \<Rightarrow> flow_parser" where
  "set_pipe_create action s = s\<lparr>create_pipe_func := action\<rparr>"

definition set_pipe_add_entry :: "nat option \<Rightarrow> flow_parser \<Rightarrow> flow_parser" where
  "set_pipe_add_entry action s = s\<lparr>add_entry_func := action\<rparr>"

definition set_pipe_control_add_entry :: "nat option \<Rightarrow> flow_parser \<Rightarrow> flow_parser" where
  "set_pipe_control_add_entry action s = s\<lparr>add_control_pipe_entry_func := action\<rparr>"

definition set_pipe_destroy :: "nat option \<Rightarrow> flow_parser \<Rightarrow> flow_parser" where
  "set_pipe_destroy action s = s\<lparr>destroy_pipe_func := action\<rparr>"

definition set_pipe_rm_entry :: "nat option \<Rightarrow> flow_parser \<Rightarrow> flow_parser" where
  "set_pipe_rm_entry action s = s\<lparr>remove_entry_func := action\<rparr>"

definition set_port_pipes_flush :: "nat option \<Rightarrow> flow_parser \<Rightarrow> flow_parser" where
  "set_port_pipes_flush action s = s\<lparr>port_pipes_flush_func := action\<rparr>"

definition set_query :: "nat option \<Rightarrow> flow_parser \<Rightarrow> flow_parser" where
  "set_query action s = s\<lparr>query_func := action\<rparr>"

definition set_port_pipes_dump :: "nat option \<Rightarrow> flow_parser \<Rightarrow> flow_parser" where
  "set_port_pipes_dump action s = s\<lparr>port_pipes_dump_func := action\<rparr>"

text \<open>The static variables of the file.\<close>

definition flow_parser_start :: flow_parser where
  "flow_parser_start = \<lparr>pipe_match = zero_match, entry_match = zero_match, match_mask = zero_match,
     actions = zero_actions, monitor = zero_monitor, fwd = zero_fwd, fwd_miss = zero_fwd, pipe_port_id = 0,
     fwd_next_pipe_id = 0, fwd_miss_next_pipe_id = 0,
     heap = \<lparr>blocks = \<lambda>_. None, next_block = 0, rss_queues = None\<rparr>,
     create_pipe_func = None, add_entry_func = None, add_control_pipe_entry_func = None, destroy_pipe_func = None,
     remove_entry_func = None, port_pipes_flush_func = None, query_func = None, port_pipes_dump_func = None,
     next_file = 0, trace = []\<rparr>"

definition reset_doca_flow_structs :: "flow_parser \<Rightarrow> flow_parser" where
  "reset_doca_flow_structs s =
     s\<lparr>pipe_match := zero_match, entry_match := zero_match, match_mask := zero_match, actions := zero_actions,
       monitor := zero_monitor, fwd := zero_fwd, fwd_miss := zero_fwd\<rparr>"

section \<open>Handlers\<close>

definition cmd_create_pipe_parsed :: "c_library \<Rightarrow> string \<Rightarrow> flow_parser \<Rightarrow> flow_parser option" where
  "cmd_create_pipe_parsed L parms s =
     (case create_pipe_func s of None \<Rightarrow> Some s
      | Some f \<Rightarrow>
          (let pipe_cfg = \<lparr>cfg_match = pipe_match s, cfg_actions = [actions s], cfg_monitor = None, cfg_match_mask = None,
                           cfg_name = None, cfg_is_root = False, cfg_type = DOCA_FLOW_PIPE_BASIC\<rparr> in
           case parse_create_pipe_params L \<lparr>arg = parms, lbuf = [], cur = Arg 0, cp_cfg = pipe_cfg, cp_fwd_action = False,
                  cp_fwd_miss_action = False, cp_has_port_id = False, cp_state = s\<rparr> of
             None \<Rightarrow> None
           | Some (result, m) \<Rightarrow>
               (let s1 = cp_state m in
                if result \<noteq> DOCA_SUCCESS then Some s1
                else Some (emit (Create_pipe f (cp_cfg m) (pipe_port_id s1)
                       (if cp_fwd_action m then Some (fwd s1) else None) (fwd_next_pipe_id s1)
                       (if cp_fwd_miss_action m then Some (fwd_miss s1) else None) (fwd_miss_next_pipe_id s1)) s1))))"

definition cmd_add_entry_parsed :: "string \<Rightarrow> flow_parser \<Rightarrow> flow_parser option" where
  "cmd_add_entry_parsed parms s =
     (case add_entry_func s of None \<Rightarrow> Some s
      | Some f \<Rightarrow>
          (case parse_add_entry_params \<lparr>arg = parms, lbuf = [], cur = Arg 0, ae_fwd_action = False,
                  ae_monitor_action = False, ae_pipe_id = 0, ae_pipe_queue = 0, ae_has_pipe_id = False,
                  ae_has_pipe_queue = False\<rparr> of
             None \<Rightarrow> None
           | Some (result, m) \<Rightarrow>
               if result \<noteq> DOCA_SUCCESS then Some s
               else Some (emit (Add_entry f (word_of_int (ae_pipe_queue m)) (ae_pipe_id m) (entry_match s) (actions s)
                      (if ae_monitor_action m then Some (monitor s) else None)
                      (if ae_fwd_action m then Some (fwd s) else None) (fwd_next_pipe_id s) DOCA_FLOW_NO_WAIT) s)))"

definition cmd_add_control_pipe_entry_parsed :: "string \<Rightarrow> flow_parser \<Rightarrow> flow_parser option" where
  "cmd_add_control_pipe_entry_parsed parms s =
     (case add_control_pipe_entry_func s of None \<Rightarrow> Some s
      | Some f \<Rightarrow>
          (case parse_add_control_pipe_entry_params \<lparr>arg = parms, lbuf = [], cur = Arg 0, ce_fwd_action = False,
                  ce_match_mask_action = False, ce_pipe_id = 0, ce_pipe_queue = 0, ce_priority = 0,
                  ce_has_pipe_id = False, ce_has_pipe_queue = False, ce_has_priority = False\<rparr> of
             None \<Rightarrow> None
           | Some (result, m) \<Rightarrow>
               if result \<noteq> DOCA_SUCCESS then Some s
               else Some (emit (Add_control_pipe_entry f (ce_pipe_queue m) (ce_priority m) (ce_pipe_id m) (entry_match s)
                      (if ce_match_mask_action m then Some (match_mask s) else None)
                      (if ce_fwd_action m then Some (fwd s) else None) (fwd_next_pipe_id s)) s)))"

text \<open>\<open>pipe_id\<close> and \<open>port_id\<close> are set before they are used: the parser fails or stores them.\<close>

definition cmd_destroy_pipe_parsed :: "string \<Rightarrow> flow_parser \<Rightarrow> flow_parser option" where
  "cmd_destroy_pipe_parsed parms s =
     (case destroy_pipe_func s of None \<Rightarrow> Some s
      | Some f \<Rightarrow>
          (case parse_pipe_id_input parms 0 of (result, pipe_id) \<Rightarrow>
             if result \<noteq> DOCA_SUCCESS then Some s else Some (emit (Destroy_pipe f pipe_id) s)))"

definition cmd_rm_entry_parsed :: "string \<Rightarrow> flow_parser \<Rightarrow> flow_parser option" where
  "cmd_rm_entry_parsed parms s =
     (case remove_entry_func s of None \<Rightarrow> Some s
      | Some f \<Rightarrow>
          (case parse_entry_params True \<lparr>arg = parms, lbuf = [], cur = Arg 0, ep_pipe_queue = Some 0, ep_entry_id = 0,
                  ep_has_pipe_queue = False, ep_has_entry_id = False\<rparr> of
             None \<Rightarrow> None
           | Some (result, m) \<Rightarrow>
               if result \<noteq> DOCA_SUCCESS then Some s
               else Some (emit (Remove_entry f (the (ep_pipe_queue m)) (ep_entry_id m)) s)))"

definition cmd_flush_pipes_parsed :: "string \<Rightarrow> flow_parser \<Rightarrow> flow_parser option" where
  "cmd_flush_pipes_parsed parms s =
     (case port_pipes_flush_func s of None \<Rightarrow> Some s
      | Some f \<Rightarrow>
          (case parse_port_id_input parms 0 of (result, port_id) \<Rightarrow>
             if result \<noteq> DOCA_SUCCESS then Some s else Some (emit (Flush_pipes f (word_of_int port_id)) s)))"

definition cmd_query_parsed :: "string \<Rightarrow> flow_parser \<Rightarrow> flow_parser option" where
  "cmd_query_parsed parms s =
     (case query_func s of None \<Rightarrow> Some s
      | Some f \<Rightarrow>
          (case parse_entry_params False \<lparr>arg = parms, lbuf = [], cur = Arg 0, ep_pipe_queue = None, ep_entry_id = 0,
                  ep_has_pipe_queue = False, ep_has_entry_id = False\<rparr> of
             None \<Rightarrow> None
           | Some (result, m) \<Rightarrow>
               if result \<noteq> DOCA_SUCCESS then Some s else Some (emit (Query_entry f (ep_entry_id m)) s)))"

definition cmd_dump_pipe_parsed :: "c_library \<Rightarrow> string \<Rightarrow> flow_parser \<Rightarrow> flow_parser option" where
  "cmd_dump_pipe_parsed L parms s =
     (case port_pipes_dump_func s of None \<Rightarrow> Some s
      | Some f \<Rightarrow>
          (case parse_dump_pipe_params L \<lparr>arg = parms, lbuf = [], cur = Arg 0, dp_port_id = 0, dp_file = None,
                  dp_has_port_id = False, dp_has_file = False, dp_state = s\<rparr> of
             None \<Rightarrow> None
           | Some (result, m) \<Rightarrow>
               if result \<noteq> DOCA_SUCCESS
               then Some (case dp_file m of None \<Rightarrow> dp_state m | Some fd \<Rightarrow> c_fclose fd (dp_state m))
               else map_option (\<lambda>fd. c_fclose fd (emit (Dump_pipes f (dp_port_id m) fd) (dp_state m))) (dp_file m)))"

text \<open>
  \<open>parse_fwd_field\<close> and \<open>parse_fwd_miss_field\<close>, on the structure given to them and on the static variables.
\<close>

definition parse_fwd_field :: "c_library \<Rightarrow> string \<Rightarrow> string \<Rightarrow> flow_parser \<Rightarrow> (doca_error \<times> flow_parser) option" where
  "parse_fwd_field L field_name value s =
     map_option (\<lambda>(result, f, i, h). (result, s\<lparr>fwd := f, fwd_next_pipe_id := i, heap := h\<rparr>))
       (fwd_field (malloc_ok L) field_name value (fwd s, fwd_next_pipe_id s, heap s))"

definition parse_fwd_miss_field :: "c_library \<Rightarrow> string \<Rightarrow> string \<Rightarrow> flow_parser \<Rightarrow> (doca_error \<times> flow_parser) option" where
  "parse_fwd_miss_field L field_name value s =
     map_option (\<lambda>(result, f, i, h). (result, s\<lparr>fwd_miss := f, fwd_miss_next_pipe_id := i, heap := h\<rparr>))
       (fwd_field (malloc_ok L) field_name value (fwd_miss s, fwd_miss_next_pipe_id s, heap s))"

text \<open>The result of \<open>parse_struct\<close> is not looked at.\<close>

definition cmd_create_struct_parsed :: "c_library \<Rightarrow> string \<Rightarrow> string \<Rightarrow> flow_parser \<Rightarrow> flow_parser option" where
  "cmd_create_struct_parsed L flow_struct input s =
     (if flow_struct = ''pipe_match''
      then map_option (\<lambda>(_, m). s\<lparr>pipe_match := m\<rparr>) (parse_struct input parse_match_field zero_match)
      else if flow_struct = ''entry_match''
      then map_option (\<lambda>(_, m). s\<lparr>entry_match := m\<rparr>) (parse_struct input parse_match_field zero_match)
      else if flow_struct = ''match_mask''
      then map_option (\<lambda>(_, m). s\<lparr>match_mask := m\<rparr>) (parse_struct input parse_match_field zero_match)
      else if flow_struct = ''actions''
      then map_option (\<lambda>(_, a). s\<lparr>actions := a\<rparr>) (parse_struct input parse_actions_field zero_actions)
      else if flow_struct = ''monitor''
      then map_option (\<lambda>(_, m). s\<lparr>monitor := m\<rparr>) (parse_struct input parse_monitor_field zero_monitor)
      else if flow_struct = ''fwd'' then map_option snd (parse_struct input (parse_fwd_field L) (s\<lparr>fwd := zero_fwd\<rparr>))
      else if flow_struct = ''fwd_miss''
      then map_option snd (parse_struct input (parse_fwd_miss_field L) (s\<lparr>fwd_miss := zero_fwd\<rparr>))
      else Some s)"

section \<open>The table of commands\<close>

text \<open>
  A token is a fixed text, with the alternatives separated by \<open>#\<close>, any text without a space (\<open>NULL\<close>), or the
  rest of the line (\<open>TOKEN_STRING_MULTI\<close>).
\<close>

datatype token = Token string | Token_any | Token_multi

text \<open>The fields of the results that the handlers read, one constructor for each handler.\<close>

datatype parsed_result =
    Quit_result
  | Struct_result string string
  | Create_pipe_result string
  | Add_entry_result string
  | Control_entry_result string
  | Destroy_pipe_result string
  | Rm_entry_result string
  | Flush_pipes_result string
  | Dump_pipe_result string
  | Query_result string

record cmdline_inst =
  inst_f :: "string list \<Rightarrow> parsed_result"
  inst_help :: string
  inst_tokens :: "token list"

definition cmd_create_pipe :: cmdline_inst where
  "cmd_create_pipe = \<lparr>inst_f = (\<lambda>ts. Create_pipe_result (ts ! 2)),
     inst_help = ''create pipe port_id=[port_id],[optional params]'',
     inst_tokens = [Token ''create'', Token ''pipe'', Token_any]\<rparr>"

definition cmd_add_entry :: cmdline_inst where
  "cmd_add_entry = \<lparr>inst_f = (\<lambda>ts. Add_entry_result (ts ! 2)),
     inst_help = ''add entry pipe_id=[pipe_id],pipe_queue=[pipe_queue],[optional fields]'',
     inst_tokens = [Token ''add'', Token ''entry'', Token_any]\<rparr>"

definition cmd_add_control_pipe_entry :: cmdline_inst where
  "cmd_add_control_pipe_entry = \<lparr>inst_f = (\<lambda>ts. Control_entry_result (ts ! 3)),
     inst_help = ''add control_pipe entry priority=[priority],port_id=[port_id],pipe_id=[pipe_id],pipe_queue=[pipe_queue],[optional fields]'',
     inst_tokens = [Token ''add'', Token ''control_pipe'', Token ''entry'', Token_any]\<rparr>"

definition cmd_destroy_pipe :: cmdline_inst where
  "cmd_destroy_pipe = \<lparr>inst_f = (\<lambda>ts. Destroy_pipe_result (ts ! 2)),
     inst_help = ''destroy pipe pipe_id=[pipe_id]'',
     inst_tokens = [Token ''destroy'', Token ''pipe'', Token_any]\<rparr>"

definition cmd_rm_entry :: cmdline_inst where
  "cmd_rm_entry = \<lparr>inst_f = (\<lambda>ts. Rm_entry_result (ts ! 2)),
     inst_help = ''rm entry pipe_queue=[pipe_queue],entry_id=[entry_id]'',
     inst_tokens = [Token ''rm'', Token ''entry'', Token_any]\<rparr>"

definition cmd_flush_pipe :: cmdline_inst where
  "cmd_flush_pipe = \<lparr>inst_f = (\<lambda>ts. Flush_pipes_result (ts ! 3)),
     inst_help = ''port pipes flush port_id=[port_id]'',
     inst_tokens = [Token ''port'', Token ''pipes'', Token ''flush'', Token_any]\<rparr>"

definition cmd_query :: cmdline_inst where
  "cmd_query = \<lparr>inst_f = (\<lambda>ts. Query_result (ts ! 1)),
     inst_help = ''query entry_id=[entry_id]'',
     inst_tokens = [Token ''query'', Token_any]\<rparr>"

definition cmd_dump_pipe :: cmdline_inst where
  "cmd_dump_pipe = \<lparr>inst_f = (\<lambda>ts. Dump_pipe_result (ts ! 3)),
     inst_help = ''port pipes dump port_id=[port_id],file=[file name]'',
     inst_tokens = [Token ''port'', Token ''pipes'', Token ''dump'', Token_any]\<rparr>"

definition cmd_update_struct :: cmdline_inst where
  "cmd_update_struct = \<lparr>inst_f = (\<lambda>ts. Struct_result (ts ! 1) (ts ! 2)),
     inst_help = ''create pipe_match|entry_match|match_mask|actions|monitor|fwd|fwd_miss <struct fields>'',
     inst_tokens = [Token ''create'', Token ''pipe_match#entry_match#match_mask#actions#monitor#fwd#fwd_miss'', Token_multi]\<rparr>"

definition cmd_quit :: cmdline_inst where
  "cmd_quit = \<lparr>inst_f = (\<lambda>_. Quit_result), inst_help = ''Exit application'', inst_tokens = [Token ''quit'']\<rparr>"

definition main_ctx :: "cmdline_inst list" where
  "main_ctx = [cmd_quit, cmd_update_struct, cmd_create_pipe, cmd_add_entry, cmd_add_control_pipe_entry,
     cmd_destroy_pipe, cmd_rm_entry, cmd_flush_pipe, cmd_dump_pipe, cmd_query]"

section \<open>The command line\<close>

text \<open>The handler of a command; that of \<open>quit\<close> ends the loop.\<close>

fun exec_command :: "c_library \<Rightarrow> parsed_result \<Rightarrow> flow_parser \<Rightarrow> flow_parser option" where
  "exec_command L Quit_result s = Some s"
| "exec_command L (Struct_result t input) s = cmd_create_struct_parsed L t input s"
| "exec_command L (Create_pipe_result ps) s = cmd_create_pipe_parsed L ps s"
| "exec_command L (Add_entry_result ps) s = cmd_add_entry_parsed ps s"
| "exec_command L (Control_entry_result ps) s = cmd_add_control_pipe_entry_parsed ps s"
| "exec_command L (Destroy_pipe_result ps) s = cmd_destroy_pipe_parsed ps s"
| "exec_command L (Rm_entry_result ps) s = cmd_rm_entry_parsed ps s"
| "exec_command L (Flush_pipes_result ps) s = cmd_flush_pipes_parsed ps s"
| "exec_command L (Dump_pipe_result ps) s = cmd_dump_pipe_parsed L ps s"
| "exec_command L (Query_result ps) s = cmd_query_parsed ps s"

text \<open>A recognised line: the number of its instruction in the table and the texts of its tokens.\<close>

type_synonym cmd_line = "nat \<times> string list"

definition line_result :: "cmd_line \<Rightarrow> parsed_result" where
  "line_result l = inst_f (main_ctx ! fst l) (snd l)"

fun cmdline_interact :: "c_library \<Rightarrow> cmd_line list \<Rightarrow> flow_parser \<Rightarrow> flow_parser option" where
  "cmdline_interact L [] s = Some s"
| "cmdline_interact L (l # ls) s =
     (if line_result l = Quit_result then Some s
      else case exec_command L (line_result l) s of None \<Rightarrow> None | Some s1 \<Rightarrow> cmdline_interact L ls s1)"

definition flow_parser_init :: "c_library \<Rightarrow> bool \<Rightarrow> cmd_line list \<Rightarrow> flow_parser \<Rightarrow> (doca_error \<times> flow_parser) option" where
  "flow_parser_init L cl_ok ls s =
     (let s1 = reset_doca_flow_structs s in
      if \<not> cl_ok then Some (DOCA_ERROR_INVALID_VALUE, s1)
      else map_option (Pair DOCA_SUCCESS) (cmdline_interact L ls s1))"

definition flow_parser_cleanup :: "flow_parser \<Rightarrow> flow_parser option" where
  "flow_parser_cleanup s = map_option (\<lambda>h. s\<lparr>heap := h\<rparr>) (release (rss_queues (heap s)) (heap s))"

end
