(* ===== verification/Flow_Parser_Props.thy ===== *)
theory Flow_Parser_Props
  imports Pipe Flow_Commands
begin

text \<open>
  What the parsers of the command line do: addresses and structures are read back as they were printed, the text
  of a structure fills its fields in order up to the first error, and hexadecimal numbers are all read as 0.
\<close>

section \<open>Addresses\<close>

lemma strchr_after: "c \<notin> set s \<Longrightarrow> strchr c (s @ c # r) = Some (c # r)"
  by (simp add: strchr_def dropWhile_append takeWhile_append)

lemma dec_no_dot: "CHR ''.'' \<notin> set (dec n)"
  by (rule dec_no_char) (simp add: digit_value_def)

lemma ipv4_numbers_dec:
  "\<forall>n \<in> set (a # ns). n < 2 ^ 31 \<Longrightarrow>
   ipv4_numbers (length ns) (join ''.'' (map dec (a # ns))) = Some (map int (a # ns))"
proof (induction ns arbitrary: a)
  case Nil
  then show ?case using atoi_dec [of "[]" a] by simp
next
  case (Cons b ns)
  have "atoi (dec a @ CHR ''.'' # join ''.'' (map dec (b # ns))) = int a"
    by (rule atoi_dec) (use Cons.prems in auto)
  then show ?case using Cons by (simp add: strchr_after dec_no_dot)
qed

lemma unat_byte: "unat (take_bit 8 x :: u32) < 256"
proof -
  have "unat (take_bit 8 x) < 2 ^ 8" by (simp only: unsigned_take_bit_eq take_bit_nat_less_exp)
  then show ?thesis by simp
qed

lemma byte_take_bit: "k + 8 \<le> 32 \<Longrightarrow> drop_bit k (x AND push_bit k (mask 8)) = (take_bit 8 (drop_bit k x) :: u32)"
  by (rule bit_word_eqI) (auto simp: bit_simps)

lemma ip_str_not_changeable: "ip_str a \<noteq> UINT32_CHANGEABLE_FIELD"
proof
  assume eq: "ip_str a = UINT32_CHANGEABLE_FIELD"
  have "CHR ''.'' \<in> set (ip_str a)" by (simp add: ip_str_def Let_def)
  then show False by (simp add: eq UINT32_CHANGEABLE_FIELD_def)
qed

text \<open>
  C39: Every IPv4 address is read back as it is printed.
\<close>

theorem ipv4_roundtrip: "parse_ipv4_str (ip_str a) old = (DOCA_SUCCESS, a)"
proof -
  define x where "x = bswap32 a"
  let ?a = "drop_bit 24 (x AND 0xff000000)" and ?b = "drop_bit 16 (x AND 0x00ff0000)"
  let ?c = "drop_bit 8 (x AND 0x0000ff00)" and ?d = "x AND 0x000000ff"
  have small: "unat ?a < 256" "unat ?b < 256" "unat ?c < 256" "unat ?d < 256"
    using unat_byte [of "drop_bit 24 x"] unat_byte [of "drop_bit 16 x"] unat_byte [of "drop_bit 8 x"] unat_byte [of x]
      byte_take_bit [of 24 x] byte_take_bit [of 16 x] byte_take_bit [of 8 x] byte_take_bit [of 0 x]
    by (simp_all add: byte_masks)
  have "ipv4_numbers 3 (ip_str a) = Some [int (unat ?a), int (unat ?b), int (unat ?c), int (unat ?d)]"
    using ipv4_numbers_dec [of "unat ?a" "[unat ?b, unat ?c, unat ?d]"] small
    by (simp add: ip_str_def x_def Let_def numeral_3_eq_3)
  then have "parse_ipv4_str (ip_str a) old =
      (DOCA_SUCCESS, bswap32 (push_bit 24 ?a + push_bit 16 ?b + push_bit 8 ?c + ?d))"
    by (simp add: parse_ipv4_str_def ip_str_not_changeable BE_IPV4_ADDR_def)
  then show ?thesis by (simp only: word_bytes) (simp add: x_def)
qed

section \<open>Structures\<close>

definition field_ok :: "string \<times> string \<Rightarrow> bool" where
  "field_ok f \<longleftrightarrow> fst f \<noteq> [] \<and> CHR ''='' \<notin> set (fst f) \<and> length (fst f) < MAX_FIELD_INPUT_LEN \<and>
     snd f \<noteq> [] \<and> CHR '','' \<notin> set (snd f) \<and> length (snd f) < MAX_FIELD_INPUT_LEN"

definition field_text :: "string \<times> string \<Rightarrow> string" where
  "field_text f = fst f @ CHR ''='' # snd f"

definition struct_text :: "(string \<times> string) list \<Rightarrow> string" where
  "struct_text fs = join '','' (map field_text fs)"

fun fill_fields :: "(string \<Rightarrow> string \<Rightarrow> 's \<Rightarrow> (doca_error \<times> 's) option) \<Rightarrow> (string \<times> string) list \<Rightarrow> 's
    \<Rightarrow> (doca_error \<times> 's) option" where
  "fill_fields fill [] st = Some (DOCA_SUCCESS, st)"
| "fill_fields fill ((name, val) # fs) st =
     (case fill name val st of None \<Rightarrow> None
      | Some (result, st1) \<Rightarrow> if result \<noteq> DOCA_SUCCESS then Some (result, st1) else fill_fields fill fs st1)"

lemma strtok_truncated:
  assumes "t \<noteq> []" and "d \<notin> set t" and "r = [] \<or> hd r = d" and "length t < n"
  shows "strtok d (strlcpy n (t @ r)) = Some (0, t)"
proof -
  have "strlcpy n (t @ r) = t @ take (n - 1 - length t) r" using assms(4) by (simp add: strlcpy_def)
  moreover have "take (n - 1 - length t) r = [] \<or> hd (take (n - 1 - length t) r) = d"
    using assms(3) by (cases r; cases "n - 1 - length t") auto
  ultimately show ?thesis using strtok_token [of t d "take (n - 1 - length t) r"] assms(1,2) by simp
qed

lemma strlcpy_short [simp]: "length t < n \<Longrightarrow> strlcpy n t = t"
  by (simp add: strlcpy_def)

text \<open>One turn of the loop on a field that is followed by nothing or by a comma.\<close>

lemma parse_struct_field:
  assumes "field_ok (name, val)" and "r = [] \<or> hd r = CHR '',''"
  shows "parse_struct (field_text (name, val) @ r) fill st =
    (case fill name val st of None \<Rightarrow> None
     | Some (result, st1) \<Rightarrow>
         if result \<noteq> DOCA_SUCCESS then Some (result, st1)
         else if r \<noteq> [] then parse_struct (tl r) fill st1 else Some (DOCA_SUCCESS, st1))"
proof -
  have ok: "name \<noteq> []" "CHR ''='' \<notin> set name" "length name < MAX_FIELD_INPUT_LEN"
    "val \<noteq> []" "CHR '','' \<notin> set val" "length val < MAX_FIELD_INPUT_LEN"
    using assms(1) by (auto simp: field_ok_def)
  then have len: "length name < MAX_CMDLINE_INPUT_LEN" "length val < MAX_CMDLINE_INPUT_LEN" by (simp_all add: flow_consts)
  have n: "strtok CHR ''='' (strlcpy MAX_CMDLINE_INPUT_LEN (field_text (name, val) @ r)) = Some (0, name)"
    using strtok_truncated [of name "CHR ''=''" "CHR ''='' # val @ r"] ok len by (simp add: field_text_def)
  have a: "advance (Suc (length name)) (field_text (name, val) @ r) = Some (val @ r)"
    by (simp add: advance_def field_text_def)
  have v: "strtok CHR '','' (strlcpy MAX_CMDLINE_INPUT_LEN (val @ r)) = Some (0, val)"
    using strtok_truncated [of val "CHR '',''" r] ok len assms(2) by simp
  have c: "starts_with '','' r \<longleftrightarrow> r \<noteq> []" using assms(2) by (cases r) (auto simp: starts_with_def)
  show ?thesis
    by (subst parse_struct.simps) (simp add: n a v c ok Let_def split: option.split prod.split)
qed

lemma parse_struct_fill:
  assumes "fs \<noteq> []" and "\<forall>f \<in> set fs. field_ok f"
  shows "parse_struct (struct_text fs) fill st = fill_fields fill fs st"
  using assms
proof (induction fs arbitrary: st)
  case (Cons f fs)
  obtain name val where f: "f = (name, val)" by (cases f)
  show ?case
  proof (cases fs)
    case Nil
    have "field_ok (name, val)" using Cons.prems f by simp
    from parse_struct_field [OF this, of "[]" fill st] show ?thesis
      using Nil f by (simp add: struct_text_def split: option.split prod.split)
  next
    case (Cons g gs)
    have "field_ok (name, val)" using Cons.prems f by simp
    from parse_struct_field [OF this, of "CHR '','' # struct_text fs" fill st] show ?thesis
      using Cons Cons.prems Cons.IH f by (simp add: struct_text_def split: option.split prod.split)
  qed
qed simp

text \<open>A monitor as the user would write it.\<close>

definition monitor_fields :: "doca_monitor \<Rightarrow> (string \<times> string) list" where
  "monitor_fields m = [(''flags'', dec (unat (mon_flags m))), (''cir'', dec (unat (mon_cir m))),
     (''cbs'', dec (unat (mon_cbs m))), (''aging'', dec (unat (mon_aging m)))]"

lemma dec_field_ok:
  assumes "LENGTH('a::len) \<le> 64" and "fst f \<noteq> []" and "CHR ''='' \<notin> set (fst f)" and "length (fst f) < 128"
    and "snd f = dec (unat (w :: 'a word))"
  shows "field_ok f"
proof -
  have "unat w < 2 ^ LENGTH('a)" by (rule unsigned_less)
  also have "(2::nat) ^ LENGTH('a) \<le> 2 ^ 64" using assms(1) by (rule power_increasing) simp
  also have "(2::nat) ^ 64 < 10 ^ 20" by simp
  finally have "length (dec (unat w)) \<le> 20" by (rule length_dec) simp
  moreover have "CHR '','' \<notin> set (dec (unat w))" by (rule dec_no_char) (simp add: digit_value_def)
  ultimately show ?thesis using assms by (simp add: field_ok_def flow_consts)
qed

lemma monitor_fields_ok: "f \<in> set (monitor_fields m) \<Longrightarrow> field_ok f"
  using dec_field_ok [of f "mon_flags m"] dec_field_ok [of f "mon_cir m"] dec_field_ok [of f "mon_cbs m"]
    dec_field_ok [of f "mon_aging m"]
  by (auto simp: monitor_fields_def)

lemma number_dec:
  assumes "LENGTH('a::len) \<le> 62"
  shows "(number (dec (unat (w :: 'a word))) :: 'a word) = w"
proof -
  have "unat w < 2 ^ LENGTH('a)" by (rule unsigned_less)
  also have "(2::nat) ^ LENGTH('a) \<le> 2 ^ 62" using assms by (rule power_increasing) simp
  finally have "int (unat w) < int (2 ^ 62)" by (simp only: of_nat_less_iff)
  then have "int (unat w) \<le> LONG_MAX" by (simp add: LONG_MAX_def)
  then show ?thesis using strtol_dec [of "[]" "unat w"] by simp
qed

lemma strtoull_dec_word: "fst (strtoull 0 (dec (unat (w :: u64)))) = w"
proof -
  have "unat w < 2 ^ LENGTH(64)" by (rule unsigned_less)
  then have "int (unat w) < int (2 ^ 64)" by (simp only: of_nat_less_iff) simp
  then have "int (unat w) \<le> ULLONG_MAX" by (simp add: ULLONG_MAX_def)
  then show ?thesis using strtoull_dec [of "[]" "unat w"] by simp
qed

text \<open>
  C38: A monitor that is written as text and entered with \<open>create monitor\<close> is the monitor that was written.
\<close>

theorem monitor_roundtrip:
  "cmd_create_struct_parsed L ''monitor'' (struct_text (monitor_fields m)) s = Some (s\<lparr>monitor := m\<rparr>)"
proof -
  have "parse_struct (struct_text (monitor_fields m)) parse_monitor_field zero_monitor
      = fill_fields parse_monitor_field (monitor_fields m) zero_monitor"
    by (rule parse_struct_fill) (auto intro: monitor_fields_ok simp: monitor_fields_def)
  also have "\<dots> = Some (DOCA_SUCCESS, m)"
    by (simp add: monitor_fields_def parse_monitor_field_def number_dec strtoull_dec_word)
  finally show ?thesis by (simp add: cmd_create_struct_parsed_def)
qed

section \<open>Hexadecimal numbers\<close>

text \<open>The base of hexadecimal numbers is 1, which \<open>strtol\<close> does not support.\<close>

lemma hex_number_zero [simp]: "hex_number s = 0"
  by (simp add: hex_number_def strtol_def base_supported_def HEXADECIMAL_BASE_def)

lemma count_list_after: "strchr c s = Some p \<Longrightarrow> count_list s c = Suc (count_list (tl p) c)"
  by (induction s) (auto simp: strchr_def split: if_splits)

lemma count_list_none: "strchr c s = None \<longleftrightarrow> count_list s c = 0"
  by (auto simp: strchr_def count_list_0_iff)

lemma mac_bytes_zero:
  assumes "i < MAC_ADDR_LEN" and "length mac = MAC_ADDR_LEN"
  shows "mac_bytes i s mac =
    (let k = min (MAC_ADDR_LEN - 1 - i) (count_list s CHR '':'') in
     (if k = MAC_ADDR_LEN - 1 - i then DOCA_SUCCESS else DOCA_ERROR_INVALID_VALUE,
      take i mac @ replicate (Suc k) 0 @ drop (i + Suc k) mac))"
  using assms
proof (induction i s mac rule: mac_bytes.induct)
  case (1 i s mac)
  have upd: "mac[i := 0] = take i mac @ 0 # drop (Suc i) mac" using "1.prems" by (simp add: upd_conv_take_nth_drop)
  show ?case
  proof (cases "i < MAC_ADDR_LEN - 1")
    case False
    then have "i = MAC_ADDR_LEN - 1" using "1.prems" by simp
    then show ?thesis using False upd by (subst mac_bytes.simps) simp
  next
    case True
    show ?thesis
    proof (cases "strchr CHR '':'' s")
      case None
      then have "count_list s CHR '':'' = 0" by (simp add: count_list_none)
      then show ?thesis using None True upd by (subst mac_bytes.simps) simp
    next
      case (Some p)
      let ?k = "min (MAC_ADDR_LEN - 1 - Suc i) (count_list (tl p) CHR '':'')"
      have k: "min (MAC_ADDR_LEN - 1 - i) (count_list s CHR '':'') = Suc ?k"
        using count_list_after [OF Some] True by simp
      have IH: "mac_bytes (Suc i) (tl p) (mac[i := 0]) =
          (if ?k = MAC_ADDR_LEN - 1 - Suc i then DOCA_SUCCESS else DOCA_ERROR_INVALID_VALUE,
           take (Suc i) (mac[i := 0]) @ replicate (Suc ?k) 0 @ drop (Suc i + Suc ?k) (mac[i := 0]))"
        using "1.IH" [OF refl True Some] True "1.prems" by (simp add: Let_def)
      have "take (Suc i) (mac[i := 0]) = take i mac @ [0]" using "1.prems" by (simp add: take_Suc_conv_app_nth)
      moreover have "drop (Suc i + Suc ?k) (mac[i := 0]) = drop (i + Suc (Suc ?k)) mac" by simp
      ultimately show ?thesis using IH True Some k by (subst mac_bytes.simps) (auto simp: Let_def)
    qed
  qed
qed

lemma parse_mac_address_zero:
  assumes "length mac = MAC_ADDR_LEN"
  shows "parse_mac_address s mac =
    (if 5 \<le> count_list s CHR '':'' then (DOCA_SUCCESS, zero_mac)
     else (DOCA_ERROR_INVALID_VALUE, replicate (Suc (count_list s CHR '':'')) 0 @ drop (Suc (count_list s CHR '':'')) mac))"
  using assms by (simp add: parse_mac_address_def mac_bytes_zero zero_mac_def Let_def MAC_ADDR_LEN_def numeral_eq_Suc)

text \<open>
  C40: Numbers that should be hexadecimal are read as 0: MAC addresses (refused with fewer than five colons, with zeros
  stored up to there), the flags of a match and the Ethernet types; for IPv6 addresses the behaviour is undefined.
\<close>

theorem hexadecimal_read_as_zero:
  assumes "length mac = MAC_ADDR_LEN"
  shows "parse_mac_address s mac =
       (if 5 \<le> count_list s CHR '':'' then (DOCA_SUCCESS, replicate MAC_ADDR_LEN 0)
        else (DOCA_ERROR_INVALID_VALUE,
              replicate (Suc (count_list s CHR '':'')) 0 @ drop (Suc (count_list s CHR '':'')) mac)) \<and>
     parse_match_field ''flags'' s m = Some (DOCA_SUCCESS, m\<lparr>match_flags := 0\<rparr>) \<and>
     parse_match_field ''out_eth_type'' s m = Some (DOCA_SUCCESS, m\<lparr>out_hdr := (out_hdr m)\<lparr>eth_type := 0\<rparr>\<rparr>) \<and>
     parse_match_field ''in_eth_type'' s m = Some (DOCA_SUCCESS, m\<lparr>in_hdr := (in_hdr m)\<lparr>eth_type := 0\<rparr>\<rparr>) \<and>
     parse_ipv6_str s = None"
  using assms
  by (simp add: parse_mac_address_zero zero_mac_def parse_match_field_def prefixed_field_def headers_field_def starts_with_def
      into_opt_def Let_def parse_ipv6_str_def IP_ADDR_LEN_def numeral_eq_Suc strtol_def base_supported_def HEXADECIMAL_BASE_def)

theorem hexadecimal_read_as_zero_witness:
  "parse_mac_address ''aa:bb:cc:dd:ee:ff'' zero_mac = (DOCA_SUCCESS, replicate 6 0)"
  using hexadecimal_read_as_zero [of zero_mac "''aa:bb:cc:dd:ee:ff''"] by (simp add: zero_mac_def MAC_ADDR_LEN_def)

text \<open>
  C13: Reading the text of a structure fills its fields, in the order of the text, up to the first error.
\<close>

theorem parse_struct_fields:
  assumes "fs \<noteq> []" and "\<forall>f \<in> set fs. field_ok f"
  shows "parse_struct (struct_text fs) fill st = fill_fields fill fs st"
  using assms by (rule parse_struct_fill)

theorem parse_struct_fields_witness:
  "parse_struct ''cir=7,unknown=1,cbs=2'' parse_monitor_field zero_monitor
     = Some (DOCA_ERROR_INVALID_VALUE, zero_monitor\<lparr>mon_cir := 7\<rparr>)"
proof -
  let ?fs = "[(''cir'', ''7''), (''unknown'', ''1''), (''cbs'', ''2'')]"
  have "strtoull 0 ''7'' = (7, Some 1)" using strtoull_dec [of "[]" 7] by (simp add: dec.simps digit_def char_of_def bit_iff_odd ULLONG_MAX_def)
  then have "fill_fields parse_monitor_field ?fs zero_monitor = Some (DOCA_ERROR_INVALID_VALUE, zero_monitor\<lparr>mon_cir := 7\<rparr>)"
    by (simp add: parse_monitor_field_def)
  then show ?thesis
    using parse_struct_fields [of ?fs parse_monitor_field zero_monitor]
    by (simp add: field_ok_def flow_consts struct_text_def field_text_def)
qed

end
