(* ===== verification/Flow_Params_Props.thy ===== *)
theory Flow_Params_Props
  imports Flow_Parser_Props
begin

text \<open>
  The loops over the parameters of a command: what the pointer and the buffer hold after each step, that every
  loop ends, and what it keeps.
\<close>

section \<open>The text at the pointer\<close>

lemma takeWhile_drop: "n \<le> length (takeWhile P xs) \<Longrightarrow> takeWhile P (drop n xs) = drop n (takeWhile P xs)"
  by (induction xs arbitrary: n) (auto simp: drop_Cons' split: if_splits)

lemma takeWhile_no_NUL: "NUL \<notin> set (takeWhile (\<lambda>c. c \<noteq> NUL) s)"
  by (induction s) auto

lemma cur_text_no_NUL: "cur_text m = Some s \<Longrightarrow> NUL \<notin> set s"
  by (auto simp: cur_text_def text_at_def takeWhile_no_NUL split: cptr.splits if_splits dest!: sym [of _ s])

text \<open>The first null after a position of the buffer bounds the text there.\<close>

lemma buffer_text_length:
  assumes "text_at m (Buf p) = Some s" and "p \<le> q" and "q < length (lbuf m)" and "lbuf m ! q = NUL"
  shows "length s \<le> q - p"
proof -
  have s: "s = takeWhile (\<lambda>c. c \<noteq> NUL) (drop p (lbuf m))" using assms(1) by (auto simp: text_at_def split: if_splits)
  show ?thesis
  proof (rule ccontr)
    assume "\<not> length s \<le> q - p"
    then have less: "q - p < length s" by simp
    then have "s ! (q - p) = drop p (lbuf m) ! (q - p)" unfolding s by (rule takeWhile_nth)
    also have "\<dots> = NUL" using assms(2-4) by simp
    finally have "NUL \<in> set s" using less by (metis nth_mem)
    then show False unfolding s using takeWhile_no_NUL by blast
  qed
qed

lemma buffer_text_end:
  assumes "text_at m (Buf p) = Some s"
  shows "p + length s < length (lbuf m)" and "lbuf m ! (p + length s) = NUL"
proof -
  have s: "s = takeWhile (\<lambda>c. c \<noteq> NUL) (drop p (lbuf m))" and N: "NUL \<in> set (drop p (lbuf m))"
    using assms by (auto simp: text_at_def split: if_splits)
  have "length s < length (drop p (lbuf m))"
    unfolding s using N takeWhile_no_NUL [of "drop p (lbuf m)"] length_takeWhile_le [of "\<lambda>c. c \<noteq> NUL" "drop p (lbuf m)"]
      takeWhile_eq_take [of "\<lambda>c. c \<noteq> NUL" "drop p (lbuf m)"] by (metis le_neq_implies_less take_all_iff)
  then show len: "p + length s < length (lbuf m)" by simp
  have "drop p (lbuf m) ! length s = NUL"
    using nth_length_takeWhile [of "\<lambda>c. c \<noteq> NUL" "drop p (lbuf m)"] \<open>length s < length (drop p (lbuf m))\<close> s by simp
  then show "lbuf m ! (p + length s) = NUL" using len by simp
qed

lemma cur_text_skip:
  assumes "cur_text m = Some s" and "n \<le> length s"
  shows "cur_text (skip n m) = Some (drop n s)"
proof (cases "cur m")
  case (Arg i)
  then have s: "i \<le> length (arg m)" "s = takeWhile (\<lambda>c. c \<noteq> NUL) (drop i (arg m))"
    using assms(1) by (auto simp: cur_text_def text_at_def split: if_splits)
  have "length s \<le> length (arg m) - i" unfolding s using length_takeWhile_le [of _ "drop i (arg m)"] by simp
  then show ?thesis
    using Arg s assms(2) takeWhile_drop [of n "\<lambda>c. c \<noteq> NUL" "drop i (arg m)"]
    by (simp add: cur_text_def text_at_def skip_def add.commute)
next
  case (Buf i)
  then have s: "s = takeWhile (\<lambda>c. c \<noteq> NUL) (drop i (lbuf m))" and t: "text_at m (Buf i) = Some s"
    using assms(1) by (auto simp: cur_text_def text_at_def split: if_splits)
  have "NUL \<in> set (drop (i + n) (lbuf m))"
    using buffer_text_end [OF t] assms(2) by (force simp: in_set_conv_nth intro: exI [of _ "length s - n"])
  then show ?thesis
    using Buf s assms(2) takeWhile_drop [of n "\<lambda>c. c \<noteq> NUL" "drop i (lbuf m)"]
    by (simp add: cur_text_def text_at_def skip_def add.commute)
qed

lemma skip_sel [simp]:
  "arg (skip n m) = arg m" "lbuf (skip n m) = lbuf m" "params.more (skip n m) = params.more m"
  by (simp_all add: skip_def)

text \<open>The text depends on the pointer and the buffer only.\<close>

lemma cur_text_cong: "arg m = arg m' \<Longrightarrow> lbuf m = lbuf m' \<Longrightarrow> cur m = cur m' \<Longrightarrow> cur_text m = cur_text m'"
  by (simp add: cur_text_def text_at_def split: cptr.split)

lemma read_param_some:
  assumes "cur_text m = Some s" and "k \<le> length s"
  shows "read_param k n m = Some (strlcpy n (drop k s),
    (skip k m)\<lparr>lbuf := strlcpy n (drop k s) @ NUL # drop (length (strlcpy n (drop k s)) + 1) (lbuf m)\<rparr>)"
  using cur_text_skip [OF assms] by (simp add: read_param_def copy_text_def Let_def)

lemma copied_text:
  assumes "cur_text m = Some s" and "e \<le> length (strlcpy n (drop k s))"
  shows "cur_text (m'\<lparr>lbuf := strlcpy n (drop k s) @ NUL # r, cur := Buf e\<rparr>) = Some (drop e (strlcpy n (drop k s)))"
proof -
  let ?t = "strlcpy n (drop k s)"
  have "NUL \<notin> set (drop e ?t)"
    using cur_text_no_NUL [OF assms(1)] by (auto simp: strlcpy_def dest!: in_set_dropD in_set_takeD)
  moreover have "drop e (?t @ NUL # r) = drop e ?t @ NUL # r" using assms(2) by simp
  ultimately show ?thesis
    by (simp add: cur_text_def text_at_def takeWhile_append takeWhile_eq_all_conv)
qed

text \<open>After a number the pointer is in the buffer, behind the number.\<close>

lemma read_strtol_some:
  assumes "cur_text m = Some s" and "k \<le> length s"
  obtains e l where "read_strtol k m = Some (fst (strtol 0 (strlcpy MAX_CMDLINE_INPUT_LEN (drop k s))), m\<lparr>lbuf := l, cur := Buf e\<rparr>)"
    and "snd (strtol 0 (strlcpy MAX_CMDLINE_INPUT_LEN (drop k s))) = Some e"
    and "cur_text (m\<lparr>lbuf := l, cur := Buf e\<rparr>) = Some (drop e (strlcpy MAX_CMDLINE_INPUT_LEN (drop k s)))"
proof -
  let ?t = "strlcpy MAX_CMDLINE_INPUT_LEN (drop k s)"
  obtain e where e: "snd (strtol 0 ?t) = Some e" "e \<le> length ?t" using strtol_end [of 0 ?t] by auto
  let ?l = "?t @ NUL # drop (length ?t + 1) (lbuf m)"
  have "read_strtol k m = Some (fst (strtol 0 ?t), m\<lparr>lbuf := ?l, cur := Buf e\<rparr>)"
    using read_param_some [OF assms, of MAX_CMDLINE_INPUT_LEN] e by (simp add: read_strtol_def skip_def)
  then show ?thesis using that [of e ?l] e copied_text [OF assms(1) e(2), where m' = m and r = "drop (length ?t + 1) (lbuf m)"] by blast
qed

lemma read_strtoull_some:
  assumes "cur_text m = Some s" and "k \<le> length s"
  obtains e l where "read_strtoull k m = Some (fst (strtoull 0 (strlcpy MAX_CMDLINE_INPUT_LEN (drop k s))), m\<lparr>lbuf := l, cur := Buf e\<rparr>)"
    and "snd (strtoull 0 (strlcpy MAX_CMDLINE_INPUT_LEN (drop k s))) = Some e"
    and "cur_text (m\<lparr>lbuf := l, cur := Buf e\<rparr>) = Some (drop e (strlcpy MAX_CMDLINE_INPUT_LEN (drop k s)))"
proof -
  let ?t = "strlcpy MAX_CMDLINE_INPUT_LEN (drop k s)"
  obtain e where e: "snd (strtoull 0 ?t) = Some e" "e \<le> length ?t" using strtoull_end [of 0 ?t] by auto
  let ?l = "?t @ NUL # drop (length ?t + 1) (lbuf m)"
  have "read_strtoull k m = Some (fst (strtoull 0 ?t), m\<lparr>lbuf := ?l, cur := Buf e\<rparr>)"
    using read_param_some [OF assms, of MAX_CMDLINE_INPUT_LEN] e by (simp add: read_strtoull_def skip_def)
  then show ?thesis using that [of e ?l] e copied_text [OF assms(1) e(2), where m' = m and r = "drop (length ?t + 1) (lbuf m)"] by blast
qed

text \<open>
  After a copy that does not move the pointer into the buffer it may point into what was overwritten: what it
  points to is still no longer than before, because the null at the end of the old text is still there.
\<close>

lemma copied_shorter:
  assumes "cur_text m = Some s" and "0 < k" and "k \<le> length s" and "read_param k n m = Some (t, m1)"
    and "j \<le> length s - k" and "l = lbuf m1 \<or> (\<exists>i. l = (lbuf m1)[i := NUL])"
    and "cur_text (skip j (m1\<lparr>lbuf := l\<rparr>)) = Some s1"
  shows "length s1 \<le> length s"
proof -
  let ?t = "strlcpy n (drop k s)"
  have m1: "m1 = (skip k m)\<lparr>lbuf := ?t @ NUL # drop (length ?t + 1) (lbuf m)\<rparr>"
    using read_param_some [OF assms(1,3), of n] assms(4) by simp
  show ?thesis
  proof (cases "cur m")
    case (Arg i)
    have "cur_text (skip j (m1\<lparr>lbuf := l\<rparr>)) = cur_text (skip (k + j) m)"
      using Arg m1 by (simp add: cur_text_def text_at_def skip_def add.assoc)
    then have "s1 = drop (k + j) s" using cur_text_skip [OF assms(1), of "k + j"] assms(3,5,7) by simp
    then show ?thesis by simp
  next
    case (Buf i)
    have at_i: "text_at m (Buf i) = Some s" using assms(1) Buf by (simp add: cur_text_def)
    have "length ?t \<le> length s - k" by (simp add: strlcpy_def)
    then have q: "length ?t < i + length s" "Suc (i + length s - Suc 0) = i + length s" using assms(2,3) by simp_all
    note fin = buffer_text_end [OF at_i]
    have keep: "lbuf m1 ! (i + length s) = NUL" "i + length s < length (lbuf m1)"
      using q fin m1 by (simp_all add: nth_append)
    then have l: "l ! (i + length s) = NUL" "i + length s < length l"
      using assms(6) by (metis nth_list_update_eq nth_list_update_neq) (use assms(6) keep in auto)
    have "text_at (m1\<lparr>lbuf := l\<rparr>) (Buf (i + k + j)) = Some s1"
      using assms(7) Buf m1 by (auto simp: cur_text_def text_at_def skip_def split: if_splits)
    then have "length s1 \<le> i + length s - (i + k + j)"
      by (rule buffer_text_length) (use l assms(3,5) in simp_all)
    then show ?thesis by simp
  qed
qed

section \<open>The loop\<close>

text \<open>
  The contract of a step: it reads the text at the pointer, and when it succeeds the text is not longer. The
  loop, which moves on over a comma, then ends.
\<close>

locale param_step =
  fixes param :: "'a params_scheme \<Rightarrow> (doca_error \<times> 'a params_scheme) option"
  assumes step_shorter: "cur_text m = Some s \<Longrightarrow> param m = Some (DOCA_SUCCESS, m1) \<Longrightarrow> cur_text m1 = Some s1 \<Longrightarrow>
            length s1 \<le> length s"
    and step_reads: "cur_text m = None \<Longrightarrow> param m = None"
begin

lemma returns: "\<exists>r. params_loop param m = Some r"
proof (induction "length (the (cur_text m))" arbitrary: m rule: less_induct)
  case less
  show ?case
  proof (cases "\<exists>m1 s s1. cur_text m = Some s \<and> param m = Some (DOCA_SUCCESS, m1) \<and> cur_text m1 = Some s1 \<and> starts_with '','' s1")
    case True
    then obtain m1 s s1 where 1: "cur_text m = Some s" "param m = Some (DOCA_SUCCESS, m1)" "cur_text m1 = Some s1"
      "starts_with '','' s1" by blast
    have "length s1 \<le> length s" using step_shorter 1 by blast
    moreover have "s1 \<noteq> []" using 1(4) by (auto simp: starts_with_def)
    moreover have "cur_text (skip 1 m1) = Some (drop 1 s1)"
      using 1(3) \<open>s1 \<noteq> []\<close> by (intro cur_text_skip) (simp_all add: Suc_leI)
    ultimately have "length (the (cur_text (skip 1 m1))) < length (the (cur_text m))"
      using 1(1) by (cases s1) auto
    from less [OF this] show ?thesis by (subst params_loop.simps) (simp add: 1)
  next
    case False
    then show ?thesis
      by (subst params_loop.simps) (cases "cur_text m"; auto simp: step_reads split: option.split)
  qed
qed

lemma read_params_unfold:
  "read_params param m =
    (case param m of None \<Rightarrow> None
     | Some (result, m1) \<Rightarrow>
         if result \<noteq> DOCA_SUCCESS then Some (result, m1)
         else case cur_text m1 of None \<Rightarrow> None
         | Some s \<Rightarrow> if starts_with '','' s then read_params param (skip 1 m1) else Some (DOCA_SUCCESS, skip 1 m1))"
  unfolding read_params_def by (subst params_loop.simps) (auto split: option.split)

end

text \<open>A step that keeps \<open>inv\<close> when it succeeds and gives \<open>failed\<close> when it fails.\<close>

locale keeping_step = param_step +
  fixes inv failed :: "'a params_scheme \<Rightarrow> bool"
  assumes step_keeps: "inv m \<Longrightarrow> param m = Some (DOCA_SUCCESS, m1) \<Longrightarrow> inv m1"
    and step_fails: "inv m \<Longrightarrow> param m = Some (r, m1) \<Longrightarrow> r \<noteq> DOCA_SUCCESS \<Longrightarrow> failed m1"
    and skip_keeps: "inv m \<Longrightarrow> inv (skip 1 m)"
begin

lemma loop_keeps:
  "params_loop param m = Some (Some (r, m1)) \<Longrightarrow> inv m \<Longrightarrow> if r = DOCA_SUCCESS then inv m1 else failed m1"
proof (induction "length (the (cur_text m))" arbitrary: m rule: less_induct)
  case less
  obtain r2 m2 where 2: "param m = Some (r2, m2)"
    using less.prems(1) by (subst (asm) params_loop.simps) (auto split: option.splits)
  show ?case
  proof (cases "r2 = DOCA_SUCCESS")
    case False
    then show ?thesis using less.prems 2 step_fails [OF less.prems(2) 2]
      by (subst (asm) params_loop.simps) auto
  next
    case True
    obtain s where s: "cur_text m = Some s" using 2 step_reads by fastforce
    obtain s2 where s2: "cur_text m2 = Some s2"
      using less.prems(1) 2 True by (subst (asm) params_loop.simps) (auto split: option.splits)
    have inv2: "inv (skip 1 m2)" using step_keeps less.prems(2) 2 True skip_keeps by blast
    show ?thesis
    proof (cases "starts_with '','' s2")
      case False
      then have "m1 = skip 1 m2" "r = DOCA_SUCCESS"
        using less.prems(1) 2 True s2 by (auto simp: params_loop.simps [of param m])
      then show ?thesis using inv2 by simp
    next
      case more: True
      have "s2 \<noteq> []" using more by (auto simp: starts_with_def)
      then have "cur_text (skip 1 m2) = Some (drop 1 s2)" using s2 by (intro cur_text_skip) (simp_all add: Suc_leI)
      then have "length (the (cur_text (skip 1 m2))) < length (the (cur_text m))"
        using step_shorter [OF s] 2 True s2 s \<open>s2 \<noteq> []\<close> by (cases s2) fastforce+
      moreover have "params_loop param (skip 1 m2) = Some (Some (r, m1))"
        using less.prems(1) 2 True s2 more by (simp add: params_loop.simps [of param m])
      ultimately show ?thesis using less.hyps inv2 by blast
    qed
  qed
qed

lemma read_params_keeps:
  "read_params param m = Some (r, m1) \<Longrightarrow> inv m \<Longrightarrow> if r = DOCA_SUCCESS then inv m1 else failed m1"
  using loop_keeps [of m r m1] by (auto simp: read_params_def split: option.splits)

end

end
