(* ===== verification/Flow_Commands_Props.thy ===== *)
theory Flow_Commands_Props
  imports Flow_Params_Props
begin

text \<open>
  The commands of the command line: every loop over parameters ends, what the commands hand to the registered
  functions, what they keep of the structures and of the memory, and which files they leave open.
\<close>

section \<open>Steps\<close>

named_theorems param_text "fields that the text at the pointer does not depend on"

lemma create_text [param_text]:
  "cur_text (m1\<lparr>cp_cfg := a\<rparr>) = cur_text m1" "cur_text (m1\<lparr>cp_fwd_action := b\<rparr>) = cur_text m1"
  "cur_text (m1\<lparr>cp_fwd_miss_action := b\<rparr>) = cur_text m1" "cur_text (m1\<lparr>cp_has_port_id := b\<rparr>) = cur_text m1"
  "cur_text (m1\<lparr>cp_state := c\<rparr>) = cur_text m1" for m1 :: create_params
  by (rule cur_text_cong; simp)+

lemma add_entry_text [param_text]:
  "cur_text (m2\<lparr>ae_fwd_action := b\<rparr>) = cur_text m2" "cur_text (m2\<lparr>ae_monitor_action := b\<rparr>) = cur_text m2"
  "cur_text (m2\<lparr>ae_pipe_id := i\<rparr>) = cur_text m2" "cur_text (m2\<lparr>ae_pipe_queue := q\<rparr>) = cur_text m2"
  "cur_text (m2\<lparr>ae_has_pipe_id := b\<rparr>) = cur_text m2" "cur_text (m2\<lparr>ae_has_pipe_queue := b\<rparr>) = cur_text m2"
  for m2 :: add_entry_params
  by (rule cur_text_cong; simp)+

lemma control_text [param_text]:
  "cur_text (m3\<lparr>ce_fwd_action := b\<rparr>) = cur_text m3" "cur_text (m3\<lparr>ce_match_mask_action := b\<rparr>) = cur_text m3"
  "cur_text (m3\<lparr>ce_pipe_id := i\<rparr>) = cur_text m3" "cur_text (m3\<lparr>ce_pipe_queue := j\<rparr>) = cur_text m3"
  "cur_text (m3\<lparr>ce_priority := p\<rparr>) = cur_text m3" "cur_text (m3\<lparr>ce_has_pipe_id := b\<rparr>) = cur_text m3"
  "cur_text (m3\<lparr>ce_has_pipe_queue := b\<rparr>) = cur_text m3" "cur_text (m3\<lparr>ce_has_priority := b\<rparr>) = cur_text m3"
  for m3 :: control_params
  by (rule cur_text_cong; simp)+

lemma entry_text [param_text]:
  "cur_text (m4\<lparr>ep_pipe_queue := u\<rparr>) = cur_text m4" "cur_text (m4\<lparr>ep_entry_id := i\<rparr>) = cur_text m4"
  "cur_text (m4\<lparr>ep_has_pipe_queue := b\<rparr>) = cur_text m4" "cur_text (m4\<lparr>ep_has_entry_id := b\<rparr>) = cur_text m4"
  for m4 :: entry_params
  by (rule cur_text_cong; simp)+

lemma dump_text [param_text]:
  "cur_text (m5\<lparr>dp_port_id := p\<rparr>) = cur_text m5" "cur_text (m5\<lparr>dp_file := f\<rparr>) = cur_text m5"
  "cur_text (m5\<lparr>dp_has_port_id := b\<rparr>) = cur_text m5" "cur_text (m5\<lparr>dp_has_file := b\<rparr>) = cur_text m5"
  "cur_text (m5\<lparr>dp_state := c\<rparr>) = cur_text m5" for m5 :: dump_params
  by (rule cur_text_cong; simp)+

lemma read_strtol_shorter:
  assumes "cur_text m = Some s" and "k \<le> length s" and "read_strtol k m = Some (v, m1)" and "cur_text m1 = Some s1"
  shows "length s1 \<le> length s"
  by (rule read_strtol_some [OF assms(1,2)]) (use assms(3,4) in \<open>auto simp: strlcpy_def\<close>)

lemma read_strtoull_shorter:
  assumes "cur_text m = Some s" and "k \<le> length s" and "read_strtoull k m = Some (v, m1)" and "cur_text m1 = Some s1"
  shows "length s1 \<le> length s"
  by (rule read_strtoull_some [OF assms(1,2)]) (use assms(3,4) in \<open>auto simp: strlcpy_def\<close>)

lemma parse_bool_result:
  assumes "cur_text m = Some s" and "k \<le> length s" and "parse_bool_params_input k b m = Some (r, b1, m1)"
  shows "r = DOCA_SUCCESS \<and> m1 = skip (k + 1) m \<and> k < length s \<or>
         (r = DOCA_ERROR_INVALID_VALUE \<or> r = DOCA_ERROR_BAD_STATE) \<and> m1 = skip k m"
proof -
  let ?s = "drop k s"
  have s: "cur_text (skip k m) = Some ?s" using assms(1,2) by (rule cur_text_skip)
  obtain e where e: "snd (strtol 0 ?s) = Some e" "e \<le> length ?s" using strtol_end [of 0 ?s] by auto
  have "skip 1 (skip k m) = skip (k + 1) m" by (simp add: skip_def split: cptr.split)
  then show ?thesis
    using assms(3) e by (auto simp: parse_bool_params_input_def s Let_def split: if_splits)
qed

lemma parse_bool_skips:
  assumes "cur_text m = Some s" and "k \<le> length s" and "parse_bool_params_input k b m = Some (r, b1, m1)"
  obtains n where "n \<le> length s" and "m1 = skip n m"
  using parse_bool_result [OF assms] assms(2) that by (metis Suc_eq_plus1 Suc_leI)

lemma bool_param_shorter:
  assumes "cur_text m = Some s" and "k \<le> length s" and "bool_param k b put m = Some (r, m1)"
    and "\<And>b m. cur_text (put b m) = cur_text m" and "cur_text m1 = Some s1"
  shows "length s1 \<le> length s"
proof -
  obtain r2 b2 m2 where 2: "parse_bool_params_input k b m = Some (r2, b2, m2)" and m1: "m1 = put b2 m2"
    using assms(3) by (auto simp: bool_param_def split: option.splits)
  obtain n where "n \<le> length s" and "m2 = skip n m" by (rule parse_bool_skips [OF assms(1,2) 2])
  then show ?thesis using cur_text_skip [OF assms(1)] assms(4,5) m1 by auto
qed

lemma prefix_length:
  "starts_with ''port_id='' s \<Longrightarrow> 8 \<le> length s" "starts_with ''name='' s \<Longrightarrow> 5 \<le> length s"
  "starts_with ''root_enable='' s \<Longrightarrow> 12 \<le> length s" "starts_with ''monitor='' s \<Longrightarrow> 8 \<le> length s"
  "starts_with ''match_mask='' s \<Longrightarrow> 11 \<le> length s" "starts_with ''fwd_miss='' s \<Longrightarrow> 9 \<le> length s"
  "starts_with ''fwd='' s \<Longrightarrow> 4 \<le> length s" "starts_with ''type='' s \<Longrightarrow> 5 \<le> length s"
  "starts_with ''pipe_id='' s \<Longrightarrow> 8 \<le> length s" "starts_with ''pipe_queue='' s \<Longrightarrow> 11 \<le> length s"
  "starts_with ''priority='' s \<Longrightarrow> 9 \<le> length s" "starts_with ''entry_id='' s \<Longrightarrow> 9 \<le> length s"
  "starts_with ''file='' s \<Longrightarrow> 5 \<le> length s"
  by (drule starts_with_length, simp)+

interpretation add_entry: param_step add_entry_param
proof
  fix m s m1 s1
  assume a: "cur_text m = Some s" "add_entry_param m = Some (DOCA_SUCCESS, m1)" "cur_text m1 = Some s1"
  show "length s1 \<le> length s"
    using a prefix_length [of s] read_strtoull_shorter [OF a(1), of 8] read_strtol_shorter [OF a(1), of 11]
      bool_param_shorter [OF a(1), of 8 _ "\<lambda>b m. m\<lparr>ae_monitor_action := b\<rparr>"]
      bool_param_shorter [OF a(1), of 4 _ "\<lambda>b m. m\<lparr>ae_fwd_action := b\<rparr>"]
    by (auto simp: add_entry_param_def param_text split: if_splits)
qed (simp add: add_entry_param_def)

interpretation control: param_step control_param
proof
  fix m s m1 s1
  assume a: "cur_text m = Some s" "control_param m = Some (DOCA_SUCCESS, m1)" "cur_text m1 = Some s1"
  show "length s1 \<le> length s"
    using a prefix_length [of s] read_strtoull_shorter [OF a(1), of 8] read_strtol_shorter [OF a(1), of 11]
      read_strtol_shorter [OF a(1), of 9]
      bool_param_shorter [OF a(1), of 11 _ "\<lambda>b m. m\<lparr>ce_match_mask_action := b\<rparr>"]
      bool_param_shorter [OF a(1), of 4 _ "\<lambda>b m. m\<lparr>ce_fwd_action := b\<rparr>"]
    by (auto simp: control_param_def param_text split: if_splits)
qed (simp add: control_param_def)

lemma read_param_shorter:
  assumes "cur_text m = Some s" and "0 < k" and "k \<le> length s" and "read_param k n m = Some (t, m1)" and "cur_text m1 = Some s1"
  shows "length s1 \<le> length s"
proof -
  have "skip 0 (m1\<lparr>lbuf := lbuf m1\<rparr>) = m1" by (simp add: skip_def split: cptr.split)
  then show ?thesis using copied_shorter [OF assms(1-4), of 0 "lbuf m1" s1] assms(5) by simp
qed

interpretation entry: param_step entry_param
proof
  fix m s m1 s1
  assume a: "cur_text m = Some s" "entry_param m = Some (DOCA_SUCCESS, m1)" "cur_text m1 = Some s1"
  show "length s1 \<le> length s"
    using a prefix_length [of s] read_strtoull_shorter [OF a(1), of 9] read_strtol_shorter [OF a(1), of 11]
      read_param_shorter [OF a(1), of 11 MAX_CMDLINE_INPUT_LEN]
    by (auto simp: entry_param_def param_text split: if_splits)
qed (simp add: entry_param_def)

lemma token_shorter:
  assumes "cur_text m = Some s" and "0 < k" and "k \<le> length s" and "read_param k n m = Some (t, m1)"
    and "strtok_buffer d t m1 = Some (tok, m2)" and "cur_text (skip (length tok) m2) = Some s1"
  shows "length s1 \<le> length s"
proof -
  obtain i where i: "strtok d t = Some (i, tok)" and m2: "m2 = m1\<lparr>lbuf := (lbuf m1)[i + length tok := NUL]\<rparr>"
    using assms(5) by (auto simp: strtok_buffer_def split: option.splits)
  have "t = strlcpy n (drop k s)" using read_param_some [OF assms(1,3), of n] assms(4) by simp
  then have "length tok \<le> length s - k" using strtok_length [OF i] by (simp add: strlcpy_def)
  then show ?thesis
    using copied_shorter [OF assms(1-4), of "length tok" "(lbuf m1)[i + length tok := NUL]" s1] assms(6) m2 by auto
qed

lemma skip_text [param_text]:
  "cur_text (skip n (m1\<lparr>cp_cfg := a\<rparr>)) = cur_text (skip n m1)"
  "cur_text (skip n (m5\<lparr>dp_file := f\<rparr>)) = cur_text (skip n m5)"
  for m1 :: create_params and m5 :: dump_params
  by (rule cur_text_cong; simp add: skip_def)+

interpretation dump: param_step "dump_param L"
proof
  fix m s m1 s1
  assume a: "cur_text m = Some s" "dump_param L m = Some (DOCA_SUCCESS, m1)" "cur_text m1 = Some s1"
  show "length s1 \<le> length s"
    using a prefix_length [of s] read_strtol_shorter [OF a(1), of 8] token_shorter [OF a(1), of 5]
    by (auto simp: dump_param_def dump_file_def Let_def param_text split: if_splits option.splits prod.splits)
qed (simp add: dump_param_def)

lemma create_pipe_error_result: "create_pipe_error m = Some (r, m1) \<Longrightarrow> r = DOCA_ERROR_INVALID_VALUE"
  by (auto simp: create_pipe_error_def)

lemma create_pipe_bool_shorter:
  assumes "cur_text m = Some s" and "k \<le> length s" and "create_pipe_bool k b put m = Some (DOCA_SUCCESS, m1)"
    and "\<And>b m. cur_text (put b m) = cur_text m" and "cur_text m1 = Some s1"
  shows "length s1 \<le> length s"
proof -
  obtain b2 m2 where 2: "parse_bool_params_input k b m = Some (DOCA_SUCCESS, b2, m2)" and m1: "m1 = put b2 m2"
    using assms(3) by (auto simp: create_pipe_bool_def dest!: create_pipe_error_result split: option.splits if_splits)
  obtain n where "n \<le> length s" and "m2 = skip n m" by (rule parse_bool_skips [OF assms(1,2) 2])
  then show ?thesis using cur_text_skip [OF assms(1)] assms(4,5) m1 by auto
qed

lemma create_pipe_tokens_shorter:
  assumes "cur_text m = Some s" and "cur_text m1 = Some s1"
  shows "8 \<le> length s \<Longrightarrow> create_pipe_port_id m = Some (DOCA_SUCCESS, m1) \<Longrightarrow> length s1 \<le> length s"
    and "5 \<le> length s \<Longrightarrow> create_pipe_name L m = Some (DOCA_SUCCESS, m1) \<Longrightarrow> length s1 \<le> length s"
    and "5 \<le> length s \<Longrightarrow> create_pipe_type m = Some (DOCA_SUCCESS, m1) \<Longrightarrow> length s1 \<le> length s"
  using assms token_shorter [OF assms(1), of 8] token_shorter [OF assms(1), of 5]
  by (auto simp: create_pipe_port_id_def create_pipe_name_def create_pipe_type_def Let_def param_text
      split: if_splits option.splits prod.splits dest!: create_pipe_error_result)

interpretation create: param_step "create_pipe_param L"
proof
  fix m s m1 s1
  assume a: "cur_text m = Some s" "create_pipe_param L m = Some (DOCA_SUCCESS, m1)" "cur_text m1 = Some s1"
  show "length s1 \<le> length s"
    using a prefix_length [of s] create_pipe_tokens_shorter [OF a(1,3)]
      create_pipe_bool_shorter [OF a(1) _ _ _ a(3), of 12 _ "\<lambda>b m. if b then m\<lparr>cp_cfg := (cp_cfg m)\<lparr>cfg_is_root := True\<rparr>\<rparr> else m"]
      create_pipe_bool_shorter [OF a(1) _ _ _ a(3), of 8 _ "\<lambda>b m. if b then m\<lparr>cp_cfg := (cp_cfg m)\<lparr>cfg_monitor := Some (monitor (cp_state m))\<rparr>\<rparr> else m"]
      create_pipe_bool_shorter [OF a(1) _ _ _ a(3), of 11 _ "\<lambda>b m. if b then m\<lparr>cp_cfg := (cp_cfg m)\<lparr>cfg_match_mask := Some (match_mask (cp_state m))\<rparr>\<rparr> else m"]
      create_pipe_bool_shorter [OF a(1) _ _ _ a(3), of 9 _ "\<lambda>b m. m\<lparr>cp_fwd_miss_action := b\<rparr>"]
      create_pipe_bool_shorter [OF a(1) _ _ _ a(3), of 4 _ "\<lambda>b m. m\<lparr>cp_fwd_action := b\<rparr>"]
    by (auto simp: create_pipe_param_def param_text split: if_splits dest!: create_pipe_error_result)
qed (simp add: create_pipe_param_def)

end
