(* ===== verification/Flow_Entry_Cmd.thy ===== *)
theory Flow_Entry_Cmd
  imports Flow_Commands_Props
begin

text \<open>
  The command \<open>add entry\<close> on the parameters a user writes: it hands to the registered function what they say, in
  whatever order and however often they are given.
\<close>

datatype entry_arg = Arg_pipe_id u64 | Arg_pipe_queue u16 | Arg_monitor bool | Arg_fwd bool

fun arg_text :: "entry_arg \<Rightarrow> string" where
  "arg_text (Arg_pipe_id i) = ''pipe_id='' @ dec (unat i)"
| "arg_text (Arg_pipe_queue q) = ''pipe_queue='' @ dec (unat q)"
| "arg_text (Arg_monitor b) = ''monitor='' @ (if b then ''1'' else ''0'')"
| "arg_text (Arg_fwd b) = ''fwd='' @ (if b then ''1'' else ''0'')"

definition args_text :: "entry_arg list \<Rightarrow> string" where
  "args_text ps = join '','' (map arg_text ps)"

text \<open>The identifier and the queue that are given last.\<close>

definition given_id :: "u64 \<Rightarrow> entry_arg list \<Rightarrow> u64" where
  "given_id = foldl (\<lambda>i a. case a of Arg_pipe_id j \<Rightarrow> j | _ \<Rightarrow> i)"

definition given_queue :: "int \<Rightarrow> entry_arg list \<Rightarrow> int" where
  "given_queue = foldl (\<lambda>i a. case a of Arg_pipe_queue q \<Rightarrow> int (unat q) | _ \<Rightarrow> i)"

definition is_id :: "entry_arg \<Rightarrow> bool" where "is_id a = (case a of Arg_pipe_id _ \<Rightarrow> True | _ \<Rightarrow> False)"
definition is_queue :: "entry_arg \<Rightarrow> bool" where "is_queue a = (case a of Arg_pipe_queue _ \<Rightarrow> True | _ \<Rightarrow> False)"

lemma stops_comma: "r = [] \<or> hd r = CHR '','' \<Longrightarrow> stops r"
  by (cases r) auto

lemma bool_text: "stops r \<Longrightarrow> strtol 0 ((if b then ''1'' else ''0'') @ r) = (if b then 1 else 0, Some 1)"
  using strtol_dec [of r "if b then 1 else 0"] by (auto simp: dec.simps LONG_MAX_def digit_def char_of_def bit_iff_odd)

lemma read_strtoull_dec:
  assumes "cur_text m = Some (p @ dec (unat (i :: u64)) @ r)" and "r = [] \<or> hd r = CHR '',''"
    and "length (p @ dec (unat i) @ r) < MAX_CMDLINE_INPUT_LEN" and "length p = k"
  obtains e l where "read_strtoull k m = Some (i, m\<lparr>lbuf := l, cur := Buf e\<rparr>)"
    and "cur_text (m\<lparr>lbuf := l, cur := Buf e\<rparr>) = Some r"
proof -
  have "unat i < 2 ^ LENGTH(64)" by (rule unsigned_less)
  then have "int (unat i) < int (2 ^ 64)" by (simp only: of_nat_less_iff) simp
  then have "int (unat i) \<le> ULLONG_MAX" by (simp add: ULLONG_MAX_def)
  then have "strtoull 0 (dec (unat i) @ r) = (i, Some (length (dec (unat i))))"
    using strtoull_dec [OF stops_comma [OF assms(2)]] by simp
  moreover have t: "strlcpy MAX_CMDLINE_INPUT_LEN (drop k (p @ dec (unat i) @ r)) = dec (unat i) @ r"
    using assms(3,4) by simp
  moreover have k: "k \<le> length (p @ dec (unat i) @ r)" using assms(4) by simp
  ultimately show ?thesis
    by - (rule read_strtoull_some [OF assms(1) k, unfolded t], rule that, simp_all)
qed

lemma read_strtol_dec:
  assumes "cur_text m = Some (p @ dec n @ r)" and "r = [] \<or> hd r = CHR '',''" and "int n \<le> LONG_MAX"
    and "length (p @ dec n @ r) < MAX_CMDLINE_INPUT_LEN" and "length p = k"
  obtains e l where "read_strtol k m = Some (int n, m\<lparr>lbuf := l, cur := Buf e\<rparr>)"
    and "cur_text (m\<lparr>lbuf := l, cur := Buf e\<rparr>) = Some r"
proof -
  have "strtol 0 (dec n @ r) = (int n, Some (length (dec n)))"
    using strtol_dec [OF stops_comma [OF assms(2)] assms(3)] .
  moreover have t: "strlcpy MAX_CMDLINE_INPUT_LEN (drop k (p @ dec n @ r)) = dec n @ r"
    using assms(4,5) by simp
  moreover have k: "k \<le> length (p @ dec n @ r)" using assms(5) by simp
  ultimately show ?thesis
    by - (rule read_strtol_some [OF assms(1) k, unfolded t], rule that, simp_all)
qed

lemma bool_param_text:
  assumes "cur_text m = Some (p @ (if b then ''1'' else ''0'') @ r)" and "r = [] \<or> hd r = CHR '',''" and "length p = k"
  shows "bool_param k b0 put m = Some (DOCA_SUCCESS, put (b0 \<or> b) (skip (k + 1) m))"
    and "cur_text (skip (k + 1) m) = Some r"
proof -
  have k: "cur_text (skip k m) = Some ((if b then ''1'' else ''0'') @ r)"
    using cur_text_skip [OF assms(1), of k] assms(3) by simp
  have "skip 1 (skip k m) = skip (k + 1) m" by (simp add: skip_def split: cptr.split)
  then show "bool_param k b0 put m = Some (DOCA_SUCCESS, put (b0 \<or> b) (skip (k + 1) m))"
    using bool_text [OF stops_comma [OF assms(2)], of b] k
    by (cases b) (simp_all add: bool_param_def parse_bool_params_input_def Let_def)
  show "cur_text (skip (k + 1) m) = Some r"
    using cur_text_skip [OF assms(1), of "k + 1"] assms(3) by (cases b) auto
qed

text \<open>What a step makes of an argument.\<close>

type_synonym entry_fields = "bool \<times> bool \<times> u64 \<times> int \<times> bool \<times> bool"

definition entry_fields :: "add_entry_params \<Rightarrow> entry_fields" where
  "entry_fields m = (ae_fwd_action m, ae_monitor_action m, ae_pipe_id m, ae_pipe_queue m, ae_has_pipe_id m, ae_has_pipe_queue m)"

fun put_arg :: "entry_arg \<Rightarrow> entry_fields \<Rightarrow> entry_fields" where
  "put_arg (Arg_pipe_id i) (f, n, _, q, _, hq) = (f, n, i, q, True, hq)"
| "put_arg (Arg_pipe_queue q) (f, n, i, _, hi, _) = (f, n, i, int (unat q), hi, True)"
| "put_arg (Arg_monitor b) (f, n, i, q, hi, hq) = (f, n \<or> b, i, q, hi, hq)"
| "put_arg (Arg_fwd b) (f, n, i, q, hi, hq) = (f \<or> b, n, i, q, hi, hq)"

lemma entry_fields_skip [simp]: "entry_fields (skip n m) = entry_fields m"
  by (simp add: entry_fields_def skip_def)

lemma add_entry_skip [simp]:
  "ae_fwd_action (skip n m) = ae_fwd_action m" "ae_monitor_action (skip n m) = ae_monitor_action m"
  "ae_pipe_id (skip n m) = ae_pipe_id m" "ae_pipe_queue (skip n m) = ae_pipe_queue m"
  "ae_has_pipe_id (skip n m) = ae_has_pipe_id m" "ae_has_pipe_queue (skip n m) = ae_has_pipe_queue m"
  by (simp_all add: skip_def)

lemma add_entry_step:
  assumes "cur_text m = Some (arg_text a @ r)" and "r = [] \<or> hd r = CHR '',''"
    and "length (arg_text a @ r) < MAX_CMDLINE_INPUT_LEN"
  shows "\<exists>m1. add_entry_param m = Some (DOCA_SUCCESS, m1) \<and> cur_text m1 = Some r \<and>
           entry_fields m1 = put_arg a (entry_fields m)"
proof (cases a)
  case (Arg_pipe_id i)
  then have s: "cur_text m = Some (''pipe_id='' @ dec (unat i) @ r)" using assms(1) by simp
  obtain e l where "read_strtoull 8 m = Some (i, m\<lparr>lbuf := l, cur := Buf e\<rparr>)" "cur_text (m\<lparr>lbuf := l, cur := Buf e\<rparr>) = Some r"
    by (rule read_strtoull_dec [OF s assms(2), of 8]) (use assms(3) Arg_pipe_id in simp_all)
  then show ?thesis using s Arg_pipe_id by (simp add: add_entry_param_def starts_with_def param_text entry_fields_def)
next
  case (Arg_pipe_queue q)
  then have s: "cur_text m = Some (''pipe_queue='' @ dec (unat q) @ r)" using assms(1) by simp
  have q: "unat q < 2 ^ LENGTH(16)" by (rule unsigned_less)
  then have "int (unat q) < int (2 ^ 16)" by (simp only: of_nat_less_iff) simp
  moreover have "0 \<le> int (unat q)" by simp
  ultimately have q: "int (unat q) \<le> LONG_MAX" "c_int (int (unat q)) = int (unat q)"
    by (simp_all only: LONG_MAX_def) (simp_all del: of_nat_unat)
  obtain e l where "read_strtol 11 m = Some (int (unat q), m\<lparr>lbuf := l, cur := Buf e\<rparr>)"
    "cur_text (m\<lparr>lbuf := l, cur := Buf e\<rparr>) = Some r"
    by (rule read_strtol_dec [OF s assms(2) q(1), of 11]) (use assms(3) Arg_pipe_queue in simp_all)
  then show ?thesis using s Arg_pipe_queue q(2)
    by (simp add: add_entry_param_def starts_with_def param_text entry_fields_def del: of_nat_unat)
next
  case (Arg_monitor b)
  then have s: "cur_text m = Some (''monitor='' @ (if b then ''1'' else ''0'') @ r)" using assms(1) by simp
  show ?thesis using s Arg_monitor bool_param_text [OF s assms(2), of 8]
    by (simp add: add_entry_param_def starts_with_def param_text entry_fields_def)
next
  case (Arg_fwd b)
  then have s: "cur_text m = Some (''fwd='' @ (if b then ''1'' else ''0'') @ r)" using assms(1) by simp
  show ?thesis using s Arg_fwd bool_param_text [OF s assms(2), of 4]
    by (simp add: add_entry_param_def starts_with_def param_text entry_fields_def)
qed

lemma arg_text_no_comma: "CHR '','' \<notin> set (arg_text a)"
  using dec_no_char [of "CHR '',''"] by (cases a) (auto simp: digit_value_def)

lemma arg_text_no_NUL: "NUL \<notin> set (arg_text a)"
  using dec_no_NUL by (cases a) (auto simp: NUL_def)

lemma args_text_no_NUL: "NUL \<notin> set (args_text ps)"
  by (induction ps rule: induct_list012) (auto simp: args_text_def arg_text_no_NUL [unfolded NUL_def] NUL_def)

lemma args_text_Cons: "ps \<noteq> [] \<Longrightarrow> args_text (a # ps) = arg_text a @ CHR '','' # args_text ps"
  by (cases ps) (simp_all add: args_text_def)

lemma add_entry_args:
  assumes "ps \<noteq> []" and "cur_text m = Some (args_text ps)" and "length (args_text ps) < MAX_CMDLINE_INPUT_LEN"
  shows "\<exists>m1. read_params add_entry_param m = Some (DOCA_SUCCESS, m1) \<and>
           entry_fields m1 = foldl (\<lambda>f a. put_arg a f) (entry_fields m) ps"
  using assms
proof (induction ps arbitrary: m)
  case (Cons a ps)
  show ?case
  proof (cases "ps = []")
    case True
    then have "cur_text m = Some (arg_text a @ [])" "length (arg_text a @ []) < MAX_CMDLINE_INPUT_LEN"
      using Cons.prems by (simp_all add: args_text_def)
    from add_entry_step [OF this(1) _ this(2)] show ?thesis
      using True by (auto simp: add_entry.read_params_unfold [of m] starts_with_def)
  next
    case False
    let ?r = "CHR '','' # args_text ps"
    have "cur_text m = Some (arg_text a @ ?r)" "length (arg_text a @ ?r) < MAX_CMDLINE_INPUT_LEN"
      using Cons.prems False by (simp_all add: args_text_Cons)
    from add_entry_step [OF this(1) _ this(2)] obtain m1 where m1: "add_entry_param m = Some (DOCA_SUCCESS, m1)"
      "cur_text m1 = Some ?r" "entry_fields m1 = put_arg a (entry_fields m)" by auto
    have "cur_text (skip 1 m1) = Some (args_text ps)" using cur_text_skip [OF m1(2), of 1] by simp
    moreover have "length (args_text ps) < MAX_CMDLINE_INPUT_LEN" using Cons.prems False by (simp add: args_text_Cons)
    ultimately obtain m2 where "read_params add_entry_param (skip 1 m1) = Some (DOCA_SUCCESS, m2)"
      "entry_fields m2 = foldl (\<lambda>f a. put_arg a f) (entry_fields (skip 1 m1)) ps"
      using Cons.IH [OF False] by blast
    then show ?thesis using m1 by (auto simp: add_entry.read_params_unfold [of m] starts_with_def)
  qed
qed simp

lemma put_args:
  "foldl (\<lambda>f a. put_arg a f) (f, n, i, q, hi, hq) ps =
     (f \<or> Arg_fwd True \<in> set ps, n \<or> Arg_monitor True \<in> set ps, given_id i ps, given_queue q ps,
      hi \<or> (\<exists>a \<in> set ps. is_id a), hq \<or> (\<exists>a \<in> set ps. is_queue a))"
proof (induction ps arbitrary: f n i q hi hq)
  case (Cons a ps)
  show ?case by (cases a) (auto simp: Cons.IH given_id_def given_queue_def is_id_def is_queue_def)
qed (simp add: given_id_def given_queue_def)

text \<open>
  C15: \<open>add entry\<close> with parameters of less than 512 characters: if an identifier and a queue are among them, in any order
  and with any repetition, the registered function is called once, with the last of each, with the monitor and the
  forward if they were asked for, and with the match and the actions entered before; otherwise it is not called.
\<close>

theorem add_entry_command:
  assumes "add_entry_func s = Some f" and "ps \<noteq> []" and "length (args_text ps) < MAX_CMDLINE_INPUT_LEN"
  shows "cmd_add_entry_parsed (args_text ps) s =
    Some (if (\<exists>a \<in> set ps. is_id a) \<and> (\<exists>a \<in> set ps. is_queue a)
          then emit (Add_entry f (word_of_int (given_queue 0 ps)) (given_id 0 ps) (entry_match s) (actions s)
                 (if Arg_monitor True \<in> set ps then Some (monitor s) else None)
                 (if Arg_fwd True \<in> set ps then Some (fwd s) else None) (fwd_next_pipe_id s) DOCA_FLOW_NO_WAIT) s
          else s)"
proof -
  let ?m = "\<lparr>arg = args_text ps, lbuf = [], cur = Arg 0, ae_fwd_action = False, ae_monitor_action = False,
             ae_pipe_id = 0, ae_pipe_queue = 0, ae_has_pipe_id = False, ae_has_pipe_queue = False\<rparr> :: add_entry_params"
  have "takeWhile (\<lambda>c. c \<noteq> NUL) (args_text ps) = args_text ps"
    using args_text_no_NUL by (auto simp: takeWhile_eq_all_conv)
  then have "cur_text ?m = Some (args_text ps)" by (simp add: cur_text_def text_at_def)
  from add_entry_args [OF assms(2) this assms(3)] obtain m1 where
    run: "read_params add_entry_param ?m = Some (DOCA_SUCCESS, m1)"
    and "entry_fields m1 = foldl (\<lambda>f a. put_arg a f) (entry_fields ?m) ps" by blast
  then have "entry_fields m1 = (Arg_fwd True \<in> set ps, Arg_monitor True \<in> set ps, given_id 0 ps, given_queue 0 ps,
      \<exists>a \<in> set ps. is_id a, \<exists>a \<in> set ps. is_queue a)"
    by (simp add: entry_fields_def put_args)
  then have m1: "ae_fwd_action m1 = (Arg_fwd True \<in> set ps)" "ae_monitor_action m1 = (Arg_monitor True \<in> set ps)"
    "ae_pipe_id m1 = given_id 0 ps" "ae_pipe_queue m1 = given_queue 0 ps"
    "ae_has_pipe_id m1 = (\<exists>a \<in> set ps. is_id a)" "ae_has_pipe_queue m1 = (\<exists>a \<in> set ps. is_queue a)"
    by (simp_all add: entry_fields_def)
  show ?thesis
    unfolding cmd_add_entry_parsed_def parse_add_entry_params_def run by (simp add: assms(1) m1)
qed

theorem add_entry_command_witness:
  "\<exists>s'. cmd_add_entry_parsed (args_text [Arg_fwd True, Arg_pipe_queue 3, Arg_pipe_id 17])
          (flow_parser_start\<lparr>add_entry_func := Some 9\<rparr>) = Some s' \<and>
     trace s' = [Add_entry 9 3 17 zero_match zero_actions None (Some zero_fwd) 0 DOCA_FLOW_NO_WAIT]"
  using add_entry_command [of "flow_parser_start\<lparr>add_entry_func := Some 9\<rparr>" 9
      "[Arg_fwd True, Arg_pipe_queue 3, Arg_pipe_id 17]"]
  by (simp add: args_text_def dec.simps flow_consts is_id_def is_queue_def given_id_def given_queue_def emit_def
      flow_parser_start_def)

end
