(* ===== verification/Flow_Parser_Inv.thy ===== *)
theory Flow_Parser_Inv
  imports Flow_Entry_Cmd
begin

text \<open>
  What every command keeps: the sizes of the addresses in the structures and the ownership of the block of
  queues; and the files of the command \<open>port pipes dump\<close>.
\<close>

section \<open>Well-formed structures\<close>

named_theorems parser_types "what well-formed structures are made of"

definition ip_ok :: "doca_ip_addr \<Rightarrow> bool" where
  [parser_types]: "ip_ok a \<longleftrightarrow> length (addr_words a) = IP_ADDR_LEN"

definition mac_ok :: "u8 list \<Rightarrow> bool" where
  [parser_types]: "mac_ok m \<longleftrightarrow> length m = MAC_ADDR_LEN"

definition headers_ok :: "match_headers \<Rightarrow> bool" where
  [parser_types]: "headers_ok h \<longleftrightarrow> mac_ok (src_mac h) \<and> mac_ok (dst_mac h) \<and> ip_ok (src_ip h) \<and> ip_ok (dst_ip h)"

definition match_ok :: "doca_match \<Rightarrow> bool" where
  "match_ok m \<longleftrightarrow> headers_ok (out_hdr m) \<and> headers_ok (in_hdr m)"

definition actions_ok :: "doca_actions \<Rightarrow> bool" where
  [parser_types]: "actions_ok a \<longleftrightarrow> mac_ok (mod_src_mac a) \<and> mac_ok (mod_dst_mac a) \<and> ip_ok (mod_src_ip a) \<and> ip_ok (mod_dst_ip a) \<and>
     mac_ok (encap_src_mac (encap a)) \<and> mac_ok (encap_dst_mac (encap a)) \<and> ip_ok (encap_src_ip (encap a)) \<and>
     ip_ok (encap_dst_ip (encap a))"

text \<open>Blocks have been handed out, and the pointer \<open>rss_queues\<close> is null or owns the only block of queues.\<close>

definition heap_ok :: "parser_heap \<Rightarrow> bool" where
  "heap_ok h \<longleftrightarrow> (\<forall>b. blocks h b \<noteq> None \<longrightarrow> b < next_block h) \<and>
     (\<forall>b. rss_queues h = Some b \<longrightarrow> (\<exists>qs. blocks h b = Some (Queues qs))) \<and>
     (\<forall>b qs. blocks h b = Some (Queues qs) \<longrightarrow> rss_queues h = Some b)"

definition parser_ok :: "flow_parser \<Rightarrow> bool" where
  "parser_ok s \<longleftrightarrow> match_ok (pipe_match s) \<and> match_ok (entry_match s) \<and> match_ok (match_mask s) \<and>
     actions_ok (actions s) \<and> heap_ok (heap s)"

lemma zero_ok: "match_ok zero_match" "actions_ok zero_actions"
  by (simp_all add: match_ok_def parser_types zero_match_def zero_headers_def zero_actions_def zero_mac_def zero_ip_def)

lemma start_ok: "parser_ok flow_parser_start"
  by (simp add: parser_ok_def flow_parser_start_def zero_ok heap_ok_def)

lemma mac_bytes_length [simp]: "length (snd (mac_bytes i s mac)) = length mac"
  by (induction i s mac rule: mac_bytes.induct) (subst mac_bytes.simps, simp add: Let_def split: option.split)

lemma parse_mac_address_ok [simp]: "mac_ok (snd (parse_mac_address s mac)) = mac_ok mac"
  by (simp add: parse_mac_address_def mac_ok_def)

lemma ip_type_field_ok [simp]: "ip_ok (snd (ip_type_field val a)) = ip_ok a"
  by (simp add: ip_type_field_def ip_ok_def)

lemma ip_addr_field_ok: "ip_addr_field val a = Some (r, a') \<Longrightarrow> ip_ok a \<Longrightarrow> ip_ok a'"
  by (auto simp: ip_addr_field_def ip_ok_def into_def parse_ipv6_str_def split: if_splits)

lemma headers_field_ok:
  "headers_field name val h = Some (Some (r, h')) \<Longrightarrow> headers_ok h \<Longrightarrow> headers_ok h'"
  by (auto simp: headers_field_def headers_ok_def into_def into_opt_def split: if_splits intro: ip_addr_field_ok)

lemma parse_match_field_ok: "parse_match_field name val m = Some (r, m') \<Longrightarrow> match_ok m \<Longrightarrow> match_ok m'"
  by (auto simp: parse_match_field_def match_ok_def into_def into_opt_def prefixed_field_def Let_def
      split: if_splits option.splits intro: headers_field_ok)

lemma parse_actions_field_ok: "parse_actions_field name val a = Some (r, a') \<Longrightarrow> actions_ok a \<Longrightarrow> actions_ok a'"
  by (auto simp: parse_actions_field_def actions_ok_def into_def into_opt_def Let_def
      split: if_splits intro: ip_addr_field_ok)

lemma parse_struct_keeps:
  assumes "parse_struct str fill st = Some (r, st')" and "P st"
    and "\<And>name val st r st'. fill name val st = Some (r, st') \<Longrightarrow> P st \<Longrightarrow> P st'"
  shows "P st'"
  using assms
proof (induction str fill st rule: parse_struct.induct)
  case (1 str fill st)
  note unfold = parse_struct.simps [of str fill st]
  show ?case
  proof (cases "strtok CHR ''='' (strlcpy MAX_CMDLINE_INPUT_LEN str)")
    case None
    then show ?thesis using "1.prems"(1,2) unfold by simp
  next
    case (Some n)
    then obtain k name where n: "strtok CHR ''='' (strlcpy MAX_CMDLINE_INPUT_LEN str) = Some (k, name)" by (cases n) auto
    obtain str1 where str1: "advance (length (strlcpy MAX_FIELD_INPUT_LEN name) + 1) str = Some str1"
      using "1.prems"(1,2) unfold n by (auto simp: Let_def split: option.splits)
    show ?thesis
    proof (cases "strtok CHR '','' (strlcpy MAX_CMDLINE_INPUT_LEN str1)")
      case None
      then show ?thesis using "1.prems"(1,2) unfold n str1 by (simp add: Let_def)
    next
      case (Some v)
      then obtain k' val where v: "strtok CHR '','' (strlcpy MAX_CMDLINE_INPUT_LEN str1) = Some (k', val)" by (cases v) auto
      obtain r1 st1 where f: "fill (strlcpy MAX_FIELD_INPUT_LEN name) (strlcpy MAX_FIELD_INPUT_LEN val) st = Some (r1, st1)"
        using "1.prems"(1,2) unfold n str1 v by (auto simp: Let_def split: option.splits)
      have P: "P st1" by (rule "1.prems"(3) [OF f "1.prems"(2)])
      show ?thesis
      proof (cases "r1 = DOCA_SUCCESS \<and> starts_with '','' (drop (length (strlcpy MAX_FIELD_INPUT_LEN val)) str1)")
        case True
        then show ?thesis
          using "1.IH" [OF n refl refl str1 v refl refl refl f refl] "1.prems"(1) "1.prems"(3) P unfold n str1 v f
          by (simp add: Let_def)
      next
        case False
        then show ?thesis using "1.prems"(1) P unfold n str1 v f by (auto simp: Let_def split: if_splits)
      qed
    qed
  qed
qed

section \<open>Memory\<close>

lemma heap_okI:
  assumes "\<And>b. blocks h b \<noteq> None \<Longrightarrow> b < next_block h" and "\<And>b. rss_queues h = Some b \<Longrightarrow> \<exists>qs. blocks h b = Some (Queues qs)"
    and "\<And>b qs. blocks h b = Some (Queues qs) \<Longrightarrow> rss_queues h = Some b"
  shows "heap_ok h"
  unfolding heap_ok_def using assms by blast

lemma heap_okD:
  assumes "heap_ok h"
  shows "blocks h b \<noteq> None \<Longrightarrow> b < next_block h" and "rss_queues h = Some b \<Longrightarrow> \<exists>qs. blocks h b = Some (Queues qs)"
    and "blocks h b = Some (Queues qs) \<Longrightarrow> rss_queues h = Some b" and "blocks h (next_block h) = None"
  using assms unfolding heap_ok_def by blast+

lemma allocate_ok:
  assumes alloc: "allocate malloc n (Name t) h = (p, h')" and ok: "heap_ok h"
  shows "heap_ok h'" and "p = Some c \<Longrightarrow> blocks h' c = Some (Name t)"
proof -
  note D = heap_okD [OF ok]
  show "heap_ok h'"
  proof (cases "malloc (next_block h) n")
    case True
    then have h': "h' = h\<lparr>blocks := (blocks h)(next_block h \<mapsto> Name t), next_block := next_block h + 1\<rparr>"
      using alloc by (simp add: allocate_def)
    show ?thesis
    proof (rule heap_okI)
      show "b < next_block h'" if "blocks h' b \<noteq> None" for b
        using that D(1) [of b] by (auto simp: h' split: if_splits)
      show "\<exists>qs. blocks h' b = Some (Queues qs)" if "rss_queues h' = Some b" for b
        using that D(2) [of b] D(4) by (auto simp: h')
      show "rss_queues h' = Some b" if "blocks h' b = Some (Queues qs)" for b qs
        using that D(3) [of b qs] by (auto simp: h' split: if_splits)
    qed
  next
    case False
    then have h': "h' = h\<lparr>next_block := next_block h + 1\<rparr>" using alloc by (simp add: allocate_def)
    show ?thesis
    proof (rule heap_okI)
      show "b < next_block h'" if "blocks h' b \<noteq> None" for b
        using that D(1) [of b] by (simp add: h')
    qed (use D in \<open>auto simp: h'\<close>)
  qed
  show "blocks h' c = Some (Name t)" if "p = Some c"
    using alloc that by (auto simp: allocate_def split: if_splits)
qed

text \<open>Giving back the block of queues leaves none.\<close>

lemma release_queues:
  assumes "heap_ok h"
  obtains h1 where "release (rss_queues h) h = Some h1" and "\<And>b qs. blocks h1 b \<noteq> Some (Queues qs)"
    and "\<And>b. blocks h1 b \<noteq> None \<Longrightarrow> b < next_block h1" and "rss_queues h1 = rss_queues h"
proof (cases "rss_queues h")
  case None
  then show ?thesis using that [of h] heap_okD [OF assms] by (metis option.distinct(1) release.simps(1))
next
  case (Some c)
  then obtain qs where c: "blocks h c = Some (Queues qs)" using heap_okD(2) [OF assms] by blast
  show ?thesis
  proof (rule that [of "h\<lparr>blocks := (blocks h)(c := None)\<rparr>"])
    show "release (rss_queues h) h = Some (h\<lparr>blocks := (blocks h)(c := None)\<rparr>)" using Some c by simp
  next
    fix b qs
    show "blocks (h\<lparr>blocks := (blocks h)(c := None)\<rparr>) b \<noteq> Some (Queues qs)"
      using Some heap_okD(3) [OF assms, of b qs] by auto
  next
    fix b
    show "blocks (h\<lparr>blocks := (blocks h)(c := None)\<rparr>) b \<noteq> None \<Longrightarrow> b < next_block (h\<lparr>blocks := (blocks h)(c := None)\<rparr>)"
      using heap_okD(1) [OF assms, of b] by (auto split: if_splits)
  qed simp
qed

lemma parse_rss_queues_ok:
  assumes "parse_rss_queues malloc str n h = Some (r, h')" and "heap_ok h"
  shows "heap_ok h'"
proof -
  obtain h1 where h1: "release (rss_queues h) h = Some h1" "\<And>b qs. blocks h1 b \<noteq> Some (Queues qs)"
    "\<And>b. blocks h1 b \<noteq> None \<Longrightarrow> b < next_block h1" by (rule release_queues [OF assms(2)], rule that)
  show ?thesis
  proof (cases "malloc (next_block h1) (2 * n)")
    case False
    then have h': "h' = h1\<lparr>next_block := next_block h1 + 1, rss_queues := None\<rparr>"
      using assms(1) h1(1) by (auto simp: parse_rss_queues_def allocate_def)
    show ?thesis
    proof (rule heap_okI)
      show "b < next_block h'" if "blocks h' b \<noteq> None" for b
        using that h1(3) [of b] by (simp add: h')
    qed (use h1(2) in \<open>auto simp: h'\<close>)
  next
    case True
    obtain qs where h': "h' = h1\<lparr>next_block := Suc (next_block h1), rss_queues := Some (next_block h1),
        blocks := (blocks h1)(next_block h1 \<mapsto> Queues qs)\<rparr>"
      using assms(1) h1(1) True by (auto simp: parse_rss_queues_def allocate_def split: if_splits)
    show ?thesis
    proof (rule heap_okI)
      show "b < next_block h'" if "blocks h' b \<noteq> None" for b
        using that h1(3) [of b] by (auto simp: h' split: if_splits)
      show "rss_queues h' = Some b" if "blocks h' b = Some (Queues qs)" for b qs
        using that h1(2) [of b qs] by (auto simp: h' split: if_splits)
    qed (auto simp: h')
  qed
qed

lemma fwd_field_ok: "fwd_field malloc name val (f, i, h) = Some (r, f', i', h') \<Longrightarrow> heap_ok h \<Longrightarrow> heap_ok h'"
  by (auto simp: fwd_field_def into_def split: if_splits option.splits intro: parse_rss_queues_ok)

text \<open>What the steps on the text leave alone.\<close>

lemma skip_frame: "\<exists>c. skip n m = m\<lparr>cur := c\<rparr>"
  unfolding skip_def by blast

lemma read_param_frame: "read_param k n m = Some (t, m1) \<Longrightarrow> \<exists>l c. m1 = m\<lparr>lbuf := l, cur := c\<rparr>"
  by (intro exI [of _ "lbuf m1"] exI [of _ "cur m1"])
    (auto simp: read_param_def copy_text_def skip_def Let_def split: option.splits)

lemma strtok_frame: "strtok_buffer d t m = Some (tok, m1) \<Longrightarrow> \<exists>l. m1 = m\<lparr>lbuf := l\<rparr>"
  by (auto simp: strtok_buffer_def split: option.splits)

lemma read_strtol_frame: "read_strtol k m = Some (v, m1) \<Longrightarrow> \<exists>l c. m1 = m\<lparr>lbuf := l, cur := c\<rparr>"
  by (intro exI [of _ "lbuf m1"] exI [of _ "cur m1"])
    (auto simp: read_strtol_def dest!: read_param_frame split: option.splits)

lemma parse_bool_frame: "parse_bool_params_input k b m = Some (r, b1, m1) \<Longrightarrow> \<exists>c. m1 = m\<lparr>cur := c\<rparr>"
  by (auto simp: parse_bool_params_input_def skip_def Let_def split: option.splits if_splits)

section \<open>The name of a pipe\<close>

text \<open>While the parameters are read the name is null or owns a block; when they are refused it is given back.\<close>

definition create_inv :: "create_params \<Rightarrow> bool" where
  "create_inv m \<longleftrightarrow> parser_ok (cp_state m) \<and>
     (\<forall>b. cfg_name (cp_cfg m) = Some b \<longrightarrow> (\<exists>t. blocks (heap (cp_state m)) b = Some (Name t)))"

definition create_failed :: "create_params \<Rightarrow> bool" where
  "create_failed m \<longleftrightarrow> parser_ok (cp_state m)"

lemma release_name_ok:
  assumes "release p h = Some h'" and "heap_ok h" and "\<And>b. p = Some b \<Longrightarrow> \<exists>t. blocks h b = Some (Name t)"
  shows "heap_ok h'"
proof (cases p)
  case None
  then show ?thesis using assms by simp
next
  case (Some c)
  then obtain t where c: "blocks h c = Some (Name t)" using assms(3) by blast
  then have h': "h' = h\<lparr>blocks := (blocks h)(c := None)\<rparr>" using assms(1) Some by simp
  note D = heap_okD [OF assms(2)]
  show ?thesis
  proof (rule heap_okI)
    show "b < next_block h'" if "blocks h' b \<noteq> None" for b
      using that D(1) [of b] by (auto simp: h' split: if_splits)
    show "\<exists>qs. blocks h' b = Some (Queues qs)" if "rss_queues h' = Some b" for b
      using that D(2) [of b] c by (auto simp: h')
    show "rss_queues h' = Some b" if "blocks h' b = Some (Queues qs)" for b qs
      using that D(3) [of b qs] by (auto simp: h' split: if_splits)
  qed
qed

lemma create_pipe_error_ok:
  assumes "create_pipe_error m = Some (r, m1)" and "create_inv m"
  shows "create_failed m1"
proof -
  obtain h where h: "release (cfg_name (cp_cfg m)) (heap (cp_state m)) = Some h"
    and m1: "m1 = m\<lparr>cp_state := (cp_state m)\<lparr>heap := h\<rparr>\<rparr>"
    using assms(1) by (auto simp: create_pipe_error_def)
  have "heap_ok h" using release_name_ok [OF h] assms(2) by (auto simp: create_inv_def parser_ok_def)
  then show ?thesis using assms(2) by (simp add: m1 create_inv_def create_failed_def parser_ok_def)
qed

lemma create_inv_frame:
  "create_inv (m\<lparr>lbuf := l, cur := c\<rparr>) = create_inv m" "create_inv (m\<lparr>lbuf := l\<rparr>) = create_inv m"
  "create_inv (m\<lparr>cur := c\<rparr>) = create_inv m" "create_inv (skip n m) = create_inv m"
  by (simp_all add: create_inv_def skip_def)

lemma create_pipe_port_id_ok: "create_pipe_port_id m = Some (r, m1) \<Longrightarrow> create_inv m \<Longrightarrow> create_inv m1"
  by (auto simp: create_pipe_port_id_def create_inv_def parser_ok_def skip_def dest!: read_param_frame strtok_frame
      split: option.splits if_splits)

lemma create_inv_failed: "create_inv m \<Longrightarrow> create_failed m"
  by (simp add: create_inv_def create_failed_def)

lemma create_pipe_name_ok:
  assumes "create_pipe_name L m = Some (r, m1)" and "create_inv m"
  shows "if r = DOCA_SUCCESS then create_inv m1 else create_failed m1"
proof (cases "cfg_name (cp_cfg m)")
  case (Some b)
  then show ?thesis using assms by (auto simp: create_pipe_name_def)
next
  case None
  obtain ptr m2 where r: "read_param 5 MAX_CMDLINE_INPUT_LEN m = Some (ptr, m2)"
    using assms(1) None by (auto simp: create_pipe_name_def split: option.splits)
  obtain tok m3 where t: "strtok_buffer CHR '','' ptr m2 = Some (tok, m3)"
    using assms(1) None r by (auto simp: create_pipe_name_def split: option.splits)
  obtain p h where a: "allocate (malloc_ok L) (int (length (take MAX_FIELD_INPUT_LEN tok)) + 1)
      (Name (take MAX_FIELD_INPUT_LEN tok)) (heap (cp_state m)) = (p, h)" by fastforce
  let ?m = "(skip (length tok) m3)\<lparr>cp_cfg := (cp_cfg m)\<lparr>cfg_name := p\<rparr>, cp_state := (cp_state m)\<lparr>heap := h\<rparr>\<rparr>"
  have run: "create_pipe_name L m = (if p = None then create_pipe_error ?m else Some (DOCA_SUCCESS, ?m))"
    using None r t a by (simp add: create_pipe_name_def Let_def)
  have "heap_ok (heap (cp_state m))" using assms(2) by (simp add: create_inv_def parser_ok_def)
  note al = allocate_ok [OF a this]
  have "create_inv ?m" using assms(2) al by (auto simp: create_inv_def parser_ok_def)
  then show ?thesis
    using assms(1) run create_pipe_error_ok [of ?m r m1] create_pipe_error_result [of ?m r m1] by (cases "p = None") auto
qed

lemma create_pipe_type_ok:
  assumes "create_pipe_type m = Some (r, m1)" and "create_inv m"
  shows "if r = DOCA_SUCCESS then create_inv m1 else create_failed m1"
proof -
  obtain ptr m2 where r: "read_param 5 MAX_FIELD_INPUT_LEN m = Some (ptr, m2)"
    using assms(1) by (auto simp: create_pipe_type_def split: option.splits)
  obtain tok m3 where t: "strtok_buffer CHR '','' ptr m2 = Some (tok, m3)"
    using assms(1) r by (auto simp: create_pipe_type_def split: option.splits)
  obtain e ty where e: "parse_pipe_type tok (cfg_type (cp_cfg m)) = (e, ty)" by fastforce
  let ?m = "skip (length tok) (m3\<lparr>cp_cfg := (cp_cfg m)\<lparr>cfg_type := ty\<rparr>\<rparr>)"
  have run: "create_pipe_type m = (if e \<noteq> DOCA_SUCCESS then create_pipe_error m3 else Some (DOCA_SUCCESS, ?m))"
    using r t e by (simp add: create_pipe_type_def)
  have m3: "create_inv m3" "cp_state m3 = cp_state m"
    using read_param_frame [OF r] strtok_frame [OF t] assms(2) by (auto simp: create_inv_frame)
  then have "create_inv ?m" using assms(2) by (simp add: create_inv_frame) (simp add: create_inv_def)
  then show ?thesis
    using assms(1) run m3 create_pipe_error_ok [of m3 r m1] create_pipe_error_result [of m3 r m1] by (cases "e = DOCA_SUCCESS") auto
qed

lemma create_pipe_bool_ok:
  assumes "create_pipe_bool k b put m = Some (r, m1)" and "create_inv m" and "\<And>b m. create_inv m \<Longrightarrow> create_inv (put b m)"
  shows "if r = DOCA_SUCCESS then create_inv m1 else create_failed m1"
  using assms create_pipe_error_ok [of _ r m1]
  by (auto simp: create_pipe_bool_def create_inv_frame dest!: parse_bool_frame create_pipe_error_result
      split: option.splits if_splits)

lemma create_pipe_param_ok:
  assumes "create_pipe_param L m = Some (r, m1)" and "create_inv m"
  shows "if r = DOCA_SUCCESS then create_inv m1 else create_failed m1"
proof -
  have puts: "create_inv (if b then m\<lparr>cp_cfg := (cp_cfg m)\<lparr>cfg_is_root := True\<rparr>\<rparr> else m)"
    "create_inv (if b then m\<lparr>cp_cfg := (cp_cfg m)\<lparr>cfg_monitor := Some (monitor (cp_state m))\<rparr>\<rparr> else m)"
    "create_inv (if b then m\<lparr>cp_cfg := (cp_cfg m)\<lparr>cfg_match_mask := Some (match_mask (cp_state m))\<rparr>\<rparr> else m)"
    "create_inv (m\<lparr>cp_fwd_miss_action := b\<rparr>)" "create_inv (m\<lparr>cp_fwd_action := b\<rparr>)" if "create_inv m" for b m
    using that by (auto simp: create_inv_def)
  note bool = create_pipe_bool_ok [OF _ assms(2) puts(1)] create_pipe_bool_ok [OF _ assms(2) puts(2)]
    create_pipe_bool_ok [OF _ assms(2) puts(3)] create_pipe_bool_ok [OF _ assms(2) puts(4)] create_pipe_bool_ok [OF _ assms(2) puts(5)]
  obtain s where s: "cur_text m = Some s" using assms(1) by (auto simp: create_pipe_param_def split: option.splits)
  consider "create_pipe_port_id m = Some (r, m1)" | "create_pipe_name L m = Some (r, m1)" | "create_pipe_type m = Some (r, m1)"
    | "create_pipe_error m = Some (r, m1)"
    | "create_pipe_bool 12 False (\<lambda>b m. if b then m\<lparr>cp_cfg := (cp_cfg m)\<lparr>cfg_is_root := True\<rparr>\<rparr> else m) m = Some (r, m1)"
    | "create_pipe_bool 8 False (\<lambda>b m. if b then m\<lparr>cp_cfg := (cp_cfg m)\<lparr>cfg_monitor := Some (monitor (cp_state m))\<rparr>\<rparr> else m) m = Some (r, m1)"
    | "create_pipe_bool 11 False (\<lambda>b m. if b then m\<lparr>cp_cfg := (cp_cfg m)\<lparr>cfg_match_mask := Some (match_mask (cp_state m))\<rparr>\<rparr> else m) m = Some (r, m1)"
    | "create_pipe_bool 9 (cp_fwd_miss_action m) (\<lambda>b m. m\<lparr>cp_fwd_miss_action := b\<rparr>) m = Some (r, m1)"
    | "create_pipe_bool 4 (cp_fwd_action m) (\<lambda>b m. m\<lparr>cp_fwd_action := b\<rparr>) m = Some (r, m1)"
    using assms(1) s by (auto simp: create_pipe_param_def split: if_splits)
  then show ?thesis
  proof cases
    case 1
    then show ?thesis using create_pipe_port_id_ok assms(2) create_inv_failed by auto
  next
    case 4
    then show ?thesis using create_pipe_error_ok [of m r m1] create_pipe_error_result [of m r m1] assms(2) by auto
  next
    case 5 then show ?thesis by (rule bool(1))
  next
    case 6 then show ?thesis by (rule bool(2))
  next
    case 7 then show ?thesis by (rule bool(3))
  next
    case 8 then show ?thesis by (rule bool(4))
  next
    case 9 then show ?thesis by (rule bool(5))
  qed (use assms(2) create_pipe_name_ok create_pipe_type_ok in blast)+
qed

interpretation create_keeps: keeping_step "create_pipe_param L" create_inv create_failed
proof
  fix m m1 r
  assume "create_inv m"
  then show "create_pipe_param L m = Some (DOCA_SUCCESS, m1) \<Longrightarrow> create_inv m1"
    and "create_pipe_param L m = Some (r, m1) \<Longrightarrow> r \<noteq> DOCA_SUCCESS \<Longrightarrow> create_failed m1"
    and "create_inv (skip 1 m)"
    using create_pipe_param_ok [of L m] by (force simp: create_inv_frame)+
qed

lemma parse_create_pipe_params_ok:
  assumes "parse_create_pipe_params L m = Some (r, m1)" and "create_inv m"
  shows "parser_ok (cp_state m1)"
proof -
  obtain r2 m2 where 2: "read_params (create_pipe_param L) m = Some (r2, m2)"
    using assms(1) by (auto simp: parse_create_pipe_params_def split: option.splits)
  from create_keeps.read_params_keeps [OF this assms(2)] show ?thesis
    using assms(1) 2 create_pipe_error_ok [of m2 r m1] create_inv_failed [of m2]
    by (auto simp: parse_create_pipe_params_def create_failed_def split: if_splits)
qed

section \<open>Files\<close>

text \<open>Before the parameters of a dump are refused at most one file is open, the one in the output.\<close>

definition dump_inv :: "flow_parser \<Rightarrow> dump_params \<Rightarrow> bool" where
  "dump_inv s m \<longleftrightarrow> dp_has_file m = (dp_file m \<noteq> None) \<and>
     (\<exists>n k. dp_state m = s\<lparr>next_file := k, trace := trace s @ (case dp_file m of None \<Rightarrow> [] | Some f \<Rightarrow> [Opened f n])\<rparr>)"

definition dump_failed :: "flow_parser \<Rightarrow> dump_params \<Rightarrow> bool" where
  "dump_failed s m \<longleftrightarrow>
     (\<exists>k. dp_file m = None \<and> dp_state m = s\<lparr>next_file := k, trace := trace s\<rparr>) \<or>
     (\<exists>f n k. dp_file m = Some f \<and> (dp_state m = s\<lparr>next_file := k, trace := trace s @ [Opened f n]\<rparr> \<or>
        dp_state m = s\<lparr>next_file := k, trace := trace s @ [Opened f n, Closed f]\<rparr>))"

lemma dump_inv_failed: "dump_inv s m \<Longrightarrow> dump_failed s m"
  by (cases "dp_file m") (auto simp: dump_inv_def dump_failed_def)

lemma dump_inv_frame: "dump_inv s (m\<lparr>lbuf := l, cur := c\<rparr>) = dump_inv s m" "dump_inv s (skip n m) = dump_inv s m"
  by (simp_all add: dump_inv_def skip_def)

lemma dump_file_ok:
  assumes "dump_file L m = Some (r, m1)" and "dump_inv s m"
  shows "if r = DOCA_SUCCESS then dump_inv s m1 else dump_failed s m1"
proof (cases "dp_file m")
  case (Some f)
  then have has: "dp_has_file m" using assms(2) by (simp add: dump_inv_def)
  then have "r = DOCA_ERROR_INVALID_VALUE" "m1 = m\<lparr>dp_state := c_fclose f (dp_state m)\<rparr>"
    using assms(1) Some by (simp_all add: dump_file_def)
  moreover obtain n k where "dp_state m = s\<lparr>next_file := k, trace := trace s @ [Opened f n]\<rparr>"
    using assms(2) Some by (auto simp: dump_inv_def)
  ultimately show ?thesis
    using Some by (auto simp: dump_failed_def c_fclose_def emit_def intro!: exI [of _ k] exI [of _ n])
next
  case None
  then have no: "\<not> dp_has_file m" using assms(2) by (simp add: dump_inv_def)
  obtain ptr m2 where r: "read_param 5 MAX_CMDLINE_INPUT_LEN m = Some (ptr, m2)"
    using assms(1) no by (auto simp: dump_file_def split: option.splits)
  obtain name m3 where t: "strtok_buffer CHR '','' ptr m2 = Some (name, m3)"
    using assms(1) no r by (auto simp: dump_file_def split: option.splits)
  obtain k where k: "dp_state m = s\<lparr>next_file := k, trace := trace s\<rparr>" using assms(2) None by (auto simp: dump_inv_def)
  have m3: "dp_state m3 = dp_state m" "dp_has_file m3 = dp_has_file m"
    using read_param_frame [OF r] strtok_frame [OF t] by auto
  obtain f st where f: "c_fopen L name (dp_state m) = (f, st)" by fastforce
  let ?m = "(skip (length name) m3)\<lparr>dp_file := f, dp_state := st\<rparr>"
  have run: "dump_file L m = (if f = None then Some (DOCA_ERROR_INVALID_VALUE, ?m) else Some (DOCA_SUCCESS, ?m\<lparr>dp_has_file := True\<rparr>))"
    using no r t f m3 by (simp add: dump_file_def Let_def)
  have st: "st = s\<lparr>next_file := k + 1, trace := trace s @ (case f of None \<Rightarrow> [] | Some f \<Rightarrow> [Opened f name])\<rparr>"
    using f k by (auto simp: c_fopen_def emit_def Let_def split: if_splits)
  show ?thesis
  proof (cases f)
    case None
    then have m1: "r = DOCA_ERROR_INVALID_VALUE" "m1 = ?m" using assms(1) run by simp_all
    have "dp_file m1 = f" "dp_state m1 = st" by (simp_all add: m1)
    then have "dump_failed s m1" unfolding dump_failed_def using None st by (intro disjI1 exI [of _ "k + 1"]) simp
    then show ?thesis by (simp add: m1(1))
  next
    case (Some a)
    then have m1: "r = DOCA_SUCCESS" "m1 = ?m\<lparr>dp_has_file := True\<rparr>" using assms(1) run by simp_all
    have "dp_file m1 = f" "dp_has_file m1" "dp_state m1 = st" by (simp_all add: m1)
    then show ?thesis unfolding dump_inv_def m1(1) using Some st by (auto intro!: exI [of _ name] exI [of _ "k + 1"])
  qed
qed

interpretation dump_keeps: keeping_step "dump_param L" "dump_inv s" "dump_failed s"
proof
  fix m m1 r
  assume inv: "dump_inv s m"
  have step: "if r = DOCA_SUCCESS then dump_inv s m1 else dump_failed s m1" if run: "dump_param L m = Some (r, m1)" for r
  proof -
    obtain t where t: "cur_text m = Some t" using run by (auto simp: dump_param_def split: option.splits)
    show ?thesis
    proof (cases "starts_with ''port_id='' t")
      case True
      then obtain v m2 where 2: "read_strtol 8 m = Some (v, m2)" "r = DOCA_SUCCESS"
          "m1 = m2\<lparr>dp_port_id := word_of_int v, dp_has_port_id := True\<rparr>"
        using run t by (auto simp: dump_param_def)
      then have "dump_inv s m2" using read_strtol_frame [of 8 m v m2] inv by (auto simp: dump_inv_frame)
      then show ?thesis using 2 by (simp add: dump_inv_def)
    next
      case no_port: False
      show ?thesis
      proof (cases "starts_with ''file='' t")
        case True
        then have "dump_file L m = Some (r, m1)" using run t no_port by (simp add: dump_param_def)
        then show ?thesis by (rule dump_file_ok [OF _ inv])
      next
        case False
        then show ?thesis using run t no_port dump_inv_failed [OF inv] by (simp add: dump_param_def)
      qed
    qed
  qed
  show "dump_param L m = Some (DOCA_SUCCESS, m1) \<Longrightarrow> dump_inv s m1"
    and "dump_param L m = Some (r, m1) \<Longrightarrow> r \<noteq> DOCA_SUCCESS \<Longrightarrow> dump_failed s m1"
    and "dump_inv s (skip 1 m)"
    using step [of DOCA_SUCCESS] step [of r] inv by (simp_all add: dump_inv_frame)
qed

lemma parse_dump_pipe_params_trace:
  assumes "parse_dump_pipe_params L m = Some (r, m1)" and "dump_inv s m"
  shows "if r = DOCA_SUCCESS
    then \<exists>f n k. dp_file m1 = Some f \<and> dp_state m1 = s\<lparr>next_file := k, trace := trace s @ [Opened f n]\<rparr>
    else dump_failed s m1"
proof -
  obtain r2 m2 where 2: "read_params (dump_param L) m = Some (r2, m2)"
    using assms(1) by (auto simp: parse_dump_pipe_params_def split: option.splits)
  note keeps = dump_keeps.read_params_keeps [OF this assms(2)]
  consider "r2 \<noteq> DOCA_SUCCESS" | "r2 = DOCA_SUCCESS" "\<not> dp_has_port_id m2"
    | "r2 = DOCA_SUCCESS" "dp_has_port_id m2" "dp_has_file m2" | "r2 = DOCA_SUCCESS" "dp_has_port_id m2" "\<not> dp_has_file m2" by blast
  then show ?thesis
  proof cases
    case 1
    then show ?thesis using assms(1) 2 keeps by (auto simp: parse_dump_pipe_params_def)
  next
    case c: 2
    then show ?thesis using assms(1) 2 keeps dump_inv_failed by (auto simp: parse_dump_pipe_params_def)
  next
    case 3
    obtain f n k where "dp_file m2 = Some f" "dp_state m2 = s\<lparr>next_file := k, trace := trace s @ [Opened f n]\<rparr>"
      using 3 keeps by (auto simp: dump_inv_def)
    moreover have "r = DOCA_SUCCESS" "m1 = m2" using assms(1) 2 3 by (simp_all add: parse_dump_pipe_params_def)
    ultimately show ?thesis by auto
  next
    case 4
    obtain k where none: "dp_file m2 = None" and k: "dp_state m2 = s\<lparr>next_file := k, trace := trace s\<rparr>"
      using 4 keeps by (auto simp: dump_inv_def)
    obtain f st where f: "c_fopen L ''port_info.txt'' (dp_state m2) = (f, st)" by fastforce
    have m1: "m1 = m2\<lparr>dp_file := f, dp_state := st\<rparr>" "r = (if f = None then DOCA_ERROR_IO_FAILED else DOCA_SUCCESS)"
      using assms(1) 2 4 f by (simp_all add: parse_dump_pipe_params_def)
    have st: "st = s\<lparr>next_file := k + 1, trace := trace s @ (case f of None \<Rightarrow> [] | Some f \<Rightarrow> [Opened f ''port_info.txt''])\<rparr>"
      using f k by (auto simp: c_fopen_def emit_def Let_def split: if_splits)
    have m1': "dp_file m1 = f" "dp_state m1 = st" by (simp_all add: m1)
    show ?thesis
    proof (cases f)
      case None
      then have "dump_failed s m1" unfolding dump_failed_def using m1' st by (intro disjI1 exI [of _ "k + 1"]) simp
      then show ?thesis using m1 None by simp
    next
      case (Some a)
      then show ?thesis using m1(2) m1' st by (auto intro!: exI [of _ "''port_info.txt''"] exI [of _ "k + 1"])
    qed
  qed
qed

definition closed_once :: "parser_event list \<Rightarrow> bool" where
  "closed_once ev \<longleftrightarrow> ev = [] \<or> (\<exists>f n. ev = [Opened f n, Closed f]) \<or> (\<exists>g p f n. ev = [Opened f n, Dump_pipes g p f, Closed f])"

lemma dump_trace:
  assumes "cmd_dump_pipe_parsed L ps s = Some s'"
  obtains k ev where "s' = s\<lparr>next_file := k, trace := trace s @ ev\<rparr>"
    and "closed_once ev \<or> (\<exists>f n. ev = [Opened f n, Closed f, Closed f])"
proof (cases "port_pipes_dump_func s")
  case None
  then have "s' = s\<lparr>next_file := next_file s, trace := trace s @ []\<rparr>" using assms by (simp add: cmd_dump_pipe_parsed_def)
  then show ?thesis using that [of "[]" "next_file s"] by (simp add: closed_once_def)
next
  case (Some g)
  let ?m = "\<lparr>arg = ps, lbuf = [], cur = Arg 0, dp_port_id = 0, dp_file = None, dp_has_port_id = False,
             dp_has_file = False, dp_state = s\<rparr> :: dump_params"
  obtain r m where p: "parse_dump_pipe_params L ?m = Some (r, m)"
    using assms Some by (auto simp: cmd_dump_pipe_parsed_def split: option.splits)
  have "dump_inv s ?m" by (auto simp: dump_inv_def intro!: exI [of _ "next_file s"])
  note t = parse_dump_pipe_params_trace [OF p this]
  show ?thesis
  proof (cases "r = DOCA_SUCCESS")
    case True
    then obtain f n k where "dp_file m = Some f" "dp_state m = s\<lparr>next_file := k, trace := trace s @ [Opened f n]\<rparr>" using t by auto
    then have "s' = s\<lparr>next_file := k, trace := trace s @ [Opened f n, Dump_pipes g (dp_port_id m) f, Closed f]\<rparr>"
      using assms Some True p by (simp add: cmd_dump_pipe_parsed_def c_fclose_def emit_def)
    then show ?thesis by (rule that) (simp add: closed_once_def)
  next
    case False
    then have s': "s' = (case dp_file m of None \<Rightarrow> dp_state m | Some fd \<Rightarrow> c_fclose fd (dp_state m))"
      using assms Some p by (simp add: cmd_dump_pipe_parsed_def)
    consider k where "dp_file m = None" "dp_state m = s\<lparr>next_file := k, trace := trace s\<rparr>"
      | f n k where "dp_file m = Some f" "dp_state m = s\<lparr>next_file := k, trace := trace s @ [Opened f n]\<rparr>"
      | f n k where "dp_file m = Some f" "dp_state m = s\<lparr>next_file := k, trace := trace s @ [Opened f n, Closed f]\<rparr>"
      using t False unfolding dump_failed_def if_not_P [OF False] by blast
    then show ?thesis
    proof cases
      case (1 k)
      then show ?thesis using s' that [of "[]" k] by (simp add: closed_once_def)
    next
      case (2 f n k)
      then show ?thesis using s' that [of "[Opened f n, Closed f]" k] by (simp add: closed_once_def c_fclose_def emit_def)
    next
      case (3 f n k)
      then show ?thesis using s' that [of "[Opened f n, Closed f, Closed f]" k] by (simp add: c_fclose_def emit_def)
    qed
  qed
qed

section \<open>Commands\<close>

lemma emit_ok [simp]: "parser_ok (emit e s) = parser_ok s"
  by (simp add: parser_ok_def emit_def)

lemma cmd_create_struct_ok:
  assumes "cmd_create_struct_parsed L t input s = Some s'" and "parser_ok s"
  shows "parser_ok s'"
proof -
  have m: "match_ok m" if "parse_struct input parse_match_field zero_match = Some (r, m)" for r m
    using that zero_ok(1) by (rule parse_struct_keeps) (rule parse_match_field_ok)
  have a: "actions_ok a" if "parse_struct input parse_actions_field zero_actions = Some (r, a)" for r a
    using that zero_ok(2) by (rule parse_struct_keeps) (rule parse_actions_field_ok)
  have f: "parser_ok s1" if "parse_struct input (parse_fwd_field L) (s\<lparr>fwd := zero_fwd\<rparr>) = Some (r, s1)" for r s1
    using that by (rule parse_struct_keeps) (use assms(2) in \<open>auto simp: parser_ok_def parse_fwd_field_def intro: fwd_field_ok\<close>)
  have n: "parser_ok s1" if "parse_struct input (parse_fwd_miss_field L) (s\<lparr>fwd_miss := zero_fwd\<rparr>) = Some (r, s1)" for r s1
    using that by (rule parse_struct_keeps) (use assms(2) in \<open>auto simp: parser_ok_def parse_fwd_miss_field_def intro: fwd_field_ok\<close>)
  show ?thesis
    using assms m a f n by (auto simp: cmd_create_struct_parsed_def parser_ok_def split: if_splits)
qed

lemma cmd_create_pipe_ok:
  assumes "cmd_create_pipe_parsed L ps s = Some s'" and "parser_ok s"
  shows "parser_ok s'"
  using assms parse_create_pipe_params_ok [of L _ _]
  by (auto simp: cmd_create_pipe_parsed_def Let_def create_inv_def split: option.splits if_splits)

lemma cmd_dump_ok: "cmd_dump_pipe_parsed L ps s = Some s' \<Longrightarrow> parser_ok s \<Longrightarrow> parser_ok s'"
  by (erule dump_trace) (simp add: parser_ok_def)

lemma exec_command_ok:
  assumes "exec_command L c s = Some s'" and "parser_ok s"
  shows "parser_ok s'"
  using assms
  by (cases c)
    (auto simp: cmd_add_entry_parsed_def cmd_add_control_pipe_entry_parsed_def cmd_destroy_pipe_parsed_def
      cmd_rm_entry_parsed_def cmd_flush_pipes_parsed_def cmd_query_parsed_def
      intro: cmd_create_struct_ok cmd_create_pipe_ok cmd_dump_ok split: option.splits if_splits prod.splits)

lemma cmdline_interact_ok: "cmdline_interact L ls s = Some s' \<Longrightarrow> parser_ok s \<Longrightarrow> parser_ok s'"
  by (induction L ls s rule: cmdline_interact.induct) (auto split: if_splits option.splits intro: exec_command_ok)

text \<open>
  C17: Over every sequence of commands, whatever their texts, the structures stay well-formed (addresses of six bytes
  and of four words) and the pointer \<open>rss_queues\<close> is null or owns the only block of queues; after the clean-up
  none is left.
\<close>

theorem command_line_keeps_types:
  assumes "parser_ok s" and "flow_parser_init L cl_ok ls s = Some (r, s')"
  shows "parser_ok s' \<and>
    (\<exists>s2. flow_parser_cleanup s' = Some s2 \<and> (\<forall>b qs. blocks (heap s2) b \<noteq> Some (Queues qs)))"
proof -
  have "parser_ok (reset_doca_flow_structs s)"
    using assms(1) by (simp add: parser_ok_def reset_doca_flow_structs_def zero_ok)
  then have ok: "parser_ok s'"
    using assms(2) cmdline_interact_ok by (auto simp: flow_parser_init_def Let_def split: if_splits)
  then have heap: "heap_ok (heap s')" by (simp add: parser_ok_def)
  obtain h where "release (rss_queues (heap s')) (heap s') = Some h" "\<And>b qs. blocks h b \<noteq> Some (Queues qs)"
    by (rule release_queues [OF heap], rule that)
  then show ?thesis using ok by (auto simp: flow_parser_cleanup_def)
qed

definition demo_c_library :: c_library where
  "demo_c_library = \<lparr>malloc_ok = \<lambda>_ _. True, fopen_ok = \<lambda>_ _. True\<rparr>"

theorem command_line_keeps_types_witness:
  "\<exists>s'. flow_parser_init demo_c_library True [(0, [''quit''])] flow_parser_start = Some (DOCA_SUCCESS, s') \<and> parser_ok s'"
proof -
  have "flow_parser_init demo_c_library True [(0, [''quit''])] flow_parser_start
      = Some (DOCA_SUCCESS, reset_doca_flow_structs flow_parser_start)"
    by (simp add: flow_parser_init_def line_result_def main_ctx_def cmd_quit_def)
  then show ?thesis using command_line_keeps_types [OF start_ok] by blast
qed

text \<open>
  C21: \<open>port pipes dump\<close> changes nothing but the files: it opens at most one, dumps into it while it is open and closes
  it once; the only other outcome is that no dump takes place and the file is closed twice, which happens for
  parameters as \<open>file=a,file=b\<close>.
\<close>

theorem dump_files_closed:
  assumes "cmd_dump_pipe_parsed L ps s = Some s'"
  shows "\<exists>k ev. s' = s\<lparr>next_file := k, trace := trace s @ ev\<rparr> \<and>
           (closed_once ev \<or> (\<exists>f n. ev = [Opened f n, Closed f, Closed f]))"
  using assms by (rule dump_trace) blast

theorem dump_files_closed_witness:
  "\<exists>k ev s'. cmd_dump_pipe_parsed demo_c_library ''file=a,file=b'' (flow_parser_start\<lparr>port_pipes_dump_func := Some 1\<rparr>) = Some s' \<and>
     s' = (flow_parser_start\<lparr>port_pipes_dump_func := Some 1\<rparr>)\<lparr>next_file := k, trace := ev\<rparr> \<and>
     \<not> closed_once ev"
proof -
  let ?s = "flow_parser_start\<lparr>port_pipes_dump_func := Some 1\<rparr>"
  have "map_option trace (cmd_dump_pipe_parsed demo_c_library ''file=a,file=b'' ?s) = Some [Opened 0 ''a'', Closed 0, Closed 0]"
    by code_simp
  then obtain s' where s': "cmd_dump_pipe_parsed demo_c_library ''file=a,file=b'' ?s = Some s'"
    "trace s' = [Opened 0 ''a'', Closed 0, Closed 0]" by auto
  then show ?thesis using dump_files_closed [OF s'(1)] by (auto simp: flow_parser_start_def closed_once_def)
qed

text \<open>
  C37: The loops over the parameters of every command end, whatever the text and wherever the pointer stands.
\<close>

theorem param_loops_return:
  "(\<exists>r. params_loop (create_pipe_param L) m1 = Some r) \<and> (\<exists>r. params_loop add_entry_param m2 = Some r) \<and>
   (\<exists>r. params_loop control_param m3 = Some r) \<and> (\<exists>r. params_loop entry_param m4 = Some r) \<and>
   (\<exists>r. params_loop (dump_param L) m5 = Some r)"
  using create.returns add_entry.returns control.returns entry.returns dump.returns by blast

text \<open>
  The queues of \<open>fwd\<close> are freed when \<open>fwd_miss\<close> gets its own: \<open>fwd\<close> keeps the pointer to the freed block.
\<close>

lemma fwd_queues_dangle:
  "map_option (\<lambda>s. (fwd_rss_queues (fwd s), blocks (heap s) 0))
     (cmdline_interact demo_c_library
        [(1, [''create'', ''fwd'', ''num_of_queues=1,rss_queues=3'']),
         (1, [''create'', ''fwd_miss'', ''num_of_queues=1,rss_queues=4''])] flow_parser_start)
   = Some (Some 0, None)"
  by code_simp

text \<open>
  The help of \<open>add control_pipe entry\<close> names a parameter that the command refuses, and parameters behind
  \<open>file=\<close> are lost when the number of the port came first.
\<close>

lemma help_parameter_refused:
  "control_param (\<lparr>arg = ''port_id=0'', lbuf = [], cur = Arg 0, ce_fwd_action = False,
     ce_match_mask_action = False, ce_pipe_id = 0, ce_pipe_queue = 0, ce_priority = 0,
     ce_has_pipe_id = False, ce_has_pipe_queue = False, ce_has_priority = False\<rparr>)
   = Some (DOCA_ERROR_INVALID_VALUE, \<lparr>arg = ''port_id=0'', lbuf = [], cur = Arg 0, ce_fwd_action = False,
     ce_match_mask_action = False, ce_pipe_id = 0, ce_pipe_queue = 0, ce_priority = 0,
     ce_has_pipe_id = False, ce_has_pipe_queue = False, ce_has_priority = False\<rparr>)"
  by code_simp

lemma dump_parameter_lost:
  "map_option trace (cmd_dump_pipe_parsed demo_c_library ''port_id=0,file=ab,port_id=1''
     (flow_parser_start\<lparr>port_pipes_dump_func := Some 1\<rparr>)) = Some [Opened 0 ''ab'', Dump_pipes 1 0 0, Closed 0]"
  "map_option trace (cmd_dump_pipe_parsed demo_c_library ''file=ab,port_id=0,port_id=1''
     (flow_parser_start\<lparr>port_pipes_dump_func := Some 1\<rparr>)) = Some [Opened 0 ''ab'', Dump_pipes 1 1 0, Closed 0]"
  by code_simp+

end
