(* ===== verification/Spec2Isabelle.thy ===== *)
theory Spec2Isabelle
  imports Timer_Wheel Qos_Props Conntrack_Props Conntrack_Setup Router_Props Snat_Props Load_Balancer_Props Message_Props Firewall_Props Packet_Spraying Adaptive_Routing Env_Props Flow_Parser_Inv
begin

text \<open>
  \<^bold>\<open>FlowQoS: selective offloading of connections to a DPU\<close>

  FlowQoS is a C library over DPDK and DOCA-Flow with five applications. Worker cores poll packets and run
  the registered tasks; connection tracking keeps a context per connection, lets the application decide its
  fate, and hands busy connections to a per-core scheduler that programs them into the hardware within a
  budget; software timers and the aging reports of the hardware end them.

  \<^bold>\<open>Theories and code\<close>

  \<^item> \<open>Prelude\<close>: machine integers, byte order, lists and turns in a round robin; used by all.
  \<^item> \<open>Timer\<close>, \<open>Timer_Lists\<close>, \<open>Timer_Wheel\<close>: \<open>src/src/flowQoS_timer.c\<close>. The two wheels with their
    doubly linked buckets as a memory of \<open>prev\<close> and \<open>next\<close> pointers; every operation. \<open>Timer_Lists\<close>
    abstracts the pointers to lists, \<open>Timer_Wheel\<close> the lists to a map from timers to due ticks.
  \<^item> \<open>Cmd\<close>: \<open>src/src/flowQoS_cmd.c\<close>, the array of command-line objects.
  \<^item> \<open>Pipe\<close>, \<open>Pipe_Entry\<close>, \<open>Pipe_Print\<close>: \<open>src/src/flowQoS_pipe.c\<close>. Adapters to DOCA-Flow, creation of
    pipes and entries, the poll of aged entries, and the textual dump in its 32-byte items.
  \<^item> \<open>Qos\<close>, \<open>Qos_Props\<close>: \<open>src/src/flowQoS_qos.c\<close>. Per-core queues of four priorities, the weighted round
    of \<open>flowQoS_do_entry_event\<close>, tokens, the congestion callback and the statistics.
  \<^item> \<open>Worker\<close>, \<open>Worker_Props\<close>: \<open>src/src/flowQoS_worker.c\<close>. Tasks, receive and transmit buffers per core.
  \<^item> \<open>Conntrack\<close>, \<open>Conntrack_Init\<close>, \<open>Conn_Machine\<close>, \<open>Conntrack_Inv\<close>, \<open>Conntrack_Props\<close>,
    \<open>Conntrack_Setup\<close>: \<open>src/src/flowQoS_conntrack.c\<close>. Table, pool and contexts of a core, filter and
    threshold, offloading, packet rewriting, expiry by timer and by hardware, listings and set-up. The state
    of a worker core is the scheduler's record of \<open>Qos\<close> whose \<open>world\<close> holds the connection tables and the
    timers. \<open>Conn_Machine\<close> is the abstract life of a connection; \<open>Conntrack_Inv\<close> shows that the code
    follows it.
  \<^item> \<open>Router\<close>, \<open>Router_Props\<close>: \<open>src/src/flowQoS_router.c\<close>. Local addresses, ARP tables, routes with their
    locks, the commands, and the answers to ARP and ICMP requests.
  \<^item> \<open>Message\<close>, \<open>Message_Props\<close>: \<open>src/src/flowQoS_message.c\<close>. The pool of buffers, two rings per core,
    and the calls built on them.
  \<^item> \<open>App_Setup\<close>: what the applications share; \<open>Snat\<close>, \<open>Snat_Props\<close>: \<open>src/apps/flowQoS_snat.c\<close>;
    \<open>Load_Balancer\<close>, \<open>Load_Balancer_Props\<close>: \<open>src/apps/flowQoS_l4_load_balancing.c\<close>; \<open>Firewall\<close>,
    \<open>Firewall_Props\<close>: \<open>src/apps/flowQoS_firewall.c\<close>; \<open>Packet_Spraying\<close>:
    \<open>src/apps/flowQoS_vxlan_packets_spraying.c\<close>; \<open>Adaptive_Routing\<close>: \<open>src/apps/flowQoS_adaptive_routing.c\<close>.
  \<^item> \<open>Dpdk_Device\<close>, \<open>Offload_Rules\<close>, \<open>Dpdk\<close>, \<open>Dpdk_Props\<close>: \<open>dpdk_utils.c\<close> and \<open>offload_rules.c\<close> under
    \<open>src/src/common/src\<close>; \<open>Env\<close>, \<open>Env_Props\<close>: \<open>src/src/flowQoS_env.c\<close>. Bringing up and taking down ports,
    hairpin queues, offload rules, DOCA-Flow and the rings. The libraries answer each call from the calls made
    before (\<open>library\<close>), and the state records every call with its answer.
  \<^item> \<open>C_String\<close>, \<open>Flow_Data\<close>, \<open>Flow_Parser\<close>, \<open>Flow_Params\<close>, \<open>Flow_Commands\<close>: \<open>src/src/common/src/flow_parser.c\<close>,
    the command line of DOCA-Flow. \<open>C_String\<close> has the string functions, \<open>Flow_Data\<close> the structures that
    the commands fill, \<open>Flow_Parser\<close> the parsing of a structure field by field, \<open>Flow_Params\<close> the
    parameters of a command, and \<open>Flow_Commands\<close> the commands with their callbacks and what they own.
    \<open>Flow_Parser_Props\<close>, \<open>Flow_Params_Props\<close>, \<open>Flow_Commands_Props\<close>, \<open>Flow_Entry_Cmd\<close> and
    \<open>Flow_Parser_Inv\<close> hold their properties.

  \<^bold>\<open>How the code is modelled\<close>

  A C structure is a record, an array of structures a function from its index, a pointer a number (0 is the
  null pointer), and fixed-width integers are words. \<^term>\<open>None\<close> as the result of an operation stands for a
  crash, an overflow of an array, or a wait that never ends; a theorem that an operation has a result excludes
  these. What is not in the repository is a parameter: the calls of DOCA-Flow (\<open>doca_ops\<close>), of the Ethernet
  device (\<open>eth_ops\<close>), of \<open>rte_hash\<close> and the pool of contexts (\<open>ct_ops\<close>, \<open>kv_ops\<close>), of the pool and the
  rings of messages (\<open>msg_ops\<close>), of longest prefix match (\<open>router_ops\<close>), and the handlers of the
  application. What the code relies on is stated by predicates on these records: \<open>hash_laws\<close>, \<open>pool_laws\<close>,
  \<open>conn_laws\<close>, \<open>kv_laws\<close>, \<open>msg_laws\<close>, \<open>lpm_laws\<close>, \<open>eth_laws\<close> and \<open>hw_laws\<close>. Each has an instance in
  the witness of the property that assumes it.

  \<^bold>\<open>What is shown\<close>

  The timing wheel refines an alarm clock, with every timer fired in its tick. A round of the scheduler
  takes the weighted share of each queue, its tokens and counters are exact and congestion is reported once.
  Over every sequence of events of a core the table, the pool, the timers, the queues and the states of the
  contexts agree, and the due connections expire. Packets are rewritten as their flags say and every packet
  of a worker is accounted for. An entry's hardware match identifies its flow and its dump is memory-safe.
  The ARP table is a map on a subnet, routes are found after they are added, requests are answered. Rings
  with their buffers are first-in first-out channels. The source NAT keeps pool and table in agreement and
  translates replies back; the load balancer rotates over its servers and counts exactly; the firewall has
  exactly its listed rules in the hardware; spraying is even; adaptive routing takes the first reply. Starting the environment opens all ports or none, and
  its end closes them all. The command line of DOCA-Flow fills its structures like the assignments of its text
  in their order, asks for the entry that the line describes, keeps the types of what it owns and closes every
  file it opens. Several
  properties show where the code does not do what it means to: the tests of the AGING flag, the locks of
  \<open>delRoute\<close>, the set-up of more than four priorities, the reply of \<open>multiThread_do\<close> with two workers, the
  bound of the command array, the checksum of the echo reply, the second destruction of ports after a failed
  start, the hexadecimal numbers of a command that are read as zero.

  \<^bold>\<open>Loops and bounds\<close>

  Loops over the buckets of a timer follow pointers and may not end, so they are partial functions with
  values in \<open>option\<close>; the wheel invariant shows that they end. All other loops are structural. The wait for
  a reply (\<open>recv_wait\<close>) is bounded by the 300 polls of the code. The loop over the parameters of a command
  (\<open>params_loop\<close>) is a partial function; every parameter shortens the line, so it ends. The wheel is exact as long as the clock is at
  least \<open>2 ^ 36\<close> ticks below the end of its 64 bits.

  \<^bold>\<open>Not modelled\<close>

  The statistics that are printed in floating point (\<open>top\<close>, \<open>connSched\<close>, the port statistics of
  \<open>ifconfig\<close>), log messages, and the scanning of command lines, which the library of the command line does.
  The start of the cores (\<open>rte_eal_remote_launch\<close>) is the order of the events of the core; cores share no
  state but the rings and the routing table. Of \<open>dpdk_utils.c\<close> the debug printing of packet headers and the code
  under \<open>GPU_SUPPORT\<close> are left out. The files \<open>dpi_worker.c\<close>, \<open>sig_db.c\<close>, \<open>telemetry.c\<close>, \<open>utils.c\<close> and
  \<open>gpu_init.c\<close> under \<open>src/src/common/src\<close> are code of the DOCA samples around other libraries (deep packet
  inspection, telemetry, CUDA) that nothing in FlowQoS calls.
\<close>

end
